(* ===== verification/Prelude.thy ===== *)
theory Prelude
  imports Main "HOL-Library.List_Lexorder" "HOL-Library.Char_ord"
begin

text \<open>
  Shared vocabulary of the development.

  The TypeScript sources run every state-changing operation inside
  \<open>DatabaseRuntime.transaction\<close> (packages/server/db/src/index.ts): the callback works on
  the database, a returned value commits, a thrown error rolls the whole transaction back.
  The model of such a callback is a state transformer with errors, of type \<open>tx\<close>; the
  combinators below are sequencing, return, throw and the reading and writing of the state.
  The second half of the theory is a small program logic for \<open>tx\<close> (\<open>holds\<close>: partial
  correctness with respect to thrown errors; \<open>moves\<close>: every committed run is a path of a
  given relation) and the list lemmas that the tables of the database model share.
\<close>

section \<open>Types of the sources\<close>

type_synonym uuid = string
  \<comment> \<open>uuids are compared, ordered and interpolated into strings, never inspected\<close>

type_synonym time = int
  \<comment> \<open>a JavaScript Date: milliseconds since the epoch\<close>

section \<open>Collections of facts\<close>

named_theorems tx_simps \<open>unfolding the combinators of transactions\<close>
named_theorems eval_simps \<open>evaluating an operation on a concrete database\<close>
named_theorems tx_rules \<open>rules of the program logic for transactions\<close>
named_theorems yields_rules \<open>following the text of a transaction from a given state\<close>

section \<open>Transactions\<close>

type_synonym ('s, 'e, 'a) tx = "'s \<Rightarrow> 'e + ('a \<times> 's)"

definition ret :: "'a \<Rightarrow> ('s, 'e, 'a) tx" where
  "ret x s = Inr (x, s)"

definition throw :: "'e \<Rightarrow> ('s, 'e, 'a) tx" where
  "throw e s = Inl e"

definition andThen :: "('s, 'e, 'a) tx \<Rightarrow> ('a \<Rightarrow> ('s, 'e, 'b) tx) \<Rightarrow> ('s, 'e, 'b) tx" where
  "andThen m f s = (case m s of Inl e \<Rightarrow> Inl e | Inr (x, s') \<Rightarrow> f x s')"

definition gets :: "('s \<Rightarrow> 'a) \<Rightarrow> ('s, 'e, 'a) tx" where
  "gets f s = Inr (f s, s)"

definition modify :: "('s \<Rightarrow> 's) \<Rightarrow> ('s, 'e, unit) tx" where
  "modify f s = Inr ((), f s)"

definition require :: "'e \<Rightarrow> ('s \<Rightarrow> bool) \<Rightarrow> ('s, 'e, unit) tx" where
  "require e P s = (if P s then Inr ((), s) else Inl e)"

text \<open>
  \<open>DatabaseRuntime.transaction\<close>: BEGIN, the callback, COMMIT; on an error ROLLBACK and the
  error is rethrown. A rejection that the callback \<open>returns\<close> is a value and commits.
\<close>

definition transaction :: "('s, 'e, 'a) tx \<Rightarrow> 's \<Rightarrow> ('e + 'a) \<times> 's" where
  "transaction m s = (case m s of Inl e \<Rightarrow> (Inl e, s) | Inr (x, s') \<Rightarrow> (Inr x, s'))"

lemmas tx_defs = ret_def throw_def andThen_def gets_def modify_def require_def

declare ret_def [tx_simps] throw_def [tx_simps] andThen_def [tx_simps]
  gets_def [tx_simps] modify_def [tx_simps] require_def [tx_simps]

lemmas tx_eval [eval_simps] = tx_defs transaction_def

lemma andThen_Inr_iff:
  "andThen m f s = Inr r \<longleftrightarrow> (\<exists>x s'. m s = Inr (x, s') \<and> f x s' = Inr r)"
  by (auto simp: andThen_def split: sum.splits prod.splits)

lemma andThen_InrE:
  assumes "andThen m f s = Inr r"
  obtains x s' where "m s = Inr (x, s')" and "f x s' = Inr r"
  using assms by (auto simp: andThen_Inr_iff)

lemma ret_Inr_iff [simp]: "ret x s = Inr r \<longleftrightarrow> r = (x, s)"
  by (auto simp: ret_def)

lemma throw_Inr [simp]: "throw e s \<noteq> Inr r"
  by (simp add: throw_def)

lemma gets_Inr_iff [simp]: "gets f s = Inr r \<longleftrightarrow> r = (f s, s)"
  by (auto simp: gets_def)

lemma modify_Inr_iff [simp]: "modify f s = Inr r \<longleftrightarrow> r = ((), f s)"
  by (auto simp: modify_def)

lemma require_Inr_iff [simp]: "require e P s = Inr r \<longleftrightarrow> P s \<and> r = ((), s)"
  by (auto simp: require_def)

lemma andThen_ret [simp]: "andThen (ret x) f = f x"
  by (simp add: fun_eq_iff andThen_def ret_def)

lemma andThen_gets [simp]: "andThen (gets g) f s = f (g s) s"
  by (simp add: andThen_def gets_def)

lemma andThen_modify [simp]: "andThen (modify g) f s = f () (g s)"
  by (simp add: andThen_def modify_def)

lemma andThen_throw [simp]: "andThen (throw e) f = throw e"
  by (simp add: fun_eq_iff andThen_def throw_def)

lemma andThen_assoc: "andThen (andThen m f) g = andThen m (\<lambda>x. andThen (f x) g)"
  by (simp add: fun_eq_iff andThen_def split: sum.splits prod.splits)

lemma transaction_rollback: "m s = Inl e \<Longrightarrow> transaction m s = (Inl e, s)"
  by (simp add: transaction_def)

lemma transaction_commit: "m s = Inr (x, s') \<Longrightarrow> transaction m s = (Inr x, s')"
  by (simp add: transaction_def)

lemma transaction_cases:
  obtains (rollback) e where "m s = Inl e" "transaction m s = (Inl e, s)"
  | (commit) x s' where "m s = Inr (x, s')" "transaction m s = (Inr x, s')"
  by (cases "m s") (auto simp: transaction_def)

lemma transaction_keeps:
  assumes "I s" and "\<And>x s'. m s = Inr (x, s') \<Longrightarrow> I s'"
  shows "I (snd (transaction m s))"
  using assms by (cases rule: transaction_cases [of m s]) auto

section \<open>A program logic for transactions\<close>

text \<open>
  \<open>holds P m Q\<close>: from a state with \<open>P\<close>, a run of \<open>m\<close> that does not throw returns a
  value and a state related by \<open>Q\<close>. A run that throws leaves no trace in the database.
\<close>

definition holds :: "('s \<Rightarrow> bool) \<Rightarrow> ('s, 'e, 'a) tx \<Rightarrow> ('a \<Rightarrow> 's \<Rightarrow> bool) \<Rightarrow> bool" where
  "holds P m Q \<longleftrightarrow> (\<forall>s x s'. P s \<longrightarrow> m s = Inr (x, s') \<longrightarrow> Q x s')"

lemma holdsI: "(\<And>s x s'. P s \<Longrightarrow> m s = Inr (x, s') \<Longrightarrow> Q x s') \<Longrightarrow> holds P m Q"
  by (auto simp: holds_def)

lemma holdsD: "holds P m Q \<Longrightarrow> P s \<Longrightarrow> m s = Inr (x, s') \<Longrightarrow> Q x s'"
  by (auto simp: holds_def)

lemma holds_ret [tx_rules]: "(\<And>s. P s \<Longrightarrow> Q x s) \<Longrightarrow> holds P (ret x) Q"
  by (auto simp: holds_def)

lemma holds_throw [tx_rules]: "holds P (throw e) Q"
  by (auto simp: holds_def)

lemma holds_gets [tx_rules]: "(\<And>s. P s \<Longrightarrow> Q (f s) s) \<Longrightarrow> holds P (gets f) Q"
  by (auto simp: holds_def)

lemma holds_modify [tx_rules]: "(\<And>s. P s \<Longrightarrow> Q () (f s)) \<Longrightarrow> holds P (modify f) Q"
  by (auto simp: holds_def)

lemma holds_require [tx_rules]: "(\<And>s. P s \<Longrightarrow> C s \<Longrightarrow> Q () s) \<Longrightarrow> holds P (require e C) Q"
  by (auto simp: holds_def)

lemma holds_andThen:
  "holds P m R \<Longrightarrow> (\<And>x. holds (R x) (f x) Q) \<Longrightarrow> holds P (andThen m f) Q"
  by (fastforce simp: holds_def andThen_Inr_iff)

lemma holds_weaken:
  "holds P' m Q' \<Longrightarrow> (\<And>s. P s \<Longrightarrow> P' s) \<Longrightarrow> (\<And>x s. Q' x s \<Longrightarrow> Q x s) \<Longrightarrow> holds P m Q"
  by (fastforce simp: holds_def)

lemma holds_transaction:
  assumes "holds P m (\<lambda>_. P)" and "P s"
  shows "P (snd (transaction m s))"
  using assms by (cases rule: transaction_cases [of m s]) (auto dest: holdsD)

section \<open>Runs as paths of a relation\<close>

text \<open>
  \<open>moves_at I R m s\<close>: from a state \<open>s\<close> with the invariant \<open>I\<close>, whatever \<open>m\<close> commits is
  reached by a path of \<open>R\<close> steps and has the invariant again. The rules follow the text of a
  transaction; what it has read and written so far is at hand in the premises.
\<close>

definition moves_at ::
  "('s \<Rightarrow> bool) \<Rightarrow> ('s \<Rightarrow> 's \<Rightarrow> bool) \<Rightarrow> ('s, 'e, 'a) tx \<Rightarrow> 's \<Rightarrow> bool" where
  "moves_at I R m s \<longleftrightarrow> (I s \<longrightarrow> (\<forall>x s'. m s = Inr (x, s') \<longrightarrow> R\<^sup>*\<^sup>* s s' \<and> I s'))"

lemma moves_atD: "moves_at I R m s \<Longrightarrow> I s \<Longrightarrow> m s = Inr (x, s') \<Longrightarrow> R\<^sup>*\<^sup>* s s' \<and> I s'"
  by (auto simp: moves_at_def)

lemma moves_at_ret [tx_rules]: "moves_at I R (ret x) s"
  by (auto simp: moves_at_def)

lemma moves_at_throw [tx_rules]: "moves_at I R (throw e) s"
  by (auto simp: moves_at_def)

lemma moves_at_gets [tx_rules]: "moves_at I R (gets f) s"
  by (auto simp: moves_at_def)

lemma moves_at_gets_andThen [tx_rules]:
  "moves_at I R (f (g s)) s \<Longrightarrow> moves_at I R (andThen (gets g) f) s"
  by (simp add: moves_at_def)

lemma moves_at_andThen [tx_rules]:
  assumes "moves_at I R m s"
    and "\<And>x s'. I s \<Longrightarrow> I s' \<Longrightarrow> m s = Inr (x, s') \<Longrightarrow> moves_at I R (f x) s'"
  shows "moves_at I R (andThen m f) s"
  unfolding moves_at_def
proof (intro impI allI)
  fix y t
  assume I: "I s" and run: "andThen m f s = Inr (y, t)"
  obtain x s' where m: "m s = Inr (x, s')" and f: "f x s' = Inr (y, t)"
    using run by (rule andThen_InrE)
  then have s': "R\<^sup>*\<^sup>* s s'" "I s'"
    using moves_atD [OF assms(1) I m] by blast+
  show "R\<^sup>*\<^sup>* s t \<and> I t"
    using moves_atD [OF assms(2) [OF I s'(2) m] s'(2) f] s'(1) by auto
qed

lemma moves_at_if [tx_rules]:
  "(c \<Longrightarrow> moves_at I R m s) \<Longrightarrow> (\<not> c \<Longrightarrow> moves_at I R n s) \<Longrightarrow> moves_at I R (if c then m else n) s"
  by simp

lemma moves_at_option [tx_rules]:
  "(x = None \<Longrightarrow> moves_at I R m s) \<Longrightarrow> (\<And>y. x = Some y \<Longrightarrow> moves_at I R (f y) s) \<Longrightarrow>
   moves_at I R (case x of None \<Rightarrow> m | Some y \<Rightarrow> f y) s"
  by (cases x) auto

lemma moves_at_prod [tx_rules]:
  "(\<And>a b. p = (a, b) \<Longrightarrow> moves_at I R (f a b) s) \<Longrightarrow> moves_at I R (case p of (a, b) \<Rightarrow> f a b) s"
  by (cases p) auto

lemma moves_at_let [tx_rules]: "moves_at I R (f x) s \<Longrightarrow> moves_at I R (let y = x in f y) s"
  by simp

lemma moves_at_transaction:
  "moves_at I R m s \<Longrightarrow> I s \<Longrightarrow> R\<^sup>*\<^sup>* s (snd (transaction m s)) \<and> I (snd (transaction m s))"
  by (cases rule: transaction_cases [of m s]) (auto dest: moves_atD)

section \<open>What a run from a state returns\<close>

text \<open>
  \<open>yields m s Q\<close>: whatever \<open>m\<close> commits from \<open>s\<close> satisfies \<open>Q\<close>. The rules follow the text of the
  transaction and keep, for every part, the equation of its run.
\<close>

definition yields :: "('s, 'e, 'a) tx \<Rightarrow> 's \<Rightarrow> ('a \<Rightarrow> 's \<Rightarrow> bool) \<Rightarrow> bool" where
  "yields m s Q \<longleftrightarrow> (\<forall>x s'. m s = Inr (x, s') \<longrightarrow> Q x s')"

lemma yieldsI: "(\<And>x s'. m s = Inr (x, s') \<Longrightarrow> Q x s') \<Longrightarrow> yields m s Q"
  by (simp add: yields_def)

lemma yieldsD: "yields m s Q \<Longrightarrow> m s = Inr (x, s') \<Longrightarrow> Q x s'"
  by (simp add: yields_def)

lemma yields_ret [yields_rules]: "Q x s \<Longrightarrow> yields (ret x) s Q"
  by (simp add: yields_def)

lemma yields_throw [yields_rules]: "yields (throw e) s Q"
  by (simp add: yields_def)

lemma yields_gets_andThen [yields_rules]: "yields (f (g s)) s Q \<Longrightarrow> yields (andThen (gets g) f) s Q"
  by (simp add: yields_def)

lemma yields_andThen [yields_rules]:
  "(\<And>x s'. m s = Inr (x, s') \<Longrightarrow> yields (f x) s' Q) \<Longrightarrow> yields (andThen m f) s Q"
  by (auto simp: yields_def andThen_Inr_iff)

lemma yields_if [yields_rules]:
  "(c \<Longrightarrow> yields m s Q) \<Longrightarrow> (\<not> c \<Longrightarrow> yields n s Q) \<Longrightarrow> yields (if c then m else n) s Q"
  by simp

lemma yields_option [yields_rules]:
  "(x = None \<Longrightarrow> yields m s Q) \<Longrightarrow> (\<And>y. x = Some y \<Longrightarrow> yields (f y) s Q) \<Longrightarrow>
   yields (case x of None \<Rightarrow> m | Some y \<Rightarrow> f y) s Q"
  by (cases x) auto

lemma yields_prod [yields_rules]:
  "(\<And>a b. p = (a, b) \<Longrightarrow> yields (f a b) s Q) \<Longrightarrow> yields (case p of (a, b) \<Rightarrow> f a b) s Q"
  by (cases p) auto

lemma yields_let [yields_rules]: "yields (f x) s Q \<Longrightarrow> yields (let y = x in f y) s Q"
  by simp

lemma yields_transaction:
  "yields m s Q \<Longrightarrow> transaction m s = (Inr x, s') \<Longrightarrow> Q x s'"
  by (auto simp: yields_def transaction_def split: sum.splits prod.splits)

section \<open>Lists as tables\<close>

text \<open>
  A table is the list of its rows in insertion order; \<open>WHERE\<close> is a filter, \<open>UPDATE\<close>
  rewrites the rows that satisfy the condition.
\<close>

definition update_where :: "('r \<Rightarrow> bool) \<Rightarrow> ('r \<Rightarrow> 'r) \<Rightarrow> 'r list \<Rightarrow> 'r list" where
  "update_where p f t = map (\<lambda>r. if p r then f r else r) t"

lemma update_where_Nil [simp]: "update_where p f [] = []"
  by (simp add: update_where_def)

lemma update_where_Cons [simp]:
  "update_where p f (r # t) = (if p r then f r else r) # update_where p f t"
  by (simp add: update_where_def)

lemma set_update_where:
  "set (update_where p f t) = f ` {r \<in> set t. p r} \<union> {r \<in> set t. \<not> p r}"
  by (auto simp: update_where_def)

lemma update_where_keeps_keys:
  "(\<And>r. p r \<Longrightarrow> k (f r) = k r) \<Longrightarrow> map k (update_where p f t) = map k t"
  by (auto simp: update_where_def)

lemma find_Some_mem: "List.find p t = Some r \<Longrightarrow> r \<in> set t \<and> p r"
  by (auto simp: find_Some_iff)

lemma find_None_mem: "List.find p t = None \<longleftrightarrow> (\<forall>r \<in> set t. \<not> p r)"
  by (auto simp: find_None_iff)

lemma find_append: "List.find p (xs @ ys) = (case List.find p xs of None \<Rightarrow> List.find p ys | Some x \<Rightarrow> Some x)"
  by (induction xs) auto

lemma find_update_where:
  assumes "\<And>r. k (f r) = k r"
  shows "List.find (\<lambda>r. k r = j) (update_where (\<lambda>r. k r = i) f t)
    = map_option (\<lambda>r. if j = i then f r else r) (List.find (\<lambda>r. k r = j) t)"
  by (induction t) (auto simp: assms)

lemma filter_update_where:
  assumes "\<And>r. k (f r) = k r"
  shows "filter (\<lambda>r. k r \<noteq> i) (update_where (\<lambda>r. k r = i) f t) = filter (\<lambda>r. k r \<noteq> i) t"
  by (induction t) (auto simp: assms)

lemma distinct_map_unique:
  "distinct (map k t) \<Longrightarrow> r \<in> set t \<Longrightarrow> r' \<in> set t \<Longrightarrow> k r = k r' \<Longrightarrow> r = r'"
  by (auto simp: distinct_map inj_on_def)

text \<open>Writing the one row that carries a key.\<close>

lemma set_update_row:
  assumes "distinct (map k t)" and "List.find (\<lambda>x. k x = i) t = Some r"
  shows "set (update_where (\<lambda>x. k x = i) f t) = insert (f r) (set t - {r})"
proof -
  have r: "r \<in> set t" "k r = i"
    using find_Some_mem [OF assms(2)] by auto
  then have "{x \<in> set t. k x = i} = {r}"
    using assms(1) by (auto dest: distinct_map_unique)
  moreover have "{x \<in> set t. k x \<noteq> i} = set t - {x \<in> set t. k x = i}"
    by auto
  ultimately show ?thesis
    by (auto simp: set_update_where)
qed

lemma map_update_row:
  assumes "distinct (map k t)" and "List.find (\<lambda>x. k x = i) t = Some r" and "g (f r) = g r"
  shows "map g (update_where (\<lambda>x. k x = i) f t) = map g t"
proof -
  have r: "r \<in> set t" "k r = i"
    using find_Some_mem [OF assms(2)] by auto
  have "x = r" if "x \<in> set t" "k x = i" for x
    using distinct_map_unique [OF assms(1) that(1) r(1)] that r by simp
  then show ?thesis
    using assms(3) by (auto simp: update_where_def)
qed

lemma set_filter_other:
  assumes "distinct (map k t)" and "List.find (\<lambda>x. k x = i) t = Some r"
  shows "set (filter (\<lambda>x. k x \<noteq> i) t) = set t - {r}"
  using find_Some_mem [OF assms(2)] assms(1) by (auto dest: distinct_map_unique)

lemma find_unique:
  "distinct (map k t) \<Longrightarrow> r \<in> set t \<Longrightarrow> List.find (\<lambda>x. k x = k r) t = Some r"
  by (induction t) (auto simp: rev_image_eqI)

lemma find_update_row:
  assumes "distinct (map k t)" and "List.find (\<lambda>x. k x = i) t = Some r" and "k (f r) = i"
  shows "List.find (\<lambda>x. k x = j) (update_where (\<lambda>x. k x = i) f t)
    = (if j = i then Some (f r) else List.find (\<lambda>x. k x = j) t)"
  using assms
proof (induction t)
  case (Cons x t)
  show ?case
  proof (cases "k x = i")
    case True
    then have x: "x = r" and "k r \<notin> k ` set t"
      using Cons.prems(1,2) by auto
    then have "k y \<noteq> i" if "y \<in> set t" for y
      using that True by (metis image_eqI)
    then have "update_where (\<lambda>x. k x = i) f t = t"
      unfolding update_where_def by (intro map_idI) simp
    then show ?thesis using Cons.prems(3) True x by auto
  qed (use Cons in auto)
qed simp

text \<open>\<open>ORDER BY k DESC LIMIT 1\<close>\<close>

definition newest :: "('r \<Rightarrow> int) \<Rightarrow> 'r list \<Rightarrow> 'r option" where
  "newest k rows =
     fold (\<lambda>r best. case best of None \<Rightarrow> Some r | Some b \<Rightarrow> if k b < k r then Some r else best) rows None"

lemma newest_snoc: "newest k (rows @ [r]) =
   (case newest k rows of None \<Rightarrow> Some r | Some b \<Rightarrow> if k b < k r then Some r else Some b)"
  by (simp add: newest_def split: option.split)

lemma newest_Nil [simp]: "newest k [] = None"
  by (simp add: newest_def)

lemma newest_None [simp]: "newest k rows = None \<longleftrightarrow> rows = []"
  by (induction rows rule: rev_induct) (auto simp: newest_snoc split: option.split)

lemma newest_Some: "newest k rows = Some r \<Longrightarrow> r \<in> set rows \<and> (\<forall>x \<in> set rows. k x \<le> k r)"
proof (induction rows arbitrary: r rule: rev_induct)
  case (snoc x xs)
  show ?case
  proof (cases "newest k xs")
    case None
    then have "xs = []" by simp
    then show ?thesis using snoc.prems by (simp add: newest_def)
  next
    case (Some b)
    have "b \<in> set xs" "\<forall>y \<in> set xs. k y \<le> k b"
      using snoc.IH [OF Some] by simp_all
    moreover have "r = (if k b < k x then x else b)"
      using snoc.prems by (simp add: newest_snoc Some split: if_splits)
    ultimately show ?thesis by fastforce
  qed
qed simp

end
