(* ===== verification/Js_Date.thy ===== *)
theory Js_Date
  imports Prelude
begin

text \<open>
  The part of the ECMAScript \<open>Date\<close> object that the billing code uses: the proleptic
  Gregorian calendar in UTC (\<open>Day\<close>, \<open>YearFromTime\<close>, \<open>MonthFromTime\<close>,
  \<open>DateFromTime\<close>, \<open>MakeDay\<close>, \<open>TimeClip\<close>, \<open>Date.UTC\<close>, \<open>toISOString\<close>),
  and \<open>addUtcCalendarInterval\<close> of packages/server/billing/src/index.ts, which computes the
  end of a paid period. Months are numbered from 0 as in the language. The theory shows that
  the calendar is a bijection between day numbers and dates, that adding an interval always
  moves forward and keeps the time of day, and that ISO strings identify their instant.
\<close>

section \<open>Days, years and months\<close>

definition ms_per_day :: int where
  "ms_per_day = 86400000"

definition day_of :: "time \<Rightarrow> int" where
  "day_of t = t div ms_per_day"

definition time_in_day :: "time \<Rightarrow> int" where
  "time_in_day t = t mod ms_per_day"

definition leap_year :: "int \<Rightarrow> bool" where
  "leap_year y \<longleftrightarrow> y mod 4 = 0 \<and> (y mod 100 \<noteq> 0 \<or> y mod 400 = 0)"

text \<open>\<open>DayFromYear\<close>: the day number of the first of January.\<close>

definition day_from_year :: "int \<Rightarrow> int" where
  "day_from_year y =
     365 * (y - 1970) + (y - 1969) div 4 - (y - 1901) div 100 + (y - 1601) div 400"

definition days_in_year :: "int \<Rightarrow> int" where
  "days_in_year y = (if leap_year y then 366 else 365)"

definition days_in_month :: "int \<Rightarrow> int \<Rightarrow> int" where
  "days_in_month y m =
     (if m = 1 then (if leap_year y then 29 else 28)
      else if m = 3 \<or> m = 5 \<or> m = 8 \<or> m = 10 then 30 else 31)"

definition month_start :: "int \<Rightarrow> int \<Rightarrow> int" where
  "month_start y m =
     (let l = (if leap_year y then 1 else 0) in
      if m \<le> 0 then 0 else if m = 1 then 31 else if m = 2 then 59 + l
      else if m = 3 then 90 + l else if m = 4 then 120 + l else if m = 5 then 151 + l
      else if m = 6 then 181 + l else if m = 7 then 212 + l else if m = 8 then 243 + l
      else if m = 9 then 273 + l else if m = 10 then 304 + l else 334 + l)"

text \<open>
  Months counted from year 0: month \<open>m\<close> of year \<open>y\<close> is number \<open>12 * y + m\<close>.
  \<open>month_day0\<close> is the day number of the first day of such a month, as \<open>MakeDay\<close>
  computes it (\<open>ym = y + floor (m / 12)\<close>, \<open>mn = m mod 12\<close>).
\<close>

definition month_day0 :: "int \<Rightarrow> int" where
  "month_day0 n = day_from_year (n div 12) + month_start (n div 12) (n mod 12)"

definition month_length :: "int \<Rightarrow> int" where
  "month_length n = days_in_month (n div 12) (n mod 12)"

lemma div_plus_one:
  fixes x k :: int
  assumes "0 < k"
  shows "(x + 1) div k = x div k + (if (x + 1) mod k = 0 then 1 else 0)"
    and "(x + 1) mod k = (if x mod k = k - 1 then 0 else x mod k + 1)"
proof -
  define q r where "q = x div k" and "r = x mod k"
  have x: "x = q * k + r" and r: "0 \<le> r" "r < k"
    using assms by (simp_all add: q_def r_def)
  have "(x + 1) div k = q + (if r = k - 1 then 1 else 0)
      \<and> (x + 1) mod k = (if r = k - 1 then 0 else r + 1)"
  proof (cases "r = k - 1")
    case True
    then have "x + 1 = (q + 1) * k" using x by (simp add: algebra_simps)
    with True assms show ?thesis by simp
  next
    case False
    then have "x + 1 = q * k + (r + 1)" "0 \<le> r + 1" "r + 1 < k" using x r by simp_all
    moreover from this have "(x + 1) div k = q" and "(x + 1) mod k = r + 1"
      by (auto intro: int_div_pos_eq int_mod_pos_eq)
    ultimately show ?thesis using False by simp
  qed
  with r show "(x + 1) div k = x div k + (if (x + 1) mod k = 0 then 1 else 0)"
    and "(x + 1) mod k = (if x mod k = k - 1 then 0 else x mod k + 1)"
    by (auto simp: q_def r_def)
qed

lemma div_bounds:
  fixes x k :: int
  assumes "0 < k"
  shows "k * (x div k) \<le> x" and "x < k * (x div k) + k"
  using minus_mod_eq_mult_div [of x k] pos_mod_bound [OF assms, of x] pos_mod_sign [OF assms, of x]
  by linarith+

lemma mod_shift:
  fixes y k c :: int
  shows "(y - c * k) mod k = y mod k"
  using mod_mult_self1 [of y "- c" k] by simp

lemma div_step:
  fixes y k c e :: int
  assumes "0 < k" and "c = e * k + 1"
  shows "(y + 1 - c) div k = (y - c) div k + (if y mod k = 0 then 1 else 0)"
proof -
  have eq: "y + 1 - c = (y - c) + 1" "(y - c) + 1 = y - e * k" using assms(2) by simp_all
  show ?thesis
    unfolding eq(1) div_plus_one(1) [OF assms(1)] by (simp only: eq(2) mod_shift)
qed

lemma day_from_year_Suc: "day_from_year (y + 1) = day_from_year y + days_in_year y"
proof -
  have 4: "(y + 1 - 1969) div 4 = (y - 1969) div 4 + (if y mod 4 = 0 then 1 else 0)"
    by (rule div_step [where e = 492]) simp_all
  have 100: "(y + 1 - 1901) div 100 = (y - 1901) div 100 + (if y mod 100 = 0 then 1 else 0)"
    by (rule div_step [where e = 19]) simp_all
  have 400: "(y + 1 - 1601) div 400 = (y - 1601) div 400 + (if y mod 400 = 0 then 1 else 0)"
    by (rule div_step [where e = 4]) simp_all
  define p q r where "p \<longleftrightarrow> y mod 4 = 0" and "q \<longleftrightarrow> y mod 100 = 0" and "r \<longleftrightarrow> y mod 400 = 0"
  have "q \<Longrightarrow> p" and "r \<Longrightarrow> q"
    using mod_mod_cancel [of 4 100 y] mod_mod_cancel [of 100 400 y]
    by (simp_all add: p_def q_def r_def)
  then have leaps: "(if p then 1 else 0) - (if q then 1 else 0) + (if r then 1 else (0 :: int))
      = (if p \<and> (\<not> q \<or> r) then 1 else 0)"
    by (cases p; cases q; cases r) simp_all
  have sum: "a' + (b + u) - (c + v) + (d + w) = (a + b - c + d) + (365 + (u - v + w))"
    if "a' = a + 365" for a a' b c d u v w :: int
    using that by simp
  have "day_from_year (y + 1)
      = day_from_year y + (365 + (if p \<and> (\<not> q \<or> r) then 1 else 0))"
    unfolding day_from_year_def 4 100 400 p_def [symmetric] q_def [symmetric] r_def [symmetric]
      leaps [symmetric]
    by (rule sum) simp
  also have "365 + (if p \<and> (\<not> q \<or> r) then 1 else 0) = days_in_year y"
    unfolding days_in_year_def leap_year_def p_def [symmetric] q_def [symmetric] r_def [symmetric]
    by (rule if_distrib [of "\<lambda>x. 365 + x", THEN trans]) simp
  finally show ?thesis .
qed

lemma month_length_bounds: "28 \<le> month_length n" "month_length n \<le> 31"
  by (simp_all add: month_length_def days_in_month_def)

lemma month_start_step:
  assumes "0 \<le> m" and "m < 11"
  shows "month_start y (m + 1) = month_start y m + days_in_month y m"
proof -
  have "m = 0 \<or> m = 1 \<or> m = 2 \<or> m = 3 \<or> m = 4 \<or> m = 5 \<or> m = 6 \<or> m = 7 \<or> m = 8 \<or>
    m = 9 \<or> m = 10" using assms by arith
  then show ?thesis
    by (elim disjE) (simp_all add: month_start_def days_in_month_def Let_def)
qed

lemma month_day0_Suc: "month_day0 (n + 1) = month_day0 n + month_length n"
proof (cases "n mod 12 = 11")
  case True
  then have "(n + 1) div 12 = n div 12 + 1" and "(n + 1) mod 12 = 0"
    using div_plus_one [of 12 n] by simp_all
  then show ?thesis
    by (simp add: month_day0_def month_length_def True day_from_year_Suc days_in_year_def
        month_start_def days_in_month_def Let_def)
next
  case False
  then have "(n + 1) div 12 = n div 12" and eq: "(n + 1) mod 12 = n mod 12 + 1"
    and "n mod 12 < 11"
    using div_plus_one [of 12 n] pos_mod_bound [of 12 n] pos_mod_sign [of 12 n] by auto
  then show ?thesis
    using month_start_step [of "n mod 12" "n div 12"]
    by (simp add: month_day0_def month_length_def)
qed

lemma month_day0_mono_less:
  assumes "m < n"
  shows "month_day0 m + month_length m \<le> month_day0 n"
proof -
  have "month_day0 m + month_length m \<le> month_day0 (m + 1 + int k)" for k
  proof (induction k)
    case 0
    show ?case by (simp add: month_day0_Suc)
  next
    case (Suc k)
    then show ?case
      using month_day0_Suc [of "m + 1 + int k"] month_length_bounds(1) [of "m + 1 + int k"]
      by (simp add: algebra_simps)
  qed
  from this [of "nat (n - m - 1)"] assms show ?thesis by simp
qed

lemma month_day0_less_iff: "month_day0 m < month_day0 n \<longleftrightarrow> m < n"
proof
  assume "m < n"
  then show "month_day0 m < month_day0 n"
    using month_day0_mono_less [of m n] month_length_bounds(1) [of m] by linarith
next
  assume less: "month_day0 m < month_day0 n"
  show "m < n"
  proof (rule ccontr)
    assume "\<not> m < n"
    then consider "m = n" | "n < m" by linarith
    then show False
      using less month_day0_mono_less [of n m] month_length_bounds(1) [of n]
      by cases simp_all
  qed
qed

section \<open>From a day number back to the date\<close>

definition year_estimate :: "int \<Rightarrow> int" where
  "year_estimate d = 1970 + (400 * d) div 146097"

definition year_from_day :: "int \<Rightarrow> int" where
  "year_from_day d =
     (let y = year_estimate d in
      if d < day_from_year y then y - 1
      else if day_from_year (y + 1) \<le> d then y + 1 else y)"

definition month_from_day :: "int \<Rightarrow> int" where
  "month_from_day d =
     (let y = year_from_day d; k = d - day_from_year y in
      if k < month_start y 1 then 0 else if k < month_start y 2 then 1
      else if k < month_start y 3 then 2 else if k < month_start y 4 then 3
      else if k < month_start y 5 then 4 else if k < month_start y 6 then 5
      else if k < month_start y 7 then 6 else if k < month_start y 8 then 7
      else if k < month_start y 9 then 8 else if k < month_start y 10 then 9
      else if k < month_start y 11 then 10 else 11)"

definition month_number :: "int \<Rightarrow> int" where
  "month_number d = 12 * year_from_day d + month_from_day d"

lemma day_from_year_approx:
  "400 * day_from_year y \<le> 146097 * (y - 1970) + 1000"
  "146097 * (y - 1970) - 1000 \<le> 400 * day_from_year y"
proof -
  define a b c where "a = (y - 1969) div 4" and "b = (y - 1901) div 100"
    and "c = (y - 1601) div 400"
  have "4 * a \<le> y - 1969" "y - 1969 < 4 * a + 4" "100 * b \<le> y - 1901"
    "y - 1901 < 100 * b + 100" "400 * c \<le> y - 1601" "y - 1601 < 400 * c + 400"
    unfolding a_def b_def c_def
    using div_bounds [of 4 "y - 1969"] div_bounds [of 100 "y - 1901"]
      div_bounds [of 400 "y - 1601"]
    by simp_all
  moreover have "day_from_year y = 365 * (y - 1970) + a - b + c"
    by (simp add: day_from_year_def a_def b_def c_def)
  ultimately show "400 * day_from_year y \<le> 146097 * (y - 1970) + 1000"
    and "146097 * (y - 1970) - 1000 \<le> 400 * day_from_year y"
    by (simp_all add: algebra_simps)
qed

lemma year_from_day_bounds:
  "day_from_year (year_from_day d) \<le> d" "d < day_from_year (year_from_day d + 1)"
proof -
  define y where "y = year_estimate d"
  have e: "146097 * (y - 1970) \<le> 400 * d" "400 * d < 146097 * (y - 1970) + 146097"
    using div_bounds [of 146097 "400 * d"] by (simp_all add: y_def year_estimate_def)
  have lo: "day_from_year (y - 1) \<le> d"
    using e day_from_year_approx(1) [of "y - 1"] by (simp add: algebra_simps)
  have hi: "d < day_from_year (y + 2)"
    using e day_from_year_approx(2) [of "y + 2"] by (simp add: algebra_simps)
  show "day_from_year (year_from_day d) \<le> d" "d < day_from_year (year_from_day d + 1)"
    using lo hi by (auto simp: year_from_day_def Let_def add.commute simp flip: y_def)
qed

lemma month_from_day_range: "0 \<le> month_from_day d" "month_from_day d \<le> 11"
  by (simp_all add: month_from_day_def Let_def)

lemma month_number_split [simp]:
  "month_number d div 12 = year_from_day d" "month_number d mod 12 = month_from_day d"
  using month_from_day_range [of d] by (simp_all add: month_number_def)

lemma month_from_day_bounds:
  "day_from_year (year_from_day d) + month_start (year_from_day d) (month_from_day d) \<le> d"
  "d < day_from_year (year_from_day d) + month_start (year_from_day d) (month_from_day d)
     + days_in_month (year_from_day d) (month_from_day d)"
proof -
  define y k where "y = year_from_day d" and "k = d - day_from_year y"
  have k: "0 \<le> k" "k < days_in_year y"
    using year_from_day_bounds [of d] day_from_year_Suc [of y] by (auto simp: y_def k_def)
  have "month_start y (month_from_day d) \<le> k"
    "k < month_start y (month_from_day d) + days_in_month y (month_from_day d)"
    using k unfolding month_from_day_def Let_def y_def [symmetric] k_def [symmetric]
    by (cases "leap_year y";
        simp add: month_start_def days_in_month_def days_in_year_def Let_def split: if_split)+
  then show
    "day_from_year (year_from_day d) + month_start (year_from_day d) (month_from_day d) \<le> d"
    "d < day_from_year (year_from_day d) + month_start (year_from_day d) (month_from_day d)
       + days_in_month (year_from_day d) (month_from_day d)"
    by (simp_all add: y_def k_def)
qed

lemma month_number_bounds:
  "month_day0 (month_number d) \<le> d" "d < month_day0 (month_number d + 1)"
  using month_from_day_bounds [of d]
  unfolding month_day0_Suc by (simp_all add: month_day0_def month_length_def)

lemma month_number_unique:
  assumes "month_day0 n \<le> d" and "d < month_day0 (n + 1)"
  shows "month_number d = n"
proof (rule antisym)
  show "month_number d \<le> n"
    using assms(2) month_number_bounds(1) [of d] month_day0_less_iff [of "month_number d" "n + 1"]
    by linarith
  show "n \<le> month_number d"
    using assms(1) month_number_bounds(2) [of d] month_day0_less_iff [of n "month_number d + 1"]
    by linarith
qed

definition date_of_month :: "int \<Rightarrow> int" where
  "date_of_month d = d - month_day0 (month_number d) + 1"

lemma date_of_month_bounds:
  "1 \<le> date_of_month d" "date_of_month d \<le> month_length (month_number d)"
  using month_number_bounds [of d] by (simp_all add: date_of_month_def month_day0_Suc)

lemma date_roundtrip: "month_day0 (month_number d) + date_of_month d - 1 = d"
  by (simp add: date_of_month_def)

section \<open>Date.UTC and the getters\<close>

definition getUTCFullYear :: "time \<Rightarrow> int" where
  "getUTCFullYear t = year_from_day (day_of t)"

definition getUTCMonth :: "time \<Rightarrow> int" where
  "getUTCMonth t = month_from_day (day_of t)"

definition getUTCDate :: "time \<Rightarrow> int" where
  "getUTCDate t = date_of_month (day_of t)"

text \<open>\<open>TimeClip\<close>: outside 8.64e15 milliseconds of the epoch a Date is invalid.\<close>

definition max_time :: int where
  "max_time = 8640000000000000"

definition valid_time :: "time \<Rightarrow> bool" where
  "valid_time t \<longleftrightarrow> \<bar>t\<bar> \<le> max_time"

definition time_clip :: "int \<Rightarrow> time option" where
  "time_clip t = (if valid_time t then Some t else None)"

text \<open>
  \<open>Date.UTC(y, m, d, ...)\<close> with the time of day given in milliseconds. A year from 0 to
  99 means 1900 to 1999.
\<close>

definition full_year :: "int \<Rightarrow> int" where
  "full_year y = (if 0 \<le> y \<and> y \<le> 99 then 1900 + y else y)"

definition utc_raw :: "int \<Rightarrow> int \<Rightarrow> int \<Rightarrow> int \<Rightarrow> int" where
  "utc_raw y m d tod = (month_day0 (12 * full_year y + m) + d - 1) * ms_per_day + tod"

definition date_UTC :: "int \<Rightarrow> int \<Rightarrow> int \<Rightarrow> int \<Rightarrow> time option" where
  "date_UTC y m d tod = time_clip (utc_raw y m d tod)"

lemma day_of_utc_raw:
  "0 \<le> tod \<Longrightarrow> tod < ms_per_day \<Longrightarrow>
   day_of (utc_raw y m d tod) = month_day0 (12 * full_year y + m) + d - 1"
  by (simp add: day_of_def utc_raw_def ms_per_day_def)

lemma time_in_day_bounds: "0 \<le> time_in_day t" "time_in_day t < ms_per_day"
  by (simp_all add: time_in_day_def ms_per_day_def)

lemma time_split: "t = day_of t * ms_per_day + time_in_day t"
  by (simp add: day_of_def time_in_day_def)

section \<open>Adding a billing interval\<close>

datatype interval_unit = DAY | MONTH | YEAR

text \<open>JavaScript's \<open>%\<close> truncates towards zero.\<close>

definition js_rem :: "int \<Rightarrow> int \<Rightarrow> int" where
  "js_rem a b = sgn a * (\<bar>a\<bar> mod \<bar>b\<bar>)"

definition max_safe_integer :: int where
  "max_safe_integer = 9007199254740991"

text \<open>
  \<open>addUtcCalendarInterval\<close>: \<open>Inl\<close> is a thrown error, \<open>Inr None\<close> the Invalid Date.
  \<open>setUTCDate(day + count)\<close> keeps year, month and time of day of the Date; the
  month branch clamps the day to the last day of the destination month, which is day 0 of
  the month after it.
\<close>

definition add_months :: "time \<Rightarrow> int \<Rightarrow> time option" where
  "add_months start monthOffset =
     (let destinationMonth = getUTCMonth start + monthOffset;
          destinationYear = getUTCFullYear start + destinationMonth div 12;
          normalizedMonth = js_rem (js_rem destinationMonth 12 + 12) 12
      in case map_option getUTCDate (date_UTC destinationYear (normalizedMonth + 1) 0 0) of
           None \<Rightarrow> None
         | Some lastDay \<Rightarrow>
             date_UTC destinationYear normalizedMonth (min (getUTCDate start) lastDay)
               (time_in_day start))"

definition addUtcCalendarInterval :: "time \<Rightarrow> interval_unit \<Rightarrow> int \<Rightarrow> string + time option" where
  "addUtcCalendarInterval start unit count =
     (if count > max_safe_integer \<or> count < 1 then Inl ''INVALID_INTERVAL''
      else if \<not> valid_time start then Inl ''INVALID_DATE''
      else if unit = DAY then
        Inr (time_clip
          ((month_day0 (12 * getUTCFullYear start + getUTCMonth start)
             + (getUTCDate start + count) - 1) * ms_per_day + time_in_day start))
      else
        Inr (add_months start (if unit = MONTH then count else count * 12)))"

lemma js_rem_nonneg: "0 \<le> a \<Longrightarrow> 0 < b \<Longrightarrow> js_rem a b = a mod b"
  by (cases "a = 0") (simp_all add: js_rem_def)

lemma js_normalize: "0 \<le> m \<Longrightarrow> js_rem (js_rem m 12 + 12) 12 = m mod 12"
  by (simp add: js_rem_nonneg)

lemma getUTC_month_number:
  "12 * getUTCFullYear t + getUTCMonth t = month_number (day_of t)"
  by (simp add: getUTCFullYear_def getUTCMonth_def month_number_def)

lemma getUTCDate_split:
  "month_day0 (12 * getUTCFullYear t + getUTCMonth t) + getUTCDate t - 1 = day_of t"
  using date_roundtrip [of "day_of t"] by (simp add: getUTC_month_number getUTCDate_def)

lemma year_from_day_ge:
  assumes "day_from_year y \<le> d"
  shows "y \<le> year_from_day d"
proof (rule ccontr)
  assume "\<not> y \<le> year_from_day d"
  then have "12 * (year_from_day d + 1) \<le> 12 * y" by simp
  then have "month_day0 (12 * (year_from_day d + 1)) \<le> month_day0 (12 * y)"
    using month_day0_less_iff [of "12 * y" "12 * (year_from_day d + 1)"] by linarith
  then have "day_from_year (year_from_day d + 1) \<le> day_from_year y"
    by (simp add: month_day0_def month_start_def Let_def)
  then show False using assms year_from_day_bounds(2) [of d] by linarith
qed

text \<open>From the epoch on, no year falls under the two-digit rule of \<open>Date.UTC\<close>.\<close>

lemma year_ge_1970: "0 \<le> t \<Longrightarrow> 1970 \<le> getUTCFullYear t"
  unfolding getUTCFullYear_def
  by (rule year_from_day_ge) (simp add: day_from_year_def day_of_def ms_per_day_def pos_imp_zdiv_nonneg_iff)

lemma add_day_exact:
  assumes "valid_time start" and "1 \<le> count" and "count \<le> max_safe_integer"
  shows "addUtcCalendarInterval start DAY count = Inr (time_clip (start + count * ms_per_day))"
proof -
  have "month_day0 (12 * getUTCFullYear start + getUTCMonth start) + (getUTCDate start + count) - 1
      = day_of start + count"
    using getUTCDate_split [of start] by linarith
  then have "(month_day0 (12 * getUTCFullYear start + getUTCMonth start)
        + (getUTCDate start + count) - 1) * ms_per_day + time_in_day start
      = start + count * ms_per_day"
    by (simp only:) (simp add: distrib_right day_of_def time_in_day_def)
  then show ?thesis
    using assms by (simp add: addUtcCalendarInterval_def)
qed

text \<open>The destination of the month branch, in terms of month numbers.\<close>

definition months_later :: "time \<Rightarrow> int \<Rightarrow> int" where
  "months_later start k =
     (let n = month_number (day_of start) + k
      in (month_day0 n + min (getUTCDate start) (month_length n) - 1) * ms_per_day
           + time_in_day start)"

lemma last_day_of_month:
  "month_number (month_day0 (n + 1) - 1) = n"
  "date_of_month (month_day0 (n + 1) - 1) = month_length n"
proof -
  show eq: "month_number (month_day0 (n + 1) - 1) = n"
    by (rule month_number_unique)
      (use month_length_bounds(1) [of n] in \<open>simp_all add: month_day0_Suc\<close>)
  show "date_of_month (month_day0 (n + 1) - 1) = month_length n"
    unfolding date_of_month_def eq by (simp add: month_day0_Suc)
qed

lemma add_months_eq:
  assumes start: "0 \<le> start" and k: "1 \<le> k" and room: "valid_time (months_later start k + 31 * ms_per_day)"
  shows "add_months start k = Some (months_later start k)"
proof -
  define y m where "y = getUTCFullYear start" and "m = getUTCMonth start"
  define n where "n = month_number (day_of start) + k"
  have n: "n = 12 * y + (m + k)" by (simp add: n_def y_def m_def getUTC_month_number [symmetric])
  have m: "0 \<le> m" by (simp add: m_def getUTCMonth_def month_from_day_range)
  have dest: "12 * (y + (m + k) div 12) + (m + k) mod 12 = n" by (simp add: n)
  have fy: "full_year (y + (m + k) div 12) = y + (m + k) div 12"
    using year_ge_1970 [OF start] m k
    by (simp add: full_year_def y_def pos_imp_zdiv_nonneg_iff)
  have last: "utc_raw (y + (m + k) div 12) ((m + k) mod 12 + 1) 0 0
      = (month_day0 (n + 1) - 1) * ms_per_day"
    using dest by (simp add: utc_raw_def fy add.assoc [symmetric])
  have tod: "0 \<le> time_in_day start" "time_in_day start < ms_per_day" by (rule time_in_day_bounds)+
  define d where "d = min (getUTCDate start) (month_length n)"
  have d1: "1 \<le> d" "d \<le> month_length n"
    using date_of_month_bounds(1) [of "day_of start"] month_length_bounds(1) [of n]
    by (simp_all add: getUTCDate_def d_def)
  have d0: "day_of start < month_day0 n"
  proof -
    have "month_number (day_of start) < n" using k by (simp add: n_def)
    then show ?thesis
      using month_day0_mono_less [of "month_number (day_of start)" n]
        month_number_bounds(2) [of "day_of start"]
      by (simp add: month_day0_Suc)
  qed
  moreover have "0 \<le> day_of start" using start by (simp add: day_of_def ms_per_day_def pos_imp_zdiv_nonneg_iff)
  ultimately have n0: "0 < month_day0 n" by simp
  have later: "months_later start k = (month_day0 n + d - 1) * ms_per_day + time_in_day start"
    by (simp add: months_later_def n_def d_def Let_def)
  have last_valid: "valid_time ((month_day0 (n + 1) - 1) * ms_per_day)"
    using room n0 d1 month_length_bounds [of n] tod
    unfolding month_day0_Suc
    by (simp add: abs_le_iff algebra_simps valid_time_def later ms_per_day_def max_time_def)
  have this_valid: "valid_time (months_later start k)"
    using room n0 d1 tod by (simp add: abs_le_iff algebra_simps valid_time_def later ms_per_day_def max_time_def)
  have raw: "utc_raw (y + (m + k) div 12) ((m + k) mod 12) d (time_in_day start)
      = months_later start k"
    using dest by (simp add: utc_raw_def fy later)
  have "getUTCDate ((month_day0 (n + 1) - 1) * ms_per_day) = month_length n"
    by (simp add: getUTCDate_def day_of_def ms_per_day_def last_day_of_month)
  then show ?thesis
    using m k last_valid this_valid
    unfolding add_months_def Let_def y_def [symmetric] m_def [symmetric]
    by (simp add: js_normalize date_UTC_def last raw time_clip_def d_def [symmetric])
qed

lemma months_later_bounds:
  assumes "1 \<le> k"
  shows "start < months_later start k" and "months_later start k \<le> start + (k + 1) * 31 * ms_per_day"
proof -
  define n where "n = month_number (day_of start) + k"
  define d where "d = min (getUTCDate start) (month_length n)"
  have tod: "0 \<le> time_in_day start" "time_in_day start < ms_per_day" by (rule time_in_day_bounds)+
  have d: "1 \<le> d" "d \<le> 31"
    using date_of_month_bounds(1) [of "day_of start"] month_length_bounds [of n]
    by (auto simp: getUTCDate_def d_def)
  have later: "months_later start k = (month_day0 n + d - 1) * ms_per_day + time_in_day start"
    by (simp add: months_later_def n_def d_def Let_def)
  have "day_of start < month_day0 n"
    using month_day0_mono_less [of "month_number (day_of start)" n] assms
      month_number_bounds(2) [of "day_of start"]
    by (simp add: month_day0_Suc n_def)
  then have "(day_of start + 1) * ms_per_day \<le> (month_day0 n + d - 1) * ms_per_day"
    using d by (intro mult_right_mono) (simp_all add: ms_per_day_def)
  then show "start < months_later start k"
    using tod time_split [of start] by (simp add: later distrib_right)
  have step: "month_day0 (m + int j) \<le> month_day0 m + 31 * int j" for m j
  proof (induction j)
    case (Suc j)
    then show ?case
      using month_day0_Suc [of "m + int j"] month_length_bounds(2) [of "m + int j"]
      by (simp add: algebra_simps)
  qed simp
  have "month_day0 n \<le> day_of start + 31 * k"
    using step [of "month_number (day_of start)" "nat k"] assms month_number_bounds(1) [of "day_of start"]
    by (simp add: n_def)
  then have "(month_day0 n + d - 1) * ms_per_day \<le> (day_of start + (k + 1) * 31) * ms_per_day"
    using d by (intro mult_right_mono) (simp_all add: ms_per_day_def algebra_simps)
  then show "months_later start k \<le> start + (k + 1) * 31 * ms_per_day"
    using time_split [of start] by (simp add: later distrib_right)
qed

text \<open>
  The interval counts the checkout schema admits (1 to 1200) and any start that leaves room
  for the longest of them (1201 * 12 months of 31 days) give a date.
\<close>

definition interval_room :: int where
  "interval_room = 14500 * 31 * ms_per_day"

definition interval_months :: "interval_unit \<Rightarrow> int \<Rightarrow> int" where
  "interval_months unit count = (if unit = YEAR then count * 12 else count)"

definition interval_end :: "time \<Rightarrow> interval_unit \<Rightarrow> int \<Rightarrow> time" where
  "interval_end start unit count =
     (if unit = DAY then start + count * ms_per_day
      else months_later start (interval_months unit count))"

lemma addUtcCalendarInterval_eq:
  assumes start: "0 \<le> start" "start \<le> max_time - interval_room" and count: "1 \<le> count" "count \<le> 1200"
  shows "addUtcCalendarInterval start unit count = Inr (Some (interval_end start unit count))"
proof -
  have valid: "valid_time start"
    using start by (simp add: valid_time_def interval_room_def ms_per_day_def max_time_def)
  show ?thesis
  proof (cases "unit = DAY")
    case True
    have "valid_time (start + count * ms_per_day)"
      using start count by (simp add: valid_time_def interval_room_def ms_per_day_def max_time_def)
    then show ?thesis
      using True valid count add_day_exact [of start count]
      by (simp add: interval_end_def time_clip_def max_safe_integer_def)
  next
    case False
    define k where "k = interval_months unit count"
    have k: "1 \<le> k" "k \<le> 14400"
      using count by (auto simp: k_def interval_months_def)
    have "(k + 1) * 31 * ms_per_day \<le> 14401 * 31 * ms_per_day"
      using k by (intro mult_right_mono) (simp_all add: ms_per_day_def)
    then have "valid_time (months_later start k + 31 * ms_per_day)"
      using start months_later_bounds [OF k(1), of start]
      by (simp add: valid_time_def interval_room_def ms_per_day_def max_time_def)
    then have "add_months start k = Some (months_later start k)"
      by (rule add_months_eq [OF start(1) k(1)])
    moreover have "k = (if unit = MONTH then count else count * 12)"
      using False by (cases unit) (simp_all add: k_def interval_months_def)
    ultimately show ?thesis
      using False valid count
      by (simp add: addUtcCalendarInterval_def interval_end_def k_def [symmetric] max_safe_integer_def)
  qed
qed

lemma interval_end_after: "1 \<le> count \<Longrightarrow> start < interval_end start unit count"
  using months_later_bounds(1) [of "interval_months unit count" start]
  by (auto simp: interval_end_def interval_months_def ms_per_day_def split: if_splits)

lemma months_later_date:
  assumes "1 \<le> k"
  shows "12 * getUTCFullYear (months_later start k) + getUTCMonth (months_later start k)
           = 12 * getUTCFullYear start + getUTCMonth start + k"
    and "getUTCDate (months_later start k)
           = min (getUTCDate start) (month_length (12 * getUTCFullYear start + getUTCMonth start + k))"
    and "time_in_day (months_later start k) = time_in_day start"
proof -
  define n where "n = month_number (day_of start) + k"
  define d where "d = min (getUTCDate start) (month_length n)"
  have tod: "0 \<le> time_in_day start" "time_in_day start < ms_per_day" by (rule time_in_day_bounds)+
  have d: "1 \<le> d" "d \<le> month_length n"
    using date_of_month_bounds(1) [of "day_of start"] month_length_bounds [of n]
    by (auto simp: getUTCDate_def d_def)
  have later: "months_later start k = (month_day0 n + d - 1) * ms_per_day + time_in_day start"
    by (simp add: months_later_def n_def d_def Let_def)
  have day: "day_of (months_later start k) = month_day0 n + d - 1"
    using tod by (simp add: later day_of_def ms_per_day_def)
  have month: "month_number (month_day0 n + d - 1) = n"
    by (rule month_number_unique) (use d in \<open>simp_all add: month_day0_Suc\<close>)
  show "12 * getUTCFullYear (months_later start k) + getUTCMonth (months_later start k)
      = 12 * getUTCFullYear start + getUTCMonth start + k"
    by (simp add: getUTC_month_number day month) (simp add: n_def)
  show "getUTCDate (months_later start k)
      = min (getUTCDate start) (month_length (12 * getUTCFullYear start + getUTCMonth start + k))"
    unfolding getUTCDate_def [of "months_later start k"] day date_of_month_def month
    by (simp add: d_def n_def getUTC_month_number)
  show "time_in_day (months_later start k) = time_in_day start"
    using tod by (simp add: later time_in_day_def [of "_ + _"] mod_mult_self3)
qed

section \<open>Numbers and dates in strings\<close>

text \<open>Template literals print integers in decimal; \<open>toISOString\<close> pads its fields.\<close>

definition digit :: "nat \<Rightarrow> char" where
  "digit n = char_of (48 + n)"

fun pad :: "nat \<Rightarrow> nat \<Rightarrow> string" where
  "pad 0 n = []"
| "pad (Suc k) n = pad k (n div 10) @ [digit (n mod 10)]"

fun decimal :: "nat \<Rightarrow> string" where
  "decimal n = (if n < 10 then [digit n] else decimal (n div 10) @ [digit (n mod 10)])"

declare decimal.simps [simp del]

definition decimal_int :: "int \<Rightarrow> string" where
  "decimal_int i = (if i < 0 then CHR ''-'' # decimal (nat (- i)) else decimal (nat i))"

definition iso_year :: "int \<Rightarrow> string" where
  "iso_year y =
     (if 0 \<le> y \<and> y \<le> 9999 then pad 4 (nat y)
      else if y < 0 then CHR ''-'' # pad 6 (nat (- y)) else CHR ''+'' # pad 6 (nat y))"

definition toISOString :: "time \<Rightarrow> string" where
  "toISOString t =
     (let tod = nat (time_in_day t) in
      iso_year (getUTCFullYear t) @ ''-'' @ pad 2 (nat (getUTCMonth t + 1)) @ ''-''
        @ pad 2 (nat (getUTCDate t)) @ ''T'' @ pad 2 (tod div 3600000) @ '':''
        @ pad 2 (tod div 60000 mod 60) @ '':'' @ pad 2 (tod div 1000 mod 60) @ ''.''
        @ pad 3 (tod mod 1000) @ ''Z'')"

lemma digit_inject: "m < 10 \<Longrightarrow> n < 10 \<Longrightarrow> digit m = digit n \<longleftrightarrow> m = n"
proof
  assume "m < 10" "n < 10" "digit m = digit n"
  then have "(of_char (digit m) :: nat) = of_char (digit n)" by simp
  then show "m = n" using \<open>m < 10\<close> \<open>n < 10\<close> by (simp add: digit_def of_char_of take_bit_eq_mod)
qed simp

lemma length_pad [simp]: "length (pad k n) = k"
  by (induction k arbitrary: n) simp_all

lemma pad_inject: "m < 10 ^ k \<Longrightarrow> n < 10 ^ k \<Longrightarrow> pad k m = pad k n \<longleftrightarrow> m = n"
proof (induction k arbitrary: m n)
  case (Suc k)
  have "m div 10 < 10 ^ k" "n div 10 < 10 ^ k" using Suc.prems by auto
  then have "pad (Suc k) m = pad (Suc k) n \<longleftrightarrow> m div 10 = n div 10 \<and> m mod 10 = n mod 10"
    by (simp add: Suc.IH digit_inject)
  also have "\<dots> \<longleftrightarrow> m = n" by (metis div_mult_mod_eq)
  finally show ?case .
qed simp

lemma decimal_nonempty [simp]: "decimal n \<noteq> []"
  by (subst decimal.simps) simp

lemma decimal_nonempty' [simp]: "[] \<noteq> decimal n"
  using decimal_nonempty by metis

lemma decimal_inject: "decimal m = decimal n \<longleftrightarrow> m = n"
proof (induction m arbitrary: n rule: decimal.induct)
  case (1 m)
  show ?case
  proof (cases "m < 10")
    case m: True
    show ?thesis
    proof (cases "n < 10")
      case True
      with m show ?thesis by (simp add: decimal.simps [of m] decimal.simps [of n] digit_inject)
    next
      case False
      with m show ?thesis by (simp add: decimal.simps [of m] decimal.simps [of n])
    qed
  next
    case m: False
    show ?thesis
    proof (cases "n < 10")
      case True
      with m show ?thesis by (simp add: decimal.simps [of m] decimal.simps [of n])
    next
      case False
      have "decimal m = decimal n \<longleftrightarrow> m div 10 = n div 10 \<and> m mod 10 = n mod 10"
        using m False 1 by (simp add: decimal.simps [of m] decimal.simps [of n] digit_inject)
      also have "\<dots> \<longleftrightarrow> m = n" by (metis div_mult_mod_eq)
      finally show ?thesis .
    qed
  qed
qed

definition is_digit :: "char \<Rightarrow> bool" where
  "is_digit c \<longleftrightarrow> 48 \<le> (of_char c :: nat) \<and> (of_char c :: nat) \<le> 57"

lemma is_digit_digit: "n < 10 \<Longrightarrow> is_digit (digit n)"
  by (simp add: is_digit_def digit_def)

lemma set_pad: "c \<in> set (pad k n) \<Longrightarrow> is_digit c"
  by (induction k arbitrary: n) (auto simp: is_digit_digit)

lemma set_decimal: "c \<in> set (decimal n) \<Longrightarrow> is_digit c"
  by (induction n rule: decimal.induct)
    (subst (asm) (2) decimal.simps, auto simp: is_digit_digit split: if_splits)

lemma year_bounds:
  assumes "valid_time t"
  shows "- 300000 \<le> getUTCFullYear t" and "getUTCFullYear t < 300000"
proof -
  have d: "- 100000000 \<le> day_of t" "day_of t \<le> 100000000"
    using assms div_bounds [of ms_per_day t]
    by (auto simp: valid_time_def max_time_def ms_per_day_def day_of_def abs_le_iff)
  show "- 300000 \<le> getUTCFullYear t"
    unfolding getUTCFullYear_def
    by (rule year_from_day_ge) (use d in \<open>simp add: day_from_year_def\<close>)
  show "getUTCFullYear t < 300000"
  proof (rule ccontr)
    assume "\<not> getUTCFullYear t < 300000"
    then have "12 * 300000 \<le> 12 * getUTCFullYear t" by simp
    then have "month_day0 (12 * 300000) \<le> month_day0 (12 * getUTCFullYear t)"
      using month_day0_less_iff [of "12 * getUTCFullYear t" "12 * 300000"] by linarith
    then have "day_from_year 300000 \<le> day_from_year (getUTCFullYear t)"
      by (simp add: month_day0_def month_start_def Let_def)
    then show False
      using d year_from_day_bounds(1) [of "day_of t"]
      by (simp add: getUTCFullYear_def day_from_year_def [of 300000])
  qed
qed

lemma hd_iso_year:
  assumes "- 300000 \<le> y" and "y < 300000"
  shows "iso_year y \<noteq> []"
    and "length (iso_year y) = (if hd (iso_year y) = CHR ''-'' \<or> hd (iso_year y) = CHR ''+'' then 7 else 4)"
proof -
  have "hd (pad 4 n) \<noteq> CHR ''-'' \<and> hd (pad 4 n) \<noteq> CHR ''+''" for n
  proof -
    have "pad 4 n \<noteq> []" using length_pad [of 4 n] by (metis length_0_conv zero_neq_numeral)
    then have "hd (pad 4 n) \<in> set (pad 4 n)" by (rule hd_in_set)
    then have "is_digit (hd (pad 4 n))" by (rule set_pad)
    then show ?thesis by (auto simp: is_digit_def)
  qed
  moreover have "pad 4 n \<noteq> []" for n using length_pad [of 4 n] by force
  ultimately show "iso_year y \<noteq> []"
    and "length (iso_year y) = (if hd (iso_year y) = CHR ''-'' \<or> hd (iso_year y) = CHR ''+'' then 7 else 4)"
    by (auto simp: iso_year_def)
qed

lemma iso_year_inject:
  assumes "- 300000 \<le> x" "x < 300000" "- 300000 \<le> y" "y < 300000"
    and eq: "iso_year x @ u = iso_year y @ v"
  shows "x = y" and "u = v"
proof -
  have "hd (iso_year x @ u) = hd (iso_year y @ v)" using eq by simp
  then have "hd (iso_year x) = hd (iso_year y)" using hd_iso_year(1) assms(1-4) by simp
  then have "length (iso_year x) = length (iso_year y)" using hd_iso_year(2) assms(1-4) by simp
  with eq have same: "iso_year x = iso_year y" and "u = v" by simp_all
  have head: "hd (pad 4 n) \<noteq> CHR ''-'' \<and> hd (pad 4 n) \<noteq> CHR ''+''" for n
    using set_pad [of "hd (pad 4 n)" 4 n] length_pad [of 4 n]
    by (cases "pad 4 n") (auto simp: is_digit_def)
  have c: "\<And>n c xs. c = CHR ''-'' \<or> c = CHR ''+'' \<Longrightarrow> pad 4 n \<noteq> c # xs"
    using head by (metis list.sel(1))
  show "x = y"
    using same assms(1-4) c [of "CHR ''-''"] c [of "CHR ''+''"] c [of "CHR ''-''", symmetric]
      c [of "CHR ''+''", symmetric]
    by (auto simp: iso_year_def pad_inject nat_eq_iff split: if_splits)
  show "u = v" by fact
qed

lemma toISOString_inject:
  assumes "valid_time s" and "valid_time t" and eq: "toISOString s = toISOString t"
  shows "s = t"
proof -
  define f g where "f = nat (time_in_day s)" and "g = nat (time_in_day t)"
  have f: "f < 86400000" "g < 86400000"
    using time_in_day_bounds by (simp_all add: f_def g_def ms_per_day_def nat_less_iff)
  have month: "nat (getUTCMonth r + 1) < 10 ^ 2" "nat (getUTCDate r) < 10 ^ 2" for r
    using month_from_day_range [of "day_of r"] date_of_month_bounds [of "day_of r"]
      month_length_bounds(2) [of "month_number (day_of r)"]
    by (simp_all add: getUTCMonth_def getUTCDate_def nat_less_iff)
  have tod: "h div 3600000 < 10 ^ 2 \<and> h div 60000 mod 60 < 10 ^ 2 \<and> h div 1000 mod 60 < 10 ^ 2
      \<and> h mod 1000 < 10 ^ 3" if "h < 86400000" for h :: nat
    using that by (auto intro: less_trans [OF mod_less_divisor])
  have year: "getUTCFullYear s = getUTCFullYear t"
    by (rule iso_year_inject(1) [OF year_bounds [OF assms(1)] year_bounds [OF assms(2)]])
      (use eq in \<open>simp add: toISOString_def Let_def\<close>)
  have fields: "getUTCMonth s + 1 = getUTCMonth t + 1" "getUTCDate s = getUTCDate t"
    "f div 3600000 = g div 3600000" "f div 60000 mod 60 = g div 60000 mod 60"
    "f div 1000 mod 60 = g div 1000 mod 60" "f mod 1000 = g mod 1000"
    using eq tod [OF f(1)] tod [OF f(2)] month [of s] month [of t]
      month_from_day_range [of "day_of s"] month_from_day_range [of "day_of t"]
      date_of_month_bounds(1) [of "day_of s"] date_of_month_bounds(1) [of "day_of t"]
    unfolding toISOString_def Let_def f_def [symmetric] g_def [symmetric] year
    by (simp_all add: pad_inject nat_eq_iff getUTCMonth_def getUTCDate_def)
  have "day_of s = day_of t"
    using year fields(1,2) getUTCDate_split [of s] getUTCDate_split [of t] by simp
  moreover have "f = g"
  proof -
    have "h = (h div 3600000) * 3600000 + (h div 60000 mod 60) * 60000
        + (h div 1000 mod 60) * 1000 + h mod 1000" for h :: nat
    proof -
      have "h div 1000 = (h div 60000) * 60 + h div 1000 mod 60"
        using div_mult_mod_eq [of "h div 1000" 60] by (simp add: div_mult2_eq [symmetric])
      moreover have "h div 60000 = (h div 3600000) * 60 + h div 60000 mod 60"
        using div_mult_mod_eq [of "h div 60000" 60] by (simp add: div_mult2_eq [symmetric])
      ultimately show ?thesis using div_mult_mod_eq [of h 1000] by linarith
    qed
    then show ?thesis using fields(3-6) by metis
  qed
  ultimately show "s = t"
    using time_split [of s] time_split [of t] time_in_day_bounds(1)
    by (simp add: f_def g_def nat_eq_iff)
qed

text \<open>ISO strings and decimals are printed on one line.\<close>

lemma newline_not_digit: "\<not> is_digit (CHR 0x0A)"
  by (simp add: is_digit_def)

lemma no_newline_pad [simp]: "CHR 0x0A \<notin> set (pad k n)"
  using set_pad newline_not_digit by blast

lemma no_newline_decimal [simp]: "CHR 0x0A \<notin> set (decimal n)"
  using set_decimal newline_not_digit by blast

lemma no_newline_decimal_int [simp]: "CHR 0x0A \<notin> set (decimal_int i)"
  by (simp add: decimal_int_def)

lemma no_newline_iso [simp]: "CHR 0x0A \<notin> set (toISOString t)"
  by (simp add: toISOString_def iso_year_def Let_def)

lemma decimal_int_inject: "0 \<le> i \<Longrightarrow> 0 \<le> j \<Longrightarrow> decimal_int i = decimal_int j \<longleftrightarrow> i = j"
  by (simp add: decimal_int_def decimal_inject eq_nat_nat_iff)

end
