(* ===== verification/Subscriptions.thy ===== *)
theory Subscriptions
  imports Js_Date
begin

text \<open>
  packages/server/subscriptions/src/index.ts: the states of a subscription, the table of
  allowed transitions, the access decision, the lifecycle decision of the background job and
  the identity under which the job logs its transitions. The TypeScript interface that gives
  the access resolver its rows is the locale \<open>observation_reader\<close>.
\<close>

section \<open>Data\<close>

datatype subscription_state =
  TRIAL | ACTIVE | GRACE | PAST_DUE | CANCELED | EXPIRED | SUSPENDED

datatype account_status = ACCOUNT_ACTIVE | ACCOUNT_SUSPENDED

datatype subscription_failure =
    SUB_ACCOUNT_NOT_FOUND
  | SUBSCRIPTION_NOT_FOUND
  | SUBSCRIPTION_ALREADY_EXISTS
  | SUBSCRIPTION_STATE_STALE
  | SUB_PLAN_REVISION_NOT_FOUND
  | SUB_PLAN_REVISION_NOT_PUBLISHED
  | SUBSCRIPTION_PERIOD_INVALID
  | SUBSCRIPTION_PERIOD_NOT_EXTENDED
  | SUBSCRIPTION_GRACE_WINDOW_CONFLICT
  | SUBSCRIPTION_STATE_TRANSITION_INVALID
  | SUBSCRIPTION_ALREADY_SUSPENDED
  | SUBSCRIPTION_NOT_SUSPENDED
  | SUBSCRIPTION_RESTORE_ORIGIN_NOT_FOUND
  | SUBSCRIPTION_PERIOD_ENDED
  | SUBSCRIPTION_GRACE_ENDED
  | SUBSCRIPTION_CORRUPTED

record subscription_snapshot =
  sub_id :: uuid
  sub_accountId :: uuid
  sub_state :: subscription_state
  sub_stateRevision :: int
  sub_currentPlanRevisionId :: uuid
  sub_boundPriceRevisionId :: "uuid option"
  sub_startedAt :: time
  sub_currentPeriodStart :: time
  sub_currentPeriodEnd :: time
  sub_graceUntil :: "time option"
  sub_cancelAtPeriodEnd :: bool
  sub_canceledAt :: "time option"
  sub_suspendedAt :: "time option"
  sub_createdAt :: time
  sub_updatedAt :: time

datatype subscription_command_result =
    SubOK bool subscription_snapshot
  | SubREJECTED subscription_failure

record grant_command =
  grant_accountId :: uuid
  grant_planRevisionId :: uuid
  grant_currentPeriodEnd :: time

record extend_command =
  extend_subscriptionId :: uuid
  extend_expectedStateRevision :: int
  extend_newCurrentPeriodEnd :: time

record suspend_command =
  suspend_subscriptionId :: uuid
  suspend_expectedStateRevision :: int

record restore_command =
  restore_subscriptionId :: uuid
  restore_expectedStateRevision :: int

section \<open>Allowed transitions\<close>

definition allowed_targets ::
  "subscription_state option \<Rightarrow> subscription_state \<Rightarrow> subscription_state list" where
  "allowed_targets current target =
     (case current of
        None \<Rightarrow> if target = TRIAL \<or> target = ACTIVE then [target] else []
      | Some s \<Rightarrow>
         (if s = TRIAL then [ACTIVE, EXPIRED, SUSPENDED]
          else if s = ACTIVE then [GRACE, PAST_DUE, CANCELED, EXPIRED, SUSPENDED]
          else if s = GRACE then [ACTIVE, PAST_DUE, CANCELED, EXPIRED, SUSPENDED]
          else if s = PAST_DUE then [ACTIVE, GRACE, CANCELED, EXPIRED, SUSPENDED]
          else if s = CANCELED then [ACTIVE, EXPIRED, SUSPENDED]
          else if s = SUSPENDED then [TRIAL, ACTIVE, GRACE, PAST_DUE, CANCELED, EXPIRED]
          else []))"

definition validateSubscriptionStateTransition ::
  "subscription_state option \<Rightarrow> subscription_state \<Rightarrow> subscription_failure option" where
  "validateSubscriptionStateTransition current target =
     (if target \<in> set (allowed_targets current target) then None
      else Some SUBSCRIPTION_STATE_TRANSITION_INVALID)"

section \<open>Access\<close>

datatype access_reason =
    REASON_ACCOUNT_SUSPENDED
  | REASON_NO_CURRENT_SUBSCRIPTION
  | REASON_PERIOD_ENDED
  | REASON_GRACE_ENDED
  | REASON_PAST_DUE
  | REASON_CANCELED
  | REASON_SUBSCRIPTION_SUSPENDED
  | REASON_SUBSCRIPTION_EXPIRED
  | REASON_SUBSCRIPTION_CORRUPTED

record eligible_access =
  acc_subscriptionId :: uuid
  acc_state :: subscription_state
  acc_stateRevision :: int
  acc_planRevisionId :: uuid
  acc_boundPriceRevisionId :: "uuid option"
  acc_currentPeriodEnd :: time
  acc_graceUntil :: "time option"

datatype access_result =
    AccessACCOUNT_NOT_FOUND
  | INELIGIBLE access_reason
  | ELIGIBLE eligible_access

definition eligible_of :: "subscription_snapshot \<Rightarrow> eligible_access" where
  "eligible_of s =
     \<lparr>acc_subscriptionId = sub_id s, acc_state = sub_state s,
      acc_stateRevision = sub_stateRevision s,
      acc_planRevisionId = sub_currentPlanRevisionId s,
      acc_boundPriceRevisionId = sub_boundPriceRevisionId s,
      acc_currentPeriodEnd = sub_currentPeriodEnd s, acc_graceUntil = sub_graceUntil s\<rparr>"

definition resolveSubscriptionAccess ::
  "account_status \<Rightarrow> subscription_snapshot option \<Rightarrow> time \<Rightarrow> access_result" where
  "resolveSubscriptionAccess accountStatus subscription at =
     (if accountStatus = ACCOUNT_SUSPENDED then INELIGIBLE REASON_ACCOUNT_SUSPENDED
      else case subscription of
        None \<Rightarrow> INELIGIBLE REASON_NO_CURRENT_SUBSCRIPTION
      | Some s \<Rightarrow>
         (if sub_state s = EXPIRED then INELIGIBLE REASON_SUBSCRIPTION_EXPIRED
          else if sub_state s = SUSPENDED then INELIGIBLE REASON_SUBSCRIPTION_SUSPENDED
          else if sub_state s = PAST_DUE then INELIGIBLE REASON_PAST_DUE
          else if sub_state s = GRACE then
            (case sub_graceUntil s of
               None \<Rightarrow> INELIGIBLE REASON_SUBSCRIPTION_CORRUPTED
             | Some g \<Rightarrow> if \<not> at < g then INELIGIBLE REASON_GRACE_ENDED else ELIGIBLE (eligible_of s))
          else if sub_state s = CANCELED then
            (if \<not> sub_cancelAtPeriodEnd s \<or> \<not> at < sub_currentPeriodEnd s
             then INELIGIBLE REASON_CANCELED else ELIGIBLE (eligible_of s))
          else if \<not> at < sub_currentPeriodEnd s then INELIGIBLE REASON_PERIOD_ENDED
          else ELIGIBLE (eligible_of s)))"

section \<open>Lifecycle\<close>

datatype lifecycle_reason =
    TRIAL_PERIOD_ENDED
  | ACTIVE_PERIOD_ENDED
  | CANCEL_AT_PERIOD_END
  | CANCELED_PERIOD_ENDED
  | GRACE_WINDOW_ENDED
  | SUSPENDED_COMMERCIAL_WINDOW_ENDED

datatype lifecycle_decision =
    NOOP
  | CORRUPTED
  | TRANSITION subscription_state lifecycle_reason time

record lifecycle_input =
  lc_state :: subscription_state
  lc_cancelAtPeriodEnd :: bool
  lc_currentPeriodEnd :: time
  lc_graceUntil :: "time option"
  lc_suspendedOrigin :: "subscription_state option"
  lc_now :: time

definition decideSubscriptionLifecycle :: "lifecycle_input \<Rightarrow> lifecycle_decision" where
  "decideSubscriptionLifecycle i =
     (let due = (\<lambda>at. at \<le> lc_now i);
          ended = (\<lambda>reason. TRANSITION EXPIRED reason (lc_currentPeriodEnd i)) in
      if lc_state i = TRIAL \<and> due (lc_currentPeriodEnd i) then ended TRIAL_PERIOD_ENDED
      else if lc_state i = ACTIVE \<and> due (lc_currentPeriodEnd i) then
        ended (if lc_cancelAtPeriodEnd i then CANCEL_AT_PERIOD_END else ACTIVE_PERIOD_ENDED)
      else if lc_state i = CANCELED \<and> due (lc_currentPeriodEnd i) then ended CANCELED_PERIOD_ENDED
      else if lc_state i = GRACE then
        (case lc_graceUntil i of
           None \<Rightarrow> CORRUPTED
         | Some g \<Rightarrow> if due g then TRANSITION PAST_DUE GRACE_WINDOW_ENDED g else NOOP)
      else if lc_state i = SUSPENDED then
        (case lc_suspendedOrigin i of
           None \<Rightarrow> CORRUPTED
         | Some origin \<Rightarrow>
             if origin \<in> set [TRIAL, ACTIVE, CANCELED] \<and> due (lc_currentPeriodEnd i)
             then ended SUSPENDED_COMMERCIAL_WINDOW_ENDED
             else if origin = GRACE then
               (case lc_graceUntil i of
                  None \<Rightarrow> CORRUPTED
                | Some g \<Rightarrow> if due g then TRANSITION EXPIRED SUSPENDED_COMMERCIAL_WINDOW_ENDED g
                            else NOOP)
             else NOOP)
      else NOOP)"

text \<open>
  \<open>subscriptionLifecycleJobIdentity\<close>: a SHA-256 of the transition's coordinates. The hash
  is node:crypto's; \<open>H\<close> maps the hashed text to its hexadecimal digest.
\<close>

fun state_text :: "subscription_state \<Rightarrow> string" where
  "state_text TRIAL = ''TRIAL''"
| "state_text ACTIVE = ''ACTIVE''"
| "state_text GRACE = ''GRACE''"
| "state_text PAST_DUE = ''PAST_DUE''"
| "state_text CANCELED = ''CANCELED''"
| "state_text EXPIRED = ''EXPIRED''"
| "state_text SUSPENDED = ''SUSPENDED''"

definition newline :: string where
  "newline = [CHR 0x0A]"

definition lifecycle_job_text ::
  "uuid \<Rightarrow> subscription_state \<Rightarrow> int \<Rightarrow> subscription_state \<Rightarrow> time \<Rightarrow> string" where
  "lifecycle_job_text subscriptionId oldState oldStateRevision toState dueAt =
     ''product-control-plane/subscription-lifecycle/v1'' @ newline
       @ subscriptionId @ newline @ state_text oldState @ newline
       @ decimal_int oldStateRevision @ newline @ state_text toState @ newline
       @ toISOString dueAt"

definition subscriptionLifecycleJobIdentity ::
  "(string \<Rightarrow> string) \<Rightarrow> uuid \<Rightarrow> subscription_state \<Rightarrow> int \<Rightarrow> subscription_state \<Rightarrow> time \<Rightarrow> string" where
  "subscriptionLifecycleJobIdentity H subscriptionId oldState oldStateRevision toState dueAt =
     ''job_v1_'' @ H (lifecycle_job_text subscriptionId oldState oldStateRevision toState dueAt)"

section \<open>The access resolver and the plan binding\<close>

type_synonym access_observation = "account_status \<times> subscription_snapshot option"

definition resolve_access ::
  "('db \<Rightarrow> uuid \<Rightarrow> time \<Rightarrow> access_observation option) \<Rightarrow> 'db \<Rightarrow> uuid \<Rightarrow> time \<Rightarrow> access_result" where
  "resolve_access readObservation db accountId at =
     (case readObservation db accountId at of
        None \<Rightarrow> AccessACCOUNT_NOT_FOUND
      | Some (status, subscription) \<Rightarrow> resolveSubscriptionAccess status subscription at)"

text \<open>
  \<open>SubscriptionPlanRevisionBindingAdapter.resolve\<close>: the plan revision of an eligible
  subscription, with source \<open>ELIGIBLE_SUBSCRIPTION\<close>.
\<close>

definition resolve_plan_binding ::
  "(uuid \<Rightarrow> time \<Rightarrow> access_result) \<Rightarrow> time \<Rightarrow> uuid \<Rightarrow> (uuid \<times> string) option" where
  "resolve_plan_binding accessResolver now accountId =
     (case accessResolver accountId now of
        ELIGIBLE e \<Rightarrow> Some (acc_planRevisionId e, ''ELIGIBLE_SUBSCRIPTION'')
      | _ \<Rightarrow> None)"

section \<open>Facts about the decisions\<close>

lemma allowed_origin_EXPIRED: "validateSubscriptionStateTransition (Some EXPIRED) t \<noteq> None"
  by (simp add: validateSubscriptionStateTransition_def allowed_targets_def)

lemma allowed_initial:
  "validateSubscriptionStateTransition None t = None \<longleftrightarrow> t = TRIAL \<or> t = ACTIVE"
  by (auto simp: validateSubscriptionStateTransition_def allowed_targets_def)

lemma allowed_changes_state:
  "validateSubscriptionStateTransition (Some s) t = None \<Longrightarrow> s \<noteq> t"
  by (cases s) (auto simp: validateSubscriptionStateTransition_def allowed_targets_def)

lemma suspend_allowed:
  "validateSubscriptionStateTransition (Some s) SUSPENDED = None \<longleftrightarrow> s \<noteq> EXPIRED \<and> s \<noteq> SUSPENDED"
  by (cases s) (simp_all add: validateSubscriptionStateTransition_def allowed_targets_def)

lemma restore_allowed:
  "validateSubscriptionStateTransition (Some SUSPENDED) s = None \<longleftrightarrow> s \<noteq> SUSPENDED"
  by (cases s) (simp_all add: validateSubscriptionStateTransition_def allowed_targets_def)

lemmas decide_splits = if_splits option.splits

text \<open>What a transition of the lifecycle is, in one place.\<close>

lemma decide_transition:
  assumes "decideSubscriptionLifecycle i = TRANSITION t r d"
  shows "d \<le> lc_now i"
    and "t = EXPIRED \<or> t = PAST_DUE"
    and "validateSubscriptionStateTransition (Some (lc_state i)) t = None"
    and "d = lc_currentPeriodEnd i \<or> lc_graceUntil i = Some d"
    and "t = PAST_DUE \<longleftrightarrow> lc_state i = GRACE"
    and "lc_state i \<noteq> EXPIRED"
  using assms
  by (auto simp: decideSubscriptionLifecycle_def Let_def validateSubscriptionStateTransition_def
      allowed_targets_def split: decide_splits)

lemma decide_EXPIRED [simp]: "lc_state i = EXPIRED \<Longrightarrow> decideSubscriptionLifecycle i = NOOP"
  and decide_PAST_DUE [simp]: "lc_state i = PAST_DUE \<Longrightarrow> decideSubscriptionLifecycle i = NOOP"
  by (simp_all add: decideSubscriptionLifecycle_def Let_def)

lemma decide_CORRUPTED:
  "decideSubscriptionLifecycle i = CORRUPTED \<longleftrightarrow>
     lc_state i = GRACE \<and> lc_graceUntil i = None
   \<or> lc_state i = SUSPENDED \<and>
      (lc_suspendedOrigin i = None \<or> lc_suspendedOrigin i = Some GRACE \<and> lc_graceUntil i = None)"
  by (cases "lc_state i"; cases "lc_suspendedOrigin i"; cases "lc_graceUntil i")
    (simp_all add: decideSubscriptionLifecycle_def Let_def)

text \<open>Access and lifecycle read the same clock in the same way.\<close>

definition lifecycle_view :: "subscription_snapshot \<Rightarrow> subscription_state option \<Rightarrow> time \<Rightarrow> lifecycle_input" where
  "lifecycle_view s origin at =
     \<lparr>lc_state = sub_state s, lc_cancelAtPeriodEnd = sub_cancelAtPeriodEnd s,
      lc_currentPeriodEnd = sub_currentPeriodEnd s, lc_graceUntil = sub_graceUntil s,
      lc_suspendedOrigin = origin, lc_now = at\<rparr>"

lemma lifecycle_view_simps [simp]:
  "lc_state (lifecycle_view s origin at) = sub_state s"
  "lc_cancelAtPeriodEnd (lifecycle_view s origin at) = sub_cancelAtPeriodEnd s"
  "lc_currentPeriodEnd (lifecycle_view s origin at) = sub_currentPeriodEnd s"
  "lc_graceUntil (lifecycle_view s origin at) = sub_graceUntil s"
  "lc_suspendedOrigin (lifecycle_view s origin at) = origin"
  "lc_now (lifecycle_view s origin at) = at"
  by (simp_all add: lifecycle_view_def)

lemma access_iff_not_due:
  assumes "sub_state s \<in> {TRIAL, ACTIVE, GRACE, CANCELED}"
  shows "(\<exists>e. resolveSubscriptionAccess ACCOUNT_ACTIVE (Some s) at = ELIGIBLE e) \<longleftrightarrow>
    decideSubscriptionLifecycle (lifecycle_view s origin at) = NOOP
    \<and> (sub_state s = CANCELED \<longrightarrow> sub_cancelAtPeriodEnd s)"
  using assms
  by (cases "sub_state s"; cases "sub_graceUntil s")
    (simp_all add: resolveSubscriptionAccess_def decideSubscriptionLifecycle_def Let_def not_less)

lemma access_states:
  "resolveSubscriptionAccess a sub at = ELIGIBLE e \<Longrightarrow>
     a = ACCOUNT_ACTIVE \<and> (\<exists>s. sub = Some s \<and> e = eligible_of s
       \<and> sub_state s \<in> {TRIAL, ACTIVE, GRACE, CANCELED}
       \<and> at < (if sub_state s = GRACE then the (sub_graceUntil s) else sub_currentPeriodEnd s))"
  by (cases a; cases sub; cases "sub_state (the sub)")
    (auto simp: resolveSubscriptionAccess_def split: decide_splits)

text \<open>
  \<open>CurrentSubscriptionReader\<close> and \<open>SubscriptionAccessObservationReader\<close>: on a
  consistent database the two interfaces name the same current subscription. When an account
  has none, the observation falls back to a subscription that has already expired.
\<close>

locale observation_reader =
  fixes ok :: "'db \<Rightarrow> bool"
    and getCurrent :: "'db \<Rightarrow> uuid \<Rightarrow> subscription_snapshot option"
    and readObservation :: "'db \<Rightarrow> uuid \<Rightarrow> time \<Rightarrow> access_observation option"
  assumes current_owner: "getCurrent db a = Some s \<Longrightarrow> sub_accountId s = a \<and> sub_state s \<noteq> EXPIRED"
    and observation_current:
      "ok db \<Longrightarrow> readObservation db a at = Some (st, sub) \<Longrightarrow> getCurrent db a = Some s \<Longrightarrow>
       sub = Some s"
    and observation_fallback:
      "readObservation db a at = Some (st, Some s) \<Longrightarrow> getCurrent db a = None \<Longrightarrow>
       sub_state s = EXPIRED"
begin

lemma eligible_is_current:
  assumes "ok db" and "resolve_access readObservation db a at = ELIGIBLE e"
  shows "\<exists>s. getCurrent db a = Some s \<and> readObservation db a at = Some (ACCOUNT_ACTIVE, Some s)
    \<and> e = eligible_of s \<and> sub_accountId s = a \<and> sub_state s \<in> {TRIAL, ACTIVE, GRACE, CANCELED}"
proof -
  obtain st sub where obs: "readObservation db a at = Some (st, sub)"
    and el: "resolveSubscriptionAccess st sub at = ELIGIBLE e"
    using assms(2) by (auto simp: resolve_access_def split: option.splits)
  obtain s where s: "st = ACCOUNT_ACTIVE" "sub = Some s" "e = eligible_of s"
    "sub_state s \<in> {TRIAL, ACTIVE, GRACE, CANCELED}"
    using access_states [OF el] by blast
  have "getCurrent db a \<noteq> None"
  proof
    assume "getCurrent db a = None"
    then have "sub_state s = EXPIRED"
      using observation_fallback [of db a at st s] obs s by simp
    then show False
      using s by simp
  qed
  then obtain c where c: "getCurrent db a = Some c" by blast
  then have "c = s"
    using observation_current [OF assms(1) obs c] s by simp
  then show ?thesis
    using c obs s current_owner [OF c] by blast
qed

lemma expired_only_without_current:
  assumes "ok db" and "resolve_access readObservation db a at = INELIGIBLE REASON_SUBSCRIPTION_EXPIRED"
  shows "getCurrent db a = None"
proof (cases "getCurrent db a")
  case (Some s)
  obtain st sub where obs: "readObservation db a at = Some (st, sub)"
    and r: "resolveSubscriptionAccess st sub at = INELIGIBLE REASON_SUBSCRIPTION_EXPIRED"
    using assms(2) by (auto simp: resolve_access_def split: option.splits)
  have "sub = Some s" by (rule observation_current [OF assms(1) obs Some])
  then show ?thesis
    using r current_owner [OF Some]
    by (auto simp: resolveSubscriptionAccess_def split: if_splits option.splits)
qed simp

lemma binding_of_current:
  assumes "ok db" and "resolve_plan_binding (resolve_access readObservation db) now a = Some b"
  shows "\<exists>s. getCurrent db a = Some s
    \<and> b = (sub_currentPlanRevisionId s, ''ELIGIBLE_SUBSCRIPTION'')"
proof -
  obtain e where "resolve_access readObservation db a now = ELIGIBLE e"
    and "b = (acc_planRevisionId e, ''ELIGIBLE_SUBSCRIPTION'')"
    using assms(2) by (auto simp: resolve_plan_binding_def split: access_result.splits)
  then show ?thesis
    using eligible_is_current [OF assms(1)] by (fastforce simp: eligible_of_def)
qed

end

section \<open>Job identities\<close>

lemma state_text_inject: "state_text s = state_text t \<longleftrightarrow> s = t"
  by (cases s; cases t) simp_all

lemma no_newline_state [simp]: "CHR 0x0A \<notin> set (state_text s)"
  by (cases s) simp_all

lemma line_inject:
  assumes "c \<notin> set xs" and "c \<notin> set ys"
  shows "xs @ c # us = ys @ c # vs \<longleftrightarrow> xs = ys \<and> us = vs"
  using assms
proof (induction xs arbitrary: ys)
  case Nil
  then show ?case by (cases ys) auto
next
  case (Cons x xs)
  then show ?case by (cases ys) auto
qed

lemma lifecycle_job_text_inject:
  assumes "CHR 0x0A \<notin> set a" "CHR 0x0A \<notin> set a'" "0 \<le> r" "0 \<le> r'"
    "valid_time d" "valid_time d'"
  shows "lifecycle_job_text a s r t d = lifecycle_job_text a' s' r' t' d'
    \<longleftrightarrow> a = a' \<and> s = s' \<and> r = r' \<and> t = t' \<and> d = d'"
  using assms
  by (auto simp: lifecycle_job_text_def newline_def line_inject state_text_inject
      decimal_int_inject dest: toISOString_inject)

end
