(* ===== verification/Json.thy ===== *)
theory Json
  imports Js_Date
begin

text \<open>
  \<open>JSON.stringify\<close> of ECMAScript on the values the sources give it: null, booleans, safe integers,
  strings, arrays and objects (the members in the order of their creation). The text is what the
  fingerprints of drafts and events are hashed from, so the main fact is that the text determines the
  value.
\<close>

datatype json = JNull | JBool bool | JInt int | JStr string | JArr "json list" | JObj "(string \<times> json) list"

section \<open>Texts\<close>

definition hex_digit :: "nat \<Rightarrow> char" where
  "hex_digit n = (if n < 10 then digit n else char_of (n + 87))"

text \<open>\<open>QuoteJSONString\<close>: the named escapes, the other control characters as \<open>u00xx\<close>.\<close>

definition json_escape :: "char \<Rightarrow> string" where
  "json_escape c =
     (if c = CHR 0x22 then [CHR 0x5C, CHR 0x22]
      else if c = CHR 0x5C then [CHR 0x5C, CHR 0x5C]
      else if c = CHR 0x08 then [CHR 0x5C, CHR ''b'']
      else if c = CHR 0x09 then [CHR 0x5C, CHR ''t'']
      else if c = CHR 0x0A then [CHR 0x5C, CHR ''n'']
      else if c = CHR 0x0C then [CHR 0x5C, CHR ''f'']
      else if c = CHR 0x0D then [CHR 0x5C, CHR ''r'']
      else if of_char c < (32 :: nat) then
        [CHR 0x5C, CHR ''u'', CHR ''0'', CHR ''0'', hex_digit (of_char c div 16), hex_digit (of_char c mod 16)]
      else [c])"

definition json_quote :: "string \<Rightarrow> string" where
  "json_quote s = CHR 0x22 # concat (map json_escape s) @ [CHR 0x22]"

fun json_text :: "json \<Rightarrow> string"
  and json_items :: "json list \<Rightarrow> string"
  and json_members :: "(string \<times> json) list \<Rightarrow> string" where
  "json_text JNull = ''null''"
| "json_text (JBool b) = (if b then ''true'' else ''false'')"
| "json_text (JInt i) = decimal_int i"
| "json_text (JStr s) = json_quote s"
| "json_text (JArr []) = ''[]''"
| "json_text (JArr (j # js)) = CHR ''['' # json_text j @ json_items js"
| "json_text (JObj []) = ''{}''"
| "json_text (JObj ((k, j) # ms)) = CHR ''{'' # json_quote k @ CHR '':'' # json_text j @ json_members ms"
| "json_items [] = '']''"
| "json_items (j # js) = CHR '','' # json_text j @ json_items js"
| "json_members [] = ''}''"
| "json_members ((k, j) # ms) = CHR '','' # json_quote k @ CHR '':'' # json_text j @ json_members ms"

section \<open>The text determines the value\<close>

lemma hex_digit_code: "n < 16 \<Longrightarrow> (of_char (hex_digit n) :: nat) = (if n < 10 then 48 + n else n + 87)"
  by (simp add: hex_digit_def digit_def of_char_of take_bit_eq_mod)

lemma hex_digit_inject:
  assumes "m < 16" and "n < 16" and "hex_digit m = hex_digit n"
  shows "m = n"
proof -
  have "(if m < 10 then 48 + m else m + 87) = (if n < 10 then 48 + n else n + 87)"
    using hex_digit_code [OF assms(1)] hex_digit_code [OF assms(2)] assms(3) by metis
  then show ?thesis by (simp split: if_splits)
qed

lemma hex_digits_inject:
  assumes "m < 32" and "n < 32" and "hex_digit (m div 16) = hex_digit (n div 16)"
    and "hex_digit (m mod 16) = hex_digit (n mod 16)"
  shows "(m :: nat) = n"
proof -
  have "m div 16 = n div 16" "m mod 16 = n mod 16"
    using assms by (auto intro: hex_digit_inject)
  then show ?thesis by (metis div_mult_mod_eq)
qed

lemma json_escape_inject:
  assumes "json_escape c @ x = json_escape d @ y"
  shows "c = d \<and> x = y"
  using assms hex_digits_inject [of "of_char c" "of_char d"]
  by (simp add: json_escape_def split: if_splits)

lemma json_escape_open: "json_escape c @ x \<noteq> CHR 0x22 # y"
  by (simp add: json_escape_def)

lemma json_quote_inject:
  assumes "json_quote s @ r = json_quote s' @ r'"
  shows "s = s' \<and> r = r'"
proof -
  have "concat (map json_escape s) @ CHR 0x22 # r = concat (map json_escape s') @ CHR 0x22 # r'"
    using assms by (simp add: json_quote_def)
  then show ?thesis
  proof (induction s arbitrary: s')
    case Nil
    then show ?case
      using json_escape_open by (cases s') (auto simp: eq_commute [of "CHR 0x22 # _"])
  next
    case (Cons c s)
    show ?case
    proof (cases s')
      case Nil
      then show ?thesis using Cons.prems json_escape_open [of c] by simp
    next
      case (Cons d t)
      then show ?thesis
        using Cons.prems Cons.IH [of t] json_escape_inject [of c _ d] by simp
    qed
  qed
qed

text \<open>What may follow a value: nothing, a comma, or a closing bracket.\<close>

definition ends_value :: "string \<Rightarrow> bool" where
  "ends_value r = (case r of [] \<Rightarrow> True | c # _ \<Rightarrow> c \<in> {CHR '','', CHR '']'', CHR ''}''})"

lemma value_tails [simp]: "ends_value (json_items js @ r)" "ends_value (json_members ms @ r)" "ends_value []"
  by (cases js; simp add: ends_value_def) (cases ms; auto simp: ends_value_def)+

lemma digits_then:
  assumes "ends_value r" and "ends_value r'" and "decimal m @ r = decimal n @ r'"
  shows "m = n \<and> r = r'"
proof -
  have stop: "takeWhile is_digit (decimal k @ x) = decimal k" if "ends_value x" for k x
    using that set_decimal by (cases x) (auto simp: ends_value_def is_digit_def takeWhile_append)
  have "decimal m = decimal n"
    using stop [OF assms(1), of m] stop [OF assms(2), of n] assms(3) by simp
  then show ?thesis using assms(3) by (simp add: decimal_inject)
qed

lemma decimal_head: "\<exists>c cs. decimal n = c # cs \<and> is_digit c"
  using set_decimal [of "hd (decimal n)" n] by (cases "decimal n") auto

lemma int_then:
  assumes "ends_value r" and "ends_value r'" and eq: "decimal_int i @ r = decimal_int j @ r'"
  shows "i = j \<and> r = r'"
proof -
  have head: "decimal n @ x \<noteq> CHR ''-'' # y" for n x y
    using decimal_head [of n] by (auto simp: is_digit_def)
  consider "i < 0" "j < 0" | "0 \<le> i" "0 \<le> j" | "i < 0" "0 \<le> j" | "0 \<le> i" "j < 0"
    by linarith
  then show ?thesis
  proof cases
    case 1
    then have "nat (- i) = nat (- j) \<and> r = r'"
      using digits_then [OF assms(1,2), of "nat (- i)" "nat (- j)"] eq by (simp add: decimal_int_def)
    with 1 show ?thesis by linarith
  next
    case 2
    then have "nat i = nat j \<and> r = r'"
      using digits_then [OF assms(1,2), of "nat i" "nat j"] eq by (simp add: decimal_int_def)
    with 2 show ?thesis by linarith
  next
    case 3
    then show ?thesis using eq head [of "nat j" r'] by (metis append_Cons decimal_int_def not_less)
  next
    case 4
    then show ?thesis using eq head [of "nat i" r] by (metis append_Cons decimal_int_def not_less)
  qed
qed

lemma int_head: "decimal_int i @ r = c # x \<Longrightarrow> c = CHR ''-'' \<or> is_digit c"
  using decimal_head [of "nat i"] by (auto simp: decimal_int_def split: if_splits)

text \<open>The first character tells the kind of a value.\<close>

datatype json_kind = KNull | KTrue | KFalse | KInt | KStr | KArr | KObj

fun the_kind :: "json \<Rightarrow> json_kind" where
  "the_kind JNull = KNull"
| "the_kind (JBool b) = (if b then KTrue else KFalse)"
| "the_kind (JInt i) = KInt"
| "the_kind (JStr s) = KStr"
| "the_kind (JArr js) = KArr"
| "the_kind (JObj ms) = KObj"

definition kind_of :: "char \<Rightarrow> json_kind" where
  "kind_of c =
     (if c = CHR ''n'' then KNull else if c = CHR ''t'' then KTrue else if c = CHR ''f'' then KFalse
      else if c = CHR 0x22 then KStr else if c = CHR ''['' then KArr else if c = CHR ''{'' then KObj else KInt)"

lemma json_first: "\<exists>c x. json_text j = c # x \<and> kind_of c = the_kind j"
proof (cases j)
  case (JInt i)
  obtain c x where "decimal_int i = c # x" "c = CHR ''-'' \<or> is_digit c"
    using int_head [of i "[]"] decimal_head [of "nat i"] by (cases "decimal_int i") (auto simp: decimal_int_def split: if_splits)
  then show ?thesis using JInt by (auto simp: kind_of_def is_digit_def)
next
  case (JArr js)
  then show ?thesis by (cases js) (auto simp: kind_of_def)
next
  case (JObj ms)
  then show ?thesis by (cases ms) (auto simp: kind_of_def)
qed (auto simp: kind_of_def json_quote_def)

lemma same_kind:
  assumes "json_text j @ r = json_text j' @ r'"
  shows "the_kind j = the_kind j'"
proof -
  obtain c x d y where "json_text j = c # x" "kind_of c = the_kind j" "json_text j' = d # y" "kind_of d = the_kind j'"
    using json_first by metis
  then show ?thesis using assms by simp
qed

lemma json_first_open: "json_text j @ r \<noteq> CHR '']'' # x" "json_text j @ r \<noteq> CHR ''}'' # x"
proof -
  have "c \<noteq> CHR '']'' \<and> c \<noteq> CHR ''}''" if start: "json_text j @ r = c # x" for c x
  proof (cases j)
    case (JInt i)
    then show ?thesis using start int_head [of i r c x] by (auto simp: is_digit_def)
  next
    case (JArr js)
    then show ?thesis using start by (cases js) auto
  next
    case (JObj ms)
    then show ?thesis using start by (cases ms) auto
  qed (use start in \<open>auto simp: json_quote_def split: if_splits\<close>)
  then show "json_text j @ r \<noteq> CHR '']'' # x" "json_text j @ r \<noteq> CHR ''}'' # x"
    by blast+
qed

lemma json_text_prefix:
  shows "ends_value r \<Longrightarrow> ends_value r' \<Longrightarrow> json_text j @ r = json_text j' @ r' \<Longrightarrow> j = j' \<and> r = r'"
    and "json_items js @ x = json_items js' @ x' \<Longrightarrow> js = js' \<and> x = x'"
    and "json_members ms @ y = json_members ms' @ y' \<Longrightarrow> ms = ms' \<and> y = y'"
proof (induction j and js and ms arbitrary: r r' j' and x x' js' and y y' ms'
    rule: json_text_json_items_json_members.induct)
  case 1
  then show ?case using same_kind [OF "1.prems"(3)] by (cases j') (auto split: if_splits)
next
  case (2 b)
  then show ?case using same_kind [OF "2.prems"(3)] by (cases j') (auto split: if_splits)
next
  case (3 i)
  then show ?case using same_kind [OF "3.prems"(3)] int_then [OF "3.prems"(1,2)] by (cases j') (auto split: if_splits)
next
  case (4 s)
  obtain s' where j': "j' = JStr s'"
    using same_kind [OF "4.prems"(3)] by (cases j') (auto split: if_splits)
  show ?case
    using "4.prems"(3) json_quote_inject [of s r s' r'] by (simp add: j')
next
  case 5
  obtain js' where j': "j' = JArr js'"
    using same_kind [OF "5.prems"(3)] by (cases j') (auto split: if_splits)
  show ?case
  proof (cases js')
    case (Cons k ks)
    then have "json_text k @ json_items ks @ r' = CHR '']'' # r"
      using "5.prems"(3) j' by simp
    then show ?thesis using json_first_open(1) by blast
  qed (use 5 j' in simp)
next
  case (6 j js)
  obtain js' where j': "j' = JArr js'"
    using same_kind [OF "6.prems"(3)] by (cases j') (auto split: if_splits)
  show ?case
  proof (cases js')
    case Nil
    then have "json_text j @ json_items js @ r = CHR '']'' # r'"
      using "6.prems"(3) j' by simp
    then show ?thesis using json_first_open(1) by blast
  next
    case (Cons k ks)
    then have "json_text j @ json_items js @ r = json_text k @ json_items ks @ r'"
      using "6.prems"(3) j' by simp
    then have step: "json_text j @ json_items js @ r = json_text k @ json_items ks @ r'"
      by simp
    from "6.IH"(1) [OF value_tails(1) value_tails(1) step] have here: "j = k" and "json_items js @ r = json_items ks @ r'"
      by simp_all
    from "6.IH"(2) [OF this(2)] show ?thesis
      using here j' Cons by simp
  qed
next
  case 7
  obtain ms' where j': "j' = JObj ms'"
    using same_kind [OF "7.prems"(3)] by (cases j') (auto split: if_splits)
  show ?case
    using "7.prems"(3) by (cases ms') (auto simp: j' json_quote_def)
next
  case (8 k j ms)
  obtain ms' where j': "j' = JObj ms'"
    using same_kind [OF "8.prems"(3)] by (cases j') (auto split: if_splits)
  show ?case
  proof (cases ms')
    case Nil
    then show ?thesis using "8.prems"(3) by (simp add: j' json_quote_def)
  next
    case (Cons m ns)
    obtain l v where m: "m = (l, v)" by fastforce
    have "json_quote k @ CHR '':'' # json_text j @ json_members ms @ r = json_quote l @ CHR '':'' # json_text v @ json_members ns @ r'"
      using "8.prems"(3) j' Cons m by simp
    from json_quote_inject [OF this]
    have key: "k = l" and "json_text j @ json_members ms @ r = json_text v @ json_members ns @ r'"
      by simp_all
    then have step: "json_text j @ json_members ms @ r = json_text v @ json_members ns @ r'"
      by simp
    from "8.IH"(1) [OF value_tails(2) value_tails(2) step] have here: "j = v" and "json_members ms @ r = json_members ns @ r'"
      by simp_all
    from "8.IH"(2) [OF this(2)] show ?thesis
      using here key j' Cons m by simp
  qed
next
  case 9
  then show ?case by (cases js') auto
next
  case (10 j js)
  show ?case
  proof (cases js')
    case Nil
    then show ?thesis using "10.prems" by simp
  next
    case (Cons k ks)
    then have "json_text j @ json_items js @ x = json_text k @ json_items ks @ x'"
      using "10.prems" by simp
    then have step: "json_text j @ json_items js @ x = json_text k @ json_items ks @ x'"
      by simp
    from "10.IH"(1) [OF value_tails(1) value_tails(1) step] have here: "j = k" and "json_items js @ x = json_items ks @ x'"
      by simp_all
    from "10.IH"(2) [OF this(2)] show ?thesis
      using here Cons by simp
  qed
next
  case 11
  then show ?case by (cases ms') auto
next
  case (12 k j ms)
  show ?case
  proof (cases ms')
    case Nil
    then show ?thesis using "12.prems" by simp
  next
    case (Cons m ns)
    obtain l v where m: "m = (l, v)" by fastforce
    have "json_quote k @ CHR '':'' # json_text j @ json_members ms @ y = json_quote l @ CHR '':'' # json_text v @ json_members ns @ y'"
      using "12.prems" Cons m by simp
    from json_quote_inject [OF this]
    have key: "k = l" and "json_text j @ json_members ms @ y = json_text v @ json_members ns @ y'"
      by simp_all
    then have step: "json_text j @ json_members ms @ y = json_text v @ json_members ns @ y'"
      by simp
    from "12.IH"(1) [OF value_tails(2) value_tails(2) step] have here: "j = v" and "json_members ms @ y = json_members ns @ y'"
      by simp_all
    from "12.IH"(2) [OF this(2)] show ?thesis
      using here key Cons m by simp
  qed
qed

lemma json_text_inject: "json_text j = json_text j' \<longleftrightarrow> j = j'"
  using json_text_prefix(1) [of "[]" "[]" j j'] by auto

end
