(* ===== verification/Billing_Db.thy ===== *)
theory Billing_Db
  imports Subscriptions Json
begin

text \<open>
  The part of the PostgreSQL database that the commercial core works on: the tables of
  packages/server/db/src/schema/billing.ts, checkout.ts and reconciliation.ts with the columns
  of identity.ts, commercial.ts and audit.ts that they refer to, their constraints, and the
  trigger guards of packages/server/db/drizzle/0009, 0010 and 0011. A table is the list of its
  rows in insertion order. Every write is a transaction step that checks the constraints and
  guards on the new row; a violation is an error, which rolls the transaction back.
\<close>

section \<open>Errors\<close>

datatype failure =
    Violation string  \<comment> \<open>a constraint or trigger of the database\<close>
  | Thrown string     \<comment> \<open>an \<open>Error\<close> thrown by the TypeScript code\<close>

section \<open>Enumerations\<close>

datatype transition_source =
  SRC_CHECKOUT | SRC_WEBHOOK | SRC_RECONCILIATION | SRC_JOB | SRC_ADMIN | SRC_SYSTEM

datatype payment_state =
  PENDING | SUCCEEDED | PAYMENT_FAILED | PAYMENT_CANCELED | REFUNDED | CHARGEBACK

datatype billing_event_source = WEBHOOK | RECONCILIATION

datatype billing_event_state = VERIFIED | APPLIED | IGNORED | EVENT_FAILED

datatype checkout_state = CREATING | READY | CHECKOUT_FAILED

datatype job_state = JOB_READY | LEASED | SETTLED | BLOCKED

datatype revision_state = DRAFT | PUBLISHED

text \<open>\<open>BillingEventFailureCodeSchema\<close> and \<open>CheckoutFailureCodeSchema\<close> of
  packages/server/billing/src/index.ts; a column that stores such a code holds the code.\<close>

datatype billing_failure =
    MALFORMED_EVENT
  | INVALID_EVENT_PROOF
  | EVENT_IDENTITY_CONFLICT
  | PAYMENT_NOT_FOUND
  | PAYMENT_TERMS_MISMATCH
  | PAYMENT_STATE_CONFLICT
  | CHECKOUT_NOT_FOUND
  | EVENT_CHECKOUT_CORRUPTED
  | EVENT_TIME_INVALID
  | CURRENT_SUBSCRIPTION_CONFLICT
  | PAYMENT_SUBSCRIPTION_CORRUPTED
  | EVENT_SERVICE_UNAVAILABLE

fun billing_failure_text :: "billing_failure \<Rightarrow> string" where
  "billing_failure_text MALFORMED_EVENT = ''MALFORMED_EVENT''"
| "billing_failure_text INVALID_EVENT_PROOF = ''INVALID_EVENT_PROOF''"
| "billing_failure_text EVENT_IDENTITY_CONFLICT = ''EVENT_IDENTITY_CONFLICT''"
| "billing_failure_text PAYMENT_NOT_FOUND = ''PAYMENT_NOT_FOUND''"
| "billing_failure_text PAYMENT_TERMS_MISMATCH = ''PAYMENT_TERMS_MISMATCH''"
| "billing_failure_text PAYMENT_STATE_CONFLICT = ''PAYMENT_STATE_CONFLICT''"
| "billing_failure_text CHECKOUT_NOT_FOUND = ''CHECKOUT_NOT_FOUND''"
| "billing_failure_text EVENT_CHECKOUT_CORRUPTED = ''CHECKOUT_CORRUPTED''"
| "billing_failure_text EVENT_TIME_INVALID = ''EVENT_TIME_INVALID''"
| "billing_failure_text CURRENT_SUBSCRIPTION_CONFLICT = ''CURRENT_SUBSCRIPTION_CONFLICT''"
| "billing_failure_text PAYMENT_SUBSCRIPTION_CORRUPTED = ''PAYMENT_SUBSCRIPTION_CORRUPTED''"
| "billing_failure_text EVENT_SERVICE_UNAVAILABLE = ''SERVICE_UNAVAILABLE''"

datatype offer_failure =
    PRICE_REVISION_NOT_FOUND
  | PRICE_REVISION_NOT_PUBLISHED
  | PLAN_NOT_ACTIVE
  | PRICE_NOT_ACTIVE
  | NO_EFFECTIVE_ASSIGNMENT
  | EXPLICITLY_CLOSED
  | PRICE_REVISION_NOT_SELECTED
  | REVISION_OUTSIDE_EFFECTIVE_WINDOW
  | PLAN_REVISION_NOT_PUBLISHED
  | PLAN_REVISION_PLAN_MISMATCH

datatype checkout_failure =
    ACCOUNT_NOT_FOUND
  | FORBIDDEN
  | ACCOUNT_IS_SUSPENDED
  | CURRENT_SUBSCRIPTION_EXISTS
  | CHECKOUT_IN_PROGRESS
  | IDEMPOTENCY_KEY_REUSED
  | CHECKOUT_PROVIDER_MISMATCH
  | PROVIDER_REJECTED
  | PROVIDER_UNAVAILABLE
  | CHECKOUT_CORRUPTED
  | CHECKOUT_PAYMENT_FAILED
  | CHECKOUT_PAYMENT_CANCELED
  | SERVICE_UNAVAILABLE
  | OFFER_FAILURE offer_failure

section \<open>Rows\<close>

record account_row =
  acct_id :: uuid
  acct_status :: account_status

text \<open>The memberships of role OWNER, the only role there is.\<close>

type_synonym membership_row = "uuid \<times> uuid"

record plan_revision_row =
  plr_id :: uuid
  plr_planId :: uuid
  plr_state :: revision_state

text \<open>A price revision joined with its price, of which only the plan is read.\<close>

record price_revision_row =
  prr_id :: uuid
  prr_planId :: uuid
  prr_planRevisionId :: uuid
  prr_state :: revision_state
  prr_amountMinor :: int
  prr_currency :: string
  prr_billingIntervalUnit :: interval_unit
  prr_billingIntervalCount :: int
  prr_effectiveFrom :: time
  prr_effectiveTo :: "time option"

record subscription_row = subscription_snapshot +
  sub_stateReason :: string

record transition_row =
  tr_id :: uuid
  tr_subscriptionId :: uuid
  tr_transitionRevision :: int
  tr_fromState :: "subscription_state option"
  tr_toState :: subscription_state
  tr_source :: transition_source
  tr_sourceEventId :: "string option"
  tr_actorType :: "string option"
  tr_actorId :: "uuid option"
  tr_reason :: string
  tr_occurredAt :: time

record payment_row =
  pay_id :: uuid
  pay_accountId :: uuid
  pay_subscriptionId :: "uuid option"
  pay_provider :: string
  pay_providerPaymentId :: string
  pay_priceRevisionId :: uuid
  pay_amountMinor :: int
  pay_currency :: string
  pay_state :: payment_state
  pay_idempotencyKeyHash :: string
  pay_requestFingerprintSha256 :: string
  pay_createdAt :: time
  pay_updatedAt :: time
  pay_confirmedAt :: "time option"

record billing_event_row =
  ev_id :: uuid
  ev_provider :: string
  ev_source :: billing_event_source
  ev_eventIdentity :: string
  ev_eventType :: string
  ev_payloadSha256 :: string
  ev_processingState :: billing_event_state
  ev_receivedAt :: time
  ev_verifiedAt :: time
  ev_processedAt :: "time option"
  ev_paymentId :: "uuid option"
  ev_subscriptionId :: "uuid option"
  ev_subscriptionTransitionId :: "uuid option"
  ev_failureCode :: "billing_failure option"
  ev_createdAt :: time

record checkout_intent_row =
  ck_id :: uuid
  ck_accountId :: uuid
  ck_priceRevisionId :: uuid
  ck_planRevisionId :: uuid
  ck_provider :: string
  ck_state :: checkout_state
  ck_idempotencyKeyHash :: string
  ck_requestFingerprintSha256 :: string
  ck_admittedAt :: time
  ck_amountMinor :: int
  ck_currency :: string
  ck_billingIntervalUnit :: interval_unit
  ck_billingIntervalCount :: int
  ck_providerCheckoutId :: "string option"
  ck_providerPaymentId :: "string option"
  ck_checkoutReference :: "string option"
  ck_paymentId :: "uuid option"
  ck_failureCode :: "checkout_failure option"
  ck_createdAt :: time
  ck_updatedAt :: time
  ck_completedAt :: "time option"

record reconciliation_job_row =
  job_paymentId :: uuid
  job_state :: job_state
  job_nextAttemptAt :: "time option"
  job_leaseToken :: "uuid option"
  job_leaseUntil :: "time option"
  job_attemptCount :: int
  job_lastResultCode :: "string option"
  job_createdAt :: time
  job_updatedAt :: time

record audit_event_row =
  aud_actorType :: string
  aud_actorId :: "uuid option"
  aud_action :: string
  aud_targetType :: string
  aud_targetId :: uuid
  aud_correlationId :: string
  aud_reason :: "string option"
  aud_safeMetadata :: "(string \<times> json) list"

text \<open>
  The database as a transaction sees it. \<open>db_now\<close> is CURRENT_TIMESTAMP, the start of the
  transaction; \<open>gen_random_uuid()\<close> draws \<open>db_uuids n\<close> for the next unused \<open>n\<close>.
\<close>

record db =
  accounts :: "account_row list"
  memberships :: "membership_row list"
  planRevisions :: "plan_revision_row list"
  priceRevisions :: "price_revision_row list"
  subscriptions :: "subscription_row list"
  transitions :: "transition_row list"
  payments :: "payment_row list"
  billingEvents :: "billing_event_row list"
  checkoutIntents :: "checkout_intent_row list"
  jobs :: "reconciliation_job_row list"
  auditEvents :: "audit_event_row list"
  db_now :: time
  db_uuids :: "nat \<Rightarrow> uuid"
  db_drawn :: nat

type_synonym 'a dbtx = "(db, failure, 'a) tx"

section \<open>Formats\<close>

definition is_lower :: "char \<Rightarrow> bool" where
  "is_lower c \<longleftrightarrow> CHR ''a'' \<le> c \<and> c \<le> CHR ''z''"

definition is_upper :: "char \<Rightarrow> bool" where
  "is_upper c \<longleftrightarrow> CHR ''A'' \<le> c \<and> c \<le> CHR ''Z''"

definition is_digit :: "char \<Rightarrow> bool" where
  "is_digit c \<longleftrightarrow> CHR ''0'' \<le> c \<and> c \<le> CHR ''9''"

text \<open>\<open>^[a-z][a-z0-9]*(?:[._-][a-z0-9]+)*$\<close>; the flag: the last character was a separator.\<close>

fun machine_key_rest :: "bool \<Rightarrow> string \<Rightarrow> bool" where
  "machine_key_rest sep [] = (\<not> sep)"
| "machine_key_rest sep (c # cs) =
     (if is_lower c \<or> is_digit c then machine_key_rest False cs
      else if c \<in> set ''._-'' then \<not> sep \<and> machine_key_rest True cs
      else False)"

definition machine_key :: "string \<Rightarrow> bool" where
  "machine_key s = (case s of [] \<Rightarrow> False | c # cs \<Rightarrow> is_lower c \<and> machine_key_rest False cs)"

definition safe_hash :: "string \<Rightarrow> bool" where
  "safe_hash s \<longleftrightarrow> length s = 64 \<and> list_all (\<lambda>c. is_digit c \<or> CHR ''a'' \<le> c \<and> c \<le> CHR ''f'') s"

definition non_whitespace :: "string \<Rightarrow> bool" where
  "non_whitespace s \<longleftrightarrow>
     list_ex (\<lambda>c. c \<notin> set [CHR '' '', CHR 0x09, CHR 0x0A, CHR 0x0B, CHR 0x0C, CHR 0x0D]) s"

definition currency_code :: "string \<Rightarrow> bool" where
  "currency_code s \<longleftrightarrow> length s = 3 \<and> list_all is_upper s"

text \<open>\<open>char_length(btrim(x)) > 0\<close>: \<open>btrim\<close> removes blanks.\<close>

definition nonempty_text :: "string \<Rightarrow> bool" where
  "nonempty_text s \<longleftrightarrow> list_ex (\<lambda>c. c \<noteq> CHR '' '') s"

definition to_lower :: "char \<Rightarrow> char" where
  "to_lower c = (if is_upper c then char_of (of_char c + 32 :: nat) else c)"

definition opaque_reference :: "string \<Rightarrow> bool" where
  "opaque_reference s \<longleftrightarrow>
     s \<noteq> [] \<and> list_all (\<lambda>c. is_lower c \<or> is_upper c \<or> is_digit c \<or> c \<in> set ''._:-'') s
     \<and> take 5 (map to_lower s) \<noteq> ''http:'' \<and> take 6 (map to_lower s) \<noteq> ''https:''"

text \<open>\<open>^[A-Z][A-Z0-9_]{0,127}$\<close>\<close>

definition result_code :: "string \<Rightarrow> bool" where
  "result_code s = (case s of [] \<Rightarrow> False
     | c # cs \<Rightarrow> is_upper c \<and> length cs \<le> 127
                 \<and> list_all (\<lambda>d. is_upper d \<or> is_digit d \<or> d = CHR ''_'') cs)"

definition int4 :: "int \<Rightarrow> bool" where
  "int4 n \<longleftrightarrow> - 2147483648 \<le> n \<and> n \<le> 2147483647"

definition at_least :: "time option \<Rightarrow> time \<Rightarrow> bool" where
  "at_least x t = (case x of None \<Rightarrow> True | Some y \<Rightarrow> t \<le> y)"

section \<open>Look-ups\<close>

definition account_of :: "db \<Rightarrow> uuid \<Rightarrow> account_row option" where
  "account_of s i = List.find (\<lambda>r. acct_id r = i) (accounts s)"

definition plan_revision_of :: "db \<Rightarrow> uuid \<Rightarrow> plan_revision_row option" where
  "plan_revision_of s i = List.find (\<lambda>r. plr_id r = i) (planRevisions s)"

definition price_revision_of :: "db \<Rightarrow> uuid \<Rightarrow> price_revision_row option" where
  "price_revision_of s i = List.find (\<lambda>r. prr_id r = i) (priceRevisions s)"

definition subscription_of :: "db \<Rightarrow> uuid \<Rightarrow> subscription_row option" where
  "subscription_of s i = List.find (\<lambda>r. sub_id r = i) (subscriptions s)"

definition transition_of :: "db \<Rightarrow> uuid \<Rightarrow> transition_row option" where
  "transition_of s i = List.find (\<lambda>r. tr_id r = i) (transitions s)"

definition payment_of :: "db \<Rightarrow> uuid \<Rightarrow> payment_row option" where
  "payment_of s i = List.find (\<lambda>r. pay_id r = i) (payments s)"

definition event_of :: "db \<Rightarrow> uuid \<Rightarrow> billing_event_row option" where
  "event_of s i = List.find (\<lambda>r. ev_id r = i) (billingEvents s)"

definition checkout_of :: "db \<Rightarrow> uuid \<Rightarrow> checkout_intent_row option" where
  "checkout_of s i = List.find (\<lambda>r. ck_id r = i) (checkoutIntents s)"

definition job_of :: "db \<Rightarrow> uuid \<Rightarrow> reconciliation_job_row option" where
  "job_of s p = List.find (\<lambda>r. job_paymentId r = p) (jobs s)"

definition is_current :: "uuid \<Rightarrow> subscription_row \<Rightarrow> bool" where
  "is_current a r \<longleftrightarrow> sub_accountId r = a \<and> sub_state r \<noteq> EXPIRED"

definition current_subscription :: "db \<Rightarrow> uuid \<Rightarrow> subscription_row option" where
  "current_subscription s a = List.find (is_current a) (subscriptions s)"

definition log_of :: "db \<Rightarrow> uuid \<Rightarrow> transition_row list" where
  "log_of s i = filter (\<lambda>t. tr_subscriptionId t = i) (transitions s)"

section \<open>Subscriptions\<close>

definition subscription_checks :: "subscription_row \<Rightarrow> bool" where
  "subscription_checks r \<longleftrightarrow>
     0 < sub_stateRevision r \<and> int4 (sub_stateRevision r)
     \<and> sub_currentPeriodStart r < sub_currentPeriodEnd r
     \<and> sub_startedAt r \<le> sub_currentPeriodStart r
     \<and> (case sub_graceUntil r of None \<Rightarrow> True | Some g \<Rightarrow> sub_currentPeriodEnd r < g)
     \<and> at_least (sub_canceledAt r) (sub_startedAt r)
     \<and> at_least (sub_suspendedAt r) (sub_startedAt r)
     \<and> sub_createdAt r \<le> sub_updatedAt r
     \<and> nonempty_text (sub_stateReason r) \<and> length (sub_stateReason r) \<le> 512"

text \<open>Foreign keys and \<open>p5_1_subscription_guard\<close>.\<close>

definition subscription_guard :: "db \<Rightarrow> subscription_row \<Rightarrow> bool" where
  "subscription_guard s r \<longleftrightarrow>
     account_of s (sub_accountId r) \<noteq> None
     \<and> (case plan_revision_of s (sub_currentPlanRevisionId r) of
          None \<Rightarrow> False
        | Some plan \<Rightarrow> plr_state plan = PUBLISHED
            \<and> (case sub_boundPriceRevisionId r of
                 None \<Rightarrow> True
               | Some p \<Rightarrow>
                   (case price_revision_of s p of
                      None \<Rightarrow> False
                    | Some price \<Rightarrow> prr_state price = PUBLISHED \<and> prr_planId price = plr_planId plan)))"

definition subscription_accepted :: "db \<Rightarrow> subscription_row list \<Rightarrow> subscription_row \<Rightarrow> bool" where
  "subscription_accepted s others r \<longleftrightarrow>
     subscription_checks r \<and> subscription_guard s r
     \<and> sub_id r \<notin> sub_id ` set others
     \<and> (sub_state r \<noteq> EXPIRED \<longrightarrow> list_all (\<lambda>o'. \<not> is_current (sub_accountId r) o') others)"

definition new_uuid :: "uuid dbtx" where
  "new_uuid =
     andThen (gets (\<lambda>s. db_uuids s (db_drawn s)))
       (\<lambda>i. andThen (modify (\<lambda>s. s\<lparr>db_drawn := Suc (db_drawn s)\<rparr>)) (\<lambda>_. ret i))"

definition insert_subscription :: "(uuid \<Rightarrow> subscription_row) \<Rightarrow> subscription_row dbtx" where
  "insert_subscription mk =
     andThen new_uuid (\<lambda>i.
     andThen (require (Violation ''subscriptions'') (\<lambda>s. subscription_accepted s (subscriptions s) (mk i)))
       (\<lambda>_. andThen (modify (\<lambda>s. s\<lparr>subscriptions := subscriptions s @ [mk i]\<rparr>)) (\<lambda>_. ret (mk i))))"

text \<open>UPDATE subscriptions SET \<open>f\<close> WHERE id = \<open>i\<close> RETURNING: identity, account and creation
  time are immutable.\<close>

definition same_subscription :: "subscription_row \<Rightarrow> subscription_row \<Rightarrow> bool" where
  "same_subscription r r' \<longleftrightarrow>
     sub_id r' = sub_id r \<and> sub_accountId r' = sub_accountId r \<and> sub_createdAt r' = sub_createdAt r"

definition update_subscription ::
  "uuid \<Rightarrow> (subscription_row \<Rightarrow> subscription_row) \<Rightarrow> subscription_row option dbtx" where
  "update_subscription i f =
     andThen (gets (\<lambda>s. subscription_of s i)) (\<lambda>found.
       case found of
         None \<Rightarrow> ret None
       | Some r \<Rightarrow>
           andThen (require (Violation ''subscriptions'') (\<lambda>s. same_subscription r (f r)
               \<and> subscription_accepted s (filter (\<lambda>o'. sub_id o' \<noteq> i) (subscriptions s)) (f r)))
             (\<lambda>_. andThen (modify (\<lambda>s. s\<lparr>subscriptions :=
                     update_where (\<lambda>x. sub_id x = i) f (subscriptions s)\<rparr>))
               (\<lambda>_. ret (Some (f r)))))"

section \<open>The transition log\<close>

definition transition_checks :: "transition_row \<Rightarrow> bool" where
  "transition_checks r \<longleftrightarrow>
     0 < tr_transitionRevision r \<and> int4 (tr_transitionRevision r)
     \<and> (tr_transitionRevision r = 1 \<and> tr_fromState r = None
        \<or> 1 < tr_transitionRevision r \<and> tr_fromState r \<noteq> None)
     \<and> tr_fromState r \<noteq> Some (tr_toState r)
     \<and> (case tr_sourceEventId r of None \<Rightarrow> True | Some e \<Rightarrow> length e \<le> 256)
     \<and> nonempty_text (tr_reason r) \<and> length (tr_reason r) \<le> 512"

definition transition_accepted :: "db \<Rightarrow> transition_row \<Rightarrow> bool" where
  "transition_accepted s r \<longleftrightarrow>
     transition_checks r
     \<and> subscription_of s (tr_subscriptionId r) \<noteq> None
     \<and> tr_id r \<notin> tr_id ` set (transitions s)
     \<and> list_all (\<lambda>t. tr_transitionRevision t \<noteq> tr_transitionRevision r) (log_of s (tr_subscriptionId r))"

definition insert_transition_row :: "(uuid \<Rightarrow> transition_row) \<Rightarrow> transition_row dbtx" where
  "insert_transition_row mk =
     andThen new_uuid (\<lambda>i.
     andThen (require (Violation ''subscription_transitions'') (\<lambda>s. transition_accepted s (mk i)))
       (\<lambda>_. andThen (modify (\<lambda>s. s\<lparr>transitions := transitions s @ [mk i]\<rparr>)) (\<lambda>_. ret (mk i))))"

text \<open>\<open>SELECT COALESCE(MAX(transition_revision), 0) + 1\<close>\<close>

definition next_transition_revision :: "db \<Rightarrow> uuid \<Rightarrow> int" where
  "next_transition_revision s i =
     fold (\<lambda>t m. max m (tr_transitionRevision t)) (log_of s i) 0 + 1"

text \<open>\<open>ORDER BY transition_revision DESC LIMIT 1\<close>, over the rows that satisfy a condition.\<close>

definition latest_transition :: "(transition_row \<Rightarrow> bool) \<Rightarrow> transition_row list \<Rightarrow> transition_row option" where
  "latest_transition p ts =
     fold (\<lambda>t best. if p t \<and> (case best of None \<Rightarrow> True
                               | Some b \<Rightarrow> tr_transitionRevision b < tr_transitionRevision t)
                     then Some t else best) ts None"

section \<open>Payments\<close>

definition max_amount :: int where
  "max_amount = 9007199254740991"

definition payment_checks :: "payment_row \<Rightarrow> bool" where
  "payment_checks r \<longleftrightarrow>
     machine_key (pay_provider r) \<and> length (pay_provider r) \<le> 64
     \<and> non_whitespace (pay_providerPaymentId r) \<and> length (pay_providerPaymentId r) \<le> 256
     \<and> 0 \<le> pay_amountMinor r \<and> pay_amountMinor r \<le> max_amount
     \<and> currency_code (pay_currency r)
     \<and> safe_hash (pay_idempotencyKeyHash r) \<and> safe_hash (pay_requestFingerprintSha256 r)
     \<and> pay_createdAt r \<le> pay_updatedAt r
     \<and> at_least (pay_confirmedAt r) (pay_createdAt r)"

text \<open>Foreign keys and the INSERT-or-UPDATE part of \<open>p5_1_payment_guard\<close>.\<close>

definition payment_guard :: "db \<Rightarrow> payment_row \<Rightarrow> bool" where
  "payment_guard s r \<longleftrightarrow>
     account_of s (pay_accountId r) \<noteq> None
     \<and> (case price_revision_of s (pay_priceRevisionId r) of
          None \<Rightarrow> False
        | Some price \<Rightarrow> prr_state price = PUBLISHED
            \<and> prr_amountMinor price = pay_amountMinor r \<and> prr_currency price = pay_currency r)
     \<and> (case pay_subscriptionId r of
          None \<Rightarrow> True
        | Some i \<Rightarrow> (case subscription_of s i of
                       None \<Rightarrow> False
                     | Some sub \<Rightarrow> sub_accountId sub = pay_accountId r))"

definition payment_accepted :: "db \<Rightarrow> payment_row list \<Rightarrow> payment_row \<Rightarrow> bool" where
  "payment_accepted s others r \<longleftrightarrow>
     payment_checks r \<and> payment_guard s r
     \<and> pay_id r \<notin> pay_id ` set others
     \<and> list_all (\<lambda>o'. (pay_provider o', pay_providerPaymentId o') \<noteq> (pay_provider r, pay_providerPaymentId r)
          \<and> (pay_accountId o', pay_idempotencyKeyHash o') \<noteq> (pay_accountId r, pay_idempotencyKeyHash r)) others"

definition insert_payment :: "(uuid \<Rightarrow> payment_row) \<Rightarrow> payment_row dbtx" where
  "insert_payment mk =
     andThen new_uuid (\<lambda>i.
     andThen (require (Violation ''payments'') (\<lambda>s. payment_accepted s (payments s) (mk i)))
       (\<lambda>_. andThen (modify (\<lambda>s. s\<lparr>payments := payments s @ [mk i]\<rparr>)) (\<lambda>_. ret (mk i))))"

text \<open>The UPDATE part of \<open>p5_1_payment_guard\<close>.\<close>

definition same_payment :: "payment_row \<Rightarrow> payment_row \<Rightarrow> bool" where
  "same_payment r r' \<longleftrightarrow>
     pay_id r' = pay_id r \<and> pay_accountId r' = pay_accountId r
     \<and> pay_provider r' = pay_provider r \<and> pay_providerPaymentId r' = pay_providerPaymentId r
     \<and> pay_priceRevisionId r' = pay_priceRevisionId r
     \<and> pay_amountMinor r' = pay_amountMinor r \<and> pay_currency r' = pay_currency r
     \<and> pay_idempotencyKeyHash r' = pay_idempotencyKeyHash r
     \<and> pay_requestFingerprintSha256 r' = pay_requestFingerprintSha256 r
     \<and> pay_createdAt r' = pay_createdAt r
     \<and> (pay_subscriptionId r \<noteq> None \<longrightarrow> pay_subscriptionId r' = pay_subscriptionId r)"

text \<open>UPDATE payments SET \<open>f\<close> WHERE id = \<open>i\<close> AND \<open>c\<close> RETURNING.\<close>

definition update_payment ::
  "uuid \<Rightarrow> (payment_row \<Rightarrow> bool) \<Rightarrow> (payment_row \<Rightarrow> payment_row) \<Rightarrow> payment_row option dbtx" where
  "update_payment i c f =
     andThen (gets (\<lambda>s. payment_of s i)) (\<lambda>found.
       case found of
         None \<Rightarrow> ret None
       | Some r \<Rightarrow>
           if c r then
             andThen (require (Violation ''payments'') (\<lambda>s. same_payment r (f r)
                 \<and> payment_accepted s (filter (\<lambda>o'. pay_id o' \<noteq> i) (payments s)) (f r)))
               (\<lambda>_. andThen (modify (\<lambda>s. s\<lparr>payments := update_where (\<lambda>x. pay_id x = i) f (payments s)\<rparr>))
                 (\<lambda>_. ret (Some (f r))))
           else ret None)"

section \<open>Billing events\<close>

definition event_checks :: "billing_event_row \<Rightarrow> bool" where
  "event_checks r \<longleftrightarrow>
     machine_key (ev_provider r) \<and> length (ev_provider r) \<le> 64
     \<and> non_whitespace (ev_eventIdentity r) \<and> length (ev_eventIdentity r) \<le> 256
     \<and> non_whitespace (ev_eventType r) \<and> length (ev_eventType r) \<le> 128
     \<and> safe_hash (ev_payloadSha256 r)
     \<and> ev_receivedAt r \<le> ev_verifiedAt r
     \<and> at_least (ev_processedAt r) (ev_verifiedAt r)"

definition event_unprocessed :: "billing_event_row \<Rightarrow> bool" where
  "event_unprocessed r \<longleftrightarrow>
     ev_processingState r = VERIFIED \<and> ev_processedAt r = None \<and> ev_failureCode r = None
     \<and> ev_paymentId r = None \<and> ev_subscriptionId r = None \<and> ev_subscriptionTransitionId r = None"

text \<open>INSERT ... ON CONFLICT(provider, event_identity) DO NOTHING RETURNING.\<close>

definition find_event :: "db \<Rightarrow> string \<Rightarrow> string \<Rightarrow> billing_event_row option" where
  "find_event s provider identity =
     List.find (\<lambda>r. ev_provider r = provider \<and> ev_eventIdentity r = identity) (billingEvents s)"

definition insert_event_row :: "(uuid \<Rightarrow> billing_event_row) \<Rightarrow> billing_event_row option dbtx" where
  "insert_event_row mk =
     andThen new_uuid (\<lambda>i.
     andThen (require (Violation ''billing_events'') (\<lambda>s. event_checks (mk i) \<and> event_unprocessed (mk i)))
       (\<lambda>_. andThen (gets (\<lambda>s. find_event s (ev_provider (mk i)) (ev_eventIdentity (mk i))))
       (\<lambda>conflict. case conflict of
          Some _ \<Rightarrow> ret None
        | None \<Rightarrow>
            andThen (require (Violation ''billing_events'') (\<lambda>s. ev_id (mk i) \<notin> ev_id ` set (billingEvents s)))
              (\<lambda>_. andThen (modify (\<lambda>s. s\<lparr>billingEvents := billingEvents s @ [mk i]\<rparr>))
                 (\<lambda>_. ret (Some (mk i)))))))"

text \<open>The UPDATE part of \<open>p5_1_billing_event_guard\<close> and the foreign keys.\<close>

definition event_update_guard :: "db \<Rightarrow> billing_event_row \<Rightarrow> billing_event_row \<Rightarrow> bool" where
  "event_update_guard s r r' \<longleftrightarrow>
     ev_processingState r = VERIFIED
     \<and> ev_id r' = ev_id r \<and> ev_provider r' = ev_provider r \<and> ev_source r' = ev_source r
     \<and> ev_eventIdentity r' = ev_eventIdentity r \<and> ev_eventType r' = ev_eventType r
     \<and> ev_payloadSha256 r' = ev_payloadSha256 r
     \<and> ev_receivedAt r' = ev_receivedAt r \<and> ev_verifiedAt r' = ev_verifiedAt r
     \<and> ev_createdAt r' = ev_createdAt r
     \<and> ev_processingState r' \<noteq> VERIFIED \<and> ev_processedAt r' \<noteq> None
     \<and> (ev_processingState r' = EVENT_FAILED \<longleftrightarrow> ev_failureCode r' \<noteq> None)
     \<and> (case ev_subscriptionTransitionId r' of
          None \<Rightarrow> True
        | Some t \<Rightarrow> ev_subscriptionId r' \<noteq> None
            \<and> (case transition_of s t of
                 None \<Rightarrow> False
               | Some tr \<Rightarrow> Some (tr_subscriptionId tr) = ev_subscriptionId r'))
     \<and> (case ev_paymentId r' of None \<Rightarrow> True | Some p \<Rightarrow> payment_of s p \<noteq> None)
     \<and> (case ev_subscriptionId r' of None \<Rightarrow> True | Some i \<Rightarrow> subscription_of s i \<noteq> None)
     \<and> (case (ev_paymentId r', ev_subscriptionId r') of
          (Some p, Some i) \<Rightarrow>
            map_option pay_accountId (payment_of s p) = map_option sub_accountId (subscription_of s i)
        | _ \<Rightarrow> True)"

definition update_event ::
  "uuid \<Rightarrow> (billing_event_row \<Rightarrow> billing_event_row) \<Rightarrow> billing_event_row option dbtx" where
  "update_event i f =
     andThen (gets (\<lambda>s. event_of s i)) (\<lambda>found.
       case found of
         None \<Rightarrow> ret None
       | Some r \<Rightarrow>
           andThen (require (Violation ''billing_events'')
               (\<lambda>s. event_update_guard s r (f r) \<and> event_checks (f r)))
             (\<lambda>_. andThen (modify (\<lambda>s. s\<lparr>billingEvents :=
                     update_where (\<lambda>x. ev_id x = i) f (billingEvents s)\<rparr>))
               (\<lambda>_. ret (Some (f r)))))"

section \<open>Checkout intents\<close>

definition opaque_column :: "string option \<Rightarrow> bool" where
  "opaque_column x = (case x of None \<Rightarrow> True | Some v \<Rightarrow> opaque_reference v \<and> length v \<le> 256)"

definition checkout_checks :: "checkout_intent_row \<Rightarrow> bool" where
  "checkout_checks r \<longleftrightarrow>
     machine_key (ck_provider r) \<and> length (ck_provider r) \<le> 64
     \<and> safe_hash (ck_idempotencyKeyHash r) \<and> safe_hash (ck_requestFingerprintSha256 r)
     \<and> 0 \<le> ck_amountMinor r \<and> ck_amountMinor r \<le> max_amount
     \<and> currency_code (ck_currency r)
     \<and> 1 \<le> ck_billingIntervalCount r \<and> ck_billingIntervalCount r \<le> 1200
     \<and> opaque_column (ck_providerCheckoutId r) \<and> opaque_column (ck_providerPaymentId r)
     \<and> opaque_column (ck_checkoutReference r)
     \<and> ck_createdAt r \<le> ck_updatedAt r
     \<and> at_least (ck_completedAt r) (ck_admittedAt r)"

text \<open>The part of \<open>p5_3_checkout_intent_guard\<close> about the price revision, and the foreign
  keys.\<close>

definition checkout_terms_guard :: "db \<Rightarrow> checkout_intent_row \<Rightarrow> bool" where
  "checkout_terms_guard s r \<longleftrightarrow>
     account_of s (ck_accountId r) \<noteq> None
     \<and> (case price_revision_of s (ck_priceRevisionId r) of
          None \<Rightarrow> False
        | Some price \<Rightarrow>
            (case plan_revision_of s (prr_planRevisionId price) of
               None \<Rightarrow> False
             | Some plan \<Rightarrow>
                 prr_state price = PUBLISHED \<and> plr_state plan = PUBLISHED
                 \<and> prr_planRevisionId price = ck_planRevisionId r
                 \<and> prr_amountMinor price = ck_amountMinor r
                 \<and> prr_currency price = ck_currency r
                 \<and> prr_billingIntervalUnit price = ck_billingIntervalUnit r
                 \<and> prr_billingIntervalCount price = ck_billingIntervalCount r
                 \<and> prr_effectiveFrom price \<le> ck_admittedAt r
                 \<and> (case prr_effectiveTo price of None \<Rightarrow> True | Some t \<Rightarrow> ck_admittedAt r < t)))"

text \<open>The shape of a row in each state; a READY intent must match its pending payment.\<close>

definition checkout_matches_payment :: "checkout_intent_row \<Rightarrow> payment_row \<Rightarrow> bool" where
  "checkout_matches_payment r p \<longleftrightarrow>
     pay_accountId p = ck_accountId r \<and> pay_provider p = ck_provider r
     \<and> Some (pay_providerPaymentId p) = ck_providerPaymentId r
     \<and> pay_priceRevisionId p = ck_priceRevisionId r
     \<and> pay_amountMinor p = ck_amountMinor r \<and> pay_currency p = ck_currency r
     \<and> pay_idempotencyKeyHash p = ck_idempotencyKeyHash r
     \<and> pay_requestFingerprintSha256 p = ck_requestFingerprintSha256 r"

definition checkout_shape_guard :: "db \<Rightarrow> checkout_intent_row \<Rightarrow> bool" where
  "checkout_shape_guard s r \<longleftrightarrow>
     (case ck_state r of
        CREATING \<Rightarrow> True
      | CHECKOUT_FAILED \<Rightarrow>
          ck_failureCode r \<noteq> None \<and> ck_completedAt r \<noteq> None \<and> ck_paymentId r = None
          \<and> ck_providerCheckoutId r = None \<and> ck_providerPaymentId r = None
          \<and> ck_checkoutReference r = None
      | READY \<Rightarrow>
          ck_providerCheckoutId r \<noteq> None \<and> ck_providerPaymentId r \<noteq> None
          \<and> ck_checkoutReference r \<noteq> None \<and> ck_failureCode r = None \<and> ck_completedAt r \<noteq> None
          \<and> (case ck_paymentId r of
               None \<Rightarrow> False
             | Some i \<Rightarrow> (case payment_of s i of
                            None \<Rightarrow> False
                          | Some p \<Rightarrow> pay_state p = PENDING \<and> checkout_matches_payment r p)))"

text \<open>The INSERT branch of the guard: an intent starts as CREATING, with nothing decided.\<close>

definition checkout_initial :: "checkout_intent_row \<Rightarrow> bool" where
  "checkout_initial r \<longleftrightarrow>
     ck_state r = CREATING \<and> ck_providerCheckoutId r = None \<and> ck_providerPaymentId r = None
     \<and> ck_checkoutReference r = None \<and> ck_paymentId r = None \<and> ck_failureCode r = None
     \<and> ck_completedAt r = None"

text \<open>The UPDATE branch: the snapshot is immutable, a terminal intent is final.\<close>

definition checkout_update_guard :: "checkout_intent_row \<Rightarrow> checkout_intent_row \<Rightarrow> bool" where
  "checkout_update_guard r r' \<longleftrightarrow>
     ck_id r' = ck_id r \<and> ck_accountId r' = ck_accountId r
     \<and> ck_priceRevisionId r' = ck_priceRevisionId r \<and> ck_planRevisionId r' = ck_planRevisionId r
     \<and> ck_provider r' = ck_provider r
     \<and> ck_idempotencyKeyHash r' = ck_idempotencyKeyHash r
     \<and> ck_requestFingerprintSha256 r' = ck_requestFingerprintSha256 r
     \<and> ck_admittedAt r' = ck_admittedAt r
     \<and> ck_amountMinor r' = ck_amountMinor r \<and> ck_currency r' = ck_currency r
     \<and> ck_billingIntervalUnit r' = ck_billingIntervalUnit r
     \<and> ck_billingIntervalCount r' = ck_billingIntervalCount r
     \<and> ck_createdAt r' = ck_createdAt r
     \<and> ck_state r = CREATING \<and> ck_state r' \<noteq> CREATING"

text \<open>The unique indexes, against another row of the table.\<close>

definition checkout_distinct :: "checkout_intent_row \<Rightarrow> checkout_intent_row \<Rightarrow> bool" where
  "checkout_distinct o' r \<longleftrightarrow>
     ck_id o' \<noteq> ck_id r
     \<and> (ck_accountId o', ck_idempotencyKeyHash o') \<noteq> (ck_accountId r, ck_idempotencyKeyHash r)
     \<and> (ck_providerCheckoutId r \<noteq> None \<longrightarrow>
          (ck_provider o', ck_providerCheckoutId o') \<noteq> (ck_provider r, ck_providerCheckoutId r))
     \<and> (ck_providerPaymentId r \<noteq> None \<longrightarrow>
          (ck_provider o', ck_providerPaymentId o') \<noteq> (ck_provider r, ck_providerPaymentId r))
     \<and> (ck_paymentId r \<noteq> None \<longrightarrow> ck_paymentId o' \<noteq> ck_paymentId r)
     \<and> (ck_state r = CREATING \<longrightarrow> \<not> (ck_state o' = CREATING \<and> ck_accountId o' = ck_accountId r))"

definition checkout_accepted :: "db \<Rightarrow> checkout_intent_row list \<Rightarrow> checkout_intent_row \<Rightarrow> bool" where
  "checkout_accepted s others r \<longleftrightarrow>
     checkout_checks r \<and> checkout_terms_guard s r \<and> checkout_shape_guard s r
     \<and> list_all (\<lambda>o'. checkout_distinct o' r) others"

definition insert_checkout :: "(uuid \<Rightarrow> checkout_intent_row) \<Rightarrow> checkout_intent_row dbtx" where
  "insert_checkout mk =
     andThen new_uuid (\<lambda>i.
     andThen (require (Violation ''checkout_intents'')
         (\<lambda>s. checkout_initial (mk i) \<and> checkout_accepted s (checkoutIntents s) (mk i)))
       (\<lambda>_. andThen (modify (\<lambda>s. s\<lparr>checkoutIntents := checkoutIntents s @ [mk i]\<rparr>))
         (\<lambda>_. ret (mk i))))"

definition update_checkout ::
  "uuid \<Rightarrow> (checkout_intent_row \<Rightarrow> checkout_intent_row) \<Rightarrow> checkout_intent_row option dbtx" where
  "update_checkout i f =
     andThen (gets (\<lambda>s. checkout_of s i)) (\<lambda>found.
       case found of
         None \<Rightarrow> ret None
       | Some r \<Rightarrow>
           andThen (require (Violation ''checkout_intents'') (\<lambda>s. checkout_update_guard r (f r)
               \<and> checkout_accepted s (filter (\<lambda>o'. ck_id o' \<noteq> i) (checkoutIntents s)) (f r)))
             (\<lambda>_. andThen (modify (\<lambda>s. s\<lparr>checkoutIntents :=
                     update_where (\<lambda>x. ck_id x = i) f (checkoutIntents s)\<rparr>))
               (\<lambda>_. ret (Some (f r)))))"

section \<open>Reconciliation jobs\<close>

definition job_checks :: "reconciliation_job_row \<Rightarrow> bool" where
  "job_checks r \<longleftrightarrow>
     0 \<le> job_attemptCount r \<and> int4 (job_attemptCount r)
     \<and> job_createdAt r \<le> job_updatedAt r
     \<and> (case job_lastResultCode r of None \<Rightarrow> True | Some c \<Rightarrow> result_code c)
     \<and> (case job_state r of
          JOB_READY \<Rightarrow> job_nextAttemptAt r \<noteq> None \<and> job_leaseToken r = None \<and> job_leaseUntil r = None
        | LEASED \<Rightarrow> job_nextAttemptAt r = None \<and> job_leaseToken r \<noteq> None \<and> job_leaseUntil r \<noteq> None
        | SETTLED \<Rightarrow> job_nextAttemptAt r = None \<and> job_leaseToken r = None \<and> job_leaseUntil r = None
        | BLOCKED \<Rightarrow> job_nextAttemptAt r = None \<and> job_leaseToken r = None \<and> job_leaseUntil r = None)"

definition insert_job :: "reconciliation_job_row \<Rightarrow> unit dbtx" where
  "insert_job r =
     andThen (require (Violation ''billing_reconciliation_jobs'') (\<lambda>s. job_checks r
         \<and> payment_of s (job_paymentId r) \<noteq> None \<and> job_paymentId r \<notin> job_paymentId ` set (jobs s)))
       (\<lambda>_. modify (\<lambda>s. s\<lparr>jobs := jobs s @ [r]\<rparr>))"

text \<open>\<open>p5_5_reconciliation_job_guard\<close> on UPDATE: a terminal job is final, attempts only grow.\<close>

definition job_update_guard :: "reconciliation_job_row \<Rightarrow> reconciliation_job_row \<Rightarrow> bool" where
  "job_update_guard r r' \<longleftrightarrow>
     job_paymentId r' = job_paymentId r \<and> job_createdAt r' = job_createdAt r
     \<and> job_state r \<noteq> SETTLED \<and> job_state r \<noteq> BLOCKED
     \<and> job_attemptCount r \<le> job_attemptCount r'"

text \<open>UPDATE billing_reconciliation_jobs SET \<open>f\<close> WHERE payment_id = \<open>p\<close> AND \<open>c\<close> RETURNING.\<close>

definition update_job ::
  "uuid \<Rightarrow> (reconciliation_job_row \<Rightarrow> bool) \<Rightarrow> (reconciliation_job_row \<Rightarrow> reconciliation_job_row)
    \<Rightarrow> reconciliation_job_row option dbtx" where
  "update_job p c f =
     andThen (gets (\<lambda>s. job_of s p)) (\<lambda>found.
       case found of
         None \<Rightarrow> ret None
       | Some r \<Rightarrow>
           if c r then
             andThen (require (Violation ''billing_reconciliation_jobs'')
                 (\<lambda>s. job_update_guard r (f r) \<and> job_checks (f r)))
               (\<lambda>_. andThen (modify (\<lambda>s. s\<lparr>jobs := update_where (\<lambda>x. job_paymentId x = p) f (jobs s)\<rparr>))
                 (\<lambda>_. ret (Some (f r))))
           else ret None)"

section \<open>Audit events\<close>

definition audit_checks :: "audit_event_row \<Rightarrow> bool" where
  "audit_checks r \<longleftrightarrow>
     length (aud_actorType r) \<le> 64 \<and> length (aud_action r) \<le> 128 \<and> length (aud_targetType r) \<le> 64
     \<and> length (aud_correlationId r) \<le> 128
     \<and> (case aud_reason r of None \<Rightarrow> True | Some t \<Rightarrow> length t \<le> 512)"

definition insert_audit :: "audit_event_row \<Rightarrow> unit dbtx" where
  "insert_audit r =
     andThen (require (Violation ''audit_events'') (\<lambda>_. audit_checks r))
       (\<lambda>_. modify (\<lambda>s. s\<lparr>auditEvents := auditEvents s @ [r]\<rparr>))"

section \<open>Facts about the tables\<close>

text \<open>A look-up reads one table; a write to another table does not change it.\<close>

lemma account_of_frame [simp]:
  "account_of (s\<lparr>subscriptions := ta\<rparr>) i = account_of s i"
  "account_of (s\<lparr>transitions := tb\<rparr>) i = account_of s i"
  "account_of (s\<lparr>payments := tc\<rparr>) i = account_of s i"
  "account_of (s\<lparr>billingEvents := td\<rparr>) i = account_of s i"
  "account_of (s\<lparr>checkoutIntents := te\<rparr>) i = account_of s i"
  "account_of (s\<lparr>jobs := tf\<rparr>) i = account_of s i"
  "account_of (s\<lparr>auditEvents := tg\<rparr>) i = account_of s i"
  "account_of (s\<lparr>db_drawn := th\<rparr>) i = account_of s i"
  by (simp_all add: account_of_def)

lemma plan_revision_of_frame [simp]:
  "plan_revision_of (s\<lparr>subscriptions := ta\<rparr>) i = plan_revision_of s i"
  "plan_revision_of (s\<lparr>transitions := tb\<rparr>) i = plan_revision_of s i"
  "plan_revision_of (s\<lparr>payments := tc\<rparr>) i = plan_revision_of s i"
  "plan_revision_of (s\<lparr>billingEvents := td\<rparr>) i = plan_revision_of s i"
  "plan_revision_of (s\<lparr>checkoutIntents := te\<rparr>) i = plan_revision_of s i"
  "plan_revision_of (s\<lparr>jobs := tf\<rparr>) i = plan_revision_of s i"
  "plan_revision_of (s\<lparr>auditEvents := tg\<rparr>) i = plan_revision_of s i"
  "plan_revision_of (s\<lparr>db_drawn := th\<rparr>) i = plan_revision_of s i"
  by (simp_all add: plan_revision_of_def)

lemma price_revision_of_frame [simp]:
  "price_revision_of (s\<lparr>subscriptions := ta\<rparr>) i = price_revision_of s i"
  "price_revision_of (s\<lparr>transitions := tb\<rparr>) i = price_revision_of s i"
  "price_revision_of (s\<lparr>payments := tc\<rparr>) i = price_revision_of s i"
  "price_revision_of (s\<lparr>billingEvents := td\<rparr>) i = price_revision_of s i"
  "price_revision_of (s\<lparr>checkoutIntents := te\<rparr>) i = price_revision_of s i"
  "price_revision_of (s\<lparr>jobs := tf\<rparr>) i = price_revision_of s i"
  "price_revision_of (s\<lparr>auditEvents := tg\<rparr>) i = price_revision_of s i"
  "price_revision_of (s\<lparr>db_drawn := th\<rparr>) i = price_revision_of s i"
  by (simp_all add: price_revision_of_def)

lemma subscription_of_frame [simp]:
  "subscription_of (s\<lparr>transitions := tb\<rparr>) i = subscription_of s i"
  "subscription_of (s\<lparr>payments := tc\<rparr>) i = subscription_of s i"
  "subscription_of (s\<lparr>billingEvents := td\<rparr>) i = subscription_of s i"
  "subscription_of (s\<lparr>checkoutIntents := te\<rparr>) i = subscription_of s i"
  "subscription_of (s\<lparr>jobs := tf\<rparr>) i = subscription_of s i"
  "subscription_of (s\<lparr>auditEvents := tg\<rparr>) i = subscription_of s i"
  "subscription_of (s\<lparr>db_drawn := th\<rparr>) i = subscription_of s i"
  by (simp_all add: subscription_of_def)

lemma transition_of_frame [simp]:
  "transition_of (s\<lparr>subscriptions := ta\<rparr>) i = transition_of s i"
  "transition_of (s\<lparr>payments := tc\<rparr>) i = transition_of s i"
  "transition_of (s\<lparr>billingEvents := td\<rparr>) i = transition_of s i"
  "transition_of (s\<lparr>checkoutIntents := te\<rparr>) i = transition_of s i"
  "transition_of (s\<lparr>jobs := tf\<rparr>) i = transition_of s i"
  "transition_of (s\<lparr>auditEvents := tg\<rparr>) i = transition_of s i"
  "transition_of (s\<lparr>db_drawn := th\<rparr>) i = transition_of s i"
  by (simp_all add: transition_of_def)

lemma payment_of_frame [simp]:
  "payment_of (s\<lparr>subscriptions := ta\<rparr>) i = payment_of s i"
  "payment_of (s\<lparr>transitions := tb\<rparr>) i = payment_of s i"
  "payment_of (s\<lparr>billingEvents := td\<rparr>) i = payment_of s i"
  "payment_of (s\<lparr>checkoutIntents := te\<rparr>) i = payment_of s i"
  "payment_of (s\<lparr>jobs := tf\<rparr>) i = payment_of s i"
  "payment_of (s\<lparr>auditEvents := tg\<rparr>) i = payment_of s i"
  "payment_of (s\<lparr>db_drawn := th\<rparr>) i = payment_of s i"
  by (simp_all add: payment_of_def)

lemma event_of_frame [simp]:
  "event_of (s\<lparr>subscriptions := ta\<rparr>) i = event_of s i"
  "event_of (s\<lparr>transitions := tb\<rparr>) i = event_of s i"
  "event_of (s\<lparr>payments := tc\<rparr>) i = event_of s i"
  "event_of (s\<lparr>checkoutIntents := te\<rparr>) i = event_of s i"
  "event_of (s\<lparr>jobs := tf\<rparr>) i = event_of s i"
  "event_of (s\<lparr>auditEvents := tg\<rparr>) i = event_of s i"
  "event_of (s\<lparr>db_drawn := th\<rparr>) i = event_of s i"
  by (simp_all add: event_of_def)

lemma find_event_frame [simp]:
  "find_event (s\<lparr>subscriptions := ta\<rparr>) i j = find_event s i j"
  "find_event (s\<lparr>transitions := tb\<rparr>) i j = find_event s i j"
  "find_event (s\<lparr>payments := tc\<rparr>) i j = find_event s i j"
  "find_event (s\<lparr>checkoutIntents := te\<rparr>) i j = find_event s i j"
  "find_event (s\<lparr>jobs := tf\<rparr>) i j = find_event s i j"
  "find_event (s\<lparr>auditEvents := tg\<rparr>) i j = find_event s i j"
  "find_event (s\<lparr>db_drawn := th\<rparr>) i j = find_event s i j"
  by (simp_all add: find_event_def)

lemma checkout_of_frame [simp]:
  "checkout_of (s\<lparr>subscriptions := ta\<rparr>) i = checkout_of s i"
  "checkout_of (s\<lparr>transitions := tb\<rparr>) i = checkout_of s i"
  "checkout_of (s\<lparr>payments := tc\<rparr>) i = checkout_of s i"
  "checkout_of (s\<lparr>billingEvents := td\<rparr>) i = checkout_of s i"
  "checkout_of (s\<lparr>jobs := tf\<rparr>) i = checkout_of s i"
  "checkout_of (s\<lparr>auditEvents := tg\<rparr>) i = checkout_of s i"
  "checkout_of (s\<lparr>db_drawn := th\<rparr>) i = checkout_of s i"
  by (simp_all add: checkout_of_def)

lemma job_of_frame [simp]:
  "job_of (s\<lparr>subscriptions := ta\<rparr>) i = job_of s i"
  "job_of (s\<lparr>transitions := tb\<rparr>) i = job_of s i"
  "job_of (s\<lparr>payments := tc\<rparr>) i = job_of s i"
  "job_of (s\<lparr>billingEvents := td\<rparr>) i = job_of s i"
  "job_of (s\<lparr>checkoutIntents := te\<rparr>) i = job_of s i"
  "job_of (s\<lparr>auditEvents := tg\<rparr>) i = job_of s i"
  "job_of (s\<lparr>db_drawn := th\<rparr>) i = job_of s i"
  by (simp_all add: job_of_def)

lemma current_subscription_frame [simp]:
  "current_subscription (s\<lparr>transitions := tb\<rparr>) i = current_subscription s i"
  "current_subscription (s\<lparr>payments := tc\<rparr>) i = current_subscription s i"
  "current_subscription (s\<lparr>billingEvents := td\<rparr>) i = current_subscription s i"
  "current_subscription (s\<lparr>checkoutIntents := te\<rparr>) i = current_subscription s i"
  "current_subscription (s\<lparr>jobs := tf\<rparr>) i = current_subscription s i"
  "current_subscription (s\<lparr>auditEvents := tg\<rparr>) i = current_subscription s i"
  "current_subscription (s\<lparr>db_drawn := th\<rparr>) i = current_subscription s i"
  by (simp_all add: current_subscription_def)

lemma log_of_frame [simp]:
  "log_of (s\<lparr>subscriptions := ta\<rparr>) i = log_of s i"
  "log_of (s\<lparr>payments := tc\<rparr>) i = log_of s i"
  "log_of (s\<lparr>billingEvents := td\<rparr>) i = log_of s i"
  "log_of (s\<lparr>checkoutIntents := te\<rparr>) i = log_of s i"
  "log_of (s\<lparr>jobs := tf\<rparr>) i = log_of s i"
  "log_of (s\<lparr>auditEvents := tg\<rparr>) i = log_of s i"
  "log_of (s\<lparr>db_drawn := th\<rparr>) i = log_of s i"
  by (simp_all add: log_of_def)

lemma subscription_guard_frame [simp]:
  "subscription_guard (s\<lparr>subscriptions := ta\<rparr>) r = subscription_guard s r"
  "subscription_guard (s\<lparr>transitions := tb\<rparr>) r = subscription_guard s r"
  "subscription_guard (s\<lparr>payments := tc\<rparr>) r = subscription_guard s r"
  "subscription_guard (s\<lparr>billingEvents := td\<rparr>) r = subscription_guard s r"
  "subscription_guard (s\<lparr>checkoutIntents := te\<rparr>) r = subscription_guard s r"
  "subscription_guard (s\<lparr>jobs := tf\<rparr>) r = subscription_guard s r"
  "subscription_guard (s\<lparr>auditEvents := tg\<rparr>) r = subscription_guard s r"
  "subscription_guard (s\<lparr>db_drawn := th\<rparr>) r = subscription_guard s r"
  by (simp_all add: subscription_guard_def cong: option.case_cong checkout_state.case_cong)

lemma payment_guard_frame [simp]:
  "payment_guard (s\<lparr>transitions := tb\<rparr>) r = payment_guard s r"
  "payment_guard (s\<lparr>payments := tc\<rparr>) r = payment_guard s r"
  "payment_guard (s\<lparr>billingEvents := td\<rparr>) r = payment_guard s r"
  "payment_guard (s\<lparr>checkoutIntents := te\<rparr>) r = payment_guard s r"
  "payment_guard (s\<lparr>jobs := tf\<rparr>) r = payment_guard s r"
  "payment_guard (s\<lparr>auditEvents := tg\<rparr>) r = payment_guard s r"
  "payment_guard (s\<lparr>db_drawn := th\<rparr>) r = payment_guard s r"
  by (simp_all add: payment_guard_def cong: option.case_cong checkout_state.case_cong)

lemma checkout_terms_guard_frame [simp]:
  "checkout_terms_guard (s\<lparr>subscriptions := ta\<rparr>) r = checkout_terms_guard s r"
  "checkout_terms_guard (s\<lparr>transitions := tb\<rparr>) r = checkout_terms_guard s r"
  "checkout_terms_guard (s\<lparr>payments := tc\<rparr>) r = checkout_terms_guard s r"
  "checkout_terms_guard (s\<lparr>billingEvents := td\<rparr>) r = checkout_terms_guard s r"
  "checkout_terms_guard (s\<lparr>checkoutIntents := te\<rparr>) r = checkout_terms_guard s r"
  "checkout_terms_guard (s\<lparr>jobs := tf\<rparr>) r = checkout_terms_guard s r"
  "checkout_terms_guard (s\<lparr>auditEvents := tg\<rparr>) r = checkout_terms_guard s r"
  "checkout_terms_guard (s\<lparr>db_drawn := th\<rparr>) r = checkout_terms_guard s r"
  by (simp_all add: checkout_terms_guard_def cong: option.case_cong checkout_state.case_cong)

lemma checkout_shape_guard_frame [simp]:
  "checkout_shape_guard (s\<lparr>subscriptions := ta\<rparr>) r = checkout_shape_guard s r"
  "checkout_shape_guard (s\<lparr>transitions := tb\<rparr>) r = checkout_shape_guard s r"
  "checkout_shape_guard (s\<lparr>billingEvents := td\<rparr>) r = checkout_shape_guard s r"
  "checkout_shape_guard (s\<lparr>checkoutIntents := te\<rparr>) r = checkout_shape_guard s r"
  "checkout_shape_guard (s\<lparr>jobs := tf\<rparr>) r = checkout_shape_guard s r"
  "checkout_shape_guard (s\<lparr>auditEvents := tg\<rparr>) r = checkout_shape_guard s r"
  "checkout_shape_guard (s\<lparr>db_drawn := th\<rparr>) r = checkout_shape_guard s r"
  by (simp_all add: checkout_shape_guard_def cong: option.case_cong checkout_state.case_cong)

lemma event_update_guard_frame [simp]:
  "event_update_guard (s\<lparr>billingEvents := td\<rparr>) r q = event_update_guard s r q"
  "event_update_guard (s\<lparr>checkoutIntents := te\<rparr>) r q = event_update_guard s r q"
  "event_update_guard (s\<lparr>jobs := tf\<rparr>) r q = event_update_guard s r q"
  "event_update_guard (s\<lparr>auditEvents := tg\<rparr>) r q = event_update_guard s r q"
  "event_update_guard (s\<lparr>db_drawn := th\<rparr>) r q = event_update_guard s r q"
  by (simp_all add: event_update_guard_def cong: option.case_cong checkout_state.case_cong)

lemma transition_accepted_frame [simp]:
  "transition_accepted (s\<lparr>payments := tc\<rparr>) r = transition_accepted s r"
  "transition_accepted (s\<lparr>billingEvents := td\<rparr>) r = transition_accepted s r"
  "transition_accepted (s\<lparr>checkoutIntents := te\<rparr>) r = transition_accepted s r"
  "transition_accepted (s\<lparr>jobs := tf\<rparr>) r = transition_accepted s r"
  "transition_accepted (s\<lparr>auditEvents := tg\<rparr>) r = transition_accepted s r"
  "transition_accepted (s\<lparr>db_drawn := th\<rparr>) r = transition_accepted s r"
  by (simp_all add: transition_accepted_def)

lemma next_transition_revision_frame [simp]:
  "next_transition_revision (s\<lparr>subscriptions := ta\<rparr>) i = next_transition_revision s i"
  "next_transition_revision (s\<lparr>payments := tc\<rparr>) i = next_transition_revision s i"
  "next_transition_revision (s\<lparr>billingEvents := td\<rparr>) i = next_transition_revision s i"
  "next_transition_revision (s\<lparr>checkoutIntents := te\<rparr>) i = next_transition_revision s i"
  "next_transition_revision (s\<lparr>jobs := tf\<rparr>) i = next_transition_revision s i"
  "next_transition_revision (s\<lparr>auditEvents := tg\<rparr>) i = next_transition_revision s i"
  "next_transition_revision (s\<lparr>db_drawn := th\<rparr>) i = next_transition_revision s i"
  by (simp_all add: next_transition_revision_def)

lemma subscription_accepted_frame [simp]:
  "subscription_accepted (s\<lparr>subscriptions := ta\<rparr>) q r = subscription_accepted s q r"
  "subscription_accepted (s\<lparr>transitions := tb\<rparr>) q r = subscription_accepted s q r"
  "subscription_accepted (s\<lparr>payments := tc\<rparr>) q r = subscription_accepted s q r"
  "subscription_accepted (s\<lparr>billingEvents := td\<rparr>) q r = subscription_accepted s q r"
  "subscription_accepted (s\<lparr>checkoutIntents := te\<rparr>) q r = subscription_accepted s q r"
  "subscription_accepted (s\<lparr>jobs := tf\<rparr>) q r = subscription_accepted s q r"
  "subscription_accepted (s\<lparr>auditEvents := tg\<rparr>) q r = subscription_accepted s q r"
  "subscription_accepted (s\<lparr>db_drawn := th\<rparr>) q r = subscription_accepted s q r"
  by (simp_all add: subscription_accepted_def)

lemma payment_accepted_frame [simp]:
  "payment_accepted (s\<lparr>transitions := tb\<rparr>) q r = payment_accepted s q r"
  "payment_accepted (s\<lparr>payments := tc\<rparr>) q r = payment_accepted s q r"
  "payment_accepted (s\<lparr>billingEvents := td\<rparr>) q r = payment_accepted s q r"
  "payment_accepted (s\<lparr>checkoutIntents := te\<rparr>) q r = payment_accepted s q r"
  "payment_accepted (s\<lparr>jobs := tf\<rparr>) q r = payment_accepted s q r"
  "payment_accepted (s\<lparr>auditEvents := tg\<rparr>) q r = payment_accepted s q r"
  "payment_accepted (s\<lparr>db_drawn := th\<rparr>) q r = payment_accepted s q r"
  by (simp_all add: payment_accepted_def)

lemma checkout_accepted_frame [simp]:
  "checkout_accepted (s\<lparr>subscriptions := ta\<rparr>) q r = checkout_accepted s q r"
  "checkout_accepted (s\<lparr>transitions := tb\<rparr>) q r = checkout_accepted s q r"
  "checkout_accepted (s\<lparr>billingEvents := td\<rparr>) q r = checkout_accepted s q r"
  "checkout_accepted (s\<lparr>checkoutIntents := te\<rparr>) q r = checkout_accepted s q r"
  "checkout_accepted (s\<lparr>jobs := tf\<rparr>) q r = checkout_accepted s q r"
  "checkout_accepted (s\<lparr>auditEvents := tg\<rparr>) q r = checkout_accepted s q r"
  "checkout_accepted (s\<lparr>db_drawn := th\<rparr>) q r = checkout_accepted s q r"
  by (simp_all add: checkout_accepted_def)

text \<open>The effect of every write that commits.\<close>

lemma new_uuid_Inr [simp]:
  "new_uuid s = Inr r \<longleftrightarrow> r = (db_uuids s (db_drawn s), s\<lparr>db_drawn := Suc (db_drawn s)\<rparr>)"
  by (auto simp: new_uuid_def)

lemma insert_subscription_Inr:
  "insert_subscription mk s = Inr (r, s') \<longleftrightarrow>
     r = mk (db_uuids s (db_drawn s)) \<and> subscription_accepted s (subscriptions s) r
     \<and> s' = s\<lparr>subscriptions := subscriptions s @ [r], db_drawn := Suc (db_drawn s)\<rparr>"
  by (auto simp: insert_subscription_def andThen_Inr_iff)

lemma insert_transition_row_Inr:
  "insert_transition_row mk s = Inr (r, s') \<longleftrightarrow>
     r = mk (db_uuids s (db_drawn s)) \<and> transition_accepted s r
     \<and> s' = s\<lparr>transitions := transitions s @ [r], db_drawn := Suc (db_drawn s)\<rparr>"
  by (auto simp: insert_transition_row_def andThen_Inr_iff)

lemma insert_payment_Inr:
  "insert_payment mk s = Inr (r, s') \<longleftrightarrow>
     r = mk (db_uuids s (db_drawn s)) \<and> payment_accepted s (payments s) r
     \<and> s' = s\<lparr>payments := payments s @ [r], db_drawn := Suc (db_drawn s)\<rparr>"
  by (auto simp: insert_payment_def andThen_Inr_iff)

lemma insert_checkout_Inr:
  "insert_checkout mk s = Inr (r, s') \<longleftrightarrow>
     r = mk (db_uuids s (db_drawn s)) \<and> checkout_initial r
     \<and> checkout_accepted s (checkoutIntents s) r
     \<and> s' = s\<lparr>checkoutIntents := checkoutIntents s @ [r], db_drawn := Suc (db_drawn s)\<rparr>"
  by (auto simp: insert_checkout_def andThen_Inr_iff)

lemma insert_event_row_Inr:
  "insert_event_row mk s = Inr (x, s') \<longleftrightarrow>
     (let r = mk (db_uuids s (db_drawn s)) in
      event_checks r \<and> event_unprocessed r
      \<and> (case find_event s (ev_provider r) (ev_eventIdentity r) of
           Some _ \<Rightarrow> x = None \<and> s' = s\<lparr>db_drawn := Suc (db_drawn s)\<rparr>
         | None \<Rightarrow> ev_id r \<notin> ev_id ` set (billingEvents s) \<and> x = Some r
             \<and> s' = s\<lparr>billingEvents := billingEvents s @ [r], db_drawn := Suc (db_drawn s)\<rparr>))"
  by (auto simp: insert_event_row_def andThen_Inr_iff Let_def split: option.splits)

lemma insert_job_Inr:
  "insert_job r s = Inr (x, s') \<longleftrightarrow>
     job_checks r \<and> payment_of s (job_paymentId r) \<noteq> None \<and> job_paymentId r \<notin> job_paymentId ` set (jobs s)
     \<and> s' = s\<lparr>jobs := jobs s @ [r]\<rparr>"
  by (auto simp: insert_job_def andThen_Inr_iff)

lemma insert_audit_Inr:
  "insert_audit r s = Inr (x, s') \<longleftrightarrow> audit_checks r \<and> s' = s\<lparr>auditEvents := auditEvents s @ [r]\<rparr>"
  by (auto simp: insert_audit_def andThen_Inr_iff)

lemma update_subscription_Inr:
  "update_subscription i f s = Inr (x, s') \<longleftrightarrow>
     (case subscription_of s i of
        None \<Rightarrow> x = None \<and> s' = s
      | Some r \<Rightarrow> same_subscription r (f r)
          \<and> subscription_accepted s (filter (\<lambda>o'. sub_id o' \<noteq> i) (subscriptions s)) (f r)
          \<and> x = Some (f r)
          \<and> s' = s\<lparr>subscriptions := update_where (\<lambda>x. sub_id x = i) f (subscriptions s)\<rparr>)"
  by (auto simp: update_subscription_def andThen_Inr_iff split: option.splits)

lemma update_payment_Inr:
  "update_payment i c f s = Inr (x, s') \<longleftrightarrow>
     (case payment_of s i of
        None \<Rightarrow> x = None \<and> s' = s
      | Some r \<Rightarrow>
          if c r then same_payment r (f r)
            \<and> payment_accepted s (filter (\<lambda>o'. pay_id o' \<noteq> i) (payments s)) (f r)
            \<and> x = Some (f r)
            \<and> s' = s\<lparr>payments := update_where (\<lambda>x. pay_id x = i) f (payments s)\<rparr>
          else x = None \<and> s' = s)"
  by (auto simp: update_payment_def andThen_Inr_iff split: option.splits)

lemma update_event_Inr:
  "update_event i f s = Inr (x, s') \<longleftrightarrow>
     (case event_of s i of
        None \<Rightarrow> x = None \<and> s' = s
      | Some r \<Rightarrow> event_update_guard s r (f r) \<and> event_checks (f r) \<and> x = Some (f r)
          \<and> s' = s\<lparr>billingEvents := update_where (\<lambda>x. ev_id x = i) f (billingEvents s)\<rparr>)"
  by (auto simp: update_event_def andThen_Inr_iff split: option.splits)

lemma update_checkout_Inr:
  "update_checkout i f s = Inr (x, s') \<longleftrightarrow>
     (case checkout_of s i of
        None \<Rightarrow> x = None \<and> s' = s
      | Some r \<Rightarrow> checkout_update_guard r (f r)
          \<and> checkout_accepted s (filter (\<lambda>o'. ck_id o' \<noteq> i) (checkoutIntents s)) (f r)
          \<and> x = Some (f r)
          \<and> s' = s\<lparr>checkoutIntents := update_where (\<lambda>x. ck_id x = i) f (checkoutIntents s)\<rparr>)"
  by (auto simp: update_checkout_def andThen_Inr_iff split: option.splits)

lemma update_job_Inr:
  "update_job p c f s = Inr (x, s') \<longleftrightarrow>
     (case job_of s p of
        None \<Rightarrow> x = None \<and> s' = s
      | Some r \<Rightarrow>
          if c r then job_update_guard r (f r) \<and> job_checks (f r) \<and> x = Some (f r)
            \<and> s' = s\<lparr>jobs := update_where (\<lambda>x. job_paymentId x = p) f (jobs s)\<rparr>
          else x = None \<and> s' = s)"
  by (auto simp: update_job_def andThen_Inr_iff split: option.splits)

lemmas write_Inr = insert_subscription_Inr insert_transition_row_Inr insert_payment_Inr
  insert_checkout_Inr insert_event_row_Inr insert_job_Inr insert_audit_Inr
  update_subscription_Inr update_payment_Inr update_event_Inr update_checkout_Inr update_job_Inr

end
