(* ===== verification/Commercial_Steps.thy ===== *)
theory Commercial_Steps
  imports Billing_Db
begin

text \<open>
  The abstract protocol of the commercial core. Every transaction of the repositories is, for
  the tables it touches, a path of the steps defined here: a subscription is opened or changes
  its state together with the record of the change, a payment settles, an event is received and
  gets its outcome, a checkout intent is created, fails or turns into a payment with its
  reconciliation job. The invariants of the database are proved once, over the steps.
\<close>

section \<open>Steps\<close>

text \<open>What a state change leaves alone.\<close>

definition same_terms :: "subscription_row \<Rightarrow> subscription_row \<Rightarrow> bool" where
  "same_terms r r' \<longleftrightarrow>
     same_subscription r r'
     \<and> sub_currentPlanRevisionId r' = sub_currentPlanRevisionId r
     \<and> sub_boundPriceRevisionId r' = sub_boundPriceRevisionId r
     \<and> sub_startedAt r' = sub_startedAt r
     \<and> sub_currentPeriodStart r' = sub_currentPeriodStart r
     \<and> sub_graceUntil r' = sub_graceUntil r
     \<and> sub_cancelAtPeriodEnd r' = sub_cancelAtPeriodEnd r
     \<and> sub_canceledAt r' = sub_canceledAt r
     \<and> sub_stateRevision r' = sub_stateRevision r + 1"

definition opens :: "db \<Rightarrow> subscription_row \<Rightarrow> transition_row \<Rightarrow> bool" where
  "opens s r t \<longleftrightarrow>
     subscription_accepted s (subscriptions s) r
     \<and> sub_state r = ACTIVE \<and> sub_stateRevision r = 1 \<and> sub_graceUntil r = None
     \<and> tr_subscriptionId t = sub_id r \<and> tr_transitionRevision t = 1
     \<and> tr_fromState t = None \<and> tr_toState t = ACTIVE
     \<and> tr_id t \<notin> tr_id ` set (transitions s)"

definition changes_state ::
  "db \<Rightarrow> subscription_row \<Rightarrow> subscription_row \<Rightarrow> transition_row \<Rightarrow> bool" where
  "changes_state s r r' t \<longleftrightarrow>
     same_terms r r' \<and> sub_currentPeriodEnd r' = sub_currentPeriodEnd r
     \<and> validateSubscriptionStateTransition (Some (sub_state r)) (sub_state r') = None
     \<and> tr_subscriptionId t = sub_id r
     \<and> tr_transitionRevision t = next_transition_revision s (sub_id r)
     \<and> tr_fromState t = Some (sub_state r) \<and> tr_toState t = sub_state r'
     \<and> tr_id t \<notin> tr_id ` set (transitions s)"

definition payment_progress :: "payment_state \<Rightarrow> payment_state \<Rightarrow> bool" where
  "payment_progress a b \<longleftrightarrow>
     a = PENDING \<and> b \<in> {SUCCEEDED, PAYMENT_FAILED, PAYMENT_CANCELED}
   \<or> a \<in> {PAYMENT_FAILED, PAYMENT_CANCELED} \<and> b \<in> {SUCCEEDED, PAYMENT_FAILED, PAYMENT_CANCELED}
   \<or> a = b"

text \<open>An order that can still be paid: its intent is being created, or is READY with a payment that is
  PENDING.\<close>

definition order_open :: "db \<Rightarrow> checkout_intent_row \<Rightarrow> bool" where
  "order_open s c \<longleftrightarrow>
     ck_state c = CREATING
   \<or> ck_state c = READY
     \<and> (case ck_paymentId c of
          None \<Rightarrow> False
        | Some p \<Rightarrow> (case payment_of s p of None \<Rightarrow> False | Some q \<Rightarrow> pay_state q = PENDING))"

text \<open>A step writes the rows that carry one identity; \<open>f\<close> is the UPDATE.\<close>

inductive step :: "db \<Rightarrow> db \<Rightarrow> bool" where
  draw: "step s (s\<lparr>db_drawn := n\<rparr>)"
| audit: "step s (s\<lparr>auditEvents := auditEvents s @ [a]\<rparr>)"
| open_subscription:
    "opens s r t \<Longrightarrow>
     step s (s\<lparr>subscriptions := subscriptions s @ [r], transitions := transitions s @ [t]\<rparr>)"
| activate:
    "opens s r t \<Longrightarrow> payment_of s p = Some q \<Longrightarrow> same_payment q (f q) \<Longrightarrow>
     pay_subscriptionId q = None \<Longrightarrow> pay_subscriptionId (f q) = Some (sub_id r) \<Longrightarrow>
     pay_state (f q) = SUCCEEDED \<Longrightarrow> payment_progress (pay_state q) SUCCEEDED \<Longrightarrow>
     sub_accountId r = pay_accountId q \<Longrightarrow> sub_boundPriceRevisionId r = Some (pay_priceRevisionId q) \<Longrightarrow>
     step s (s\<lparr>subscriptions := subscriptions s @ [r], transitions := transitions s @ [t],
               payments := update_where (\<lambda>x. pay_id x = p) f (payments s)\<rparr>)"
| change_state:
    "subscription_of s i = Some r \<Longrightarrow> changes_state s r (f r) t \<Longrightarrow>
     subscription_accepted s (filter (\<lambda>o'. sub_id o' \<noteq> i) (subscriptions s)) (f r) \<Longrightarrow>
     step s (s\<lparr>subscriptions := update_where (\<lambda>x. sub_id x = i) f (subscriptions s),
               transitions := transitions s @ [t]\<rparr>)"
| extend:
    "subscription_of s i = Some r \<Longrightarrow> same_terms r (f r) \<Longrightarrow> sub_state (f r) = sub_state r \<Longrightarrow>
     sub_state r \<noteq> EXPIRED \<Longrightarrow> sub_currentPeriodEnd r < sub_currentPeriodEnd (f r) \<Longrightarrow>
     subscription_accepted s (filter (\<lambda>o'. sub_id o' \<noteq> i) (subscriptions s)) (f r) \<Longrightarrow>
     step s (s\<lparr>subscriptions := update_where (\<lambda>x. sub_id x = i) f (subscriptions s)\<rparr>)"
| settle_payment:
    "payment_of s p = Some q \<Longrightarrow> same_payment q (f q) \<Longrightarrow>
     pay_subscriptionId (f q) = pay_subscriptionId q \<Longrightarrow>
     payment_progress (pay_state q) (pay_state (f q)) \<Longrightarrow>
     step s (s\<lparr>payments := update_where (\<lambda>x. pay_id x = p) f (payments s)\<rparr>)"
| receive_event:
    "event_unprocessed r \<Longrightarrow> ev_id r \<notin> ev_id ` set (billingEvents s) \<Longrightarrow>
     find_event s (ev_provider r) (ev_eventIdentity r) = None \<Longrightarrow>
     step s (s\<lparr>billingEvents := billingEvents s @ [r]\<rparr>)"
| process_event:
    "event_of s i = Some r \<Longrightarrow> event_update_guard s r (f r) \<Longrightarrow>
     step s (s\<lparr>billingEvents := update_where (\<lambda>x. ev_id x = i) f (billingEvents s)\<rparr>)"
| create_checkout:
    "checkout_initial r \<Longrightarrow> checkout_accepted s (checkoutIntents s) r \<Longrightarrow>
     \<forall>c \<in> set (checkoutIntents s). ck_accountId c = ck_accountId r \<longrightarrow> \<not> order_open s c \<Longrightarrow>
     step s (s\<lparr>checkoutIntents := checkoutIntents s @ [r]\<rparr>)"
| fail_checkout:
    "checkout_of s i = Some r \<Longrightarrow> checkout_update_guard r (f r) \<Longrightarrow> ck_state (f r) = CHECKOUT_FAILED \<Longrightarrow>
     checkout_accepted s (filter (\<lambda>o'. ck_id o' \<noteq> i) (checkoutIntents s)) (f r) \<Longrightarrow>
     step s (s\<lparr>checkoutIntents := update_where (\<lambda>x. ck_id x = i) f (checkoutIntents s)\<rparr>)"
| ready_checkout:
    "checkout_of s i = Some r \<Longrightarrow> checkout_update_guard r (f r) \<Longrightarrow> ck_state (f r) = READY \<Longrightarrow>
     payment_accepted s (payments s) q \<Longrightarrow> pay_state q = PENDING \<Longrightarrow> pay_subscriptionId q = None \<Longrightarrow>
     ck_paymentId (f r) = Some (pay_id q) \<Longrightarrow> checkout_matches_payment (f r) q \<Longrightarrow>
     checkout_accepted (s\<lparr>payments := payments s @ [q]\<rparr>)
       (filter (\<lambda>o'. ck_id o' \<noteq> i) (checkoutIntents s)) (f r) \<Longrightarrow>
     job_paymentId j = pay_id q \<Longrightarrow> pay_id q \<notin> job_paymentId ` set (jobs s) \<Longrightarrow>
     job_state j = JOB_READY \<Longrightarrow>
     step s (s\<lparr>payments := payments s @ [q], jobs := jobs s @ [j],
               checkoutIntents := update_where (\<lambda>x. ck_id x = i) f (checkoutIntents s)\<rparr>)"
| update_job_row:
    "job_of s p = Some r \<Longrightarrow> job_update_guard r (f r) \<Longrightarrow> job_checks (f r) \<Longrightarrow>
     step s (s\<lparr>jobs := update_where (\<lambda>x. job_paymentId x = p) f (jobs s)\<rparr>)"

section \<open>The log as the source of the state\<close>

text \<open>
  Replaying a log from nothing: every record must continue the state and the numbering of its
  predecessor and be an allowed transition.
\<close>

fun replay_step ::
  "(subscription_state option \<times> int) option \<Rightarrow> transition_row \<Rightarrow> (subscription_state option \<times> int) option" where
  "replay_step None t = None"
| "replay_step (Some (cur, n)) t =
     (if tr_fromState t = cur \<and> tr_transitionRevision t = n + 1
         \<and> validateSubscriptionStateTransition cur (tr_toState t) = None
      then Some (Some (tr_toState t), n + 1) else None)"

definition replay :: "transition_row list \<Rightarrow> (subscription_state option \<times> int) option" where
  "replay ts = foldl replay_step (Some (None, 0)) ts"

lemma replay_Nil [simp]: "replay [] = Some (None, 0)"
  by (simp add: replay_def)

lemma replay_snoc [simp]: "replay (ts @ [t]) = replay_step (replay ts) t"
  by (simp add: replay_def)

lemma replay_single: "replay [t] = replay_step (Some (None, 0)) t"
  by (simp add: replay_def)

lemma replay_number: "replay ts = Some (cur, n) \<Longrightarrow> n = int (length ts)"
proof (induction ts arbitrary: cur n rule: rev_induct)
  case (snoc t ts)
  then show ?case
    by (cases "replay ts") (auto split: if_splits)
qed simp

lemma replay_state: "replay ts = Some (cur, n) \<Longrightarrow> ts \<noteq> [] \<Longrightarrow> cur = Some (tr_toState (last ts))"
proof (induction ts arbitrary: cur n rule: rev_induct)
  case (snoc t ts)
  then show ?case
    by (cases "replay ts") (auto split: if_splits)
qed simp

lemma replay_revisions:
  "replay ts = Some c \<Longrightarrow> map tr_transitionRevision ts = map int [1..<length ts + 1]"
proof (induction ts arbitrary: c rule: rev_induct)
  case (snoc t ts)
  then show ?case
    by (cases "replay ts") (auto split: if_splits dest: replay_number)
qed simp

lemma fold_max_revisions:
  "replay ts = Some (cur, n) \<Longrightarrow> fold (\<lambda>t m. max m (tr_transitionRevision t)) ts 0 = n"
proof (induction ts arbitrary: cur n rule: rev_induct)
  case (snoc t ts)
  then obtain cur' n' where "replay ts = Some (cur', n')" "n = n' + 1" "tr_transitionRevision t = n' + 1"
    by (cases "replay ts") (auto split: if_splits)
  with snoc show ?case by simp
qed simp

lemma latest_of_replay:
  "replay ts = Some (cur, n) \<Longrightarrow>
     latest_transition p ts = (if filter p ts = [] then None else Some (last (filter p ts)))"
proof (induction ts arbitrary: cur n rule: rev_induct)
  case (snoc t ts)
  then obtain cur' n' where r: "replay ts = Some (cur', n')" "tr_transitionRevision t = n' + 1"
    by (cases "replay ts") (auto split: if_splits)
  have below: "tr_transitionRevision b < tr_transitionRevision t" if "b \<in> set ts" for b
  proof -
    have "tr_transitionRevision b \<in> set (map int [1..<length ts + 1])"
      using replay_revisions [OF r(1)] that by (metis in_set_conv_nth nth_map set_map imageI)
    then show ?thesis
      using r replay_number [OF r(1)] by auto
  qed
  have "last (filter p ts) \<in> set ts" if "filter p ts \<noteq> []"
    using last_in_set [OF that] by simp
  with snoc.IH [OF r(1)] below show ?case
    by (auto simp: latest_transition_def split: if_splits option.splits)
qed (simp add: latest_transition_def)

text \<open>A suspended subscription has the state before its suspension in the last record.\<close>

lemma suspended_origin_of_replay:
  assumes "replay ts = Some (Some SUSPENDED, n)"
  shows "\<exists>t. ts \<noteq> [] \<and> last ts = t \<and> tr_toState t = SUSPENDED
    \<and> latest_transition (\<lambda>_. True) ts = Some t
    \<and> latest_transition (\<lambda>t. tr_toState t = SUSPENDED) ts = Some t
    \<and> (\<exists>o'. tr_fromState t = Some o' \<and> o' \<noteq> SUSPENDED \<and> o' \<noteq> EXPIRED)"
proof -
  obtain us t where ts: "ts = us @ [t]"
    using assms by (cases ts rule: rev_cases) auto
  then have t: "tr_toState t = SUSPENDED"
    "validateSubscriptionStateTransition (tr_fromState t) SUSPENDED = None"
    using assms by (cases "replay us"; auto split: if_splits)+
  then have "\<exists>o'. tr_fromState t = Some o' \<and> o' \<noteq> SUSPENDED \<and> o' \<noteq> EXPIRED"
    by (cases "tr_fromState t") (auto simp: suspend_allowed allowed_initial)
  with t ts latest_of_replay [OF assms, of "\<lambda>_. True"]
    latest_of_replay [OF assms, of "\<lambda>t. tr_toState t = SUSPENDED"]
  show ?thesis by (auto split: if_splits)
qed

section \<open>Invariants\<close>

definition keys_distinct :: "db \<Rightarrow> bool" where
  "keys_distinct s \<longleftrightarrow>
     distinct (map sub_id (subscriptions s)) \<and> distinct (map tr_id (transitions s))
     \<and> distinct (map pay_id (payments s)) \<and> distinct (map ev_id (billingEvents s))
     \<and> distinct (map ck_id (checkoutIntents s)) \<and> distinct (map job_paymentId (jobs s))"

definition at_most_one_current :: "subscription_row set \<Rightarrow> bool" where
  "at_most_one_current A \<longleftrightarrow>
     (\<forall>r \<in> A. \<forall>r' \<in> A. is_current (sub_accountId r) r \<longrightarrow> is_current (sub_accountId r) r' \<longrightarrow> r = r')"

definition one_current :: "db \<Rightarrow> bool" where
  "one_current s \<longleftrightarrow> at_most_one_current (set (subscriptions s))"

definition log_explains :: "db \<Rightarrow> subscription_row \<Rightarrow> bool" where
  "log_explains s r \<longleftrightarrow>
     (case replay (log_of s (sub_id r)) of
        None \<Rightarrow> False
      | Some (cur, n) \<Rightarrow> cur = Some (sub_state r) \<and> n \<le> sub_stateRevision r)"

definition logs_coherent :: "db \<Rightarrow> bool" where
  "logs_coherent s \<longleftrightarrow>
     list_all (log_explains s) (subscriptions s)
     \<and> list_all (\<lambda>t. tr_subscriptionId t \<in> sub_id ` set (subscriptions s)) (transitions s)"

text \<open>A linked payment has succeeded and paid for exactly its subscription.\<close>

definition pays_for :: "payment_row \<Rightarrow> subscription_row \<Rightarrow> bool" where
  "pays_for q r \<longleftrightarrow>
     pay_subscriptionId q = Some (sub_id r) \<and> sub_accountId r = pay_accountId q
     \<and> sub_boundPriceRevisionId r = Some (pay_priceRevisionId q)"

definition links_ok :: "payment_row set \<Rightarrow> subscription_row set \<Rightarrow> bool" where
  "links_ok P S \<longleftrightarrow>
     (\<forall>q \<in> P. pay_subscriptionId q \<noteq> None \<longrightarrow> pay_state q = SUCCEEDED \<and> (\<exists>r \<in> S. pays_for q r))
     \<and> (\<forall>q \<in> P. \<forall>q' \<in> P.
          pay_subscriptionId q \<noteq> None \<longrightarrow> pay_subscriptionId q = pay_subscriptionId q' \<longrightarrow> q = q')"

definition links_coherent :: "db \<Rightarrow> bool" where
  "links_coherent s \<longleftrightarrow> links_ok (set (payments s)) (set (subscriptions s))"

text \<open>A payment comes from one READY checkout intent and has its reconciliation job.\<close>

definition payments_ordered ::
  "payment_row set \<Rightarrow> checkout_intent_row set \<Rightarrow> reconciliation_job_row set \<Rightarrow> bool" where
  "payments_ordered P C J \<longleftrightarrow>
     (\<forall>q \<in> P. (\<exists>c \<in> C. ck_paymentId c = Some (pay_id q)) \<and> (\<exists>j \<in> J. job_paymentId j = pay_id q))"

definition checkout_paid :: "payment_row set \<Rightarrow> checkout_intent_row \<Rightarrow> bool" where
  "checkout_paid P c \<longleftrightarrow>
     ck_paymentId c = None
   \<or> ck_state c = READY
     \<and> (\<exists>q \<in> P. ck_paymentId c = Some (pay_id q) \<and> checkout_matches_payment c q)"

definition one_checkout_each :: "checkout_intent_row set \<Rightarrow> bool" where
  "one_checkout_each C \<longleftrightarrow>
     (\<forall>c \<in> C. \<forall>c' \<in> C. ck_paymentId c \<noteq> None \<longrightarrow> ck_paymentId c = ck_paymentId c' \<longrightarrow> c = c')"

definition orders_ok ::
  "payment_row set \<Rightarrow> checkout_intent_row set \<Rightarrow> reconciliation_job_row set \<Rightarrow> bool" where
  "orders_ok P C J \<longleftrightarrow>
     payments_ordered P C J \<and> (\<forall>c \<in> C. checkout_paid P c) \<and> one_checkout_each C"

definition orders_coherent :: "db \<Rightarrow> bool" where
  "orders_coherent s \<longleftrightarrow> orders_ok (set (payments s)) (set (checkoutIntents s)) (set (jobs s))"

text \<open>An event is unprocessed, or it has its one outcome.\<close>

definition event_settled :: "billing_event_row \<Rightarrow> bool" where
  "event_settled r \<longleftrightarrow>
     ev_processingState r \<noteq> VERIFIED \<and> ev_processedAt r \<noteq> None
     \<and> (ev_processingState r = EVENT_FAILED \<longleftrightarrow> ev_failureCode r \<noteq> None)"

definition events_coherent :: "db \<Rightarrow> bool" where
  "events_coherent s \<longleftrightarrow>
     list_all (\<lambda>r. event_unprocessed r \<or> event_settled r) (billingEvents s)
     \<and> distinct (map (\<lambda>r. (ev_provider r, ev_eventIdentity r)) (billingEvents s))"

definition commercial_inv :: "db \<Rightarrow> bool" where
  "commercial_inv s \<longleftrightarrow>
     keys_distinct s \<and> one_current s \<and> logs_coherent s \<and> links_coherent s
     \<and> orders_coherent s \<and> events_coherent s"

section \<open>Every step keeps the invariants\<close>

lemma keys_distinctD:
  assumes "keys_distinct s"
  shows "distinct (map sub_id (subscriptions s))" "distinct (map tr_id (transitions s))"
    "distinct (map pay_id (payments s))" "distinct (map ev_id (billingEvents s))"
    "distinct (map ck_id (checkoutIntents s))" "distinct (map job_paymentId (jobs s))"
  using assms by (simp_all add: keys_distinct_def)

lemmas row_ofs = subscription_of_def transition_of_def payment_of_def event_of_def checkout_of_def job_of_def

lemma subscription_rows:
  "keys_distinct s \<Longrightarrow> subscription_of s i = Some r \<Longrightarrow>
     set (update_where (\<lambda>x. sub_id x = i) f (subscriptions s)) = insert (f r) (set (subscriptions s) - {r})
   \<and> set (filter (\<lambda>x. sub_id x \<noteq> i) (subscriptions s)) = set (subscriptions s) - {r}
   \<and> r \<in> set (subscriptions s) \<and> sub_id r = i"
  by (simp add: subscription_of_def keys_distinctD set_update_row set_filter_other find_Some_mem
      del: set_filter)
    (auto dest: find_Some_mem)

lemma payment_rows:
  "keys_distinct s \<Longrightarrow> payment_of s i = Some r \<Longrightarrow>
     set (update_where (\<lambda>x. pay_id x = i) f (payments s)) = insert (f r) (set (payments s) - {r})
   \<and> r \<in> set (payments s) \<and> pay_id r = i"
  by (simp add: payment_of_def keys_distinctD set_update_row) (auto dest: find_Some_mem)

lemma event_rows:
  "keys_distinct s \<Longrightarrow> event_of s i = Some r \<Longrightarrow>
     set (update_where (\<lambda>x. ev_id x = i) f (billingEvents s)) = insert (f r) (set (billingEvents s) - {r})
   \<and> r \<in> set (billingEvents s) \<and> ev_id r = i"
  by (simp add: event_of_def keys_distinctD set_update_row) (auto dest: find_Some_mem)

lemma checkout_rows:
  "keys_distinct s \<Longrightarrow> checkout_of s i = Some r \<Longrightarrow>
     set (update_where (\<lambda>x. ck_id x = i) f (checkoutIntents s)) = insert (f r) (set (checkoutIntents s) - {r})
   \<and> set (filter (\<lambda>x. ck_id x \<noteq> i) (checkoutIntents s)) = set (checkoutIntents s) - {r}
   \<and> r \<in> set (checkoutIntents s) \<and> ck_id r = i"
  by (simp add: checkout_of_def keys_distinctD set_update_row set_filter_other find_Some_mem
      del: set_filter)
    (auto dest: find_Some_mem)

lemma job_rows:
  "keys_distinct s \<Longrightarrow> job_of s i = Some r \<Longrightarrow>
     set (update_where (\<lambda>x. job_paymentId x = i) f (jobs s)) = insert (f r) (set (jobs s) - {r})
   \<and> r \<in> set (jobs s) \<and> job_paymentId r = i"
  by (simp add: job_of_def keys_distinctD set_update_row) (auto dest: find_Some_mem)

lemmas same_defs = same_subscription_def same_terms_def same_payment_def checkout_update_guard_def
  job_update_guard_def event_update_guard_def

lemma step_keys_distinct: "step s s' \<Longrightarrow> keys_distinct s \<Longrightarrow> keys_distinct s'"
proof (induction rule: step.induct)
  case (open_subscription s r t)
  then show ?case
    by (simp add: keys_distinct_def opens_def subscription_accepted_def)
next
  case (activate s r t p q f)
  then show ?case
    by (simp add: keys_distinct_def opens_def subscription_accepted_def payment_of_def
        map_update_row [where g = pay_id] same_payment_def)
next
  case (change_state s i r f t)
  then show ?case
    by (simp add: keys_distinct_def changes_state_def subscription_of_def
        map_update_row [where g = sub_id] same_defs)
next
  case (extend s i r f)
  then show ?case
    by (simp add: keys_distinct_def subscription_of_def map_update_row [where g = sub_id] same_defs)
next
  case (settle_payment s p q f)
  then show ?case
    by (simp add: keys_distinct_def payment_of_def map_update_row [where g = pay_id] same_defs)
next
  case (process_event s i r f)
  then show ?case
    by (simp add: keys_distinct_def event_of_def map_update_row [where g = ev_id] same_defs)
next
  case (create_checkout r s)
  then show ?case
    by (auto simp: keys_distinct_def checkout_accepted_def checkout_distinct_def list_all_iff)
next
  case (fail_checkout s i r f)
  then show ?case
    by (simp add: keys_distinct_def checkout_of_def map_update_row [where g = ck_id] same_defs)
next
  case (ready_checkout s i r f q j)
  then show ?case
    by (simp add: keys_distinct_def checkout_of_def map_update_row [where g = ck_id] same_defs
        payment_accepted_def)
next
  case (update_job_row s p r f)
  then show ?case
    by (simp add: keys_distinct_def job_of_def map_update_row [where g = job_paymentId] same_defs)
qed (simp_all add: keys_distinct_def)

lemma at_most_one_insert:
  assumes "at_most_one_current A" and "B \<subseteq> A"
    and "sub_state x \<noteq> EXPIRED \<longrightarrow> (\<forall>o' \<in> B. \<not> is_current (sub_accountId x) o')"
  shows "at_most_one_current (insert x B)"
  unfolding at_most_one_current_def
proof (intro ballI impI)
  fix r r'
  assume r: "r \<in> insert x B" "r' \<in> insert x B"
    and c: "is_current (sub_accountId r) r" "is_current (sub_accountId r) r'"
  have x: "is_current a x \<longrightarrow> sub_accountId x = a \<and> (\<forall>o' \<in> B. \<not> is_current a o')" for a
    using assms(3) by (auto simp: is_current_def)
  show "r = r'"
  proof (cases "r = x \<or> r' = x")
    case True
    then show ?thesis using r c x [of "sub_accountId r"] by blast
  next
    case False
    then have "r \<in> A" "r' \<in> A" using r assms(2) by auto
    then show ?thesis using assms(1) c by (auto simp: at_most_one_current_def)
  qed
qed

lemma step_one_current:
  assumes "step s s'" and "keys_distinct s" and "one_current s"
  shows "one_current s'"
  using assms
proof (induction rule: step.induct)
  case (open_subscription s r t)
  then show ?case
    by (simp add: one_current_def opens_def subscription_accepted_def list_all_iff at_most_one_insert)
next
  case (activate s r t p q f)
  then show ?case
    by (simp add: one_current_def opens_def subscription_accepted_def list_all_iff at_most_one_insert)
next
  case (change_state s i r f t)
  note rows = subscription_rows [OF change_state.prems(1) change_state.hyps(1), of f]
  show ?case
    using change_state rows at_most_one_insert [of "set (subscriptions s)" "set (subscriptions s) - {r}" "f r"]
    by (simp add: one_current_def subscription_accepted_def list_all_iff del: set_filter)
next
  case (extend s i r f)
  note rows = subscription_rows [OF extend.prems(1) extend.hyps(1), of f]
  show ?case
    using extend rows at_most_one_insert [of "set (subscriptions s)" "set (subscriptions s) - {r}" "f r"]
    by (simp add: one_current_def subscription_accepted_def list_all_iff del: set_filter)
qed (simp_all add: one_current_def)

lemma log_of_snoc:
  "transitions s' = transitions s @ [t] \<Longrightarrow>
     log_of s' i = log_of s i @ (if tr_subscriptionId t = i then [t] else [])"
  by (simp add: log_of_def)

lemma log_of_same: "transitions s' = transitions s \<Longrightarrow> log_of s' i = log_of s i"
  by (simp add: log_of_def)

lemma log_explains_same:
  "log_of s' (sub_id r) = log_of s (sub_id r) \<Longrightarrow> log_explains s' r = log_explains s r"
  by (simp add: log_explains_def)

text \<open>The log after one more subscription and its first record.\<close>

lemma opened_log_coherent:
  assumes "opens s r t" and "logs_coherent s"
    and "subscriptions s' = subscriptions s @ [r]" and "transitions s' = transitions s @ [t]"
  shows "logs_coherent s'"
proof -
  have t: "tr_subscriptionId t = sub_id r" and fresh: "sub_id r \<notin> sub_id ` set (subscriptions s)"
    using assms(1) by (simp_all add: opens_def subscription_accepted_def)
  have "tr_subscriptionId x \<noteq> sub_id r" if "x \<in> set (transitions s)" for x
  proof -
    have "tr_subscriptionId x \<in> sub_id ` set (subscriptions s)"
      using assms(2) that by (simp add: logs_coherent_def list_all_iff)
    with fresh show ?thesis by metis
  qed
  then have none: "log_of s (sub_id r) = []"
    by (simp add: log_of_def filter_empty_conv)
  then have "log_explains s' r"
    using assms(1) by (simp add: log_explains_def log_of_snoc [OF assms(4)] t opens_def allowed_initial replay_single)
  moreover have "log_explains s' r0" if "r0 \<in> set (subscriptions s)" for r0
  proof -
    have "sub_id r0 \<noteq> sub_id r"
    proof
      assume e: "sub_id r0 = sub_id r"
      show False using fresh imageI [OF that, of sub_id] by (simp add: e)
    qed
    then have "log_of s' (sub_id r0) = log_of s (sub_id r0)"
      by (simp add: log_of_snoc [OF assms(4)] t)
    then have "log_explains s' r0 = log_explains s r0"
      by (rule log_explains_same)
    then show ?thesis
      using assms(2) that by (simp add: logs_coherent_def list_all_iff)
  qed
  ultimately have "\<forall>r0 \<in> set (subscriptions s'). log_explains s' r0"
    unfolding assms(3) by simp
  moreover have "\<forall>u \<in> set (transitions s'). tr_subscriptionId u \<in> sub_id ` set (subscriptions s')"
    using assms(2) by (simp add: logs_coherent_def list_all_iff assms(3,4) t)
  ultimately show ?thesis
    unfolding logs_coherent_def list_all_iff by (rule conjI)
qed

text \<open>The log after a change of state.\<close>

lemma log_explainsE:
  assumes "log_explains s r"
  obtains n where "replay (log_of s (sub_id r)) = Some (Some (sub_state r), n)"
    and "n \<le> sub_stateRevision r" and "next_transition_revision s (sub_id r) = n + 1"
proof -
  obtain n where n: "replay (log_of s (sub_id r)) = Some (Some (sub_state r), n)"
    "n \<le> sub_stateRevision r"
    using assms by (auto simp: log_explains_def split: option.splits)
  show thesis
    by (rule that [OF n]) (simp add: next_transition_revision_def fold_max_revisions [OF n(1)])
qed

lemma changed_log_explains:
  assumes "log_explains s r" and "changes_state s r r' t" and "transitions s' = transitions s @ [t]"
  shows "log_explains s' r'"
proof (rule log_explainsE [OF assms(1)])
  fix n
  assume n: "replay (log_of s (sub_id r)) = Some (Some (sub_state r), n)"
    "n \<le> sub_stateRevision r" "next_transition_revision s (sub_id r) = n + 1"
  have id: "sub_id r' = sub_id r" "sub_stateRevision r' = sub_stateRevision r + 1"
    using assms(2) by (simp_all add: changes_state_def same_terms_def same_subscription_def)
  show ?thesis
    using assms(2) n by (simp add: log_explains_def log_of_snoc [OF assms(3)] id changes_state_def)
qed

lemma same_image: "r \<in> A \<Longrightarrow> g x = g r \<Longrightarrow> insert (g x) (g ` (A - {r})) = g ` A"
  by (auto simp: image_iff)

lemma logs_coherent_cong:
  assumes "subscriptions s' = subscriptions s" and "transitions s' = transitions s"
  shows "logs_coherent s' = logs_coherent s"
proof -
  have "log_explains s' = log_explains s"
    by (intro ext log_explains_same log_of_same assms(2))
  then show ?thesis by (simp add: logs_coherent_def assms)
qed

text \<open>Writing one subscription keeps the logs coherent when the log explains the new row.\<close>

lemma written_logs_coherent:
  assumes "keys_distinct s" and "logs_coherent s" and row: "subscription_of s i = Some r"
    and subs: "subscriptions s' = update_where (\<lambda>x. sub_id x = i) f (subscriptions s)"
    and id: "sub_id (f r) = sub_id r" and new: "log_explains s' (f r)"
    and others: "\<And>j. j \<noteq> sub_id r \<Longrightarrow> log_of s' j = log_of s j"
    and fk: "\<And>t. t \<in> set (transitions s') \<Longrightarrow> t \<in> set (transitions s) \<or> tr_subscriptionId t = sub_id r"
  shows "logs_coherent s'"
proof -
  have rows: "set (subscriptions s') = insert (f r) (set (subscriptions s) - {r})"
    and r: "r \<in> set (subscriptions s)"
    using subscription_rows [OF assms(1) row, of f] subs by simp_all
  have ids: "sub_id ` set (subscriptions s') = sub_id ` set (subscriptions s)"
    unfolding rows using r id by (simp add: same_image)
  have old: "log_explains s' r0" if "r0 \<in> set (subscriptions s) - {r}" for r0
  proof -
    have "sub_id r0 \<noteq> sub_id r"
      using that r distinct_map_unique [OF keys_distinctD(1) [OF assms(1)], of r0 r] by blast
    then have "log_explains s' r0 = log_explains s r0"
      by (intro log_explains_same others)
    then show ?thesis
      using assms(2) that by (simp add: logs_coherent_def list_all_iff)
  qed
  have "tr_subscriptionId t \<in> sub_id ` set (subscriptions s)" if "t \<in> set (transitions s')" for t
  proof (rule disjE [OF fk [OF that]])
    show ?thesis if "t \<in> set (transitions s)"
      using that assms(2) by (simp add: logs_coherent_def list_all_iff)
    show ?thesis if "tr_subscriptionId t = sub_id r"
      unfolding that using r by (rule imageI)
  qed
  then have "\<forall>t \<in> set (transitions s'). tr_subscriptionId t \<in> sub_id ` set (subscriptions s')"
    by (simp add: ids)
  moreover have "\<forall>r0 \<in> set (subscriptions s'). log_explains s' r0"
    unfolding rows using old new by blast
  ultimately show ?thesis
    unfolding logs_coherent_def list_all_iff by simp
qed

lemma log_explains_of:
  "keys_distinct s \<Longrightarrow> logs_coherent s \<Longrightarrow> subscription_of s i = Some r \<Longrightarrow> log_explains s r"
  using subscription_rows [of s i r] by (simp add: logs_coherent_def list_all_iff)

lemma step_logs_coherent:
  assumes "step s s'" and "keys_distinct s" and "logs_coherent s"
  shows "logs_coherent s'"
  using assms
proof (induction rule: step.induct)
  case (open_subscription s r t)
  show ?case
    by (rule opened_log_coherent [OF open_subscription.hyps open_subscription.prems(2)]) simp_all
next
  case (activate s r t p q f)
  show ?case
    by (rule opened_log_coherent [OF activate.hyps(1) activate.prems(2)]) simp_all
next
  case (change_state s i r f t)
  let ?s' = "s\<lparr>subscriptions := update_where (\<lambda>x. sub_id x = i) f (subscriptions s),
    transitions := transitions s @ [t]\<rparr>"
  have t: "tr_subscriptionId t = sub_id r" "sub_id (f r) = sub_id r"
    using change_state.hyps(2) by (simp_all add: changes_state_def same_terms_def same_subscription_def)
  note explains = log_explains_of [OF change_state.prems change_state.hyps(1)]
  show ?case
  proof (rule written_logs_coherent [where f = f, OF change_state.prems change_state.hyps(1)])
    show "log_explains ?s' (f r)"
      by (rule changed_log_explains [OF explains change_state.hyps(2)]) simp
    show "log_of ?s' j = log_of s j" if "j \<noteq> sub_id r" for j
      using that by (simp add: log_of_snoc [of ?s' s t] t)
    show "x \<in> set (transitions s) \<or> tr_subscriptionId x = sub_id r" if "x \<in> set (transitions ?s')" for x
      using that t by auto
  qed (simp_all add: t)
next
  case (extend s i r f)
  let ?s' = "s\<lparr>subscriptions := update_where (\<lambda>x. sub_id x = i) f (subscriptions s)\<rparr>"
  have f: "sub_id (f r) = sub_id r" "sub_state (f r) = sub_state r"
    "sub_stateRevision (f r) = sub_stateRevision r + 1"
    using extend.hyps by (simp_all add: same_terms_def same_subscription_def)
  note explains = log_explains_of [OF extend.prems extend.hyps(1)]
  show ?case
  proof (rule written_logs_coherent [where f = f, OF extend.prems extend.hyps(1)])
    show "log_explains ?s' (f r)"
      using explains by (rule log_explainsE) (simp add: log_explains_def f log_of_same [of ?s' s])
  qed (simp_all add: f log_of_same [of ?s' s])
next
  case (settle_payment s p q f)
  then show ?case by (subst logs_coherent_cong) simp_all
next
  case (process_event s i r f)
  then show ?case by (subst logs_coherent_cong) simp_all
next
  case (ready_checkout s i r f q j)
  then show ?case by (subst logs_coherent_cong [where s = s]) simp_all
qed (subst logs_coherent_cong; simp)+

lemma links_new_subscription: "links_ok P S \<Longrightarrow> links_ok P (insert r S)"
  unfolding links_ok_def by blast

lemma links_new_payment:
  "links_ok P S \<Longrightarrow> pay_subscriptionId q = None \<Longrightarrow> links_ok (insert q P) S"
  unfolding links_ok_def by fastforce

lemma links_change_subscription:
  assumes "links_ok P S" and "same_terms r r'" and "r \<in> S"
  shows "links_ok P (insert r' (S - {r}))"
proof -
  have "pays_for q r' = pays_for q r" for q
    using assms(2) by (simp add: pays_for_def same_terms_def same_subscription_def)
  then show ?thesis
    using assms(1,3) unfolding links_ok_def by blast
qed

lemma links_change_payment:
  assumes "links_ok P S" and "same_payment q q'" and "q \<in> P"
    and "pay_subscriptionId q' = pay_subscriptionId q"
    and "pay_subscriptionId q \<noteq> None \<longrightarrow> pay_state q' = SUCCEEDED"
  shows "links_ok (insert q' (P - {q})) S"
proof -
  have "pays_for q' r = pays_for q r" for r
    using assms(2,4) by (simp add: pays_for_def same_payment_def)
  then show ?thesis
    using assms(1,3,4,5) unfolding links_ok_def by (simp add: Ball_def Bex_def) metis
qed

lemma links_link:
  assumes "links_ok P S" and "q \<in> P" and "pays_for q' r" and "pay_state q' = SUCCEEDED"
    and "sub_id r \<notin> sub_id ` S"
  shows "links_ok (insert q' (P - {q})) (insert r S)"
proof -
  have "pay_subscriptionId x \<noteq> Some (sub_id r)" if x: "x \<in> P" for x
  proof
    assume "pay_subscriptionId x = Some (sub_id r)"
    then obtain r0 where "r0 \<in> S" "pays_for x r0"
      using assms(1) x unfolding links_ok_def by blast
    then have "sub_id r \<in> sub_id ` S"
      using \<open>pay_subscriptionId x = _\<close> by (auto simp: pays_for_def)
    with assms(5) show False by blast
  qed
  moreover have "pay_subscriptionId q' = Some (sub_id r)"
    using assms(3) by (simp add: pays_for_def)
  ultimately have uniq: "q1 = q2"
    if "q1 \<in> insert q' (P - {q})" "q2 \<in> insert q' (P - {q})"
      "pay_subscriptionId q1 \<noteq> None" "pay_subscriptionId q1 = pay_subscriptionId q2" for q1 q2
    using that assms(1) unfolding links_ok_def by fastforce
  have "pay_state q1 = SUCCEEDED \<and> (\<exists>r' \<in> insert r S. pays_for q1 r')"
    if "q1 \<in> insert q' (P - {q})" "pay_subscriptionId q1 \<noteq> None" for q1
    using that assms(1,3,4) unfolding links_ok_def by fastforce
  with uniq show ?thesis
    unfolding links_ok_def by blast
qed

lemma step_links_coherent:
  assumes "step s s'" and "keys_distinct s" and "links_coherent s"
  shows "links_coherent s'"
  using assms
proof (induction rule: step.induct)
  case (open_subscription s r t)
  then show ?case by (simp add: links_coherent_def links_new_subscription)
next
  case (activate s r t p q f)
  have rows: "set (update_where (\<lambda>x. pay_id x = p) f (payments s)) = insert (f q) (set (payments s) - {q})"
    "q \<in> set (payments s)"
    using payment_rows [OF activate.prems(1) activate.hyps(2)] by simp_all
  have "pays_for (f q) r"
    using activate.hyps by (simp add: pays_for_def same_payment_def)
  then show ?case
    using activate links_link [of "set (payments s)" "set (subscriptions s)" q "f q" r] rows
    by (simp add: links_coherent_def opens_def subscription_accepted_def)
next
  case (change_state s i r f t)
  then show ?case
    using subscription_rows [OF change_state.prems(1) change_state.hyps(1), of f]
    by (simp add: links_coherent_def links_change_subscription changes_state_def del: set_filter)
next
  case (extend s i r f)
  then show ?case
    using subscription_rows [OF extend.prems(1) extend.hyps(1), of f]
    by (simp add: links_coherent_def links_change_subscription del: set_filter)
next
  case (settle_payment s p q f)
  have rows: "set (update_where (\<lambda>x. pay_id x = p) f (payments s)) = insert (f q) (set (payments s) - {q})"
    "q \<in> set (payments s)"
    using payment_rows [OF settle_payment.prems(1) settle_payment.hyps(1)] by simp_all
  have "pay_state q = SUCCEEDED" if "pay_subscriptionId q \<noteq> None"
    using settle_payment.prems(2) rows that unfolding links_coherent_def links_ok_def by blast
  then have "pay_subscriptionId q \<noteq> None \<longrightarrow> pay_state (f q) = SUCCEEDED"
    using settle_payment.hyps(4) by (auto simp: payment_progress_def)
  then show ?case
    using settle_payment rows links_change_payment [of "set (payments s)" "set (subscriptions s)" q "f q"]
    by (simp add: links_coherent_def)
next
  case (ready_checkout s i r f q j)
  then show ?case by (simp add: links_coherent_def links_new_payment)
qed (simp_all add: links_coherent_def)

lemma checkout_paid_change:
  assumes "same_payment q q'" and "q \<in> P" and "checkout_paid P c"
  shows "checkout_paid (insert q' (P - {q})) c"
proof -
  have "pay_id q' = pay_id q" "checkout_matches_payment c q' = checkout_matches_payment c q"
    using assms(1) by (simp_all add: same_payment_def checkout_matches_payment_def)
  then show ?thesis
    using assms(2,3) unfolding checkout_paid_def by auto
qed

lemma checkout_paid_mono: "checkout_paid P c \<Longrightarrow> checkout_paid (insert q P) c"
  unfolding checkout_paid_def by blast

lemma orders_change_payment:
  assumes "orders_ok P C J" and "same_payment q q'" and "q \<in> P"
  shows "orders_ok (insert q' (P - {q})) C J"
proof -
  have "pay_id q' = pay_id q"
    using assms(2) by (simp add: same_payment_def)
  then have "payments_ordered (insert q' (P - {q})) C J"
    using assms(1,3) by (auto simp: orders_ok_def payments_ordered_def)
  then show ?thesis
    using assms by (simp add: orders_ok_def checkout_paid_change)
qed

lemma orders_new_checkout:
  "orders_ok P C J \<Longrightarrow> ck_paymentId c = None \<Longrightarrow> orders_ok P (insert c C) J"
  unfolding orders_ok_def payments_ordered_def one_checkout_each_def
  by (auto simp: checkout_paid_def)

lemma orders_change_checkout:
  assumes "orders_ok P C J" and "ck_paymentId c = None" and "ck_paymentId c' = None"
  shows "orders_ok P (insert c' (C - {c})) J"
proof -
  have "payments_ordered P (insert c' (C - {c})) J"
    using assms(1,2) unfolding orders_ok_def payments_ordered_def
    by (metis Diff_iff empty_iff insert_iff option.distinct(1))
  then show ?thesis
    using assms unfolding orders_ok_def one_checkout_each_def by (auto simp: checkout_paid_def)
qed

lemma orders_change_job:
  assumes "orders_ok P C J" and "job_paymentId j' = job_paymentId j"
  shows "orders_ok P C (insert j' (J - {j}))"
proof -
  have "payments_ordered P C (insert j' (J - {j}))"
    using assms unfolding orders_ok_def payments_ordered_def
    by (metis Diff_iff empty_iff insert_iff)
  then show ?thesis
    using assms(1) by (simp add: orders_ok_def)
qed

lemma orders_ready:
  assumes "orders_ok P C J" and "ck_paymentId c = None" and "ck_state c' = READY"
    and "ck_paymentId c' = Some (pay_id q)" and "checkout_matches_payment c' q"
    and "job_paymentId j = pay_id q" and "pay_id q \<notin> pay_id ` P"
  shows "orders_ok (insert q P) (insert c' (C - {c})) (insert j J)"
proof -
  have paid: "checkout_paid P x" if "x \<in> C" for x
    using assms(1) that by (simp add: orders_ok_def)
  have new: "ck_paymentId x \<noteq> Some (pay_id q)" if x: "x \<in> C" for x
  proof
    assume "ck_paymentId x = Some (pay_id q)"
    then obtain q0 where "q0 \<in> P" "pay_id q = pay_id q0"
      using paid [OF x] by (auto simp: checkout_paid_def)
    then show False
      using assms(7) by blast
  qed
  have "payments_ordered (insert q P) (insert c' (C - {c})) (insert j J)"
    unfolding payments_ordered_def
  proof
    fix x
    assume x: "x \<in> insert q P"
    show "(\<exists>c \<in> insert c' (C - {c}). ck_paymentId c = Some (pay_id x))
        \<and> (\<exists>j \<in> insert j J. job_paymentId j = pay_id x)"
    proof (cases "x = q")
      case True
      then show ?thesis using assms(4,6) by blast
    next
      case False
      then obtain c0 j0 where "c0 \<in> C" "ck_paymentId c0 = Some (pay_id x)" "j0 \<in> J" "job_paymentId j0 = pay_id x"
        using x assms(1) by (auto simp: orders_ok_def payments_ordered_def)
      moreover from this have "c0 \<noteq> c" using assms(2) by auto
      ultimately show ?thesis by blast
    qed
  qed
  moreover have "checkout_paid (insert q P) x" if "x \<in> insert c' (C - {c})" for x
    using that paid [of x] assms(3,4,5) checkout_paid_mono [of P x q] by (auto simp: checkout_paid_def)
  moreover have "one_checkout_each (insert c' (C - {c}))"
    unfolding one_checkout_each_def
  proof (intro ballI impI)
    fix x y
    assume xy: "x \<in> insert c' (C - {c})" "y \<in> insert c' (C - {c})"
      and eq: "ck_paymentId x \<noteq> None" "ck_paymentId x = ck_paymentId y"
    have "ck_paymentId z \<noteq> ck_paymentId c'" if "z \<in> C" for z
      using new [OF that] assms(4) by simp
    then have "x = c' \<longleftrightarrow> y = c'"
      using xy eq by force
    then show "x = y"
      using xy eq assms(1) unfolding orders_ok_def one_checkout_each_def by blast
  qed
  ultimately show ?thesis
    unfolding orders_ok_def by blast
qed

text \<open>Only an intent that is being created can be updated, and it has no payment yet.\<close>

lemma unfinished_checkout_unpaid:
  assumes "orders_ok P C J" and "c \<in> C" and "ck_state c = CREATING"
  shows "ck_paymentId c = None"
  using assms by (auto simp: orders_ok_def checkout_paid_def)

lemma step_orders_coherent:
  assumes "step s s'" and "keys_distinct s" and "orders_coherent s"
  shows "orders_coherent s'"
  using assms
proof (induction rule: step.induct)
  case (activate s r t p q f)
  then show ?case
    using payment_rows [OF activate.prems(1) activate.hyps(2), of f]
    by (simp add: orders_coherent_def orders_change_payment)
next
  case (settle_payment s p q f)
  then show ?case
    using payment_rows [OF settle_payment.prems(1) settle_payment.hyps(1), of f]
    by (simp add: orders_coherent_def orders_change_payment)
next
  case (create_checkout r s)
  then show ?case
    by (simp add: orders_coherent_def orders_new_checkout checkout_initial_def)
next
  case (fail_checkout s i r f)
  have rows: "set (update_where (\<lambda>x. ck_id x = i) f (checkoutIntents s))
      = insert (f r) (set (checkoutIntents s) - {r})" "r \<in> set (checkoutIntents s)"
    using checkout_rows [OF fail_checkout.prems(1) fail_checkout.hyps(1)] by simp_all
  have "ck_state r = CREATING"
    using fail_checkout.hyps(2) by (simp add: checkout_update_guard_def)
  then have "ck_paymentId r = None"
    using unfinished_checkout_unpaid rows(2) fail_checkout.prems(2) by (simp add: orders_coherent_def)
  moreover have "ck_paymentId (f r) = None"
    using fail_checkout.hyps(3,4) by (simp add: checkout_accepted_def checkout_shape_guard_def)
  ultimately show ?case
    using fail_checkout.prems(2) rows by (simp add: orders_coherent_def orders_change_checkout)
next
  case (ready_checkout s i r f q j)
  have rows: "set (update_where (\<lambda>x. ck_id x = i) f (checkoutIntents s))
      = insert (f r) (set (checkoutIntents s) - {r})" "r \<in> set (checkoutIntents s)"
    using checkout_rows [OF ready_checkout.prems(1) ready_checkout.hyps(1)] by simp_all
  have "ck_state r = CREATING"
    using ready_checkout.hyps(2) by (simp add: checkout_update_guard_def)
  then have "ck_paymentId r = None"
    using unfinished_checkout_unpaid rows(2) ready_checkout.prems(2) by (simp add: orders_coherent_def)
  then show ?case
    using ready_checkout rows by (simp add: orders_coherent_def orders_ready payment_accepted_def)
next
  case (update_job_row s p r f)
  then show ?case
    using job_rows [OF update_job_row.prems(1) update_job_row.hyps(1), of f]
    by (simp add: orders_coherent_def orders_change_job job_update_guard_def)
qed (simp_all add: orders_coherent_def)

lemma step_events_coherent:
  assumes "step s s'" and "keys_distinct s" and "events_coherent s"
  shows "events_coherent s'"
  using assms
proof (induction rule: step.induct)
  case (receive_event r s)
  then have "(ev_provider r, ev_eventIdentity r) \<notin> (\<lambda>r. (ev_provider r, ev_eventIdentity r)) ` set (billingEvents s)"
    by (auto simp: find_event_def find_None_mem)
  then show ?case
    using receive_event by (simp add: events_coherent_def)
next
  case (process_event s i r f)
  have rows: "set (update_where (\<lambda>x. ev_id x = i) f (billingEvents s))
      = insert (f r) (set (billingEvents s) - {r})" "r \<in> set (billingEvents s)"
    using event_rows [OF process_event.prems(1) process_event.hyps(1)] by simp_all
  have "map (\<lambda>r. (ev_provider r, ev_eventIdentity r)) (update_where (\<lambda>x. ev_id x = i) f (billingEvents s))
      = map (\<lambda>r. (ev_provider r, ev_eventIdentity r)) (billingEvents s)"
    using process_event.hyps keys_distinctD(4) [OF process_event.prems(1)]
    by (intro map_update_row [where r = r]) (simp_all add: event_of_def event_update_guard_def)
  moreover have "event_settled (f r)"
    using process_event.hyps(2) by (simp add: event_update_guard_def event_settled_def)
  ultimately show ?case
    using process_event.prems(2) rows by (simp add: events_coherent_def list_all_iff)
qed (simp_all add: events_coherent_def)

theorem step_commercial_inv: "step s s' \<Longrightarrow> commercial_inv s \<Longrightarrow> commercial_inv s'"
  unfolding commercial_inv_def
  using step_keys_distinct step_one_current step_logs_coherent step_links_coherent
    step_orders_coherent step_events_coherent
  by blast

lemma path_commercial_inv:
  assumes "step\<^sup>*\<^sup>* s s'" and "commercial_inv s"
  shows "commercial_inv s'"
  using assms by (induction rule: rtranclp_induct) (auto intro: step_commercial_inv)

section \<open>What is final stays\<close>

text \<open>
  Rows that record an outcome are never written again: an expired subscription, a logged
  transition, a processed event, a terminal job, a finished checkout intent. A payment keeps its
  commercial identity and its state only moves forward.
\<close>

definition job_terminal :: "reconciliation_job_row \<Rightarrow> bool" where
  "job_terminal j \<longleftrightarrow> job_state j = SETTLED \<or> job_state j = BLOCKED"

definition payment_evolves :: "payment_row \<Rightarrow> payment_row \<Rightarrow> bool" where
  "payment_evolves q q' \<longleftrightarrow> same_payment q q' \<and> payment_progress (pay_state q) (pay_state q')"

definition finals_kept :: "db \<Rightarrow> db \<Rightarrow> bool" where
  "finals_kept s s' \<longleftrightarrow>
     (\<forall>r \<in> set (subscriptions s). sub_state r = EXPIRED \<longrightarrow> r \<in> set (subscriptions s'))
     \<and> (\<forall>e \<in> set (billingEvents s). ev_processingState e \<noteq> VERIFIED \<longrightarrow> e \<in> set (billingEvents s'))
     \<and> (\<forall>c \<in> set (checkoutIntents s). ck_state c \<noteq> CREATING \<longrightarrow> c \<in> set (checkoutIntents s'))
     \<and> (\<forall>j \<in> set (jobs s). job_terminal j \<longrightarrow> j \<in> set (jobs s'))"

definition history_kept :: "db \<Rightarrow> db \<Rightarrow> bool" where
  "history_kept s s' \<longleftrightarrow>
     finals_kept s s' \<and> (\<exists>ts. transitions s' = transitions s @ ts)
     \<and> (\<forall>q \<in> set (payments s). \<exists>q' \<in> set (payments s'). payment_evolves q q')"

lemma payment_evolves_refl [simp]: "payment_evolves q q"
  by (simp add: payment_evolves_def same_payment_def payment_progress_def)

lemma payment_evolves_trans: "payment_evolves a b \<Longrightarrow> payment_evolves b c \<Longrightarrow> payment_evolves a c"
  unfolding payment_evolves_def same_payment_def payment_progress_def by auto

lemma history_kept_refl: "history_kept s s"
  unfolding history_kept_def finals_kept_def using payment_evolves_refl by blast

lemma finals_kept_trans: "finals_kept a b \<Longrightarrow> finals_kept b c \<Longrightarrow> finals_kept a c"
  unfolding finals_kept_def by (elim conjE, intro conjI) blast+

lemma history_kept_trans:
  assumes "history_kept a b" and "history_kept b c"
  shows "history_kept a c"
proof -
  obtain ts us where "transitions b = transitions a @ ts" "transitions c = transitions b @ us"
    using assms unfolding history_kept_def by blast
  then have "\<exists>vs. transitions c = transitions a @ vs"
    by simp
  moreover have "\<exists>q' \<in> set (payments c). payment_evolves q q'" if q: "q \<in> set (payments a)" for q
  proof -
    obtain q1 where q1: "q1 \<in> set (payments b)" "payment_evolves q q1"
      using assms(1) q unfolding history_kept_def by blast
    obtain q2 where "q2 \<in> set (payments c)" "payment_evolves q1 q2"
      using assms(2) q1(1) unfolding history_kept_def by blast
    then show ?thesis
      using payment_evolves_trans [OF q1(2)] by blast
  qed
  moreover have "finals_kept a c"
    using assms finals_kept_trans unfolding history_kept_def by blast
  ultimately show ?thesis
    unfolding history_kept_def by blast
qed

lemma payments_evolve:
  assumes "keys_distinct s" and "payment_of s p = Some q" and "payment_evolves q (f q)"
  shows "\<forall>x \<in> set (payments s). \<exists>x' \<in> set (update_where (\<lambda>x. pay_id x = p) f (payments s)). payment_evolves x x'"
  using payment_rows [OF assms(1,2), of f] assms(3) payment_evolves_refl by blast

lemma final_subscriptions:
  assumes "keys_distinct s" and "subscription_of s i = Some r" and "sub_state r \<noteq> EXPIRED"
  shows "\<forall>x \<in> set (subscriptions s). sub_state x = EXPIRED \<longrightarrow>
    x \<in> set (update_where (\<lambda>x. sub_id x = i) f (subscriptions s))"
  using subscription_rows [OF assms(1,2), of f] assms(3) by auto

lemma final_events:
  assumes "keys_distinct s" and "event_of s i = Some r" and "ev_processingState r = VERIFIED"
  shows "\<forall>x \<in> set (billingEvents s). ev_processingState x \<noteq> VERIFIED \<longrightarrow>
    x \<in> set (update_where (\<lambda>x. ev_id x = i) f (billingEvents s))"
  using event_rows [OF assms(1,2), of f] assms(3) by auto

lemma final_checkouts:
  assumes "keys_distinct s" and "checkout_of s i = Some r" and "ck_state r = CREATING"
  shows "\<forall>x \<in> set (checkoutIntents s). ck_state x \<noteq> CREATING \<longrightarrow>
    x \<in> set (update_where (\<lambda>x. ck_id x = i) f (checkoutIntents s))"
  using checkout_rows [OF assms(1,2), of f] assms(3) by auto

lemma final_jobs:
  assumes "keys_distinct s" and "job_of s p = Some r" and "\<not> job_terminal r"
  shows "\<forall>x \<in> set (jobs s). job_terminal x \<longrightarrow>
    x \<in> set (update_where (\<lambda>x. job_paymentId x = p) f (jobs s))"
  using job_rows [OF assms(1,2), of f] assms(3) by auto

lemma step_history:
  assumes "step s s'" and "keys_distinct s"
  shows "history_kept s s'"
  using assms
proof (induction rule: step.induct)
  case (activate s r t p q f)
  then have "payment_evolves q (f q)"
    by (simp add: payment_evolves_def)
  with activate show ?case
    by (simp add: history_kept_def finals_kept_def payments_evolve)
next
  case (change_state s i r f t)
  then have "sub_state r \<noteq> EXPIRED"
    using allowed_origin_EXPIRED [of "sub_state (f r)"] by (auto simp: changes_state_def)
  with change_state history_kept_refl [of s] show ?case
    by (simp add: history_kept_def finals_kept_def final_subscriptions)
next
  case (extend s i r f)
  with history_kept_refl [of s] show ?case
    by (simp add: history_kept_def finals_kept_def final_subscriptions)
next
  case (settle_payment s p q f)
  then have "payment_evolves q (f q)"
    by (simp add: payment_evolves_def)
  with settle_payment show ?case
    by (simp add: history_kept_def finals_kept_def payments_evolve)
next
  case (process_event s i r f)
  with history_kept_refl [of s] show ?case
    by (simp add: history_kept_def finals_kept_def final_events event_update_guard_def)
next
  case (fail_checkout s i r f)
  with history_kept_refl [of s] show ?case
    by (simp add: history_kept_def finals_kept_def final_checkouts checkout_update_guard_def)
next
  case (ready_checkout s i r f q j)
  have "\<forall>x \<in> set (payments s). \<exists>x' \<in> set (payments s @ [q]). payment_evolves x x'"
    by (metis Un_iff payment_evolves_refl set_append)
  with ready_checkout show ?case
    by (simp add: history_kept_def finals_kept_def final_checkouts checkout_update_guard_def)
next
  case (update_job_row s p r f)
  with history_kept_refl [of s] show ?case
    by (simp add: history_kept_def finals_kept_def final_jobs job_update_guard_def job_terminal_def)
next
  case (open_subscription s r t)
  with history_kept_refl [of s] show ?case
    by (simp add: history_kept_def finals_kept_def)
qed (use history_kept_refl in \<open>force simp: history_kept_def finals_kept_def\<close>)+

lemma path_history:
  assumes "step\<^sup>*\<^sup>* s s'" and "commercial_inv s"
  shows "history_kept s s'"
  using assms
proof (induction rule: rtranclp_induct)
  case base
  show ?case by (rule history_kept_refl)
next
  case (step y z)
  then have "keys_distinct y"
    using path_commercial_inv by (simp add: commercial_inv_def)
  then show ?case
    using step history_kept_trans step_history by blast
qed

section \<open>Transactions of the protocol\<close>

text \<open>A transaction that, on a database with the invariants, only takes steps of the protocol.\<close>

abbreviation protocol :: "'a dbtx \<Rightarrow> db \<Rightarrow> bool" where
  "protocol \<equiv> moves_at commercial_inv step"

lemma protocolI:
  assumes "\<And>x s'. commercial_inv s \<Longrightarrow> m s = Inr (x, s') \<Longrightarrow> step\<^sup>*\<^sup>* s s'"
  shows "protocol m s"
  using assms path_commercial_inv by (auto simp: moves_at_def)

lemma commercial_invD:
  assumes "commercial_inv s"
  shows "keys_distinct s" "one_current s" "logs_coherent s" "links_coherent s"
    "orders_coherent s" "events_coherent s"
  using assms by (simp_all add: commercial_inv_def)

lemma draw_then: "step\<^sup>*\<^sup>* (s\<lparr>db_drawn := n\<rparr>) s' \<Longrightarrow> step\<^sup>*\<^sup>* s s'"
  using step.draw [of s n] by (rule converse_rtranclp_into_rtranclp)

lemma then_draw: "step\<^sup>*\<^sup>* s s' \<Longrightarrow> step\<^sup>*\<^sup>* s (s'\<lparr>db_drawn := n\<rparr>)"
  using step.draw [of s' n] by (rule rtranclp.rtrancl_into_rtrancl [rotated])

lemma protocol_audit [tx_rules]: "protocol (insert_audit r) s"
  by (rule protocolI) (auto simp: insert_audit_Inr intro: step.audit)

lemma protocol_update_payment:
  assumes "\<And>q. payment_of s p = Some q \<Longrightarrow> c q \<Longrightarrow>
    pay_subscriptionId (f q) = pay_subscriptionId q \<and> payment_progress (pay_state q) (pay_state (f q))"
  shows "protocol (update_payment p c f) s"
proof (rule protocolI)
  fix x s'
  assume "update_payment p c f s = Inr (x, s')"
  then show "step\<^sup>*\<^sup>* s s'"
    using assms
    by (auto simp: update_payment_Inr split: option.splits if_splits intro!: step.settle_payment)
qed

lemma protocol_update_event [tx_rules]: "protocol (update_event i f) s"
  by (rule protocolI) (auto simp: update_event_Inr split: option.splits intro: step.process_event)

lemma protocol_insert_event [tx_rules]: "protocol (insert_event_row mk) s"
proof (rule protocolI)
  fix x s'
  assume run: "insert_event_row mk s = Inr (x, s')"
  show "step\<^sup>*\<^sup>* s s'"
  proof (cases "find_event s (ev_provider (mk (db_uuids s (db_drawn s)))) (ev_eventIdentity (mk (db_uuids s (db_drawn s))))")
    case None
    let ?r = "mk (db_uuids s (db_drawn s))"
    have s': "s' = s\<lparr>billingEvents := billingEvents s @ [?r]\<rparr>\<lparr>db_drawn := Suc (db_drawn s)\<rparr>"
      and r: "event_unprocessed ?r" "ev_id ?r \<notin> ev_id ` set (billingEvents s)"
      using run None by (simp_all add: insert_event_row_Inr Let_def)
    show ?thesis
      unfolding s' by (intro then_draw r_into_rtranclp step.receive_event r None)
  next
    case (Some e)
    then have "s' = s\<lparr>db_drawn := Suc (db_drawn s)\<rparr>"
      using run by (simp add: insert_event_row_Inr Let_def)
    then show ?thesis
      by (auto intro: step.draw)
  qed
qed

lemma protocol_update_job [tx_rules]: "protocol (update_job p c f) s"
  by (rule protocolI)
    (auto simp: update_job_Inr split: option.splits if_splits intro: step.update_job_row)

text \<open>The write of a state change: the row, the next number of the log and the record.\<close>

lemma path_change_state:
  assumes inv: "commercial_inv s" and row: "subscription_of s i = Some r"
    and upd: "update_subscription i f s = Inr (u, s1)"
    and ins: "insert_transition_row mk s1 = Inr (t, s2)"
    and same: "same_terms r (f r)" "sub_currentPeriodEnd (f r) = sub_currentPeriodEnd r"
    and allowed: "validateSubscriptionStateTransition (Some (sub_state r)) (sub_state (f r)) = None"
    and t: "tr_subscriptionId t = i" "tr_transitionRevision t = next_transition_revision s1 i"
      "tr_fromState t = Some (sub_state r)" "tr_toState t = sub_state (f r)"
  shows "step\<^sup>*\<^sup>* s s2"
proof -
  have id: "sub_id r = i"
    using find_Some_mem row by (fastforce simp: subscription_of_def)
  have s1: "s1 = s\<lparr>subscriptions := update_where (\<lambda>x. sub_id x = i) f (subscriptions s)\<rparr>"
    and acc: "subscription_accepted s (filter (\<lambda>o'. sub_id o' \<noteq> i) (subscriptions s)) (f r)"
    using upd row by (simp_all add: update_subscription_Inr)
  have s2: "s2 = s\<lparr>subscriptions := update_where (\<lambda>x. sub_id x = i) f (subscriptions s),
      transitions := transitions s @ [t]\<rparr>\<lparr>db_drawn := Suc (db_drawn s)\<rparr>"
    and fresh: "tr_id t \<notin> tr_id ` set (transitions s)"
    using ins by (auto simp: insert_transition_row_Inr s1 transition_accepted_def)
  have "changes_state s r (f r) t"
    using same allowed t id fresh by (simp add: changes_state_def s1)
  then show ?thesis
    unfolding s2 by (intro then_draw r_into_rtranclp step.change_state [where f = f and r = r] row acc)
qed

text \<open>The opening of a subscription: the row and the first record of its log.\<close>

lemma opens_of_writes:
  assumes "insert_subscription mk s = Inr (r, s1)" and "insert_transition_row mk' s1 = Inr (t, s2)"
    and "sub_state r = ACTIVE" "sub_stateRevision r = 1" "sub_graceUntil r = None"
    and "tr_subscriptionId t = sub_id r" "tr_fromState t = None" "tr_toState t = ACTIVE"
  shows "opens s r t"
    and "s2 = s\<lparr>subscriptions := subscriptions s @ [r], transitions := transitions s @ [t],
               db_drawn := Suc (Suc (db_drawn s))\<rparr>"
proof -
  have s1: "s1 = s\<lparr>subscriptions := subscriptions s @ [r], db_drawn := Suc (db_drawn s)\<rparr>"
    and acc: "subscription_accepted s (subscriptions s) r"
    using assms(1) by (auto simp: insert_subscription_Inr)
  have t: "transition_checks t" "tr_id t \<notin> tr_id ` set (transitions s)"
    and s2: "s2 = s1\<lparr>transitions := transitions s1 @ [t], db_drawn := Suc (db_drawn s1)\<rparr>"
    using assms(2) by (auto simp: insert_transition_row_Inr transition_accepted_def s1)
  have "tr_transitionRevision t = 1"
    using t(1) assms(7) by (simp add: transition_checks_def)
  then show "opens s r t"
    using acc t(2) assms by (simp add: opens_def)
  show "s2 = s\<lparr>subscriptions := subscriptions s @ [r], transitions := transitions s @ [t],
               db_drawn := Suc (Suc (db_drawn s))\<rparr>"
    using s2 by (simp add: s1)
qed

lemma path_open:
  assumes "insert_subscription mk s = Inr (r, s1)" and "insert_transition_row mk' s1 = Inr (t, s2)"
    and "sub_state r = ACTIVE" "sub_stateRevision r = 1" "sub_graceUntil r = None"
    and "tr_subscriptionId t = sub_id r" "tr_fromState t = None" "tr_toState t = ACTIVE"
  shows "step\<^sup>*\<^sup>* s s2"
proof -
  have "s2 = s\<lparr>subscriptions := subscriptions s @ [r], transitions := transitions s @ [t]\<rparr>
      \<lparr>db_drawn := Suc (Suc (db_drawn s))\<rparr>"
    using opens_of_writes(2) [OF assms] by simp
  moreover have "step s (s\<lparr>subscriptions := subscriptions s @ [r], transitions := transitions s @ [t]\<rparr>)"
    by (rule step.open_subscription [OF opens_of_writes(1) [OF assms]])
  ultimately show ?thesis
    by (auto intro: then_draw)
qed

section \<open>An example database\<close>

text \<open>
  One active account with its owner, a published plan revision and a published monthly price;
  no commerce yet. The witnesses of the properties start from it.
\<close>

lemmas db_eval [eval_simps] = account_of_def plan_revision_of_def price_revision_of_def
  subscription_of_def transition_of_def payment_of_def event_of_def checkout_of_def job_of_def
  find_event_def current_subscription_def is_current_def log_of_def next_transition_revision_def
  latest_transition_def subscription_accepted_def subscription_checks_def subscription_guard_def
  transition_accepted_def transition_checks_def same_subscription_def audit_checks_def
  payment_accepted_def payment_checks_def payment_guard_def same_payment_def
  event_checks_def event_unprocessed_def event_update_guard_def
  checkout_accepted_def checkout_checks_def checkout_terms_guard_def checkout_shape_guard_def
  checkout_initial_def checkout_update_guard_def checkout_distinct_def checkout_matches_payment_def
  job_checks_def job_update_guard_def int4_def at_least_def nonempty_text_def non_whitespace_def
  machine_key_def currency_code_def opaque_reference_def opaque_column_def
  result_code_def is_lower_def is_upper_def is_digit_def to_lower_def max_amount_def
  new_uuid_def insert_subscription_def insert_transition_row_def insert_payment_def
  insert_event_row_def insert_checkout_def insert_job_def insert_audit_def
  update_subscription_def update_payment_def update_event_def update_checkout_def update_job_def
  max_safe_integer_def

definition example_hash :: string where
  "example_hash = replicate 64 (CHR ''a'')"

lemma example_hash [eval_simps]: "safe_hash example_hash" "length example_hash = 64"
  by (auto simp: example_hash_def safe_hash_def list_all_iff)

definition example_db :: db where
  "example_db =
     \<lparr>accounts = [\<lparr>acct_id = ''acct'', acct_status = ACCOUNT_ACTIVE\<rparr>],
      memberships = [(''acct'', ''user'')],
      planRevisions = [\<lparr>plr_id = ''plan-r1'', plr_planId = ''plan'', plr_state = PUBLISHED\<rparr>],
      priceRevisions =
        [\<lparr>prr_id = ''price-r1'', prr_planId = ''plan'', prr_planRevisionId = ''plan-r1'',
          prr_state = PUBLISHED, prr_amountMinor = 990, prr_currency = ''EUR'',
          prr_billingIntervalUnit = MONTH, prr_billingIntervalCount = 1,
          prr_effectiveFrom = 0, prr_effectiveTo = None\<rparr>],
      subscriptions = [], transitions = [], payments = [], billingEvents = [], checkoutIntents = [],
      jobs = [], auditEvents = [], db_now = 1000,
      db_uuids = (\<lambda>n. CHR ''u'' # replicate n (CHR ''1'')), db_drawn = 0\<rparr>"

lemma empty_commerce_inv:
  assumes "subscriptions s = []" "transitions s = []" "payments s = []" "billingEvents s = []"
    "checkoutIntents s = []" "jobs s = []"
  shows "commercial_inv s"
  by (simp add: commercial_inv_def keys_distinct_def one_current_def at_most_one_current_def
      logs_coherent_def links_coherent_def links_ok_def orders_coherent_def orders_ok_def
      payments_ordered_def one_checkout_each_def events_coherent_def assms)

lemma example_db_inv: "commercial_inv example_db"
  by (rule empty_commerce_inv) (simp_all add: example_db_def)

end
