(* ===== verification/Materializer.thy ===== *)
theory Materializer
  imports Commercial_Steps
begin

text \<open>
  packages/server/db/src/p5-current-subscription-materializer.ts: the transition that is due
  for the account's current subscription, written inline before a command looks at it. The
  caller holds the account's advisory lock; \<open>H\<close> is the SHA-256 digest and \<open>at\<close> the reading of
  the clock once the row is locked.
\<close>

section \<open>Classification\<close>

datatype materialization =
    MAT_NONE
  | MAT_CURRENT uuid subscription_state
  | MAT_CORRUPTED uuid

definition revision :: "int \<Rightarrow> int dbtx" where
  "revision n =
     (if n \<le> max_safe_integer \<and> 0 < n then ret n else throw (Thrown ''SUBSCRIPTION_CORRUPTED''))"

text \<open>The state the latest suspension came from.\<close>

definition suspended_origin :: "db \<Rightarrow> uuid \<Rightarrow> subscription_state option" where
  "suspended_origin s i =
     (case latest_transition (\<lambda>t. tr_toState t = SUSPENDED) (log_of s i) of
        None \<Rightarrow> None
      | Some t \<Rightarrow> tr_fromState t)"

definition lifecycle_of :: "db \<Rightarrow> subscription_row \<Rightarrow> time \<Rightarrow> lifecycle_decision" where
  "lifecycle_of s row at =
     decideSubscriptionLifecycle
       \<lparr>lc_state = sub_state row, lc_cancelAtPeriodEnd = sub_cancelAtPeriodEnd row,
        lc_currentPeriodEnd = sub_currentPeriodEnd row, lc_graceUntil = sub_graceUntil row,
        lc_suspendedOrigin = (if sub_state row = SUSPENDED then suspended_origin s (sub_id row) else None),
        lc_now = at\<rparr>"

definition classify :: "db \<Rightarrow> uuid \<Rightarrow> time \<Rightarrow> (subscription_row \<times> lifecycle_decision) option" where
  "classify s accountId at =
     (case current_subscription s accountId of
        None \<Rightarrow> None
      | Some row \<Rightarrow> Some (row, lifecycle_of s row at))"

fun toState_is :: "subscription_state \<Rightarrow> lifecycle_decision \<Rightarrow> bool" where
  "toState_is t (TRANSITION t' _ _) = (t' = t)"
| "toState_is t _ = False"

definition hasCurrentSubscriptionAt :: "db \<Rightarrow> uuid \<Rightarrow> time \<Rightarrow> bool" where
  "hasCurrentSubscriptionAt s accountId at =
     (case classify s accountId at of
        None \<Rightarrow> False
      | Some (_, decision) \<Rightarrow> \<not> toState_is EXPIRED decision)"

section \<open>Materialization\<close>

fun lifecycle_reason_text :: "lifecycle_reason \<Rightarrow> string" where
  "lifecycle_reason_text TRIAL_PERIOD_ENDED = ''TRIAL_PERIOD_ENDED''"
| "lifecycle_reason_text ACTIVE_PERIOD_ENDED = ''ACTIVE_PERIOD_ENDED''"
| "lifecycle_reason_text CANCEL_AT_PERIOD_END = ''CANCEL_AT_PERIOD_END''"
| "lifecycle_reason_text CANCELED_PERIOD_ENDED = ''CANCELED_PERIOD_ENDED''"
| "lifecycle_reason_text GRACE_WINDOW_ENDED = ''GRACE_WINDOW_ENDED''"
| "lifecycle_reason_text SUSPENDED_COMMERCIAL_WINDOW_ENDED = ''SUSPENDED_COMMERCIAL_WINDOW_ENDED''"

definition lifecycle_action :: "subscription_state \<Rightarrow> string" where
  "lifecycle_action toState =
     (if toState = EXPIRED then ''SUBSCRIPTION_EXPIRED'' else ''SUBSCRIPTION_GRACE_ENDED'')"

definition materialized_row ::
  "subscription_state \<Rightarrow> lifecycle_reason \<Rightarrow> time \<Rightarrow> subscription_row \<Rightarrow> subscription_row" where
  "materialized_row toState reason at r =
     r\<lparr>sub_state := toState, sub_stateRevision := sub_stateRevision r + 1,
       sub_stateReason := lifecycle_reason_text reason,
       sub_updatedAt := max (max (sub_updatedAt r) at) (sub_createdAt r)\<rparr>"

definition materialize_transition ::
  "(string \<Rightarrow> string) \<Rightarrow> subscription_row \<Rightarrow> subscription_state \<Rightarrow> lifecycle_reason \<Rightarrow> time \<Rightarrow> time
    \<Rightarrow> string \<Rightarrow> unit dbtx" where
  "materialize_transition H row toState reason dueAt at correlationId =
     andThen (revision (sub_stateRevision row)) (\<lambda>oldRevision.
     andThen (update_subscription (sub_id row) (materialized_row toState reason at)) (\<lambda>updated.
     andThen (revision (case updated of None \<Rightarrow> 0 | Some r \<Rightarrow> sub_stateRevision r)) (\<lambda>newRevision.
     andThen (gets (\<lambda>s. next_transition_revision s (sub_id row))) (\<lambda>next.
     andThen (revision next) (\<lambda>transitionRevision.
     andThen (insert_transition_row (\<lambda>i.
         \<lparr>tr_id = i, tr_subscriptionId = sub_id row, tr_transitionRevision = transitionRevision,
          tr_fromState = Some (sub_state row), tr_toState = toState, tr_source = SRC_SYSTEM,
          tr_sourceEventId =
            Some (subscriptionLifecycleJobIdentity H (sub_id row) (sub_state row) oldRevision toState dueAt),
          tr_actorType = Some ''SYSTEM'', tr_actorId = None,
          tr_reason = lifecycle_reason_text reason, tr_occurredAt = dueAt\<rparr>)) (\<lambda>_.
     insert_audit
       \<lparr>aud_actorType = ''SYSTEM'', aud_actorId = None, aud_action = lifecycle_action toState,
        aud_targetType = ''SUBSCRIPTION'', aud_targetId = sub_id row,
        aud_correlationId = correlationId, aud_reason = Some ''SUBSCRIPTION_LIFECYCLE_INLINE'',
        aud_safeMetadata =
          [(''subscriptionId'', JStr (sub_id row)), (''fromState'', JStr (state_text (sub_state row))),
           (''toState'', JStr (state_text toState)), (''oldStateRevision'', JInt oldRevision),
           (''newStateRevision'', JInt newRevision), (''transitionRevision'', JInt transitionRevision),
           (''dueAt'', JStr (toISOString dueAt)), (''processedAt'', JStr (toISOString at)),
           (''planRevisionId'', JStr (sub_currentPlanRevisionId row)),
           (''materialization'', JStr ''INLINE_BEFORE_MUTATION'')]\<rparr>))))))"

definition materializeDueCurrentSubscriptionLocked ::
  "(string \<Rightarrow> string) \<Rightarrow> uuid \<Rightarrow> time \<Rightarrow> string \<Rightarrow> materialization dbtx" where
  "materializeDueCurrentSubscriptionLocked H accountId at correlationId =
     andThen (gets (\<lambda>s. classify s accountId at)) (\<lambda>classified.
       case classified of
         None \<Rightarrow> ret MAT_NONE
       | Some (row, decision) \<Rightarrow>
           (case decision of
              CORRUPTED \<Rightarrow> ret (MAT_CORRUPTED (sub_id row))
            | NOOP \<Rightarrow> ret (MAT_CURRENT (sub_id row) (sub_state row))
            | TRANSITION toState reason dueAt \<Rightarrow>
                andThen (materialize_transition H row toState reason dueAt at correlationId) (\<lambda>_.
                  ret (if toState = EXPIRED then MAT_NONE else MAT_CURRENT (sub_id row) toState))))"

section \<open>The current subscription\<close>

lemma current_subscription_iff:
  assumes "one_current s"
  shows "current_subscription s a = Some r \<longleftrightarrow> r \<in> set (subscriptions s) \<and> is_current a r"
proof
  assume "current_subscription s a = Some r"
  then show "r \<in> set (subscriptions s) \<and> is_current a r"
    unfolding current_subscription_def by (rule find_Some_mem)
next
  assume r: "r \<in> set (subscriptions s) \<and> is_current a r"
  then obtain r' where r': "current_subscription s a = Some r'"
    by (cases "current_subscription s a") (auto simp: current_subscription_def find_None_mem)
  then have "r' \<in> set (subscriptions s)" "is_current a r'"
    using find_Some_mem by (fastforce simp: current_subscription_def)+
  then have "r' = r"
    using assms r unfolding one_current_def at_most_one_current_def by (auto simp: is_current_def)
  with r' show "current_subscription s a = Some r" by simp
qed

lemma current_subscription_None:
  "current_subscription s a = None \<longleftrightarrow> (\<forall>r \<in> set (subscriptions s). \<not> is_current a r)"
  by (simp add: current_subscription_def find_None_mem)

lemma current_subscription_row:
  assumes "current_subscription s a = Some r"
  shows "r \<in> set (subscriptions s)" "sub_accountId r = a" "sub_state r \<noteq> EXPIRED"
  using find_Some_mem assms by (fastforce simp: current_subscription_def is_current_def)+

lemma subscription_of_row:
  "keys_distinct s \<Longrightarrow> r \<in> set (subscriptions s) \<Longrightarrow> subscription_of s (sub_id r) = Some r"
  unfolding subscription_of_def by (rule find_unique) (simp_all add: keys_distinctD)

section \<open>The written transition\<close>

lemma materialized_row_fields [simp]:
  "sub_id (materialized_row t r a x) = sub_id x"
  "sub_accountId (materialized_row t r a x) = sub_accountId x"
  "sub_state (materialized_row t r a x) = t"
  "sub_stateRevision (materialized_row t r a x) = sub_stateRevision x + 1"
  "sub_currentPeriodEnd (materialized_row t r a x) = sub_currentPeriodEnd x"
  "same_terms x (materialized_row t r a x)"
  by (simp_all add: materialized_row_def same_terms_def same_subscription_def)

lemma revision_Inr [simp]:
  "revision n s = Inr (x, s') \<longleftrightarrow> 0 < n \<and> n \<le> max_safe_integer \<and> x = n \<and> s' = s"
  by (auto simp: revision_def)

lemma protocol_revision [tx_rules]: "protocol (revision n) s"
  by (rule protocolI) auto

text \<open>What the transaction commits: one row, one record, one audit event.\<close>

lemma materialize_transition_effect:
  assumes run: "materialize_transition H row t r d at c s = Inr (x, s')"
    and row: "subscription_of s (sub_id row) = Some row"
  obtains u a where
    "update_subscription (sub_id row) (materialized_row t r at) s
       = Inr (Some (materialized_row t r at row),
              s\<lparr>subscriptions := update_where (\<lambda>x. sub_id x = sub_id row) (materialized_row t r at) (subscriptions s)\<rparr>)"
    and "tr_subscriptionId u = sub_id row" "tr_fromState u = Some (sub_state row)" "tr_toState u = t"
    and "tr_transitionRevision u = next_transition_revision s (sub_id row)" "tr_occurredAt u = d"
    and "tr_source u = SRC_SYSTEM" "tr_sourceEventId u
       = Some (subscriptionLifecycleJobIdentity H (sub_id row) (sub_state row) (sub_stateRevision row) t d)"
    and "tr_id u \<notin> tr_id ` set (transitions s)"
    and "s' = s\<lparr>subscriptions := update_where (\<lambda>x. sub_id x = sub_id row) (materialized_row t r at) (subscriptions s),
           transitions := transitions s @ [u], auditEvents := auditEvents s @ [a],
           db_drawn := Suc (db_drawn s)\<rparr>"
proof -
  define s1 where "s1 = s\<lparr>subscriptions :=
    update_where (\<lambda>x. sub_id x = sub_id row) (materialized_row t r at) (subscriptions s)\<rparr>"
  define u where "u = \<lparr>tr_id = db_uuids s (db_drawn s), tr_subscriptionId = sub_id row,
    tr_transitionRevision = next_transition_revision s1 (sub_id row),
    tr_fromState = Some (sub_state row), tr_toState = t, tr_source = SRC_SYSTEM,
    tr_sourceEventId = Some (subscriptionLifecycleJobIdentity H (sub_id row) (sub_state row)
      (sub_stateRevision row) t d),
    tr_actorType = Some ''SYSTEM'', tr_actorId = None,
    tr_reason = lifecycle_reason_text r, tr_occurredAt = d\<rparr>"
  have upd: "update_subscription (sub_id row) (materialized_row t r at) s
      = Inr (Some (materialized_row t r at row), s1)"
    using run row unfolding materialize_transition_def
    by (auto simp: andThen_Inr_iff update_subscription_Inr s1_def)
  have ins: "\<exists>s2 a. insert_transition_row (\<lambda>i. u\<lparr>tr_id := i\<rparr>) s1 = Inr (u, s2)
      \<and> s' = s2\<lparr>auditEvents := auditEvents s2 @ [a]\<rparr>"
    using run unfolding materialize_transition_def
    by (auto simp: andThen_Inr_iff upd insert_transition_row_Inr insert_audit_Inr u_def s1_def)
  then obtain s2 a where s2: "insert_transition_row (\<lambda>i. u\<lparr>tr_id := i\<rparr>) s1 = Inr (u, s2)"
    "s' = s2\<lparr>auditEvents := auditEvents s2 @ [a]\<rparr>" by blast
  have "tr_id u \<notin> tr_id ` set (transitions s)"
    using s2(1) by (auto simp: insert_transition_row_Inr transition_accepted_def s1_def)
  moreover have "s' = s\<lparr>subscriptions := update_where (\<lambda>x. sub_id x = sub_id row) (materialized_row t r at) (subscriptions s),
           transitions := transitions s @ [u], auditEvents := auditEvents s @ [a],
           db_drawn := Suc (db_drawn s)\<rparr>"
    using s2 by (simp add: insert_transition_row_Inr s1_def)
  ultimately show thesis
    using upd by (intro that [of u a]) (simp_all add: u_def s1_def)
qed

lemma lifecycle_of_transition:
  assumes "lifecycle_of s row at = TRANSITION t r d"
  shows "validateSubscriptionStateTransition (Some (sub_state row)) t = None"
    and "t = EXPIRED \<or> t = PAST_DUE" and "d \<le> at" and "sub_state row \<noteq> EXPIRED"
  using decide_transition [OF assms [unfolded lifecycle_of_def]] by simp_all

lemma path_materialize_transition:
  assumes inv: "commercial_inv s" and row: "subscription_of s (sub_id row) = Some row"
    and due: "lifecycle_of s row at = TRANSITION t r d"
    and run: "materialize_transition H row t r d at c s = Inr (x, s')"
  shows "step\<^sup>*\<^sup>* s s'"
proof (rule materialize_transition_effect [OF run row])
  fix u a
  let ?f = "materialized_row t r at"
  assume upd: "update_subscription (sub_id row) ?f s = Inr (Some (?f row),
      s\<lparr>subscriptions := update_where (\<lambda>x. sub_id x = sub_id row) ?f (subscriptions s)\<rparr>)"
    and u: "tr_subscriptionId u = sub_id row" "tr_fromState u = Some (sub_state row)" "tr_toState u = t"
      "tr_transitionRevision u = next_transition_revision s (sub_id row)"
      "tr_id u \<notin> tr_id ` set (transitions s)"
    and s': "s' = s\<lparr>subscriptions := update_where (\<lambda>x. sub_id x = sub_id row) ?f (subscriptions s),
      transitions := transitions s @ [u], auditEvents := auditEvents s @ [a], db_drawn := Suc (db_drawn s)\<rparr>"
  let ?s1 = "s\<lparr>subscriptions := update_where (\<lambda>x. sub_id x = sub_id row) ?f (subscriptions s),
      transitions := transitions s @ [u]\<rparr>"
  have "step s ?s1"
  proof (rule step.change_state [OF row])
    show "changes_state s row (?f row) u"
      using u lifecycle_of_transition(1) [OF due] by (simp add: changes_state_def)
    show "subscription_accepted s (filter (\<lambda>o'. sub_id o' \<noteq> sub_id row) (subscriptions s)) (?f row)"
      using upd row by (simp add: update_subscription_Inr)
  qed
  moreover have "step ?s1 (?s1\<lparr>auditEvents := auditEvents ?s1 @ [a]\<rparr>)"
    by (rule step.audit)
  moreover have "s' = ?s1\<lparr>auditEvents := auditEvents ?s1 @ [a]\<rparr>\<lparr>db_drawn := Suc (db_drawn s)\<rparr>"
    by (simp add: s')
  ultimately show ?thesis
    by (auto intro: then_draw rtranclp.rtrancl_into_rtrancl)
qed

lemma classify_row:
  assumes "commercial_inv s" and "classify s a at = Some (row, d)"
  shows "subscription_of s (sub_id row) = Some row" "current_subscription s a = Some row"
    "d = lifecycle_of s row at"
proof -
  show c: "current_subscription s a = Some row" and "d = lifecycle_of s row at"
    using assms(2) by (auto simp: classify_def split: option.splits)
  show "subscription_of s (sub_id row) = Some row"
    using subscription_of_row [OF commercial_invD(1) [OF assms(1)]] current_subscription_row [OF c] by simp
qed

lemma protocol_materialize [tx_rules]:
  "protocol (materializeDueCurrentSubscriptionLocked H a at c) s"
proof (rule protocolI)
  fix x s'
  assume inv: "commercial_inv s"
    and run: "materializeDueCurrentSubscriptionLocked H a at c s = Inr (x, s')"
  show "step\<^sup>*\<^sup>* s s'"
  proof (cases "classify s a at")
    case None
    then show ?thesis
      using run by (simp add: materializeDueCurrentSubscriptionLocked_def)
  next
    case (Some p)
    obtain row d where p: "p = (row, d)" by (cases p)
    note row = classify_row [OF inv Some [unfolded p]]
    show ?thesis
    proof (cases d)
      case (TRANSITION t r due)
      then obtain y where "materialize_transition H row t r due at c s = Inr (y, s')"
        using run Some p by (auto simp: materializeDueCurrentSubscriptionLocked_def andThen_Inr_iff)
      then show ?thesis
        using path_materialize_transition [OF inv row(1)] row(3) TRANSITION by blast
    qed (use run Some p in \<open>auto simp: materializeDueCurrentSubscriptionLocked_def\<close>)
  qed
qed

text \<open>What the caller can rely on: the account has no current subscription, or a current one
  on which nothing is due at this instant.\<close>

lemma materialize_cases:
  assumes inv: "commercial_inv s"
    and run: "materializeDueCurrentSubscriptionLocked H a at c s = Inr (x, s')"
  shows "case x of
      MAT_NONE \<Rightarrow> current_subscription s' a = None
    | MAT_CURRENT i st \<Rightarrow> (\<exists>r. current_subscription s' a = Some r \<and> sub_id r = i \<and> sub_state r = st
        \<and> lifecycle_of s' r at = NOOP)
    | MAT_CORRUPTED i \<Rightarrow> s' = s \<and> (\<exists>r. current_subscription s a = Some r \<and> sub_id r = i
        \<and> lifecycle_of s r at = CORRUPTED)"
proof (cases "classify s a at")
  case None
  then show ?thesis
    using run by (auto simp: materializeDueCurrentSubscriptionLocked_def classify_def split: option.splits)
next
  case (Some p)
  obtain row d where p: "p = (row, d)" by (cases p)
  note row = classify_row [OF inv Some [unfolded p]]
  show ?thesis
  proof (cases d)
    case (TRANSITION t r due)
    obtain y where mt: "materialize_transition H row t r due at c s = Inr (y, s')"
      and x: "x = (if t = EXPIRED then MAT_NONE else MAT_CURRENT (sub_id row) t)"
      using run Some p TRANSITION
      by (auto simp: materializeDueCurrentSubscriptionLocked_def andThen_Inr_iff split: if_splits)
    let ?r' = "materialized_row t r at row"
    have subs: "subscriptions s' = update_where (\<lambda>x. sub_id x = sub_id row) (materialized_row t r at) (subscriptions s)"
      by (rule materialize_transition_effect [OF mt row(1)]) simp
    have rows: "set (subscriptions s') = insert ?r' (set (subscriptions s) - {row})"
      unfolding subs using subscription_rows [OF commercial_invD(1) [OF inv] row(1)] by blast
    have cur: "is_current a row" "row \<in> set (subscriptions s)"
      using current_subscription_row [OF row(2)] by (simp_all add: is_current_def)
    show ?thesis
    proof (cases "t = EXPIRED")
      case True
      have "\<not> is_current a r0" if "r0 \<in> set (subscriptions s) - {row}" for r0
        using current_subscription_iff [OF commercial_invD(2) [OF inv], of a r0] row(2) that by auto
      then have "current_subscription s' a = None"
        using True by (simp add: current_subscription_None rows is_current_def)
      then show ?thesis using x True by simp
    next
      case False
      then have t: "t = PAST_DUE"
        using lifecycle_of_transition(2) [of s row at t r due] row(3) TRANSITION by simp
      have "commercial_inv s'"
        using moves_atD [OF protocol_materialize inv run] by blast
      then have "current_subscription s' a = Some ?r'"
        using cur t by (simp add: current_subscription_iff commercial_invD(2) rows is_current_def)
      then show ?thesis
        using x t by (simp add: lifecycle_of_def)
    qed
  qed (use run Some p row in \<open>auto simp: materializeDueCurrentSubscriptionLocked_def\<close>)
qed

lemma materialize_None_current:
  "commercial_inv s \<Longrightarrow> materializeDueCurrentSubscriptionLocked H a at c s = Inr (MAT_NONE, s') \<Longrightarrow>
     current_subscription s' a = None"
  using materialize_cases by fastforce

text \<open>What it does not touch.\<close>

definition outside_subscriptions :: "db \<Rightarrow> db \<Rightarrow> bool" where
  "outside_subscriptions s s' \<longleftrightarrow>
     payments s' = payments s \<and> billingEvents s' = billingEvents s
     \<and> checkoutIntents s' = checkoutIntents s \<and> jobs s' = jobs s \<and> accounts s' = accounts s
     \<and> planRevisions s' = planRevisions s \<and> priceRevisions s' = priceRevisions s
     \<and> memberships s' = memberships s \<and> db_now s' = db_now s \<and> db_uuids s' = db_uuids s"

lemma materialize_transition_frame:
  "materialize_transition H row t r d at c s = Inr (y, s') \<Longrightarrow> outside_subscriptions s s'"
  by (auto simp: materialize_transition_def outside_subscriptions_def andThen_Inr_iff
      update_subscription_Inr insert_transition_row_Inr insert_audit_Inr split: option.splits)

lemma materialize_frame:
  assumes "materializeDueCurrentSubscriptionLocked H a at c s = Inr (x, s')"
  shows "outside_subscriptions s s'"
proof (cases "classify s a at")
  case None
  then show ?thesis
    using assms by (simp add: materializeDueCurrentSubscriptionLocked_def outside_subscriptions_def)
next
  case (Some p)
  obtain row d where p: "p = (row, d)" by (cases p)
  show ?thesis
    using assms Some p materialize_transition_frame
    by (cases d) (auto simp: materializeDueCurrentSubscriptionLocked_def outside_subscriptions_def andThen_Inr_iff)
qed

lemma yields_materialization [yields_rules]:
  "(m = MAT_NONE \<Longrightarrow> yields f s Q) \<Longrightarrow> (\<And>i st. m = MAT_CURRENT i st \<Longrightarrow> yields (g i st) s Q) \<Longrightarrow>
   (\<And>i. m = MAT_CORRUPTED i \<Longrightarrow> yields (h i) s Q) \<Longrightarrow>
   yields (case m of MAT_NONE \<Rightarrow> f | MAT_CURRENT i st \<Rightarrow> g i st | MAT_CORRUPTED i \<Rightarrow> h i) s Q"
  by (cases m) simp_all

lemma protocol_materialization:
  "(m = MAT_NONE \<Longrightarrow> protocol f s) \<Longrightarrow> (\<And>i st. m = MAT_CURRENT i st \<Longrightarrow> protocol (g i st) s) \<Longrightarrow>
   (\<And>i. m = MAT_CORRUPTED i \<Longrightarrow> protocol (h i) s) \<Longrightarrow>
   protocol (case m of MAT_NONE \<Rightarrow> f | MAT_CURRENT i st \<Rightarrow> g i st | MAT_CORRUPTED i \<Rightarrow> h i) s"
  by (cases m) simp_all

text \<open>The read-only preflight agrees with the writing version.\<close>

lemma preflight_agrees:
  assumes "materializeDueCurrentSubscriptionLocked H a at c s = Inr (x, s')"
  shows "hasCurrentSubscriptionAt s a at \<longleftrightarrow> x \<noteq> MAT_NONE"
  using assms
  by (auto simp: materializeDueCurrentSubscriptionLocked_def hasCurrentSubscriptionAt_def andThen_Inr_iff
      split: option.splits lifecycle_decision.splits if_splits)

lemmas materializer_eval [eval_simps] = materializeDueCurrentSubscriptionLocked_def classify_def
  lifecycle_of_def suspended_origin_def decideSubscriptionLifecycle_def Let_def
  hasCurrentSubscriptionAt_def materialize_transition_def revision_def materialized_row_def
  lifecycle_action_def

end
