(* ===== verification/Subscription_Commands.thy ===== *)
theory Subscription_Commands
  imports Materializer
begin

text \<open>
  packages/server/db/src/p5-subscription-repository.ts: grant, extend, suspend and restore a
  subscription, and the two readers. Each command is one transaction under the account's
  advisory lock, so a command is an atomic function of the database. \<open>sanitize\<close> stands for
  \<open>sanitizeFeedbackText\<close> of packages/server/feedback-support, \<open>before\<close> for the optional
  \<open>beforeMutation\<close> hook, and each reading of the injected clock is an argument.
\<close>

section \<open>Context and helpers\<close>

datatype actor_type = ACTOR_SYSTEM | ACTOR_ADMIN

record mutation_context =
  ctx_actorType :: actor_type
  ctx_actorId :: "uuid option"
  ctx_correlationId :: string
  ctx_reason :: string

fun actor_text :: "actor_type \<Rightarrow> string" where
  "actor_text ACTOR_SYSTEM = ''SYSTEM''"
| "actor_text ACTOR_ADMIN = ''ADMIN''"

fun actor_source :: "actor_type \<Rightarrow> transition_source" where
  "actor_source ACTOR_SYSTEM = SRC_SYSTEM"
| "actor_source ACTOR_ADMIN = SRC_ADMIN"

datatype mutation_operation = GRANT | EXTEND time | SUSPEND | RESTORE

type_synonym mutation_hook =
  "mutation_operation \<Rightarrow> uuid \<Rightarrow> uuid option \<Rightarrow> mutation_context \<Rightarrow> unit dbtx"

definition no_hook :: mutation_hook where
  "no_hook operation accountId subscriptionId context = ret ()"

definition safeAuditReason :: "(string \<Rightarrow> string) \<Rightarrow> string \<Rightarrow> string" where
  "safeAuditReason sanitize input =
     (let sanitized = take 512 (sanitize input) in
      if sanitized = [] then ''[REDACTED]'' else sanitized)"

definition snapshot :: "subscription_row \<Rightarrow> subscription_snapshot dbtx" where
  "snapshot row =
     andThen (revision (sub_stateRevision row)) (\<lambda>_. ret (subscription_snapshot.truncate row))"

definition audit_subscription ::
  "(string \<Rightarrow> string) \<Rightarrow> mutation_context \<Rightarrow> string \<Rightarrow> uuid \<Rightarrow> (string \<times> json) list \<Rightarrow> unit dbtx" where
  "audit_subscription sanitize context action subscriptionId metadata =
     insert_audit
       \<lparr>aud_actorType = actor_text (ctx_actorType context), aud_actorId = ctx_actorId context,
        aud_action = action, aud_targetType = ''SUBSCRIPTION'', aud_targetId = subscriptionId,
        aud_correlationId = ctx_correlationId context,
        aud_reason = Some (safeAuditReason sanitize (ctx_reason context)),
        aud_safeMetadata = metadata\<rparr>"

definition nextTransitionRevision :: "uuid \<Rightarrow> int dbtx" where
  "nextTransitionRevision subscriptionId =
     andThen (gets (\<lambda>s. next_transition_revision s subscriptionId)) revision"

definition insertTransition ::
  "uuid \<Rightarrow> subscription_state option \<Rightarrow> subscription_state \<Rightarrow> mutation_context \<Rightarrow> time \<Rightarrow> int dbtx" where
  "insertTransition subscriptionId fromState toState context occurredAt =
     andThen (nextTransitionRevision subscriptionId) (\<lambda>transitionRevision.
     andThen (insert_transition_row (\<lambda>i.
         \<lparr>tr_id = i, tr_subscriptionId = subscriptionId, tr_transitionRevision = transitionRevision,
          tr_fromState = fromState, tr_toState = toState,
          tr_source = actor_source (ctx_actorType context), tr_sourceEventId = None,
          tr_actorType = Some (actor_text (ctx_actorType context)), tr_actorId = ctx_actorId context,
          tr_reason = ctx_reason context, tr_occurredAt = occurredAt\<rparr>)) (\<lambda>_.
     ret transitionRevision))"

text \<open>\<open>rows[0]!\<close>: reading a row that is not there is a TypeError.\<close>

definition the_row :: "'r option \<Rightarrow> 'r dbtx" where
  "the_row found = (case found of None \<Rightarrow> throw (Thrown ''TypeError'') | Some r \<Rightarrow> ret r)"

definition opt_json :: "('a \<Rightarrow> json) \<Rightarrow> 'a option \<Rightarrow> json" where
  "opt_json f x = (case x of None \<Rightarrow> JNull | Some y \<Rightarrow> f y)"

section \<open>Grant\<close>

definition granted_row :: "grant_command \<Rightarrow> string \<Rightarrow> time \<Rightarrow> uuid \<Rightarrow> subscription_row" where
  "granted_row command reason now i =
     \<lparr>sub_id = i, sub_accountId = grant_accountId command, sub_state = ACTIVE, sub_stateRevision = 1,
      sub_currentPlanRevisionId = grant_planRevisionId command, sub_boundPriceRevisionId = None,
      sub_startedAt = now, sub_currentPeriodStart = now,
      sub_currentPeriodEnd = grant_currentPeriodEnd command, sub_graceUntil = None,
      sub_cancelAtPeriodEnd = False, sub_canceledAt = None, sub_suspendedAt = None,
      sub_createdAt = now, sub_updatedAt = now, sub_stateReason = reason\<rparr>"

definition insert_granted ::
  "(string \<Rightarrow> string) \<Rightarrow> grant_command \<Rightarrow> mutation_context \<Rightarrow> time \<Rightarrow> subscription_command_result dbtx" where
  "insert_granted sanitize command context lockedNow =
     andThen (insert_subscription (granted_row command (ctx_reason context) lockedNow)) (\<lambda>row.
     andThen (snapshot row) (\<lambda>value.
     andThen (insertTransition (sub_id value) None ACTIVE context lockedNow) (\<lambda>_.
     andThen (audit_subscription sanitize context ''SUBSCRIPTION_GRANTED'' (sub_id value)
         [(''accountId'', JStr (sub_accountId value)),
          (''planRevisionId'', JStr (sub_currentPlanRevisionId value)),
          (''boundPriceRevisionId'', JNull), (''fromState'', JNull), (''toState'', JStr ''ACTIVE''),
          (''stateRevision'', JInt (sub_stateRevision value)), (''transitionRevision'', JInt 1)]) (\<lambda>_.
     ret (SubOK True value)))))"

definition grant_transaction ::
  "mutation_hook \<Rightarrow> (string \<Rightarrow> string) \<Rightarrow> (string \<Rightarrow> string) \<Rightarrow> time \<Rightarrow> grant_command
    \<Rightarrow> mutation_context \<Rightarrow> subscription_command_result dbtx" where
  "grant_transaction before sanitize H lockedNow command context =
     andThen (before GRANT (grant_accountId command) None context) (\<lambda>_.
     andThen (gets (\<lambda>s. account_of s (grant_accountId command))) (\<lambda>account.
     if account = None then ret (SubREJECTED SUB_ACCOUNT_NOT_FOUND)
     else if \<not> lockedNow < grant_currentPeriodEnd command then ret (SubREJECTED SUBSCRIPTION_PERIOD_INVALID)
     else
       andThen (materializeDueCurrentSubscriptionLocked H (grant_accountId command) lockedNow
           (ctx_correlationId context)) (\<lambda>current.
         case current of
           MAT_CORRUPTED _ \<Rightarrow> ret (SubREJECTED SUBSCRIPTION_CORRUPTED)
         | MAT_CURRENT _ _ \<Rightarrow> ret (SubREJECTED SUBSCRIPTION_ALREADY_EXISTS)
         | MAT_NONE \<Rightarrow>
             andThen (gets (\<lambda>s. plan_revision_of s (grant_planRevisionId command))) (\<lambda>plan.
               case plan of
                 None \<Rightarrow> ret (SubREJECTED SUB_PLAN_REVISION_NOT_FOUND)
               | Some p \<Rightarrow>
                   if plr_state p = PUBLISHED
                   then insert_granted sanitize command context lockedNow
                   else ret (SubREJECTED SUB_PLAN_REVISION_NOT_PUBLISHED)))))"

definition grantSubscription ::
  "mutation_hook \<Rightarrow> (string \<Rightarrow> string) \<Rightarrow> (string \<Rightarrow> string) \<Rightarrow> time \<Rightarrow> time \<Rightarrow> grant_command
    \<Rightarrow> mutation_context \<Rightarrow> db \<Rightarrow> (failure + subscription_command_result) \<times> db" where
  "grantSubscription before sanitize H preflightNow lockedNow command context s =
     (if \<not> preflightNow < grant_currentPeriodEnd command
      then (Inr (SubREJECTED SUBSCRIPTION_PERIOD_INVALID), s)
      else transaction (grant_transaction before sanitize H lockedNow command context) s)"

section \<open>Extend, suspend, restore\<close>

definition extend_branch ::
  "(string \<Rightarrow> string) \<Rightarrow> mutation_context \<Rightarrow> time \<Rightarrow> subscription_snapshot \<Rightarrow> time
    \<Rightarrow> subscription_command_result dbtx" where
  "extend_branch sanitize context lockedNow value newEnd =
     (if sub_state value = EXPIRED then ret (SubREJECTED SUBSCRIPTION_PERIOD_ENDED)
      else if \<not> sub_currentPeriodEnd value < newEnd then ret (SubREJECTED SUBSCRIPTION_PERIOD_NOT_EXTENDED)
      else if (case sub_graceUntil value of None \<Rightarrow> False | Some g \<Rightarrow> g \<le> newEnd)
      then ret (SubREJECTED SUBSCRIPTION_GRACE_WINDOW_CONFLICT)
      else
        andThen (update_subscription (sub_id value) (\<lambda>r. r\<lparr>sub_currentPeriodEnd := newEnd,
            sub_stateRevision := sub_stateRevision r + 1, sub_updatedAt := lockedNow\<rparr>)) (\<lambda>updated.
        andThen (the_row updated) (\<lambda>row.
        andThen (snapshot row) (\<lambda>next.
        andThen (audit_subscription sanitize context ''SUBSCRIPTION_EXTENDED'' (sub_id next)
            [(''accountId'', JStr (sub_accountId next)),
             (''oldStateRevision'', JInt (sub_stateRevision value)),
             (''newStateRevision'', JInt (sub_stateRevision next)),
             (''oldPeriodEnd'', JStr (toISOString (sub_currentPeriodEnd value))),
             (''newPeriodEnd'', JStr (toISOString (sub_currentPeriodEnd next)))]) (\<lambda>_.
        ret (SubOK True next))))))"

definition audit_move ::
  "(string \<Rightarrow> string) \<Rightarrow> mutation_context \<Rightarrow> string \<Rightarrow> subscription_snapshot \<Rightarrow> subscription_snapshot
    \<Rightarrow> int \<Rightarrow> unit dbtx" where
  "audit_move sanitize context action value next transitionRevision =
     audit_subscription sanitize context action (sub_id next)
       [(''accountId'', JStr (sub_accountId next)),
        (''fromState'', JStr (state_text (sub_state value))),
        (''toState'', JStr (state_text (sub_state next))),
        (''oldStateRevision'', JInt (sub_stateRevision value)),
        (''newStateRevision'', JInt (sub_stateRevision next)),
        (''transitionRevision'', JInt transitionRevision)]"

definition suspend_branch ::
  "(string \<Rightarrow> string) \<Rightarrow> mutation_context \<Rightarrow> time \<Rightarrow> subscription_snapshot
    \<Rightarrow> subscription_command_result dbtx" where
  "suspend_branch sanitize context lockedNow value =
     (if sub_state value = SUSPENDED then ret (SubOK False value)
      else if sub_state value = EXPIRED
          \<or> validateSubscriptionStateTransition (Some (sub_state value)) SUSPENDED \<noteq> None
      then ret (SubREJECTED SUBSCRIPTION_STATE_TRANSITION_INVALID)
      else
        andThen (update_subscription (sub_id value) (\<lambda>r. r\<lparr>sub_state := SUSPENDED,
            sub_stateRevision := sub_stateRevision r + 1, sub_suspendedAt := Some lockedNow,
            sub_stateReason := ctx_reason context, sub_updatedAt := lockedNow\<rparr>)) (\<lambda>updated.
        andThen (the_row updated) (\<lambda>row.
        andThen (snapshot row) (\<lambda>next.
        andThen (insertTransition (sub_id next) (Some (sub_state value)) SUSPENDED context lockedNow)
          (\<lambda>transitionRevision.
        andThen (audit_move sanitize context ''SUBSCRIPTION_SUSPENDED'' value next transitionRevision) (\<lambda>_.
        ret (SubOK True next)))))))"

text \<open>What a restore to \<open>origin\<close> is refused for.\<close>

definition restore_refusal ::
  "subscription_state \<Rightarrow> subscription_snapshot \<Rightarrow> time \<Rightarrow> subscription_failure option" where
  "restore_refusal origin value lockedNow =
     (if origin = EXPIRED then Some SUBSCRIPTION_RESTORE_ORIGIN_NOT_FOUND
      else if origin = TRIAL \<or> origin = ACTIVE \<or> origin = CANCELED then
        (if \<not> lockedNow < sub_currentPeriodEnd value then Some SUBSCRIPTION_PERIOD_ENDED else None)
      else if origin = GRACE then
        (case sub_graceUntil value of
           None \<Rightarrow> Some SUBSCRIPTION_CORRUPTED
         | Some g \<Rightarrow> if \<not> lockedNow < g then Some SUBSCRIPTION_GRACE_ENDED else None)
      else None)"

definition restore_to ::
  "(string \<Rightarrow> string) \<Rightarrow> mutation_context \<Rightarrow> time \<Rightarrow> subscription_snapshot \<Rightarrow> subscription_state
    \<Rightarrow> subscription_command_result dbtx" where
  "restore_to sanitize context lockedNow value origin =
     andThen (update_subscription (sub_id value) (\<lambda>r. r\<lparr>sub_state := origin,
         sub_stateRevision := sub_stateRevision r + 1, sub_suspendedAt := None,
         sub_stateReason := ctx_reason context, sub_updatedAt := lockedNow\<rparr>)) (\<lambda>updated.
     andThen (the_row updated) (\<lambda>row.
     andThen (snapshot row) (\<lambda>next.
     andThen (insertTransition (sub_id next) (Some SUSPENDED) origin context lockedNow) (\<lambda>transitionRevision.
     andThen (audit_move sanitize context ''SUBSCRIPTION_RESTORED'' value next transitionRevision) (\<lambda>_.
     ret (SubOK True next))))))"

definition restore_branch ::
  "(string \<Rightarrow> string) \<Rightarrow> mutation_context \<Rightarrow> time \<Rightarrow> subscription_snapshot
    \<Rightarrow> subscription_command_result dbtx" where
  "restore_branch sanitize context lockedNow value =
     (if sub_state value \<noteq> SUSPENDED then ret (SubREJECTED SUBSCRIPTION_NOT_SUSPENDED)
      else
        andThen (gets (\<lambda>s. latest_transition (\<lambda>_. True) (log_of s (sub_id value)))) (\<lambda>transition.
          case transition of
            None \<Rightarrow> ret (SubREJECTED SUBSCRIPTION_RESTORE_ORIGIN_NOT_FOUND)
          | Some t \<Rightarrow>
              (case tr_fromState t of
                 None \<Rightarrow> ret (SubREJECTED SUBSCRIPTION_RESTORE_ORIGIN_NOT_FOUND)
               | Some origin \<Rightarrow>
                   if tr_toState t \<noteq> SUSPENDED then ret (SubREJECTED SUBSCRIPTION_RESTORE_ORIGIN_NOT_FOUND)
                   else (case restore_refusal origin value lockedNow of
                           Some code \<Rightarrow> ret (SubREJECTED code)
                         | None \<Rightarrow> restore_to sanitize context lockedNow value origin))))"

definition mutate_transaction ::
  "mutation_hook \<Rightarrow> (string \<Rightarrow> string) \<Rightarrow> (string \<Rightarrow> string) \<Rightarrow> time \<Rightarrow> uuid \<Rightarrow> uuid \<Rightarrow> mutation_operation
    \<Rightarrow> int \<Rightarrow> mutation_context \<Rightarrow> subscription_command_result dbtx" where
  "mutate_transaction before sanitize H lockedNow accountId subscriptionId operation expected context =
     andThen (before operation accountId (Some subscriptionId) context) (\<lambda>_.
     andThen (case operation of
         EXTEND _ \<Rightarrow> materializeDueCurrentSubscriptionLocked H accountId lockedNow (ctx_correlationId context)
       | _ \<Rightarrow> ret MAT_NONE) (\<lambda>materialized.
     case materialized of
       MAT_CORRUPTED _ \<Rightarrow> ret (SubREJECTED SUBSCRIPTION_CORRUPTED)
     | _ \<Rightarrow>
         andThen (gets (\<lambda>s. subscription_of s subscriptionId)) (\<lambda>current.
           case current of
             None \<Rightarrow> ret (SubREJECTED SUBSCRIPTION_NOT_FOUND)
           | Some row \<Rightarrow>
               andThen (snapshot row) (\<lambda>value.
                 if sub_stateRevision value \<noteq> expected then ret (SubREJECTED SUBSCRIPTION_STATE_STALE)
                 else (case operation of
                         EXTEND newEnd \<Rightarrow> extend_branch sanitize context lockedNow value newEnd
                       | SUSPEND \<Rightarrow> suspend_branch sanitize context lockedNow value
                       | _ \<Rightarrow> restore_branch sanitize context lockedNow value)))))"

definition mutate ::
  "mutation_hook \<Rightarrow> (string \<Rightarrow> string) \<Rightarrow> (string \<Rightarrow> string) \<Rightarrow> time \<Rightarrow> uuid \<Rightarrow> mutation_operation \<Rightarrow> int
    \<Rightarrow> mutation_context \<Rightarrow> db \<Rightarrow> (failure + subscription_command_result) \<times> db" where
  "mutate before sanitize H lockedNow subscriptionId operation expected context s =
     (case subscription_of s subscriptionId of
        None \<Rightarrow> (Inr (SubREJECTED SUBSCRIPTION_NOT_FOUND), s)
      | Some row \<Rightarrow>
          transaction (mutate_transaction before sanitize H lockedNow (sub_accountId row)
            subscriptionId operation expected context) s)"

definition extendSubscription ::
  "mutation_hook \<Rightarrow> (string \<Rightarrow> string) \<Rightarrow> (string \<Rightarrow> string) \<Rightarrow> time \<Rightarrow> extend_command
    \<Rightarrow> mutation_context \<Rightarrow> db \<Rightarrow> (failure + subscription_command_result) \<times> db" where
  "extendSubscription before sanitize H lockedNow command context =
     mutate before sanitize H lockedNow (extend_subscriptionId command)
       (EXTEND (extend_newCurrentPeriodEnd command)) (extend_expectedStateRevision command) context"

definition suspendSubscription ::
  "mutation_hook \<Rightarrow> (string \<Rightarrow> string) \<Rightarrow> (string \<Rightarrow> string) \<Rightarrow> time \<Rightarrow> suspend_command
    \<Rightarrow> mutation_context \<Rightarrow> db \<Rightarrow> (failure + subscription_command_result) \<times> db" where
  "suspendSubscription before sanitize H lockedNow command context =
     mutate before sanitize H lockedNow (suspend_subscriptionId command) SUSPEND
       (suspend_expectedStateRevision command) context"

definition restoreSubscription ::
  "mutation_hook \<Rightarrow> (string \<Rightarrow> string) \<Rightarrow> (string \<Rightarrow> string) \<Rightarrow> time \<Rightarrow> restore_command
    \<Rightarrow> mutation_context \<Rightarrow> db \<Rightarrow> (failure + subscription_command_result) \<times> db" where
  "restoreSubscription before sanitize H lockedNow command context =
     mutate before sanitize H lockedNow (restore_subscriptionId command) RESTORE
       (restore_expectedStateRevision command) context"

section \<open>Readers\<close>

definition getCurrentSubscription :: "db \<Rightarrow> uuid \<Rightarrow> subscription_snapshot option" where
  "getCurrentSubscription s accountId =
     map_option subscription_snapshot.truncate (current_subscription s accountId)"

text \<open>\<open>ORDER BY (state <> 'EXPIRED') DESC, updated_at DESC LIMIT 1\<close>\<close>

definition observed_before :: "subscription_row \<Rightarrow> subscription_row \<Rightarrow> bool" where
  "observed_before r b \<longleftrightarrow>
     sub_state r \<noteq> EXPIRED \<and> sub_state b = EXPIRED
   \<or> (sub_state r = EXPIRED \<longleftrightarrow> sub_state b = EXPIRED) \<and> sub_updatedAt b < sub_updatedAt r"

definition observed_subscription :: "uuid \<Rightarrow> subscription_row list \<Rightarrow> subscription_row option" where
  "observed_subscription accountId rows =
     fold (\<lambda>r best. if sub_accountId r = accountId
                      \<and> (case best of None \<Rightarrow> True | Some b \<Rightarrow> observed_before r b)
                    then Some r else best) rows None"

definition readSubscriptionAccessObservation :: "db \<Rightarrow> uuid \<Rightarrow> time \<Rightarrow> access_observation option" where
  "readSubscriptionAccessObservation s accountId at =
     (case account_of s accountId of
        None \<Rightarrow> None
      | Some account \<Rightarrow>
          Some (acct_status account,
                map_option subscription_snapshot.truncate
                  (observed_subscription accountId (subscriptions s))))"

section \<open>Every command takes steps of the protocol\<close>

lemma protocol_audit_subscription [tx_rules]: "protocol (audit_subscription sa ctx a i m) s"
  by (simp add: audit_subscription_def protocol_audit)

lemma protocol_audit_move [tx_rules]: "protocol (audit_move sa ctx a v n t) s"
  by (simp add: audit_move_def protocol_audit_subscription)

lemma snapshot_Inr [simp]:
  "snapshot r s = Inr (v, s') \<longleftrightarrow>
     0 < sub_stateRevision r \<and> sub_stateRevision r \<le> max_safe_integer
     \<and> v = subscription_snapshot.truncate r \<and> s' = s"
  by (auto simp: snapshot_def andThen_Inr_iff)

lemma protocol_snapshot [tx_rules]: "protocol (snapshot r) s"
  by (rule protocolI) simp

lemma the_row_Inr [simp]: "the_row u s = Inr (r, s') \<longleftrightarrow> u = Some r \<and> s' = s"
  by (auto simp: the_row_def split: option.splits)

lemma truncate_fields [simp]:
  "sub_id (subscription_snapshot.truncate r) = sub_id r"
  "sub_accountId (subscription_snapshot.truncate r) = sub_accountId r"
  "sub_state (subscription_snapshot.truncate r) = sub_state r"
  "sub_stateRevision (subscription_snapshot.truncate r) = sub_stateRevision r"
  "sub_currentPlanRevisionId (subscription_snapshot.truncate r) = sub_currentPlanRevisionId r"
  "sub_boundPriceRevisionId (subscription_snapshot.truncate r) = sub_boundPriceRevisionId r"
  "sub_currentPeriodStart (subscription_snapshot.truncate r) = sub_currentPeriodStart r"
  "sub_currentPeriodEnd (subscription_snapshot.truncate r) = sub_currentPeriodEnd r"
  "sub_graceUntil (subscription_snapshot.truncate r) = sub_graceUntil r"
  "sub_cancelAtPeriodEnd (subscription_snapshot.truncate r) = sub_cancelAtPeriodEnd r"
  "sub_suspendedAt (subscription_snapshot.truncate r) = sub_suspendedAt r"
  "sub_updatedAt (subscription_snapshot.truncate r) = sub_updatedAt r"
  by (simp_all add: subscription_snapshot.truncate_def)

lemma insertTransition_Inr:
  "insertTransition i fr to ctx at s = Inr (n, s') \<longleftrightarrow>
     n = next_transition_revision s i \<and> 0 < n \<and> n \<le> max_safe_integer
     \<and> (\<exists>t. insert_transition_row (\<lambda>j. \<lparr>tr_id = j, tr_subscriptionId = i, tr_transitionRevision = n,
          tr_fromState = fr, tr_toState = to, tr_source = actor_source (ctx_actorType ctx),
          tr_sourceEventId = None, tr_actorType = Some (actor_text (ctx_actorType ctx)),
          tr_actorId = ctx_actorId ctx, tr_reason = ctx_reason ctx, tr_occurredAt = at\<rparr>) s = Inr (t, s'))"
  by (auto simp: insertTransition_def nextTransitionRevision_def andThen_Inr_iff)

lemma protocol_insert_granted [tx_rules]: "protocol (insert_granted sa cmd ctx now) s"
proof (rule protocolI)
  fix x s'
  assume "insert_granted sa cmd ctx now s = Inr (x, s')"
  then obtain r s1 n s2 u where
      sub: "insert_subscription (granted_row cmd (ctx_reason ctx) now) s = Inr (r, s1)"
    and tr: "insertTransition (sub_id r) None ACTIVE ctx now s1 = Inr (n, s2)"
    and aud: "audit_subscription sa ctx ''SUBSCRIPTION_GRANTED'' (sub_id r) u s2 = Inr ((), s')"
    by (auto simp: insert_granted_def andThen_Inr_iff)
  have r: "sub_state r = ACTIVE" "sub_stateRevision r = 1" "sub_graceUntil r = None"
    using sub by (simp_all add: insert_subscription_Inr granted_row_def)
  obtain t where t: "insert_transition_row (\<lambda>j. \<lparr>tr_id = j, tr_subscriptionId = sub_id r, tr_transitionRevision = n,
          tr_fromState = None, tr_toState = ACTIVE, tr_source = actor_source (ctx_actorType ctx),
          tr_sourceEventId = None, tr_actorType = Some (actor_text (ctx_actorType ctx)),
          tr_actorId = ctx_actorId ctx, tr_reason = ctx_reason ctx, tr_occurredAt = now\<rparr>) s1 = Inr (t, s2)"
    using tr by (auto simp: insertTransition_Inr)
  have "step\<^sup>*\<^sup>* s s2"
    by (rule path_open [OF sub t r]) (use t in \<open>simp_all add: insert_transition_row_Inr\<close>)
  moreover have "step s2 s'"
    using aud by (auto simp: audit_subscription_def insert_audit_Inr intro: step.audit)
  ultimately show "step\<^sup>*\<^sup>* s s'"
    by (rule rtranclp.rtrancl_into_rtrancl)
qed

lemma protocol_grant:
  assumes "\<And>s. protocol (before GRANT (grant_accountId cmd) None ctx) s"
  shows "protocol (grant_transaction before sa H now cmd ctx) s"
  unfolding grant_transaction_def
  by (intro tx_rules assms; simp split: materialization.split option.split; intro conjI impI allI tx_rules)

lemma protocol_extend_branch:
  assumes "subscription_of s (sub_id v) = Some r" and "v = subscription_snapshot.truncate r"
  shows "protocol (extend_branch sa ctx now v e) s"
proof (rule protocolI)
  fix x s'
  assume run: "extend_branch sa ctx now v e s = Inr (x, s')"
  let ?f = "\<lambda>r::subscription_row. r\<lparr>sub_currentPeriodEnd := e,
            sub_stateRevision := sub_stateRevision r + 1, sub_updatedAt := now\<rparr>"
  show "step\<^sup>*\<^sup>* s s'"
  proof (cases "sub_state v \<noteq> EXPIRED \<and> sub_currentPeriodEnd v < e \<and>
      \<not> (case sub_graceUntil v of None \<Rightarrow> False | Some g \<Rightarrow> g \<le> e)")
    case True
    then obtain u s1 m where upd: "update_subscription (sub_id v) ?f s = Inr (u, s1)"
      and aud: "audit_subscription sa ctx ''SUBSCRIPTION_EXTENDED'' (sub_id (?f r)) m s1 = Inr ((), s')"
      using run assms by (auto simp: extend_branch_def andThen_Inr_iff update_subscription_Inr)
    have s1: "s1 = s\<lparr>subscriptions := update_where (\<lambda>x. sub_id x = sub_id v) ?f (subscriptions s)\<rparr>"
      and acc: "subscription_accepted s (filter (\<lambda>o'. sub_id o' \<noteq> sub_id v) (subscriptions s)) (?f r)"
      using upd assms(1) by (simp_all add: update_subscription_Inr)
    have "step s s1"
      unfolding s1
      by (rule step.extend [OF assms(1)])
        (use True assms(2) acc in \<open>simp_all add: same_terms_def same_subscription_def\<close>)
    moreover have "step s1 s'"
      using aud by (auto simp: audit_subscription_def insert_audit_Inr intro: step.audit)
    ultimately show ?thesis
      by (auto intro: rtranclp.rtrancl_into_rtrancl)
  next
    case False
    then show ?thesis
      using run by (auto simp: extend_branch_def split: if_splits option.splits)
  qed
qed

text \<open>Suspend and restore write a state change; this is what both have in common.\<close>

lemma path_insertTransition:
  assumes inv: "commercial_inv s" and row: "subscription_of s i = Some r"
    and upd: "update_subscription i f s = Inr (u, s1)"
    and tr: "insertTransition i (Some (sub_state r)) (sub_state (f r)) ctx now s1 = Inr (n, s2)"
    and same: "same_terms r (f r)" "sub_currentPeriodEnd (f r) = sub_currentPeriodEnd r"
    and allowed: "validateSubscriptionStateTransition (Some (sub_state r)) (sub_state (f r)) = None"
  shows "step\<^sup>*\<^sup>* s s2"
proof -
  have n: "n = next_transition_revision s1 i"
    using tr by (simp add: insertTransition_Inr)
  obtain t where t: "insert_transition_row (\<lambda>j. \<lparr>tr_id = j, tr_subscriptionId = i, tr_transitionRevision = n,
          tr_fromState = Some (sub_state r), tr_toState = sub_state (f r),
          tr_source = actor_source (ctx_actorType ctx), tr_sourceEventId = None,
          tr_actorType = Some (actor_text (ctx_actorType ctx)), tr_actorId = ctx_actorId ctx,
          tr_reason = ctx_reason ctx, tr_occurredAt = now\<rparr>) s1 = Inr (t, s2)"
    using tr by (auto simp: insertTransition_Inr)
  show ?thesis
    by (rule path_change_state [OF inv row upd t same allowed])
      (use t n in \<open>simp_all add: insert_transition_row_Inr\<close>)
qed

lemma protocol_suspend_branch:
  assumes row: "subscription_of s (sub_id v) = Some r" and v: "v = subscription_snapshot.truncate r"
  shows "protocol (suspend_branch sa ctx now v) s"
proof (rule protocolI)
  fix x s'
  assume inv: "commercial_inv s" and run: "suspend_branch sa ctx now v s = Inr (x, s')"
  let ?f = "\<lambda>r::subscription_row. r\<lparr>sub_state := SUSPENDED,
            sub_stateRevision := sub_stateRevision r + 1, sub_suspendedAt := Some now,
            sub_stateReason := ctx_reason ctx, sub_updatedAt := now\<rparr>"
  show "step\<^sup>*\<^sup>* s s'"
  proof (cases "sub_state v = SUSPENDED \<or> sub_state v = EXPIRED")
    case True
    then show ?thesis
      using run by (auto simp: suspend_branch_def split: if_splits)
  next
    case False
    then have ok: "validateSubscriptionStateTransition (Some (sub_state v)) SUSPENDED = None"
      by (simp add: suspend_allowed)
    then obtain u s1 n s2 m where upd: "update_subscription (sub_id v) ?f s = Inr (u, s1)"
      and tr: "insertTransition (sub_id v) (Some (sub_state r)) (sub_state (?f r)) ctx now s1 = Inr (n, s2)"
      and aud: "audit_move sa ctx ''SUBSCRIPTION_SUSPENDED'' v m n s2 = Inr ((), s')"
      using run False row v by (auto simp: suspend_branch_def andThen_Inr_iff update_subscription_Inr)
    have "step\<^sup>*\<^sup>* s s2"
      by (rule path_insertTransition [OF inv row upd tr])
        (use ok v in \<open>simp_all add: same_terms_def same_subscription_def\<close>)
    moreover have "step s2 s'"
      using aud by (auto simp: audit_move_def audit_subscription_def insert_audit_Inr intro: step.audit)
    ultimately show ?thesis
      by (rule rtranclp.rtrancl_into_rtrancl)
  qed
qed

lemma protocol_restore_to:
  assumes row: "subscription_of s (sub_id v) = Some r" and v: "v = subscription_snapshot.truncate r"
    and sus: "sub_state r = SUSPENDED" and origin: "origin \<noteq> SUSPENDED"
  shows "protocol (restore_to sa ctx now v origin) s"
proof (rule protocolI)
  fix x s'
  assume inv: "commercial_inv s" and run: "restore_to sa ctx now v origin s = Inr (x, s')"
  let ?f = "\<lambda>r::subscription_row. r\<lparr>sub_state := origin,
         sub_stateRevision := sub_stateRevision r + 1, sub_suspendedAt := None,
         sub_stateReason := ctx_reason ctx, sub_updatedAt := now\<rparr>"
  obtain u s1 n s2 m where upd: "update_subscription (sub_id v) ?f s = Inr (u, s1)"
    and tr: "insertTransition (sub_id v) (Some (sub_state r)) (sub_state (?f r)) ctx now s1 = Inr (n, s2)"
    and aud: "audit_move sa ctx ''SUBSCRIPTION_RESTORED'' v m n s2 = Inr ((), s')"
    using run row v sus by (auto simp: restore_to_def andThen_Inr_iff update_subscription_Inr)
  have "step\<^sup>*\<^sup>* s s2"
    by (rule path_insertTransition [OF inv row upd tr])
      (use origin sus in \<open>simp_all add: same_terms_def same_subscription_def restore_allowed\<close>)
  moreover have "step s2 s'"
    using aud by (auto simp: audit_move_def audit_subscription_def insert_audit_Inr intro: step.audit)
  ultimately show "step\<^sup>*\<^sup>* s s'"
    by (rule rtranclp.rtrancl_into_rtrancl)
qed

text \<open>On a coherent log the origin of a restore is there, and it is neither suspended nor
  expired.\<close>

lemma restore_origin:
  assumes inv: "commercial_inv s" and row: "subscription_of s i = Some r" and sus: "sub_state r = SUSPENDED"
  obtains t origin where "latest_transition (\<lambda>_. True) (log_of s i) = Some t" "tr_toState t = SUSPENDED"
    "tr_fromState t = Some origin" "origin \<noteq> SUSPENDED" "origin \<noteq> EXPIRED"
    "suspended_origin s i = Some origin"
proof -
  have id: "sub_id r = i"
    using find_Some_mem row by (fastforce simp: subscription_of_def)
  obtain n where n: "replay (log_of s i) = Some (Some SUSPENDED, n)"
    using log_explains_of [OF commercial_invD(1,3) [OF inv] row]
    by (rule log_explainsE) (simp add: id sus)
  show thesis
    using suspended_origin_of_replay [OF n] that by (auto simp: suspended_origin_def)
qed

lemma protocol_restore_branch:
  assumes row: "subscription_of s (sub_id v) = Some r" and v: "v = subscription_snapshot.truncate r"
  shows "protocol (restore_branch sa ctx now v) s"
  unfolding moves_at_def
proof (intro impI allI)
  fix x s'
  assume inv: "commercial_inv s" and run: "restore_branch sa ctx now v s = Inr (x, s')"
  show "step\<^sup>*\<^sup>* s s' \<and> commercial_inv s'"
  proof (cases "sub_state r = SUSPENDED")
    case True
    obtain t origin where "latest_transition (\<lambda>_. True) (log_of s (sub_id v)) = Some t"
      "tr_toState t = SUSPENDED" "tr_fromState t = Some origin" and origin: "origin \<noteq> SUSPENDED"
      by (rule restore_origin [OF inv row True]) blast
    then have "restore_branch sa ctx now v s =
        (case restore_refusal origin v now of
           Some code \<Rightarrow> ret (SubREJECTED code) s | None \<Rightarrow> restore_to sa ctx now v origin s)"
      using True v by (simp add: restore_branch_def split: option.splits)
    then have "protocol (restore_branch sa ctx now v) s"
      using protocol_restore_to [OF row v True origin]
      by (cases "restore_refusal origin v now") (simp_all add: moves_at_def)
    then show ?thesis
      using inv run by (rule moves_atD)
  next
    case False
    then show ?thesis
      using run inv v by (simp add: restore_branch_def)
  qed
qed

lemma protocol_mutate:
  assumes "\<And>s. protocol (before op a (Some i) ctx) s"
  shows "protocol (mutate_transaction before sa H now a i op e ctx) s"
proof -
  have branch: "protocol (case op of EXTEND newEnd \<Rightarrow> extend_branch sa ctx now v newEnd
       | SUSPEND \<Rightarrow> suspend_branch sa ctx now v | _ \<Rightarrow> restore_branch sa ctx now v) s"
    if "subscription_of s i = Some r" "v = subscription_snapshot.truncate r" for s r v
  proof -
    have "sub_id v = i"
      using that find_Some_mem by (fastforce simp: subscription_of_def)
    then have "subscription_of s (sub_id v) = Some r"
      using that by simp
    from this that(2) show ?thesis
      by (cases op) (simp_all add: protocol_extend_branch protocol_suspend_branch protocol_restore_branch)
  qed
  have load: "protocol (andThen (gets (\<lambda>s. subscription_of s i)) (\<lambda>current.
           case current of
             None \<Rightarrow> ret (SubREJECTED SUBSCRIPTION_NOT_FOUND)
           | Some row \<Rightarrow>
               andThen (snapshot row) (\<lambda>value.
                 if sub_stateRevision value \<noteq> e then ret (SubREJECTED SUBSCRIPTION_STATE_STALE)
                 else (case op of EXTEND newEnd \<Rightarrow> extend_branch sa ctx now value newEnd
                         | SUSPEND \<Rightarrow> suspend_branch sa ctx now value
                         | _ \<Rightarrow> restore_branch sa ctx now value)))) s" for s
  proof (intro tx_rules)
    fix row v s'
    assume "subscription_of s i = Some row" "snapshot row s = Inr (v, s')"
    then show "protocol (case op of EXTEND newEnd \<Rightarrow> extend_branch sa ctx now v newEnd
                         | SUSPEND \<Rightarrow> suspend_branch sa ctx now v
                         | _ \<Rightarrow> restore_branch sa ctx now v) s'"
      by (intro branch [of s' row v]) simp_all
  qed
  show ?thesis
    unfolding mutate_transaction_def
    by (intro tx_rules assms; simp split: mutation_operation.split materialization.split;
        intro conjI impI allI tx_rules load)
qed

section \<open>The readers agree\<close>

lemma observed_before_trans: "observed_before a b \<Longrightarrow> observed_before b c \<Longrightarrow> observed_before a c"
  by (auto simp: observed_before_def)

lemma observed_spec:
  "case observed_subscription a rows of
     None \<Rightarrow> \<forall>x \<in> set rows. sub_accountId x \<noteq> a
   | Some b \<Rightarrow> b \<in> set rows \<and> sub_accountId b = a
       \<and> (\<forall>x \<in> set rows. sub_accountId x = a \<longrightarrow> \<not> observed_before x b)"
proof (induction rows rule: rev_induct)
  case Nil
  show ?case by (simp add: observed_subscription_def)
next
  case (snoc r rows)
  have last: "observed_subscription a (rows @ [r]) =
      (if sub_accountId r = a \<and> (case observed_subscription a rows of None \<Rightarrow> True | Some b \<Rightarrow> observed_before r b)
       then Some r else observed_subscription a rows)"
    by (simp add: observed_subscription_def)
  have irrefl: "\<not> observed_before r r"
    by (simp add: observed_before_def)
  show ?case
    unfolding last using snoc irrefl observed_before_trans
    by (cases "observed_subscription a rows") (auto split: if_splits)
qed

lemma observed_current:
  assumes "one_current s" and "current_subscription s a = Some c"
  shows "observed_subscription a (subscriptions s) = Some c"
proof -
  have c: "c \<in> set (subscriptions s)" "sub_accountId c = a" "sub_state c \<noteq> EXPIRED"
    using current_subscription_row [OF assms(2)] by simp_all
  then obtain b where b: "observed_subscription a (subscriptions s) = Some b" "b \<in> set (subscriptions s)"
    "sub_accountId b = a" "\<not> observed_before c b"
    using observed_spec [where a = a and rows = "subscriptions s"]
    by (cases "observed_subscription a (subscriptions s)") auto
  then have "sub_state b \<noteq> EXPIRED"
    using c by (auto simp: observed_before_def)
  then have "current_subscription s a = Some b"
    using b by (simp add: current_subscription_iff [OF assms(1)] is_current_def)
  with b assms(2) show ?thesis by simp
qed

interpretation reader: observation_reader commercial_inv getCurrentSubscription
  readSubscriptionAccessObservation
proof
  fix db a s
  assume "getCurrentSubscription db a = Some s"
  then show "sub_accountId s = a \<and> sub_state s \<noteq> EXPIRED"
    by (auto simp: getCurrentSubscription_def dest: current_subscription_row)
next
  fix db a at st sub s
  assume inv: "commercial_inv db" and obs: "readSubscriptionAccessObservation db a at = Some (st, sub)"
    and cur: "getCurrentSubscription db a = Some s"
  obtain c where "current_subscription db a = Some c" "s = subscription_snapshot.truncate c"
    using cur by (auto simp: getCurrentSubscription_def)
  then show "sub = Some s"
    using obs observed_current [OF commercial_invD(2) [OF inv]]
    by (auto simp: readSubscriptionAccessObservation_def split: option.splits)
next
  fix db a at st s
  assume obs: "readSubscriptionAccessObservation db a at = Some (st, Some s)"
    and cur: "getCurrentSubscription db a = None"
  obtain b where b: "observed_subscription a (subscriptions db) = Some b" "s = subscription_snapshot.truncate b"
    using obs by (auto simp: readSubscriptionAccessObservation_def split: option.splits)
  then have "b \<in> set (subscriptions db)" "sub_accountId b = a"
    using observed_spec [where a = a and rows = "subscriptions db"] by simp_all
  then show "sub_state s = EXPIRED"
    using cur b(2) by (auto simp: getCurrentSubscription_def current_subscription_None is_current_def)
qed

section \<open>What the commands do\<close>

lemma subscription_of_id: "subscription_of s i = Some r \<Longrightarrow> r \<in> set (subscriptions s) \<and> sub_id r = i"
  unfolding subscription_of_def by (drule find_Some_mem) simp

lemma subscription_of_written:
  assumes "subscription_of s i = Some r" and "\<And>x. sub_id (f x) = sub_id x"
    and "subscriptions s' = update_where (\<lambda>x. sub_id x = i) f (subscriptions s)"
  shows "subscription_of s' j = (if j = i then Some (f r) else subscription_of s j)"
proof -
  have "subscription_of s' j = map_option (\<lambda>r. if j = i then f r else r) (subscription_of s j)"
    unfolding subscription_of_def assms(3) by (rule find_update_where) (rule assms(2))
  then show ?thesis
    using assms(1) by (auto simp: map_option.id [unfolded id_def])
qed

definition suspended_row :: "mutation_context \<Rightarrow> time \<Rightarrow> subscription_row \<Rightarrow> subscription_row" where
  "suspended_row ctx now r = r\<lparr>sub_state := SUSPENDED,
     sub_stateRevision := sub_stateRevision r + 1, sub_suspendedAt := Some now,
     sub_stateReason := ctx_reason ctx, sub_updatedAt := now\<rparr>"

definition restored_row ::
  "mutation_context \<Rightarrow> time \<Rightarrow> subscription_state \<Rightarrow> subscription_row \<Rightarrow> subscription_row" where
  "restored_row ctx now origin r = r\<lparr>sub_state := origin,
     sub_stateRevision := sub_stateRevision r + 1, sub_suspendedAt := None,
     sub_stateReason := ctx_reason ctx, sub_updatedAt := now\<rparr>"

text \<open>A command that changes the state: the new row and the record it leaves in the log.\<close>

definition moved ::
  "db \<Rightarrow> db \<Rightarrow> uuid \<Rightarrow> subscription_row \<Rightarrow> subscription_row \<Rightarrow> bool" where
  "moved s s' i r r' \<longleftrightarrow>
     subscription_of s i = Some r \<and> subscription_of s' i = Some r'
     \<and> (\<forall>j. j \<noteq> i \<longrightarrow> subscription_of s' j = subscription_of s j)
     \<and> (\<exists>t. log_of s' i = log_of s i @ [t] \<and> tr_fromState t = Some (sub_state r)
          \<and> tr_toState t = sub_state r')
     \<and> payments s' = payments s \<and> jobs s' = jobs s"

lemma moved_by_writes:
  assumes row: "subscription_of s i = Some r" and id: "\<And>x. sub_id (f x) = sub_id x"
    and upd: "update_subscription i f s = Inr (u, s1)"
    and tr: "insertTransition i (Some (sub_state r)) (sub_state (f r)) ctx now s1 = Inr (n, s2)"
    and aud: "insert_audit a s2 = Inr (w, s')"
  shows "moved s s' i r (f r)"
proof -
  have s1: "s1 = s\<lparr>subscriptions := update_where (\<lambda>x. sub_id x = i) f (subscriptions s)\<rparr>"
    using upd row by (simp add: update_subscription_Inr)
  obtain mk t where w: "insert_transition_row mk s1 = Inr (t, s2)"
    and mk: "\<And>j. tr_subscriptionId (mk j) = i \<and> tr_fromState (mk j) = Some (sub_state r)
      \<and> tr_toState (mk j) = sub_state (f r)"
    using tr by (fastforce simp: insertTransition_Inr)
  have t: "tr_subscriptionId t = i" "tr_fromState t = Some (sub_state r)" "tr_toState t = sub_state (f r)"
    and s2: "s2 = s1\<lparr>transitions := transitions s1 @ [t], db_drawn := Suc (db_drawn s1)\<rparr>"
    using w mk by (auto simp: insert_transition_row_Inr)
  have s': "s' = s2\<lparr>auditEvents := auditEvents s2 @ [a]\<rparr>"
    using aud by (simp add: insert_audit_Inr)
  have subs: "subscriptions s' = update_where (\<lambda>x. sub_id x = i) f (subscriptions s)"
    and log: "transitions s' = transitions s @ [t]"
    and rest: "payments s' = payments s" "jobs s' = jobs s"
    by (simp_all add: s' s2 s1)
  show ?thesis
    unfolding moved_def using row t rest subscription_of_written [OF row id subs]
    by (auto simp: log_of_snoc [OF log])
qed

lemma mutate_run:
  assumes "mutate no_hook sa H now i op e ctx s = (Inr x, s')" and "subscription_of s i = Some r"
    and "op = SUSPEND \<or> op = RESTORE"
  shows "sub_stateRevision r \<noteq> e \<and> x = SubREJECTED SUBSCRIPTION_STATE_STALE \<and> s' = s
    \<or> sub_stateRevision r = e
      \<and> (case op of SUSPEND \<Rightarrow> suspend_branch sa ctx now (subscription_snapshot.truncate r) s
           | _ \<Rightarrow> restore_branch sa ctx now (subscription_snapshot.truncate r) s) = Inr (x, s')"
proof -
  have run: "mutate_transaction no_hook sa H now (sub_accountId r) i op e ctx s = Inr (x, s')"
    using assms(1,2) by (auto simp: mutate_def transaction_def split: sum.splits prod.splits)
  show ?thesis
    using run assms(2,3)
    by (auto simp: mutate_transaction_def no_hook_def andThen_Inr_iff split: if_splits)
qed

lemma suspend_effect:
  assumes run: "mutate no_hook sa H now i SUSPEND e ctx s = (Inr (SubOK True v), s')"
  obtains r where "sub_state r \<noteq> SUSPENDED" "sub_state r \<noteq> EXPIRED" "sub_stateRevision r = e"
    "moved s s' i r (suspended_row ctx now r)"
    "v = subscription_snapshot.truncate (suspended_row ctx now r)"
proof -
  obtain r where row: "subscription_of s i = Some r"
    using run by (auto simp: mutate_def split: option.splits)
  have id: "sub_id r = i"
    using subscription_of_id [OF row] by simp
  have e: "sub_stateRevision r = e"
    and br: "suspend_branch sa ctx now (subscription_snapshot.truncate r) s = Inr (SubOK True v, s')"
    using mutate_run [OF run row] by auto
  have st: "sub_state r \<noteq> SUSPENDED" "sub_state r \<noteq> EXPIRED"
    using br by (auto simp: suspend_branch_def split: if_splits)
  then obtain u s1 n s2 m where upd: "update_subscription i (suspended_row ctx now) s = Inr (u, s1)"
    and tr: "insertTransition i (Some (sub_state r)) (sub_state (suspended_row ctx now r)) ctx now s1 = Inr (n, s2)"
    and aud: "audit_move sa ctx ''SUBSCRIPTION_SUSPENDED'' (subscription_snapshot.truncate r) m n s2 = Inr ((), s')"
    and v: "v = subscription_snapshot.truncate (suspended_row ctx now r)"
    using br row id suspend_allowed [of "sub_state r"]
    by (auto simp: suspend_branch_def andThen_Inr_iff update_subscription_Inr suspended_row_def [abs_def])
  have "moved s s' i r (suspended_row ctx now r)"
    using aud
    by (intro moved_by_writes [OF row _ upd tr])
      (auto simp: suspended_row_def audit_move_def audit_subscription_def)
  then show thesis
    using that [OF st e] v by blast
qed

lemma restore_effect:
  assumes inv: "commercial_inv s"
    and run: "mutate no_hook sa H now i RESTORE e ctx s = (Inr (SubOK True v), s')"
  obtains r origin where "sub_state r = SUSPENDED" "suspended_origin s i = Some origin"
    "sub_stateRevision r = e" "moved s s' i r (restored_row ctx now origin r)"
    "restore_refusal origin (subscription_snapshot.truncate r) now = None"
    "v = subscription_snapshot.truncate (restored_row ctx now origin r)"
proof -
  obtain r where row: "subscription_of s i = Some r"
    using run by (auto simp: mutate_def split: option.splits)
  have id: "sub_id r = i"
    using subscription_of_id [OF row] by simp
  have e: "sub_stateRevision r = e"
    and br: "restore_branch sa ctx now (subscription_snapshot.truncate r) s = Inr (SubOK True v, s')"
    using mutate_run [OF run row] by auto
  have st: "sub_state r = SUSPENDED"
    using br by (auto simp: restore_branch_def split: if_splits)
  obtain t origin where t: "latest_transition (\<lambda>_. True) (log_of s i) = Some t" "tr_toState t = SUSPENDED"
      "tr_fromState t = Some origin" and so: "suspended_origin s i = Some origin"
    by (rule restore_origin [OF inv row st]) blast
  have ok: "restore_refusal origin (subscription_snapshot.truncate r) now = None"
    and to: "restore_to sa ctx now (subscription_snapshot.truncate r) origin s = Inr (SubOK True v, s')"
    using br st t id by (auto simp: restore_branch_def split: option.splits)
  obtain u s1 n s2 m where upd: "update_subscription i (restored_row ctx now origin) s = Inr (u, s1)"
    and tr: "insertTransition i (Some (sub_state r)) (sub_state (restored_row ctx now origin r)) ctx now s1 = Inr (n, s2)"
    and aud: "audit_move sa ctx ''SUBSCRIPTION_RESTORED'' (subscription_snapshot.truncate r) m n s2 = Inr ((), s')"
    and v: "v = subscription_snapshot.truncate (restored_row ctx now origin r)"
    using to row id st
    by (auto simp: restore_to_def andThen_Inr_iff update_subscription_Inr restored_row_def [abs_def])
  have "moved s s' i r (restored_row ctx now origin r)"
    using aud
    by (intro moved_by_writes [OF row _ upd tr])
      (auto simp: restored_row_def audit_move_def audit_subscription_def)
  then show thesis
    using that [OF st so e _ ok] v by blast
qed

section \<open>Examples\<close>

lemmas commands_eval [eval_simps] = grantSubscription_def grant_transaction_def no_hook_def
  insert_granted_def granted_row_def snapshot_def insertTransition_def nextTransitionRevision_def
  audit_subscription_def audit_move_def safeAuditReason_def subscription_snapshot.truncate_def
  mutate_def mutate_transaction_def the_row_def extend_branch_def suspend_branch_def
  restore_branch_def restore_to_def restore_refusal_def validateSubscriptionStateTransition_def
  allowed_targets_def

definition example_context :: mutation_context where
  "example_context = \<lparr>ctx_actorType = ACTOR_ADMIN, ctx_actorId = Some ''admin'',
     ctx_correlationId = ''c-1'', ctx_reason = ''support case''\<rparr>"

definition example_grant :: grant_command where
  "example_grant = \<lparr>grant_accountId = ''acct'', grant_planRevisionId = ''plan-r1'',
     grant_currentPeriodEnd = 900000\<rparr>"

definition granted_db :: db where
  "granted_db = snd (grantSubscription no_hook id id 2000 2000 example_grant example_context example_db)"

definition suspended_db :: db where
  "suspended_db = snd (mutate no_hook id id 3000 ''u'' SUSPEND 1 example_context granted_db)"

lemmas command_examples = example_context_def example_grant_def example_db_def granted_db_def suspended_db_def

lemma grant_protocol_inv:
  assumes "commercial_inv s"
  shows "step\<^sup>*\<^sup>* s (snd (grantSubscription no_hook sa H pre now cmd ctx s))
    \<and> commercial_inv (snd (grantSubscription no_hook sa H pre now cmd ctx s))"
proof -
  have "protocol (grant_transaction no_hook sa H now cmd ctx) s"
    by (rule protocol_grant) (simp add: no_hook_def moves_at_ret)
  note tx = moves_at_transaction [OF this assms]
  show ?thesis
    using assms tx by (simp add: grantSubscription_def)
qed

lemma mutate_protocol_inv:
  assumes "commercial_inv s"
  shows "step\<^sup>*\<^sup>* s (snd (mutate no_hook sa H now i op e ctx s))
    \<and> commercial_inv (snd (mutate no_hook sa H now i op e ctx s))"
proof -
  have "protocol (mutate_transaction no_hook sa H now a i op e ctx) s" for a
    by (rule protocol_mutate) (simp add: no_hook_def moves_at_ret)
  note tx = moves_at_transaction [OF this assms]
  show ?thesis
    using assms tx by (simp add: mutate_def split: option.split)
qed

lemma granted_db_inv: "commercial_inv granted_db"
  unfolding granted_db_def using grant_protocol_inv [OF example_db_inv] by simp

lemma suspended_db_inv: "commercial_inv suspended_db"
  unfolding suspended_db_def using mutate_protocol_inv [OF granted_db_inv] by simp

section \<open>Properties of the commands\<close>

lemma grant_ok:
  assumes inv: "commercial_inv s"
    and run: "grantSubscription no_hook sa H pre now cmd ctx s = (Inr (SubOK ch v), s')"
  obtains r s1 where "step\<^sup>*\<^sup>* s s1" "current_subscription s1 (grant_accountId cmd) = None"
    "subscriptions s' = subscriptions s1 @ [r]" "r = granted_row cmd (ctx_reason ctx) now (sub_id r)"
    "v = subscription_snapshot.truncate r" "ch" "commercial_inv s'"
proof -
  have tx: "grant_transaction no_hook sa H now cmd ctx s = Inr (SubOK ch v, s')"
    using run by (auto simp: grantSubscription_def transaction_def split: if_splits sum.splits prod.splits)
  obtain m s1 where m: "materializeDueCurrentSubscriptionLocked H (grant_accountId cmd) now
      (ctx_correlationId ctx) s = Inr (m, s1)"
    and rest: "(case m of
           MAT_CORRUPTED _ \<Rightarrow> ret (SubREJECTED SUBSCRIPTION_CORRUPTED)
         | MAT_CURRENT _ _ \<Rightarrow> ret (SubREJECTED SUBSCRIPTION_ALREADY_EXISTS)
         | MAT_NONE \<Rightarrow>
             andThen (gets (\<lambda>s. plan_revision_of s (grant_planRevisionId cmd))) (\<lambda>plan.
               case plan of
                 None \<Rightarrow> ret (SubREJECTED SUB_PLAN_REVISION_NOT_FOUND)
               | Some p \<Rightarrow>
                   if plr_state p = PUBLISHED then insert_granted sa cmd ctx now
                   else ret (SubREJECTED SUB_PLAN_REVISION_NOT_PUBLISHED))) s1 = Inr (SubOK ch v, s')"
    using tx by (simp add: grant_transaction_def no_hook_def andThen_Inr_iff split: if_splits) blast
  have none: "m = MAT_NONE" and ins: "insert_granted sa cmd ctx now s1 = Inr (SubOK ch v, s')"
    using rest by (cases m; simp split: option.splits if_splits)+
  note mat = m [unfolded none]
  have s1: "step\<^sup>*\<^sup>* s s1" "commercial_inv s1"
    using moves_atD [OF protocol_materialize inv mat] by simp_all
  have s': "commercial_inv s'"
    using moves_atD [OF protocol_insert_granted s1(2) ins] by simp
  obtain r where r: "subscriptions s' = subscriptions s1 @ [r]"
    "r = granted_row cmd (ctx_reason ctx) now (sub_id r)" "v = subscription_snapshot.truncate r" "ch"
    using ins
    by (auto simp: insert_granted_def andThen_Inr_iff insert_subscription_Inr insertTransition_Inr
        insert_transition_row_Inr audit_subscription_def insert_audit_Inr granted_row_def)
  show thesis
    by (rule that [OF s1(1) materialize_None_current [OF inv mat] r s'])
qed

text \<open>C20. A successful grant gives the account its current subscription: the reader of the current
  subscription returns exactly the value the command returned, active from the locked clock to
  the requested end at revision 1, and no other subscription of the account is current.\<close>

theorem grant_gives_current:
  assumes "commercial_inv s"
    and "grantSubscription no_hook sanitize H preflight now command context s = (Inr (SubOK changed v), s')"
  shows "getCurrentSubscription s' (grant_accountId command) = Some v
    \<and> sub_state v = ACTIVE \<and> sub_stateRevision v = 1
    \<and> sub_currentPeriodStart v = now \<and> sub_currentPeriodEnd v = grant_currentPeriodEnd command
    \<and> sub_currentPlanRevisionId v = grant_planRevisionId command"
proof (rule grant_ok [OF assms])
  fix r s1
  assume r: "subscriptions s' = subscriptions s1 @ [r]" "r = granted_row command (ctx_reason context) now (sub_id r)"
    "v = subscription_snapshot.truncate r" and inv': "commercial_inv s'"
  have f: "sub_accountId r = grant_accountId command" "sub_state r = ACTIVE"
    "sub_stateRevision r = 1" "sub_currentPeriodStart r = now"
    "sub_currentPeriodEnd r = grant_currentPeriodEnd command"
    "sub_currentPlanRevisionId r = grant_planRevisionId command"
    by (subst r(2), simp add: granted_row_def)+
  have "current_subscription s' (grant_accountId command) = Some r"
    using r(1) f by (simp add: current_subscription_iff commercial_invD(2) [OF inv'] is_current_def)
  then show ?thesis
    using r(3) f by (simp add: getCurrentSubscription_def)
qed

theorem grant_gives_current_witness:
  "getCurrentSubscription granted_db ''acct'' \<noteq> None"
proof -
  obtain v where "grantSubscription no_hook id id 2000 2000 example_grant example_context example_db
      = (Inr (SubOK True v), granted_db)"
    by (simp add: granted_db_def example_context_def example_grant_def example_db_def eval_simps del: set_filter)
  from grant_gives_current [OF example_db_inv this] show ?thesis
    by (simp add: example_grant_def)
qed

text \<open>C21. A suspend followed by a restore with the revision it returned gives the subscription
  back: the same state it had before, the same plan, price and period, not suspended any more, and
  a state revision two higher.\<close>

theorem suspend_restore_roundtrip:
  assumes "commercial_inv s"
    and "mutate no_hook sanitize H now i SUSPEND e ctx s = (Inr (SubOK True v), s1)"
    and "mutate no_hook sanitize H now' i RESTORE (sub_stateRevision v) ctx' s1 = (Inr (SubOK True w), s2)"
  shows "\<exists>r. subscription_of s i = Some r
    \<and> subscription_of s2 i = Some (restored_row ctx' now' (sub_state r) (suspended_row ctx now r))
    \<and> sub_state w = sub_state r \<and> sub_stateRevision w = e + 2 \<and> sub_suspendedAt w = None
    \<and> sub_currentPlanRevisionId w = sub_currentPlanRevisionId r
    \<and> sub_boundPriceRevisionId w = sub_boundPriceRevisionId r
    \<and> sub_currentPeriodEnd w = sub_currentPeriodEnd r"
proof -
  have inv1: "commercial_inv s1"
    using mutate_protocol_inv [OF assms(1), of sanitize H now i SUSPEND e ctx] assms(2) by simp
  obtain r where r: "sub_stateRevision r = e" "moved s s1 i r (suspended_row ctx now r)"
    "v = subscription_snapshot.truncate (suspended_row ctx now r)"
    by (rule suspend_effect [OF assms(2)]) blast
  obtain r1 origin where r1: "sub_state r1 = SUSPENDED" "suspended_origin s1 i = Some origin"
    "moved s1 s2 i r1 (restored_row ctx' now' origin r1)"
    "w = subscription_snapshot.truncate (restored_row ctx' now' origin r1)"
    by (rule restore_effect [OF inv1 assms(3)]) blast
  have eq: "r1 = suspended_row ctx now r"
    using r(2) r1(3) by (simp add: moved_def)
  obtain t where t: "log_of s1 i = log_of s i @ [t]" "tr_fromState t = Some (sub_state r)"
    "tr_toState t = SUSPENDED"
    using r(2) by (auto simp: moved_def suspended_row_def)
  have id: "sub_id r1 = i"
    using r1(3) subscription_of_id by (auto simp: moved_def)
  have "subscription_of s1 i = Some r1"
    using r1(3) by (simp add: moved_def)
  then obtain n where "replay (log_of s1 i) = Some (Some SUSPENDED, n)"
    using log_explainsE [OF log_explains_of [OF commercial_invD(1,3) [OF inv1]]] id r1(1) by metis
  then have "suspended_origin s1 i = Some (sub_state r)"
    using suspended_origin_of_replay t by (fastforce simp: suspended_origin_def)
  then have "origin = sub_state r"
    using r1(2) by simp
  then show ?thesis
    using r r1 eq by (auto simp: moved_def suspended_row_def restored_row_def)
qed

theorem suspend_restore_roundtrip_witness:
  "\<exists>w. fst (mutate no_hook id id 4000 ''u'' RESTORE 2 example_context suspended_db) = Inr (SubOK True w)
    \<and> sub_state w = ACTIVE \<and> sub_stateRevision w = 3"
proof -
  obtain v where v: "mutate no_hook id id 3000 ''u'' SUSPEND 1 example_context granted_db
      = (Inr (SubOK True v), suspended_db)" "sub_stateRevision v = 2"
    by (simp add: command_examples eval_simps del: set_filter)
  obtain w s2 where w: "mutate no_hook id id 4000 ''u'' RESTORE 2 example_context suspended_db
      = (Inr (SubOK True w), s2)" "sub_state w = ACTIVE"
    by (simp add: command_examples eval_simps del: set_filter)
  have "mutate no_hook id id 4000 ''u'' RESTORE (sub_stateRevision v) example_context suspended_db
      = (Inr (SubOK True w), s2)"
    using w(1) v(2) by simp
  from suspend_restore_roundtrip [OF granted_db_inv v(1) this]
  have "sub_stateRevision w = 3" by auto
  then show ?thesis using w by simp
qed

text \<open>C22. A restore is refused only for a stated reason: on a database with the invariants the
  origin of the suspension is always found, so a suspended subscription comes back unless the
  caller's revision is stale or the window it was suspended in has ended.\<close>

theorem restore_refusals:
  assumes "commercial_inv s" and "subscription_of s i = Some r" and "sub_state r = SUSPENDED"
    and "mutate no_hook sanitize H now i RESTORE e ctx s = (Inr (SubREJECTED code), s')"
  shows "s' = s \<and>
    (sub_stateRevision r \<noteq> e \<and> code = SUBSCRIPTION_STATE_STALE
   \<or> code = SUBSCRIPTION_PERIOD_ENDED \<and> sub_currentPeriodEnd r \<le> now
       \<and> suspended_origin s i \<in> {Some TRIAL, Some ACTIVE, Some CANCELED}
   \<or> code = SUBSCRIPTION_GRACE_ENDED \<and> suspended_origin s i = Some GRACE
       \<and> (\<exists>g. sub_graceUntil r = Some g \<and> g \<le> now)
   \<or> code = SUBSCRIPTION_CORRUPTED \<and> suspended_origin s i = Some GRACE \<and> sub_graceUntil r = None)"
proof -
  obtain t origin where t: "latest_transition (\<lambda>_. True) (log_of s i) = Some t" "tr_toState t = SUSPENDED"
      "tr_fromState t = Some origin" "origin \<noteq> SUSPENDED" "origin \<noteq> EXPIRED"
      "suspended_origin s i = Some origin"
    by (rule restore_origin [OF assms(1-3)]) blast
  have id: "sub_id r = i"
    using subscription_of_id [OF assms(2)] by simp
  from mutate_run [OF assms(4,2)]
  show ?thesis
  proof
    assume "sub_stateRevision r \<noteq> e \<and> SubREJECTED code = SubREJECTED SUBSCRIPTION_STATE_STALE \<and> s' = s"
    then show ?thesis by simp
  next
    assume "sub_stateRevision r = e \<and> (case RESTORE of
        SUSPEND \<Rightarrow> suspend_branch sanitize ctx now (subscription_snapshot.truncate r) s
      | _ \<Rightarrow> restore_branch sanitize ctx now (subscription_snapshot.truncate r) s) = Inr (SubREJECTED code, s')"
    then have "restore_branch sanitize ctx now (subscription_snapshot.truncate r) s = Inr (SubREJECTED code, s')"
      by simp
    then have "restore_refusal origin (subscription_snapshot.truncate r) now = Some code \<and> s' = s"
      using t assms(3) id
      by (auto simp: restore_branch_def restore_to_def andThen_Inr_iff split: option.splits)
    then show ?thesis
      using t by (cases origin; cases "sub_graceUntil r")
        (auto simp: restore_refusal_def not_less split: if_splits)
  qed simp
qed

theorem restore_refusals_witness:
  "fst (mutate no_hook id id 900000 ''u'' RESTORE 2 example_context suspended_db)
     = Inr (SubREJECTED SUBSCRIPTION_PERIOD_ENDED)
   \<and> suspended_origin suspended_db ''u'' \<in> {Some TRIAL, Some ACTIVE, Some CANCELED}"
proof -
  obtain r where r: "subscription_of suspended_db ''u'' = Some r" "sub_state r = SUSPENDED"
    by (simp add: command_examples eval_simps del: set_filter)
  obtain s2 where run: "mutate no_hook id id 900000 ''u'' RESTORE 2 example_context suspended_db
      = (Inr (SubREJECTED SUBSCRIPTION_PERIOD_ENDED), s2)"
    by (simp add: command_examples eval_simps del: set_filter)
  from restore_refusals [OF suspended_db_inv r run] run show ?thesis by auto
qed

text \<open>C23. Access and lifecycle tell the same story: when the access resolver, reading the database,
  calls an account eligible at an instant, the account is active, the resolver has seen the current
  subscription, and the lifecycle finds nothing due on that subscription at the same instant.\<close>

theorem eligible_nothing_due:
  assumes "commercial_inv s"
    and "resolve_access readSubscriptionAccessObservation s a at = ELIGIBLE e"
  shows "\<exists>r. current_subscription s a = Some r
    \<and> map_option acct_status (account_of s a) = Some ACCOUNT_ACTIVE
    \<and> e = eligible_of (subscription_snapshot.truncate r)
    \<and> sub_state r \<in> {TRIAL, ACTIVE, GRACE, CANCELED} \<and> lifecycle_of s r at = NOOP"
proof -
  obtain c where c: "getCurrentSubscription s a = Some c"
    "readSubscriptionAccessObservation s a at = Some (ACCOUNT_ACTIVE, Some c)"
    "e = eligible_of c" "sub_state c \<in> {TRIAL, ACTIVE, GRACE, CANCELED}"
    using reader.eligible_is_current [OF assms] by blast
  obtain r where r: "current_subscription s a = Some r" "c = subscription_snapshot.truncate r"
    using c(1) by (auto simp: getCurrentSubscription_def)
  have "resolveSubscriptionAccess ACCOUNT_ACTIVE (Some c) at = ELIGIBLE e"
    using assms(2) c(2) by (simp add: resolve_access_def)
  then have "decideSubscriptionLifecycle (lifecycle_view c None at) = NOOP"
    using access_iff_not_due [OF c(4)] by blast
  moreover have "sub_state r \<noteq> SUSPENDED"
    using c(4) r(2) by auto
  ultimately have "lifecycle_of s r at = NOOP"
    using r(2) by (simp add: lifecycle_of_def lifecycle_view_def)
  moreover have "map_option acct_status (account_of s a) = Some ACCOUNT_ACTIVE"
    using c(2) by (auto simp: readSubscriptionAccessObservation_def split: option.splits)
  ultimately show ?thesis
    using r c by auto
qed

theorem eligible_nothing_due_witness:
  "\<exists>r. current_subscription granted_db ''acct'' = Some r \<and> lifecycle_of granted_db r 5000 = NOOP"
proof -
  obtain e where "resolve_access readSubscriptionAccessObservation granted_db ''acct'' 5000 = ELIGIBLE e"
    by (simp add: command_examples eval_simps resolve_access_def resolveSubscriptionAccess_def
        readSubscriptionAccessObservation_def observed_subscription_def observed_before_def del: set_filter)
  from eligible_nothing_due [OF granted_db_inv this] show ?thesis by blast
qed

end
