(* ===== verification/Lifecycle_Job.thy ===== *)
theory Lifecycle_Job
  imports Subscription_Commands "HOL-Library.Product_Lexorder"
begin

text \<open>
  packages/server/db/src/p5-subscription-lifecycle-repository.ts: the background job that writes
  the lifecycle transitions that are due. The scan reads a bounded batch of candidates outside
  any transaction; every candidate is then decided again in a transaction of its own, so that a
  candidate which somebody else has moved in between is left alone. The theorems: every run is
  a path of the protocol, the counters are bounded by the batch, a run whose batch covers the
  candidates leaves nothing due, and a batch of undecidable candidates makes no progress.
\<close>

section \<open>The scan\<close>

definition job_candidate :: "time \<Rightarrow> subscription_row \<Rightarrow> bool" where
  "job_candidate now r \<longleftrightarrow>
     sub_state r \<in> {TRIAL, ACTIVE, CANCELED} \<and> sub_currentPeriodEnd r \<le> now
   \<or> sub_state r = GRACE \<and> (case sub_graceUntil r of None \<Rightarrow> True | Some g \<Rightarrow> g \<le> now)
   \<or> sub_state r = SUSPENDED
     \<and> (sub_currentPeriodEnd r \<le> now \<or> (case sub_graceUntil r of None \<Rightarrow> False | Some g \<Rightarrow> g \<le> now))"

text \<open>\<open>ORDER BY updated_at,id LIMIT\<close>\<close>

definition job_candidates :: "db \<Rightarrow> time \<Rightarrow> nat \<Rightarrow> subscription_row list" where
  "job_candidates s now batchSize =
     take batchSize (sort_key (\<lambda>r. (sub_updatedAt r, sub_id r)) (filter (job_candidate now) (subscriptions s)))"

section \<open>One candidate\<close>

datatype job_outcome = JOB_NOOP | JOB_CORRUPT | JOB_TRANSITION

definition job_row :: "subscription_state \<Rightarrow> lifecycle_reason \<Rightarrow> time \<Rightarrow> subscription_row \<Rightarrow> subscription_row" where
  "job_row toState reason now r =
     r\<lparr>sub_state := toState, sub_stateRevision := sub_stateRevision r + 1,
       sub_stateReason := lifecycle_reason_text reason, sub_updatedAt := max now (sub_createdAt r)\<rparr>"

definition job_transition ::
  "(string \<Rightarrow> string) \<Rightarrow> time \<Rightarrow> string \<Rightarrow> subscription_row \<Rightarrow> subscription_state \<Rightarrow> lifecycle_reason
    \<Rightarrow> time \<Rightarrow> job_outcome dbtx" where
  "job_transition H now correlationId row toState reason dueAt =
     andThen (update_subscription (sub_id row) (job_row toState reason now)) (\<lambda>updated.
     andThen (gets (\<lambda>s. next_transition_revision s (sub_id row))) (\<lambda>next.
     andThen (insert_transition_row (\<lambda>i.
         \<lparr>tr_id = i, tr_subscriptionId = sub_id row, tr_transitionRevision = next,
          tr_fromState = Some (sub_state row), tr_toState = toState, tr_source = SRC_JOB,
          tr_sourceEventId = Some (subscriptionLifecycleJobIdentity H (sub_id row) (sub_state row)
            (sub_stateRevision row) toState dueAt),
          tr_actorType = Some ''SYSTEM'', tr_actorId = None,
          tr_reason = lifecycle_reason_text reason, tr_occurredAt = dueAt\<rparr>)) (\<lambda>_.
     andThen (insert_audit
       \<lparr>aud_actorType = ''SYSTEM'', aud_actorId = None, aud_action = lifecycle_action toState,
        aud_targetType = ''SUBSCRIPTION'', aud_targetId = sub_id row,
        aud_correlationId = correlationId, aud_reason = Some ''SUBSCRIPTION_LIFECYCLE_JOB'',
        aud_safeMetadata =
          [(''subscriptionId'', JStr (sub_id row)), (''fromState'', JStr (state_text (sub_state row))),
           (''toState'', JStr (state_text toState)),
           (''oldStateRevision'', JInt (sub_stateRevision row)),
           (''newStateRevision'', case updated of None \<Rightarrow> JNull | Some r \<Rightarrow> JInt (sub_stateRevision r)),
           (''dueAt'', JStr (toISOString dueAt)), (''processedAt'', JStr (toISOString now)),
           (''planRevisionId'', JStr (sub_currentPlanRevisionId row))]\<rparr>) (\<lambda>_.
     ret JOB_TRANSITION))))"

definition process_candidate ::
  "(string \<Rightarrow> string) \<Rightarrow> time \<Rightarrow> string \<Rightarrow> uuid \<Rightarrow> job_outcome dbtx" where
  "process_candidate H now correlationId candidate =
     andThen (gets (\<lambda>s. subscription_of s candidate)) (\<lambda>found.
       case found of
         None \<Rightarrow> ret JOB_NOOP
       | Some row \<Rightarrow>
           if sub_state row = EXPIRED then ret JOB_NOOP
           else
             andThen (gets (\<lambda>s. lifecycle_of s row now)) (\<lambda>decision.
               case decision of
                 NOOP \<Rightarrow> ret JOB_NOOP
               | CORRUPTED \<Rightarrow> ret JOB_CORRUPT
               | TRANSITION toState reason dueAt \<Rightarrow>
                   job_transition H now correlationId row toState reason dueAt))"

section \<open>The run\<close>

record lifecycle_summary =
  scanned :: nat
  transitioned :: nat
  corrupted :: nat

definition count_outcome :: "job_outcome \<Rightarrow> lifecycle_summary \<Rightarrow> lifecycle_summary" where
  "count_outcome outcome summary =
     summary\<lparr>transitioned := transitioned summary + (if outcome = JOB_TRANSITION then 1 else 0),
       corrupted := corrupted summary + (if outcome = JOB_CORRUPT then 1 else 0)\<rparr>"

text \<open>The loop over the candidates; an error leaves the loop, what has been committed stays.\<close>

fun process_candidates ::
  "(string \<Rightarrow> string) \<Rightarrow> time \<Rightarrow> string \<Rightarrow> uuid list \<Rightarrow> lifecycle_summary \<Rightarrow> db
    \<Rightarrow> (failure + lifecycle_summary) \<times> db" where
  "process_candidates H now correlationId [] summary s = (Inr summary, s)"
| "process_candidates H now correlationId (i # is) summary s =
     (case transaction (process_candidate H now correlationId i) s of
        (Inl e, s') \<Rightarrow> (Inl e, s')
      | (Inr outcome, s') \<Rightarrow>
          process_candidates H now correlationId is (count_outcome outcome summary) s')"

definition processDue ::
  "(string \<Rightarrow> string) \<Rightarrow> time \<Rightarrow> nat \<Rightarrow> string \<Rightarrow> db \<Rightarrow> (failure + lifecycle_summary) \<times> db" where
  "processDue H now batchSize correlationId s =
     (let candidates = map sub_id (job_candidates s now batchSize) in
      process_candidates H now correlationId candidates
        \<lparr>scanned = length candidates, transitioned = 0, corrupted = 0\<rparr> s)"

section \<open>Every run is a path of the protocol\<close>

lemma job_row_fields [simp]:
  "sub_id (job_row t r n x) = sub_id x"
  "sub_accountId (job_row t r n x) = sub_accountId x"
  "sub_state (job_row t r n x) = t"
  "sub_currentPeriodEnd (job_row t r n x) = sub_currentPeriodEnd x"
  "same_terms x (job_row t r n x)"
  by (simp_all add: job_row_def same_terms_def same_subscription_def)

text \<open>What a transition of the job commits.\<close>

lemma job_transition_effect:
  assumes run: "job_transition H now c row t r d s = Inr (x, s')"
    and row: "subscription_of s (sub_id row) = Some row"
  obtains u a s1 where
    "x = JOB_TRANSITION"
    "update_subscription (sub_id row) (job_row t r now) s = Inr (Some (job_row t r now row), s1)"
    "s1 = s\<lparr>subscriptions := update_where (\<lambda>x. sub_id x = sub_id row) (job_row t r now) (subscriptions s)\<rparr>"
    "insert_transition_row (\<lambda>i. u\<lparr>tr_id := i\<rparr>) s1
       = Inr (u, s1\<lparr>transitions := transitions s @ [u], db_drawn := Suc (db_drawn s)\<rparr>)"
    "tr_subscriptionId u = sub_id row" "tr_fromState u = Some (sub_state row)" "tr_toState u = t"
    "tr_transitionRevision u = next_transition_revision s1 (sub_id row)"
    "s' = s1\<lparr>transitions := transitions s @ [u], db_drawn := Suc (db_drawn s),
             auditEvents := auditEvents s @ [a]\<rparr>"
proof -
  define s1 where "s1 = s\<lparr>subscriptions :=
    update_where (\<lambda>x. sub_id x = sub_id row) (job_row t r now) (subscriptions s)\<rparr>"
  define u where "u = \<lparr>tr_id = db_uuids s (db_drawn s), tr_subscriptionId = sub_id row,
    tr_transitionRevision = next_transition_revision s1 (sub_id row),
    tr_fromState = Some (sub_state row), tr_toState = t, tr_source = SRC_JOB,
    tr_sourceEventId = Some (subscriptionLifecycleJobIdentity H (sub_id row) (sub_state row)
      (sub_stateRevision row) t d),
    tr_actorType = Some ''SYSTEM'', tr_actorId = None,
    tr_reason = lifecycle_reason_text r, tr_occurredAt = d\<rparr>"
  have upd: "update_subscription (sub_id row) (job_row t r now) s
      = Inr (Some (job_row t r now row), s1)"
    using run row unfolding job_transition_def
    by (auto simp: andThen_Inr_iff update_subscription_Inr s1_def)
  have "\<exists>a. x = JOB_TRANSITION
      \<and> insert_transition_row (\<lambda>i. u\<lparr>tr_id := i\<rparr>) s1
          = Inr (u, s1\<lparr>transitions := transitions s @ [u], db_drawn := Suc (db_drawn s)\<rparr>)
      \<and> s' = s1\<lparr>transitions := transitions s @ [u], db_drawn := Suc (db_drawn s),
                auditEvents := auditEvents s @ [a]\<rparr>"
    using run unfolding job_transition_def
    by (auto simp: andThen_Inr_iff upd insert_transition_row_Inr insert_audit_Inr u_def s1_def)
  then show thesis
    using upd by (auto intro!: that [of s1 u] simp: s1_def u_def)
qed

lemma protocol_job_transition:
  assumes inv: "commercial_inv s" and row: "subscription_of s (sub_id row) = Some row"
    and due: "lifecycle_of s row now = TRANSITION t r d"
    and run: "job_transition H now c row t r d s = Inr (x, s')"
  shows "step\<^sup>*\<^sup>* s s'"
proof (rule job_transition_effect [OF run row])
  fix u a s1
  assume upd: "update_subscription (sub_id row) (job_row t r now) s = Inr (Some (job_row t r now row), s1)"
    and ins: "insert_transition_row (\<lambda>i. u\<lparr>tr_id := i\<rparr>) s1
       = Inr (u, s1\<lparr>transitions := transitions s @ [u], db_drawn := Suc (db_drawn s)\<rparr>)"
    and u: "tr_subscriptionId u = sub_id row" "tr_fromState u = Some (sub_state row)" "tr_toState u = t"
      "tr_transitionRevision u = next_transition_revision s1 (sub_id row)"
    and s1: "s1 = s\<lparr>subscriptions := update_where (\<lambda>x. sub_id x = sub_id row) (job_row t r now) (subscriptions s)\<rparr>"
    and s': "s' = s1\<lparr>transitions := transitions s @ [u], db_drawn := Suc (db_drawn s),
             auditEvents := auditEvents s @ [a]\<rparr>"
  let ?s2 = "s1\<lparr>transitions := transitions s @ [u], db_drawn := Suc (db_drawn s)\<rparr>"
  have "step\<^sup>*\<^sup>* s ?s2"
    by (rule path_change_state [OF inv row upd ins])
      (use u lifecycle_of_transition(1) [OF due] in simp_all)
  moreover have "step ?s2 s'"
    using step.audit [of ?s2 a] by (simp add: s' s1)
  ultimately show ?thesis by simp
qed

lemma protocol_process_candidate [tx_rules]: "protocol (process_candidate H now c i) s"
proof (rule protocolI)
  fix x s'
  assume inv: "commercial_inv s" and run: "process_candidate H now c i s = Inr (x, s')"
  show "step\<^sup>*\<^sup>* s s'"
  proof (cases "subscription_of s i")
    case (Some row)
    then have i: "sub_id row = i"
      using find_Some_mem by (fastforce simp: subscription_of_def)
    show ?thesis
    proof (cases "lifecycle_of s row now")
      case (TRANSITION t r d)
      then have "job_transition H now c row t r d s = Inr (x, s')"
        using run Some lifecycle_of_transition(4) [OF TRANSITION] by (simp add: process_candidate_def)
      then show ?thesis
        using protocol_job_transition [OF inv _ TRANSITION] Some i by blast
    qed (use run Some in \<open>auto simp: process_candidate_def split: if_splits\<close>)
  qed (use run in \<open>simp add: process_candidate_def\<close>)
qed

lemma process_candidates_path:
  assumes "commercial_inv s"
  shows "step\<^sup>*\<^sup>* s (snd (process_candidates H now c is sm s))
    \<and> commercial_inv (snd (process_candidates H now c is sm s))"
  using assms
proof (induction "is" arbitrary: sm s)
  case (Cons i "is")
  let ?s1 = "snd (transaction (process_candidate H now c i) s)"
  have s1: "step\<^sup>*\<^sup>* s ?s1" "commercial_inv ?s1"
    using moves_at_transaction [OF protocol_process_candidate Cons.prems, of H now c i] by simp_all
  show ?case
    using s1 Cons.IH [OF s1(2)]
    by (auto simp: split: prod.splits sum.splits intro: rtranclp_trans)
qed simp

lemma processDue_path:
  assumes "commercial_inv s"
  shows "step\<^sup>*\<^sup>* s (snd (processDue H now n c s)) \<and> commercial_inv (snd (processDue H now n c s))"
  using process_candidates_path [OF assms] by (simp add: processDue_def Let_def)

section \<open>What a run leaves\<close>

definition due_ids :: "db \<Rightarrow> time \<Rightarrow> uuid set" where
  "due_ids s now = {sub_id r | r. r \<in> set (subscriptions s) \<and> (\<exists>t c d. lifecycle_of s r now = TRANSITION t c d)}"

text \<open>The SQL condition of the scan admits every subscription on which a transition is due.\<close>

lemma due_candidate: "lifecycle_of s r now = TRANSITION t c d \<Longrightarrow> job_candidate now r"
  by (auto simp: lifecycle_of_def decideSubscriptionLifecycle_def Let_def job_candidate_def
      split: decide_splits)

lemma lifecycle_of_same_log:
  "log_of s' (sub_id r) = log_of s (sub_id r) \<Longrightarrow> lifecycle_of s' r now = lifecycle_of s r now"
  by (simp add: lifecycle_of_def suspended_origin_def)

lemma job_transition_due:
  assumes inv: "commercial_inv s" and row: "subscription_of s (sub_id row) = Some row"
    and due: "lifecycle_of s row now = TRANSITION t r d"
    and run: "job_transition H now c row t r d s = Inr (x, s')"
  shows "x = JOB_TRANSITION" and "due_ids s' now \<subseteq> due_ids s now - {sub_id row}"
proof -
  show "x = JOB_TRANSITION"
    using job_transition_effect [OF run row] by blast
  show "due_ids s' now \<subseteq> due_ids s now - {sub_id row}"
  proof (rule job_transition_effect [OF run row])
    fix u a s1
    assume u: "tr_subscriptionId u = sub_id row"
      and s1: "s1 = s\<lparr>subscriptions := update_where (\<lambda>x. sub_id x = sub_id row) (job_row t r now) (subscriptions s)\<rparr>"
      and s': "s' = s1\<lparr>transitions := transitions s @ [u], db_drawn := Suc (db_drawn s),
               auditEvents := auditEvents s @ [a]\<rparr>"
    note keys = commercial_invD(1) [OF inv]
    have rows: "set (subscriptions s') = insert (job_row t r now row) (set (subscriptions s) - {row})"
      using subscription_rows [OF keys row, of "job_row t r now"] by (simp add: s' s1)
    have moved: "lifecycle_of s' (job_row t r now row) now = NOOP"
      using lifecycle_of_transition(2) [OF due] by (auto simp: lifecycle_of_def)
    have other: "sub_id q \<noteq> sub_id row \<and> lifecycle_of s' q now = lifecycle_of s q now"
      if q: "q \<in> set (subscriptions s) - {row}" for q
    proof -
      have "sub_id q \<noteq> sub_id row"
        using subscription_of_row [OF keys, of q] row q by auto
      moreover then have "log_of s' (sub_id q) = log_of s (sub_id q)"
        using u by (simp add: s' s1 log_of_def)
      ultimately show ?thesis
        using lifecycle_of_same_log by blast
    qed
    show ?thesis
      using moved other by (auto simp: due_ids_def rows)
  qed
qed

lemma process_candidate_due:
  assumes inv: "commercial_inv s" and run: "process_candidate H now c i s = Inr (x, s')"
  shows "due_ids s' now \<subseteq> due_ids s now - {i}"
proof (cases "subscription_of s i")
  case None
  then have "i \<notin> sub_id ` set (subscriptions s)"
    by (auto simp: subscription_of_def find_None_mem)
  then show ?thesis
    using run None by (auto simp: process_candidate_def due_ids_def)
next
  case (Some row)
  then have i: "sub_id row = i" "row \<in> set (subscriptions s)"
    using find_Some_mem by (fastforce simp: subscription_of_def)+
  have only: "q = row" if "q \<in> set (subscriptions s)" "sub_id q = i" for q
    using subscription_of_row [OF commercial_invD(1) [OF inv] that(1)] Some that(2) by simp
  show ?thesis
  proof (cases "lifecycle_of s row now")
    case (TRANSITION t r d)
    then have "job_transition H now c row t r d s = Inr (x, s')"
      using run Some lifecycle_of_transition(4) [OF TRANSITION] by (simp add: process_candidate_def)
    then show ?thesis
      using job_transition_due(2) [OF inv _ TRANSITION] Some i(1) by auto
  next
    case NOOP
    then have "s' = s" "i \<notin> due_ids s now"
      using run Some only by (auto simp: process_candidate_def due_ids_def split: if_splits)
    then show ?thesis by simp
  next
    case CORRUPTED
    then have "s' = s" "i \<notin> due_ids s now"
      using run Some only by (auto simp: process_candidate_def due_ids_def split: if_splits)
    then show ?thesis by simp
  qed
qed

lemma process_candidates_due:
  assumes "commercial_inv s" and "process_candidates H now c is sm s = (Inr sm', s')"
  shows "due_ids s' now \<subseteq> due_ids s now - set is"
  using assms
proof (induction "is" arbitrary: sm s)
  case (Cons i "is")
  obtain x s1 where one: "process_candidate H now c i s = Inr (x, s1)"
    and rest: "process_candidates H now c is (count_outcome x sm) s1 = (Inr sm', s')"
    using Cons.prems(2) by (cases rule: transaction_cases [of "process_candidate H now c i" s]) auto
  have "commercial_inv s1"
    using moves_atD [OF protocol_process_candidate Cons.prems(1) one] by blast
  from Cons.IH [OF this rest] process_candidate_due [OF Cons.prems(1) one] show ?case by auto
qed simp

lemma process_candidates_counts:
  assumes "process_candidates H now c is sm s = (Inr sm', s')"
  shows "scanned sm' = scanned sm
    \<and> transitioned sm \<le> transitioned sm' \<and> corrupted sm \<le> corrupted sm'
    \<and> transitioned sm' + corrupted sm' \<le> transitioned sm + corrupted sm + length is"
  using assms
proof (induction "is" arbitrary: sm s)
  case (Cons i "is")
  obtain x s1 where "process_candidates H now c is (count_outcome x sm) s1 = (Inr sm', s')"
    using Cons.prems by (cases rule: transaction_cases [of "process_candidate H now c i" s]) auto
  from Cons.IH [OF this] show ?case
    by (cases x) (auto simp: count_outcome_def)
qed simp

lemma set_job_candidates:
  "length (filter (job_candidate now) (subscriptions s)) \<le> n \<Longrightarrow>
     set (job_candidates s now n) = {r \<in> set (subscriptions s). job_candidate now r}"
  by (simp add: job_candidates_def)

lemma processDue_clears:
  assumes "commercial_inv s"
    and "length (filter (job_candidate now) (subscriptions s)) \<le> n"
    and "processDue H now n c s = (Inr summary, s')"
    and "r \<in> set (subscriptions s')"
  shows "lifecycle_of s' r now = NOOP \<or> lifecycle_of s' r now = CORRUPTED"
proof -
  have "due_ids s now \<subseteq> set (map sub_id (job_candidates s now n))"
    using due_candidate set_job_candidates [OF assms(2)] by (fastforce simp: due_ids_def)
  moreover have "due_ids s' now \<subseteq> due_ids s now - set (map sub_id (job_candidates s now n))"
    using process_candidates_due [OF assms(1)] assms(3) unfolding processDue_def Let_def by blast
  ultimately have "due_ids s' now = {}" by blast
  then show ?thesis
    using assms(4) by (cases "lifecycle_of s' r now") (auto simp: due_ids_def)
qed

text \<open>A batch on which nothing is due: the loop only counts the corrupted ones.\<close>

lemma idle_candidate:
  assumes "\<forall>r. subscription_of s i = Some r \<longrightarrow> lifecycle_of s r now \<in> {NOOP, CORRUPTED}"
  obtains x where "process_candidate H now c i s = Inr (x, s)" "x \<noteq> JOB_TRANSITION"
proof (cases "subscription_of s i")
  case None
  then show ?thesis
    using that [of JOB_NOOP] by (simp add: process_candidate_def)
next
  case (Some r)
  then show ?thesis
    using that [of JOB_NOOP] that [of JOB_CORRUPT] assms
    by (cases "lifecycle_of s r now"; cases "sub_state r = EXPIRED") (auto simp: process_candidate_def)
qed

lemma idle_candidates:
  assumes "\<forall>r \<in> set (subscriptions s). lifecycle_of s r now \<in> {NOOP, CORRUPTED}"
  shows "\<exists>sm'. process_candidates H now c is sm s = (Inr sm', s) \<and> transitioned sm' = transitioned sm"
proof (induction "is" arbitrary: sm)
  case (Cons i "is")
  have "\<forall>r. subscription_of s i = Some r \<longrightarrow> lifecycle_of s r now \<in> {NOOP, CORRUPTED}"
    using assms find_Some_mem by (fastforce simp: subscription_of_def)
  then obtain x where x: "process_candidate H now c i s = Inr (x, s)" "x \<noteq> JOB_TRANSITION"
    by (rule idle_candidate)
  have "transitioned (count_outcome x sm) = transitioned sm"
    using x(2) by (simp add: count_outcome_def)
  with Cons.IH [of "count_outcome x sm"] x(1) show ?case
    by (simp add: transaction_def)
qed simp

lemmas job_eval [eval_simps] = processDue_def job_candidates_def job_candidate_def
  process_candidate_def job_transition_def job_row_def count_outcome_def
  subscriptionLifecycleJobIdentity_def

section \<open>Examples\<close>

definition worked_db :: db where
  "worked_db = snd (processDue (\<lambda>_. example_hash) 900000 5 ''c-2'' granted_db)"

lemma worked_scan: "length (filter (job_candidate 900000) (subscriptions granted_db)) \<le> 5"
  by (simp add: command_examples eval_simps del: set_filter)

lemma worked_run:
  "processDue (\<lambda>_. example_hash) 900000 5 ''c-2'' granted_db
     = (Inr \<lparr>scanned = 1, transitioned = 1, corrupted = 0\<rparr>, worked_db)"
  by (simp add: worked_db_def command_examples eval_simps lifecycle_summary.defs del: set_filter)

lemma worked_row:
  "\<exists>r \<in> set (subscriptions worked_db). sub_state r = EXPIRED"
  by (simp add: worked_db_def command_examples eval_simps lifecycle_summary.defs del: set_filter)

section \<open>Properties\<close>

text \<open>C24. A run of the lifecycle job whose batch is large enough for the candidates, and which
  ends without an error, leaves no subscription on which a transition is due at its instant.\<close>

theorem job_clears_due:
  assumes "commercial_inv s"
    and "length (filter (job_candidate now) (subscriptions s)) \<le> n"
    and "processDue H now n c s = (Inr summary, s')"
    and "r \<in> set (subscriptions s')"
  shows "lifecycle_of s' r now = NOOP \<or> lifecycle_of s' r now = CORRUPTED"
  by (rule processDue_clears [OF assms])

theorem job_clears_due_witness:
  "\<exists>r \<in> set (subscriptions worked_db). sub_state r = EXPIRED
    \<and> lifecycle_of worked_db r 900000 \<in> {NOOP, CORRUPTED}"
  using worked_row job_clears_due [OF granted_db_inv worked_scan worked_run] by blast



text \<open>C26. The job is idempotent: after such a run, another run at the same instant, whatever its
  batch, ends without an error, moves nothing and leaves the database as it is.\<close>

theorem job_idempotent:
  assumes "commercial_inv s"
    and "length (filter (job_candidate now) (subscriptions s)) \<le> n"
    and "processDue H now n c s = (Inr summary, s')"
  shows "\<exists>again. processDue H now m c' s' = (Inr again, s') \<and> transitioned again = 0"
proof -
  have "\<forall>r \<in> set (subscriptions s'). lifecycle_of s' r now \<in> {NOOP, CORRUPTED}"
    using processDue_clears [OF assms] by blast
  from idle_candidates [OF this] show ?thesis
    unfolding processDue_def Let_def by fastforce
qed

theorem job_idempotent_witness:
  "\<exists>again. processDue (\<lambda>_. example_hash) 900000 7 ''c-3'' worked_db = (Inr again, worked_db) \<and> transitioned again = 0"
  by (rule job_idempotent [OF granted_db_inv worked_scan worked_run])

end
