(* ===== verification/Billing_Events.thy ===== *)
theory Billing_Events
  imports Subscription_Commands
begin

text \<open>
  packages/server/db/src/p5-billing-event-repository.ts and the billing event service of
  packages/server/billing/src/index.ts: a verified webhook event is claimed in the event ledger,
  applied to its payment and, when the payment has succeeded, activates a subscription; every
  committed run gives the ledger row its one outcome. The clock of the repository
  (\<open>options.now\<close>) is read at five points of the transaction; \<open>clock n\<close> is the n-th reading.
\<close>

section \<open>Events\<close>

datatype billing_event_type = PAYMENT_SUCCEEDED | PAYMENT_FAILED_EVENT | PAYMENT_CANCELED_EVENT

fun event_type_text :: "billing_event_type \<Rightarrow> string" where
  "event_type_text PAYMENT_SUCCEEDED = ''payment.succeeded''"
| "event_type_text PAYMENT_FAILED_EVENT = ''payment.failed''"
| "event_type_text PAYMENT_CANCELED_EVENT = ''payment.canceled''"

record verified_event =
  ve_provider :: string
  ve_eventIdentity :: string
  ve_eventType :: billing_event_type
  ve_providerPaymentId :: string
  ve_amountMinor :: int
  ve_currency :: string
  ve_occurredAt :: time
  ve_payloadSha256 :: string

definition opaque_reference_schema :: "string \<Rightarrow> bool" where
  "opaque_reference_schema s \<longleftrightarrow> opaque_reference s \<and> length s \<le> 256"

definition machine_key_schema :: "string \<Rightarrow> bool" where
  "machine_key_schema s \<longleftrightarrow> machine_key s \<and> length s \<le> 64"

definition amount_schema :: "int \<Rightarrow> bool" where
  "amount_schema n \<longleftrightarrow> 0 \<le> n \<and> n \<le> max_safe_integer"

definition verified_event_schema :: "verified_event \<Rightarrow> bool" where
  "verified_event_schema e \<longleftrightarrow>
     machine_key_schema (ve_provider e) \<and> opaque_reference_schema (ve_eventIdentity e)
     \<and> opaque_reference_schema (ve_providerPaymentId e) \<and> amount_schema (ve_amountMinor e)
     \<and> currency_code (ve_currency e) \<and> valid_time (ve_occurredAt e)
     \<and> safe_hash (ve_payloadSha256 e)"

definition correlation_schema :: "string \<Rightarrow> bool" where
  "correlation_schema s \<longleftrightarrow> s \<noteq> [] \<and> length s \<le> 128"

datatype billing_result =
    EvAPPLIED bool uuid "uuid option" "uuid option" "uuid option"
  | EvIGNORED bool uuid "uuid option" "uuid option"
  | EvFAILED bool uuid billing_failure "uuid option" "uuid option"
  | EvREJECTED billing_failure
  | EvRETRYABLE

fun payment_state_text :: "payment_state \<Rightarrow> string" where
  "payment_state_text PENDING = ''PENDING''"
| "payment_state_text SUCCEEDED = ''SUCCEEDED''"
| "payment_state_text PAYMENT_FAILED = ''FAILED''"
| "payment_state_text PAYMENT_CANCELED = ''CANCELED''"
| "payment_state_text REFUNDED = ''REFUNDED''"
| "payment_state_text CHARGEBACK = ''CHARGEBACK''"

section \<open>Helpers of the repository\<close>

definition money :: "int \<Rightarrow> int dbtx" where
  "money n = (if 0 \<le> n \<and> n \<le> max_safe_integer then ret n else throw (Thrown ''PAYMENT_SUBSCRIPTION_CORRUPTED''))"

definition resultFromTerminal :: "billing_event_row \<Rightarrow> bool \<Rightarrow> billing_result" where
  "resultFromTerminal row replayed =
     (case ev_processingState row of
        APPLIED \<Rightarrow> EvAPPLIED replayed (ev_id row) (ev_paymentId row) (ev_subscriptionId row)
                     (ev_subscriptionTransitionId row)
      | IGNORED \<Rightarrow> EvIGNORED replayed (ev_id row) (ev_paymentId row) (ev_subscriptionId row)
      | _ \<Rightarrow> EvFAILED replayed (ev_id row)
               (case ev_failureCode row of None \<Rightarrow> EVENT_CHECKOUT_CORRUPTED | Some c \<Rightarrow> c)
               (ev_paymentId row) (ev_subscriptionId row))"

definition lockAccount :: "uuid \<Rightarrow> bool dbtx" where
  "lockAccount accountId = gets (\<lambda>s. account_of s accountId \<noteq> None)"

definition audit_billing ::
  "string \<Rightarrow> string \<Rightarrow> string \<Rightarrow> uuid \<Rightarrow> (string \<times> json) list \<Rightarrow> unit dbtx" where
  "audit_billing correlationId action targetType targetId metadata =
     insert_audit
       \<lparr>aud_actorType = ''SYSTEM'', aud_actorId = None, aud_action = action,
        aud_targetType = targetType, aud_targetId = targetId, aud_correlationId = correlationId,
        aud_reason = Some ''BILLING_EVENT'', aud_safeMetadata = metadata\<rparr>"

definition retryable_failure :: "billing_failure option \<Rightarrow> bool" where
  "retryable_failure c \<longleftrightarrow>
     c \<in> {Some CURRENT_SUBSCRIPTION_CONFLICT, Some PAYMENT_STATE_CONFLICT, Some PAYMENT_SUBSCRIPTION_CORRUPTED}"

definition open_job :: "reconciliation_job_row \<Rightarrow> bool" where
  "open_job j \<longleftrightarrow> job_state j = JOB_READY \<or> job_state j = LEASED"

text \<open>The job of the payment follows the outcome of the event.\<close>

definition release_job ::
  "billing_event_state \<Rightarrow> billing_failure option \<Rightarrow> time \<Rightarrow> reconciliation_job_row \<Rightarrow> reconciliation_job_row" where
  "release_job state failureCode now j =
     (if state = EVENT_FAILED \<and> retryable_failure failureCode
      then j\<lparr>job_state := JOB_READY, job_nextAttemptAt := Some (max now (job_createdAt j)),
             job_leaseToken := None, job_leaseUntil := None,
             job_lastResultCode := map_option billing_failure_text failureCode,
             job_updatedAt := max now (job_createdAt j)\<rparr>
      else j\<lparr>job_state := (if state = EVENT_FAILED then BLOCKED else SETTLED),
             job_nextAttemptAt := None, job_leaseToken := None, job_leaseUntil := None,
             job_lastResultCode :=
               (if state = EVENT_FAILED then map_option billing_failure_text failureCode else None),
             job_updatedAt := max now (job_createdAt j)\<rparr>)"

definition terminal_row ::
  "billing_event_state \<Rightarrow> time \<Rightarrow> uuid option \<Rightarrow> uuid option \<Rightarrow> uuid option \<Rightarrow> billing_failure option
    \<Rightarrow> billing_event_row \<Rightarrow> billing_event_row" where
  "terminal_row state processedAt paymentId subscriptionId transitionId failureCode r =
     r\<lparr>ev_processingState := state, ev_processedAt := Some processedAt, ev_paymentId := paymentId,
       ev_subscriptionId := subscriptionId, ev_subscriptionTransitionId := transitionId,
       ev_failureCode := failureCode\<rparr>"

definition terminalize ::
  "uuid \<Rightarrow> billing_event_state \<Rightarrow> time \<Rightarrow> uuid option \<Rightarrow> uuid option \<Rightarrow> uuid option
    \<Rightarrow> billing_failure option \<Rightarrow> billing_event_row dbtx" where
  "terminalize eventId state processedAt paymentId subscriptionId transitionId failureCode =
     andThen (update_event eventId
       (terminal_row state processedAt paymentId subscriptionId transitionId failureCode)) (\<lambda>updated.
       case updated of
         None \<Rightarrow> throw (Thrown ''BILLING_EVENT_CLAIM_LOST'')
       | Some row \<Rightarrow>
           (case paymentId of
              None \<Rightarrow> ret row
            | Some p \<Rightarrow>
                andThen (gets db_now) (\<lambda>now.
                andThen (update_job p open_job (release_job state failureCode now)) (\<lambda>_. ret row))))"

text \<open>Terminalize as FAILED and report it.\<close>

definition fail_event :: "uuid \<Rightarrow> time \<Rightarrow> uuid option \<Rightarrow> billing_failure \<Rightarrow> billing_result dbtx" where
  "fail_event eventId processedAt paymentId failure =
     andThen (terminalize eventId EVENT_FAILED processedAt paymentId None None (Some failure)) (\<lambda>failed.
       ret (resultFromTerminal failed False))"

definition findPayment :: "db \<Rightarrow> verified_event \<Rightarrow> payment_row option" where
  "findPayment s e =
     List.find (\<lambda>p. pay_provider p = ve_provider e \<and> pay_providerPaymentId p = ve_providerPaymentId e) (payments s)"

definition findCheckout :: "db \<Rightarrow> uuid \<Rightarrow> checkout_intent_row option" where
  "findCheckout s paymentId = List.find (\<lambda>c. ck_paymentId c = Some paymentId) (checkoutIntents s)"

fun eventState :: "billing_event_type \<Rightarrow> payment_state" where
  "eventState PAYMENT_SUCCEEDED = SUCCEEDED"
| "eventState PAYMENT_FAILED_EVENT = PAYMENT_FAILED"
| "eventState PAYMENT_CANCELED_EVENT = PAYMENT_CANCELED"

section \<open>Applying an event\<close>

text \<open>A payment that is not pending any more.\<close>

definition apply_to_settled ::
  "uuid \<Rightarrow> time \<Rightarrow> payment_row \<Rightarrow> payment_state \<Rightarrow> billing_result dbtx" where
  "apply_to_settled eventId processedAt payment desiredState =
     (if pay_state payment = desiredState \<and> desiredState \<noteq> SUCCEEDED then
        andThen (terminalize eventId IGNORED processedAt (Some (pay_id payment)) None None None) (\<lambda>ignored.
          ret (resultFromTerminal ignored False))
      else if pay_state payment = SUCCEEDED \<and> desiredState = SUCCEEDED then
        (case pay_subscriptionId payment of
           None \<Rightarrow> fail_event eventId processedAt (Some (pay_id payment)) PAYMENT_SUBSCRIPTION_CORRUPTED
         | Some i \<Rightarrow>
             andThen (gets (\<lambda>s. subscription_of s i)) (\<lambda>linked.
               if (case linked of None \<Rightarrow> False | Some r \<Rightarrow> sub_accountId r = pay_accountId payment) then
                 andThen (terminalize eventId IGNORED processedAt (Some (pay_id payment)) (Some i) None None)
                   (\<lambda>ignored. ret (resultFromTerminal ignored False))
               else fail_event eventId processedAt (Some (pay_id payment)) PAYMENT_SUBSCRIPTION_CORRUPTED))
      else fail_event eventId processedAt (Some (pay_id payment)) PAYMENT_STATE_CONFLICT)"

text \<open>A pending payment that has failed or was canceled.\<close>

definition apply_unsuccessful ::
  "verified_event \<Rightarrow> string \<Rightarrow> uuid \<Rightarrow> time \<Rightarrow> payment_row \<Rightarrow> payment_state \<Rightarrow> billing_result dbtx" where
  "apply_unsuccessful event correlationId eventId processedAt payment desiredState =
     andThen (update_payment (pay_id payment) (\<lambda>_. True)
       (\<lambda>r. r\<lparr>pay_state := desiredState, pay_updatedAt := processedAt\<rparr>)) (\<lambda>updated.
       case updated of
         None \<Rightarrow> throw (Thrown ''PAYMENT_NOT_FOUND'')
       | Some _ \<Rightarrow>
           andThen (audit_billing correlationId
             (if desiredState = PAYMENT_FAILED then ''PAYMENT_FAILED'' else ''PAYMENT_CANCELED'')
             ''PAYMENT'' (pay_id payment)
             [(''provider'', JStr (ve_provider event)), (''paymentId'', JStr (pay_id payment)),
              (''fromState'', JStr ''PENDING''), (''toState'', JStr (payment_state_text desiredState))]) (\<lambda>_.
           andThen (terminalize eventId APPLIED processedAt (Some (pay_id payment)) None None None) (\<lambda>applied.
             ret (resultFromTerminal applied False))))"

definition coherent_checkout :: "verified_event \<Rightarrow> payment_row \<Rightarrow> int \<Rightarrow> checkout_intent_row \<Rightarrow> bool" where
  "coherent_checkout event payment amount c \<longleftrightarrow>
     ck_state c = READY \<and> ck_accountId c = pay_accountId payment
     \<and> ck_provider c = ve_provider event \<and> ck_providerPaymentId c = Some (ve_providerPaymentId event)
     \<and> ck_paymentId c = Some (pay_id payment) \<and> ck_priceRevisionId c = pay_priceRevisionId payment
     \<and> amount = ve_amountMinor event \<and> ck_currency c = ve_currency event"

text \<open>\<open>addUtcCalendarInterval\<close> throws on an invalid count; an Invalid Date cannot be written.\<close>

definition period_end :: "time \<Rightarrow> interval_unit \<Rightarrow> int \<Rightarrow> time dbtx" where
  "period_end start unit count =
     (case addUtcCalendarInterval start unit count of
        Inl e \<Rightarrow> throw (Thrown e)
      | Inr None \<Rightarrow> throw (Violation ''timestamptz'')
      | Inr (Some t) \<Rightarrow> ret t)"

definition activated_row ::
  "uuid \<Rightarrow> uuid \<Rightarrow> uuid \<Rightarrow> time \<Rightarrow> time \<Rightarrow> string \<Rightarrow> time \<Rightarrow> uuid \<Rightarrow> subscription_row" where
  "activated_row accountId planRevisionId priceRevisionId start periodEnd reason at i =
     \<lparr>sub_id = i, sub_accountId = accountId, sub_state = ACTIVE, sub_stateRevision = 1,
      sub_currentPlanRevisionId = planRevisionId, sub_boundPriceRevisionId = Some priceRevisionId,
      sub_startedAt = start, sub_currentPeriodStart = start, sub_currentPeriodEnd = periodEnd,
      sub_graceUntil = None, sub_cancelAtPeriodEnd = False, sub_canceledAt = None,
      sub_suspendedAt = None, sub_createdAt = at, sub_updatedAt = at, sub_stateReason = reason\<rparr>"

definition activation_row ::
  "transition_source \<Rightarrow> string \<Rightarrow> string \<Rightarrow> time \<Rightarrow> uuid \<Rightarrow> uuid \<Rightarrow> transition_row" where
  "activation_row source eventIdentity reason at subscriptionId i =
     \<lparr>tr_id = i, tr_subscriptionId = subscriptionId, tr_transitionRevision = 1, tr_fromState = None,
      tr_toState = ACTIVE, tr_source = source, tr_sourceEventId = Some eventIdentity,
      tr_actorType = Some ''SYSTEM'', tr_actorId = None, tr_reason = reason, tr_occurredAt = at\<rparr>"

text \<open>Open a subscription for a payment: the row, the first record of its log, and the link.\<close>

definition open_for_payment ::
  "uuid \<Rightarrow> uuid \<Rightarrow> uuid \<Rightarrow> time \<Rightarrow> interval_unit \<Rightarrow> int \<Rightarrow> transition_source \<Rightarrow> string \<Rightarrow> string \<Rightarrow> time
    \<Rightarrow> uuid \<Rightarrow> (payment_row \<Rightarrow> bool) \<Rightarrow> (uuid \<Rightarrow> payment_row \<Rightarrow> payment_row)
    \<Rightarrow> (subscription_row \<times> transition_row) dbtx" where
  "open_for_payment accountId planRevisionId priceRevisionId start unit count source identity reason at
       paymentId linkable link =
     andThen (period_end start unit count) (\<lambda>periodEnd.
     andThen (insert_subscription (activated_row accountId planRevisionId priceRevisionId start periodEnd
       reason at)) (\<lambda>subscription.
     andThen (insert_transition_row (activation_row source identity reason start (sub_id subscription)))
       (\<lambda>transition.
     andThen (update_payment paymentId linkable (link (sub_id subscription))) (\<lambda>_.
     ret (subscription, transition)))))"

text \<open>The account is free: open the subscription, link the payment, write what is already due.\<close>

definition link_paid :: "time \<Rightarrow> uuid \<Rightarrow> payment_row \<Rightarrow> payment_row" where
  "link_paid at subscriptionId r = r\<lparr>pay_subscriptionId := Some subscriptionId, pay_updatedAt := at\<rparr>"

definition activate_from_event ::
  "(string \<Rightarrow> string) \<Rightarrow> (nat \<Rightarrow> time) \<Rightarrow> verified_event \<Rightarrow> string \<Rightarrow> uuid \<Rightarrow> payment_row
    \<Rightarrow> checkout_intent_row \<Rightarrow> billing_result dbtx" where
  "activate_from_event H clock event correlationId eventId payment checkout =
     andThen (open_for_payment (pay_accountId payment) (ck_planRevisionId checkout)
       (pay_priceRevisionId payment) (ve_occurredAt event) (ck_billingIntervalUnit checkout)
       (ck_billingIntervalCount checkout) SRC_WEBHOOK (ve_eventIdentity event)
       ''BILLING_PAYMENT_SUCCEEDED'' (clock 2) (pay_id payment)
       (\<lambda>r. pay_subscriptionId r = None) (link_paid (clock 2))) (\<lambda>(subscription, transition).
     andThen (audit_billing correlationId ''SUBSCRIPTION_ACTIVATED'' ''SUBSCRIPTION'' (sub_id subscription)
       [(''provider'', JStr (ve_provider event)), (''subscriptionId'', JStr (sub_id subscription)),
        (''state'', JStr ''ACTIVE''), (''stateRevision'', JInt 1), (''transitionRevision'', JInt 1)]) (\<lambda>_.
     andThen (materializeDueCurrentSubscriptionLocked H (pay_accountId payment) (clock 3) correlationId)
       (\<lambda>activatedLifecycle.
       case activatedLifecycle of
         MAT_CORRUPTED _ \<Rightarrow> throw (Thrown ''SUBSCRIPTION_CORRUPTED'')
       | _ \<Rightarrow>
           andThen (terminalize eventId APPLIED (clock 4) (Some (pay_id payment))
             (Some (sub_id subscription)) (Some (tr_id transition)) None) (\<lambda>applied.
             ret (resultFromTerminal applied False)))))"

text \<open>A pending payment that has succeeded.\<close>

definition paid_row :: "verified_event \<Rightarrow> time \<Rightarrow> payment_row \<Rightarrow> payment_row" where
  "paid_row event at r =
     r\<lparr>pay_state := SUCCEEDED, pay_confirmedAt := Some (ve_occurredAt event), pay_updatedAt := at\<rparr>"

definition apply_succeeded ::
  "(string \<Rightarrow> string) \<Rightarrow> (nat \<Rightarrow> time) \<Rightarrow> verified_event \<Rightarrow> string \<Rightarrow> uuid \<Rightarrow> payment_row
    \<Rightarrow> billing_result dbtx" where
  "apply_succeeded H clock event correlationId eventId payment =
     andThen (update_payment (pay_id payment) (\<lambda>_. True) (paid_row event (clock 0))) (\<lambda>_.
     andThen (audit_billing correlationId ''PAYMENT_SUCCEEDED'' ''PAYMENT'' (pay_id payment)
       [(''provider'', JStr (ve_provider event)), (''paymentId'', JStr (pay_id payment)),
        (''fromState'', JStr ''PENDING''), (''toState'', JStr ''SUCCEEDED'')]) (\<lambda>_.
     andThen (gets (\<lambda>s. findCheckout s (pay_id payment))) (\<lambda>found.
       case found of
         None \<Rightarrow> fail_event eventId (clock 0) (Some (pay_id payment)) CHECKOUT_NOT_FOUND
       | Some checkout \<Rightarrow>
           andThen (money (ck_amountMinor checkout)) (\<lambda>amount.
             if \<not> coherent_checkout event payment amount checkout then
               fail_event eventId (clock 0) (Some (pay_id payment)) EVENT_CHECKOUT_CORRUPTED
             else
               andThen (materializeDueCurrentSubscriptionLocked H (pay_accountId payment) (clock 1)
                 correlationId) (\<lambda>current.
                 case current of
                   MAT_CORRUPTED _ \<Rightarrow>
                     fail_event eventId (clock 2) (Some (pay_id payment)) PAYMENT_SUBSCRIPTION_CORRUPTED
                 | MAT_CURRENT _ _ \<Rightarrow>
                     fail_event eventId (clock 2) (Some (pay_id payment)) CURRENT_SUBSCRIPTION_CONFLICT
                 | MAT_NONE \<Rightarrow>
                     activate_from_event H clock event correlationId eventId payment checkout)))))"

text \<open>The claimed event: find the payment, check the terms and the time, lock the account and
  read the payment again.\<close>

definition apply_claimed ::
  "(string \<Rightarrow> string) \<Rightarrow> (nat \<Rightarrow> time) \<Rightarrow> verified_event \<Rightarrow> string \<Rightarrow> time \<Rightarrow> uuid
    \<Rightarrow> billing_result dbtx" where
  "apply_claimed H clock event correlationId receivedAt eventId =
     andThen (gets (\<lambda>s. findPayment s event)) (\<lambda>found.
       case found of
         None \<Rightarrow> fail_event eventId receivedAt None PAYMENT_NOT_FOUND
       | Some identity \<Rightarrow>
           andThen (money (pay_amountMinor identity)) (\<lambda>amount.
             if amount \<noteq> ve_amountMinor event \<or> pay_currency identity \<noteq> ve_currency event then
               fail_event eventId receivedAt (Some (pay_id identity)) PAYMENT_TERMS_MISMATCH
             else if ve_occurredAt event < pay_createdAt identity \<or> receivedAt < ve_occurredAt event then
               fail_event eventId receivedAt (Some (pay_id identity)) EVENT_TIME_INVALID
             else
               andThen (lockAccount (pay_accountId identity)) (\<lambda>locked.
                 if \<not> locked then throw (Thrown ''ACCOUNT_NOT_FOUND'')
                 else
                   andThen (gets (\<lambda>s. findPayment s event)) (\<lambda>again.
                     case again of
                       None \<Rightarrow> throw (Thrown ''PAYMENT_NOT_FOUND'')
                     | Some payment \<Rightarrow>
                         if pay_state payment \<noteq> PENDING then
                           apply_to_settled eventId (clock 0) payment (eventState (ve_eventType event))
                         else if eventState (ve_eventType event) \<noteq> SUCCEEDED then
                           apply_unsuccessful event correlationId eventId (clock 0) payment
                             (eventState (ve_eventType event))
                         else apply_succeeded H clock event correlationId eventId payment))))"

definition received_row :: "verified_event \<Rightarrow> time \<Rightarrow> time \<Rightarrow> time \<Rightarrow> uuid \<Rightarrow> billing_event_row" where
  "received_row event receivedAt verifiedAt now i =
     \<lparr>ev_id = i, ev_provider = ve_provider event, ev_source = WEBHOOK,
      ev_eventIdentity = ve_eventIdentity event, ev_eventType = event_type_text (ve_eventType event),
      ev_payloadSha256 = ve_payloadSha256 event, ev_processingState = VERIFIED,
      ev_receivedAt = receivedAt, ev_verifiedAt = verifiedAt, ev_processedAt = None,
      ev_paymentId = None, ev_subscriptionId = None, ev_subscriptionTransitionId = None,
      ev_failureCode = None, ev_createdAt = now\<rparr>"

definition apply_event_transaction ::
  "(string \<Rightarrow> string) \<Rightarrow> (nat \<Rightarrow> time) \<Rightarrow> verified_event \<Rightarrow> string \<Rightarrow> time \<Rightarrow> time
    \<Rightarrow> billing_result dbtx" where
  "apply_event_transaction H clock event correlationId receivedAt verifiedAt =
     andThen (gets db_now) (\<lambda>now.
     andThen (insert_event_row (received_row event receivedAt verifiedAt now)) (\<lambda>claimed.
     andThen (gets (\<lambda>s. find_event s (ve_provider event) (ve_eventIdentity event))) (\<lambda>locked.
       case locked of
         None \<Rightarrow> throw (Thrown ''BILLING_EVENT_CLAIM_LOST'')
       | Some ledger \<Rightarrow>
           if ev_eventType ledger \<noteq> event_type_text (ve_eventType event)
              \<or> ev_payloadSha256 ledger \<noteq> ve_payloadSha256 event then
             ret (EvFAILED True (ev_id ledger) EVENT_IDENTITY_CONFLICT (ev_paymentId ledger)
               (ev_subscriptionId ledger))
           else if ev_processingState ledger \<noteq> VERIFIED then
             ret (resultFromTerminal ledger (claimed = None))
           else apply_claimed H clock event correlationId receivedAt (ev_id ledger))))"

definition applyVerifiedBillingEvent ::
  "(string \<Rightarrow> string) \<Rightarrow> (nat \<Rightarrow> time) \<Rightarrow> verified_event \<Rightarrow> string \<Rightarrow> time \<Rightarrow> time
    \<Rightarrow> db \<Rightarrow> (failure + billing_result) \<times> db" where
  "applyVerifiedBillingEvent H clock event correlationId receivedAt verifiedAt s =
     (if verified_event_schema event \<and> correlation_schema correlationId
      then transaction (apply_event_transaction H clock event correlationId receivedAt verifiedAt) s
      else (Inl (Thrown ''ZodError''), s))"

section \<open>The service\<close>

datatype verification = EVENT_VERIFIED verified_event | EVENT_REJECTED billing_failure

text \<open>
  \<open>createBillingEventService\<close>: the verifier is the payment provider's; \<open>verify raw = None\<close> is a
  verifier that throws. \<open>applyEvent\<close> is the repository, \<open>capturedAt\<close> the clock of the service and
  \<open>rawContext\<close> the correlation identifier when the context has the shape of one.
\<close>

definition processBillingEvent ::
  "('raw \<Rightarrow> verification option) \<Rightarrow> string
    \<Rightarrow> (verified_event \<Rightarrow> string \<Rightarrow> time \<Rightarrow> time \<Rightarrow> 's \<Rightarrow> (failure + billing_result) \<times> 's)
    \<Rightarrow> time \<Rightarrow> 'raw \<Rightarrow> string option \<Rightarrow> 's \<Rightarrow> billing_result \<times> 's" where
  "processBillingEvent verify providerKey applyEvent capturedAt rawEvent rawContext s =
     (case rawContext of
        None \<Rightarrow> (EvREJECTED MALFORMED_EVENT, s)
      | Some correlationId \<Rightarrow>
          if \<not> correlation_schema correlationId then (EvREJECTED MALFORMED_EVENT, s)
          else (case verify rawEvent of
                  None \<Rightarrow> (EvRETRYABLE, s)
                | Some (EVENT_REJECTED code) \<Rightarrow> (EvREJECTED code, s)
                | Some (EVENT_VERIFIED event) \<Rightarrow>
                    if \<not> verified_event_schema event \<or> ve_provider event \<noteq> providerKey
                    then (EvREJECTED MALFORMED_EVENT, s)
                    else (case applyEvent event correlationId capturedAt capturedAt s of
                            (Inl e, s') \<Rightarrow> (EvRETRYABLE, s')
                          | (Inr result, s') \<Rightarrow> (result, s'))))"

section \<open>Every run is a path of the protocol\<close>

lemma path_activate:
  assumes ins: "insert_subscription mk s = Inr (r, s1)" "insert_transition_row mk' s1 = Inr (t, s2)"
    and r: "sub_state r = ACTIVE" "sub_stateRevision r = 1" "sub_graceUntil r = None"
      "tr_subscriptionId t = sub_id r" "tr_fromState t = None" "tr_toState t = ACTIVE"
    and upd: "update_payment p c f s2 = Inr (u, s3)"
    and q: "payment_of s p = Some q" "c q" "pay_subscriptionId q = None"
      "pay_subscriptionId (f q) = Some (sub_id r)" "pay_state (f q) = SUCCEEDED"
      "payment_progress (pay_state q) SUCCEEDED"
      "sub_accountId r = pay_accountId q" "sub_boundPriceRevisionId r = Some (pay_priceRevisionId q)"
  shows "step\<^sup>*\<^sup>* s s3"
proof -
  note opened = opens_of_writes [OF ins r]
  have s3: "s3 = s\<lparr>subscriptions := subscriptions s @ [r], transitions := transitions s @ [t],
      payments := update_where (\<lambda>x. pay_id x = p) f (payments s)\<rparr>\<lparr>db_drawn := Suc (Suc (db_drawn s))\<rparr>"
    and same: "same_payment q (f q)"
    using upd q(1,2) by (auto simp: update_payment_Inr opened(2) payment_of_def)
  show ?thesis
    unfolding s3
    by (intro then_draw r_into_rtranclp step.activate [OF opened(1) q(1)] same q(3-))
qed

lemma protocol_money [tx_rules]: "protocol (money n) s"
  by (auto simp: money_def intro: tx_rules)

lemma money_Inr [simp]: "money n s = Inr (m, s') \<longleftrightarrow> 0 \<le> n \<and> n \<le> max_safe_integer \<and> m = n \<and> s' = s"
  by (auto simp: money_def)

lemma lockAccount_Inr [simp]: "lockAccount a s = Inr (b, s') \<longleftrightarrow> b = (account_of s a \<noteq> None) \<and> s' = s"
  by (auto simp: lockAccount_def)

lemma protocol_period_end [tx_rules]: "protocol (period_end t u n) s"
  by (auto simp: period_end_def intro: tx_rules split: sum.split option.split)

lemma protocol_lockAccount [tx_rules]: "protocol (lockAccount a) s"
  by (simp add: lockAccount_def moves_at_gets)

lemma protocol_audit_billing [tx_rules]: "protocol (audit_billing c a t i m) s"
  by (simp add: audit_billing_def protocol_audit)

lemma protocol_terminalize [tx_rules]: "protocol (terminalize i st at p sub tr c) s"
  unfolding terminalize_def by (intro tx_rules)

lemma protocol_fail_event [tx_rules]: "protocol (fail_event i at p c) s"
  unfolding fail_event_def by (intro tx_rules)

lemma protocol_apply_to_settled [tx_rules]: "protocol (apply_to_settled i at q st) s"
  unfolding apply_to_settled_def by (intro tx_rules)

lemma payment_of_id: "payment_of s i = Some q \<Longrightarrow> pay_id q = i"
  by (auto simp: payment_of_def dest: find_Some_mem)

lemma eventState_cases: "eventState t \<in> {SUCCEEDED, PAYMENT_FAILED, PAYMENT_CANCELED}"
  by (cases t) simp_all

lemma protocol_apply_unsuccessful:
  assumes "payment_of s (pay_id q) = Some q" and "pay_state q = PENDING" and "st \<in> {PAYMENT_FAILED, PAYMENT_CANCELED}"
  shows "protocol (apply_unsuccessful e c i at q st) s"
proof -
  have "protocol (update_payment (pay_id q) (\<lambda>_. True) (\<lambda>r. r\<lparr>pay_state := st, pay_updatedAt := at\<rparr>)) s"
    by (rule protocol_update_payment) (use assms in \<open>auto simp: payment_progress_def\<close>)
  then show ?thesis
    unfolding apply_unsuccessful_def by (intro tx_rules)
qed

text \<open>The payment row across a materialization.\<close>

lemma payment_of_outside: "outside_subscriptions s s' \<Longrightarrow> payment_of s' p = payment_of s p"
  by (simp add: outside_subscriptions_def payment_of_def)

text \<open>What the opening commits.\<close>

lemma open_for_payment_effect:
  assumes "open_for_payment a plan price start un n source ident reason at p c link s = Inr (x, s')"
  obtains pe sub s1 tr s2 u where
    "addUtcCalendarInterval start un n = Inr (Some pe)" "x = (sub, tr)"
    "insert_subscription (activated_row a plan price start pe reason at) s = Inr (sub, s1)"
    "insert_transition_row (activation_row source ident reason start (sub_id sub)) s1 = Inr (tr, s2)"
    "update_payment p c (link (sub_id sub)) s2 = Inr (u, s')"
    "sub = activated_row a plan price start pe reason at (sub_id sub)"
    "tr = activation_row source ident reason start (sub_id sub) (tr_id tr)"
proof -
  from assms obtain pe sub s1 tr s2 u where
    "period_end start un n s = Inr (pe, s)" and x: "x = (sub, tr)"
    and w: "insert_subscription (activated_row a plan price start pe reason at) s = Inr (sub, s1)"
    "insert_transition_row (activation_row source ident reason start (sub_id sub)) s1 = Inr (tr, s2)"
    "update_payment p c (link (sub_id sub)) s2 = Inr (u, s')"
    unfolding open_for_payment_def
    by (elim andThen_InrE) (auto simp: period_end_def split: sum.splits option.splits)
  then have "addUtcCalendarInterval start un n = Inr (Some pe)"
    by (auto simp: period_end_def split: sum.splits option.splits)
  moreover have "sub = activated_row a plan price start pe reason at (sub_id sub)"
    using w(1) by (auto simp: insert_subscription_Inr activated_row_def)
  moreover have "tr = activation_row source ident reason start (sub_id sub) (tr_id tr)"
    using w(2) by (auto simp: insert_transition_row_Inr activation_row_def)
  ultimately show thesis
    using that x w by blast
qed

lemma activated_row_fields [simp]:
  "sub_state (activated_row a pl pr st pe re at i) = ACTIVE"
  "sub_stateRevision (activated_row a pl pr st pe re at i) = 1"
  "sub_graceUntil (activated_row a pl pr st pe re at i) = None"
  "sub_accountId (activated_row a pl pr st pe re at i) = a"
  "sub_id (activated_row a pl pr st pe re at i) = i"
  "sub_currentPlanRevisionId (activated_row a pl pr st pe re at i) = pl"
  "sub_boundPriceRevisionId (activated_row a pl pr st pe re at i) = Some pr"
  "sub_currentPeriodStart (activated_row a pl pr st pe re at i) = st"
  "sub_currentPeriodEnd (activated_row a pl pr st pe re at i) = pe"
  by (simp_all add: activated_row_def)

lemma activation_row_fields [simp]:
  "tr_id (activation_row so ident re at i j) = j"
  "tr_subscriptionId (activation_row so ident re at i j) = i"
  "tr_fromState (activation_row so ident re at i j) = None"
  "tr_toState (activation_row so ident re at i j) = ACTIVE"
  "tr_transitionRevision (activation_row so ident re at i j) = 1"
  by (simp_all add: activation_row_def)

lemma protocol_open_for_payment:
  assumes q: "payment_of s p = Some q" "c q" "pay_subscriptionId q = None"
      "payment_progress (pay_state q) SUCCEEDED"
    and link: "\<And>i. pay_subscriptionId (link i q) = Some i" "\<And>i. pay_state (link i q) = SUCCEEDED"
    and same: "a = pay_accountId q" "price = pay_priceRevisionId q"
  shows "protocol (open_for_payment a plan price start un n source ident reason at p c link) s"
proof (rule protocolI)
  fix x s'
  assume "open_for_payment a plan price start un n source ident reason at p c link s = Inr (x, s')"
  then show "step\<^sup>*\<^sup>* s s'"
  proof (rule open_for_payment_effect)
    fix pe sub s1 tr s2 u
    assume sub: "insert_subscription (activated_row a plan price start pe reason at) s = Inr (sub, s1)"
      and tr: "insert_transition_row (activation_row source ident reason start (sub_id sub)) s1 = Inr (tr, s2)"
      and upd: "update_payment p c (link (sub_id sub)) s2 = Inr (u, s')"
      and rows: "sub = activated_row a plan price start pe reason at (sub_id sub)"
        "tr = activation_row source ident reason start (sub_id sub) (tr_id tr)"
    have f: "sub_state sub = ACTIVE" "sub_stateRevision sub = 1" "sub_graceUntil sub = None"
        "sub_accountId sub = a" "sub_boundPriceRevisionId sub = Some price"
      by (subst rows(1), simp)+
    have g: "tr_subscriptionId tr = sub_id sub" "tr_fromState tr = None" "tr_toState tr = ACTIVE"
      by (subst rows(2), simp)+
    show ?thesis
      by (rule path_activate [OF sub tr f(1-3) g upd q(1)]) (use q link same f in simp_all)
  qed
qed

lemma protocol_activate_from_event:
  assumes q: "payment_of s (pay_id q0) = Some q" "pay_subscriptionId q = None" "pay_state q = SUCCEEDED"
    and same: "pay_accountId q0 = pay_accountId q" "pay_priceRevisionId q0 = pay_priceRevisionId q"
  shows "protocol (activate_from_event H clock e c i q0 ck) s"
proof -
  have "protocol (open_for_payment (pay_accountId q0) (ck_planRevisionId ck) (pay_priceRevisionId q0)
       (ve_occurredAt e) (ck_billingIntervalUnit ck) (ck_billingIntervalCount ck) SRC_WEBHOOK
       (ve_eventIdentity e) ''BILLING_PAYMENT_SUCCEEDED'' (clock 2) (pay_id q0)
       (\<lambda>r. pay_subscriptionId r = None) (link_paid (clock 2))) s"
    by (rule protocol_open_for_payment [OF q(1)])
      (use q same in \<open>simp_all add: link_paid_def payment_progress_def\<close>)
  then show ?thesis
    unfolding activate_from_event_def
    by (intro tx_rules protocol_materialization)
qed

text \<open>From PENDING to SUCCEEDED.\<close>

lemma protocol_apply_succeeded:
  assumes q: "payment_of s (pay_id q) = Some q" "pay_state q = PENDING" "pay_subscriptionId q = None"
  shows "protocol (apply_succeeded H clock e c i q) s"
proof -
  let ?f = "paid_row e (clock 0)"
  have pay: "protocol (update_payment (pay_id q) (\<lambda>_. True) ?f) s"
    by (rule protocol_update_payment) (use q in \<open>auto simp: payment_progress_def paid_row_def\<close>)
  have act: "protocol (activate_from_event H clock e c i q ck) s3"
    if "update_payment (pay_id q) (\<lambda>_. True) ?f s = Inr (u, s1)"
      "audit_billing c a t j m s1 = Inr (v, s2)"
      "materializeDueCurrentSubscriptionLocked H (pay_accountId q) at c s2 = Inr (w, s3)" for u s1 a t j m v s2 at w s3 ck
  proof -
    have "payment_of s3 (pay_id q) = payment_of s2 (pay_id q)"
      by (rule payment_of_outside [OF materialize_frame [OF that(3)]])
    also have "\<dots> = payment_of s1 (pay_id q)"
      using that(2) by (auto simp: audit_billing_def insert_audit_Inr)
    also have "\<dots> = Some (?f q)"
      using that(1) q(1)
      by (auto simp: update_payment_Inr payment_of_def find_update_where [where k = pay_id] paid_row_def)
    finally show ?thesis
      by (rule protocol_activate_from_event) (use q in \<open>simp_all add: paid_row_def\<close>)
  qed
  show ?thesis
    unfolding apply_succeeded_def
    by (intro tx_rules protocol_materialization pay) (auto intro: act)
qed

lemma findPayment_row:
  assumes "keys_distinct s" and "findPayment s e = Some q"
  shows "payment_of s (pay_id q) = Some q" "pay_provider q = ve_provider e"
    "pay_providerPaymentId q = ve_providerPaymentId e"
proof -
  have q: "q \<in> set (payments s)" "pay_provider q = ve_provider e"
    "pay_providerPaymentId q = ve_providerPaymentId e"
    using find_Some_mem assms(2) by (fastforce simp: findPayment_def)+
  then show "pay_provider q = ve_provider e" "pay_providerPaymentId q = ve_providerPaymentId e" by simp_all
  show "payment_of s (pay_id q) = Some q"
    unfolding payment_of_def by (rule find_unique) (use q assms(1) in \<open>simp_all add: keys_distinctD\<close>)
qed

lemma payment_row_mem: "payment_of s i = Some q \<Longrightarrow> q \<in> set (payments s)"
  by (auto simp: payment_of_def dest: find_Some_mem)

lemma pending_unlinked:
  assumes "commercial_inv s" and "payment_of s i = Some q" and "pay_state q = PENDING"
  shows "pay_subscriptionId q = None"
  using commercial_invD(4) [OF assms(1)] payment_row_mem [OF assms(2)] assms(3)
  by (auto simp: links_coherent_def links_ok_def)

lemma protocol_apply_claimed [tx_rules]: "protocol (apply_claimed H clock e c at i) s"
  unfolding moves_at_def
proof (intro impI)
  assume inv: "commercial_inv s"
  have succeeded: "protocol (apply_succeeded H clock e c i q) s"
    and unsuccessful: "eventState (ve_eventType e) \<noteq> SUCCEEDED \<Longrightarrow>
      protocol (apply_unsuccessful e c i (clock 0) q (eventState (ve_eventType e))) s"
    if "findPayment s e = Some q" "pay_state q = PENDING" for q
  proof -
    note q = findPayment_row(1) [OF commercial_invD(1) [OF inv] that(1)]
    show "protocol (apply_succeeded H clock e c i q) s"
      using protocol_apply_succeeded [OF q that(2) pending_unlinked [OF inv q that(2)]] .
    show "protocol (apply_unsuccessful e c i (clock 0) q (eventState (ve_eventType e))) s"
      if "eventState (ve_eventType e) \<noteq> SUCCEEDED"
      using protocol_apply_unsuccessful [OF q \<open>pay_state q = PENDING\<close>] eventState_cases [of "ve_eventType e"] that by auto
  qed
  have "protocol (apply_claimed H clock e c at i) s"
    unfolding apply_claimed_def
    by (intro tx_rules) (use succeeded unsuccessful in auto)
  then show "\<forall>x s'. apply_claimed H clock e c at i s = Inr (x, s') \<longrightarrow> step\<^sup>*\<^sup>* s s' \<and> commercial_inv s'"
    using inv by (simp add: moves_at_def)
qed

lemma protocol_apply_event [tx_rules]: "protocol (apply_event_transaction H clock e c rat vat) s"
  unfolding apply_event_transaction_def by (intro tx_rules)

lemma webhook_path:
  assumes "commercial_inv s"
  shows "step\<^sup>*\<^sup>* s (snd (applyVerifiedBillingEvent H clock e c rat vat s))
    \<and> commercial_inv (snd (applyVerifiedBillingEvent H clock e c rat vat s))"
  using moves_at_transaction [OF protocol_apply_event assms, of H clock e c rat vat] assms
  by (simp add: applyVerifiedBillingEvent_def)

section \<open>The outcome of an event\<close>

text \<open>What the parts of a run leave alone in the ledger.\<close>

lemma ledger_frames:
  "update_payment p c f s = Inr (u, s') \<Longrightarrow> billingEvents s' = billingEvents s"
  "update_job p c' f' s = Inr (u', s') \<Longrightarrow> billingEvents s' = billingEvents s"
  "audit_billing co a t i m s = Inr (u'', s') \<Longrightarrow> billingEvents s' = billingEvents s"
  "materializeDueCurrentSubscriptionLocked H a' at co s = Inr (v, s') \<Longrightarrow> billingEvents s' = billingEvents s"
  by (auto simp: update_payment_Inr update_job_Inr audit_billing_def insert_audit_Inr
      outside_subscriptions_def dest: materialize_frame split: option.splits if_splits)

lemma open_for_payment_ledger:
  assumes "open_for_payment a plan price start un n source ident reason at p c link s = Inr (x, s')"
  shows "billingEvents s' = billingEvents s"
  using assms
  by (rule open_for_payment_effect)
    (auto simp: insert_subscription_Inr insert_transition_row_Inr dest: ledger_frames)

lemma open_for_payment_frame:
  assumes "open_for_payment a plan price start un n source ident reason at p c link s = Inr (x, s')"
  shows "jobs s' = jobs s" "db_now s' = db_now s"
proof -
  obtain pe sub s1 tr s2 u where
    "insert_subscription (activated_row a plan price start pe reason at) s = Inr (sub, s1)"
    "insert_transition_row (activation_row source ident reason start (sub_id sub)) s1 = Inr (tr, s2)"
    "update_payment p c (link (sub_id sub)) s2 = Inr (u, s')"
    by (rule open_for_payment_effect [OF assms])
  then show "jobs s' = jobs s" "db_now s' = db_now s"
    by (auto simp: insert_subscription_Inr insert_transition_row_Inr update_payment_Inr
        split: option.splits if_splits)
qed

definition outcome_recorded :: "db \<Rightarrow> uuid \<Rightarrow> billing_result \<Rightarrow> db \<Rightarrow> bool" where
  "outcome_recorded s i x s' \<longleftrightarrow>
     (\<exists>r st at p sub tr c. event_of s i = Some r \<and> st \<noteq> VERIFIED
        \<and> billingEvents s' = update_where (\<lambda>x. ev_id x = i) (terminal_row st at p sub tr c) (billingEvents s)
        \<and> x = resultFromTerminal (terminal_row st at p sub tr c r) False)"

lemma terminal_row_fields [simp]:
  "ev_id (terminal_row st at p sub tr c r) = ev_id r"
  "ev_provider (terminal_row st at p sub tr c r) = ev_provider r"
  "ev_eventIdentity (terminal_row st at p sub tr c r) = ev_eventIdentity r"
  "ev_eventType (terminal_row st at p sub tr c r) = ev_eventType r"
  "ev_payloadSha256 (terminal_row st at p sub tr c r) = ev_payloadSha256 r"
  "ev_processingState (terminal_row st at p sub tr c r) = st"
  "ev_paymentId (terminal_row st at p sub tr c r) = p"
  "ev_subscriptionId (terminal_row st at p sub tr c r) = sub"
  "ev_subscriptionTransitionId (terminal_row st at p sub tr c r) = tr"
  "ev_failureCode (terminal_row st at p sub tr c r) = c"
  by (simp_all add: terminal_row_def)

text \<open>What terminalizing commits: the outcome of the row and the follow-up of the job.\<close>

lemma terminalize_effect:
  assumes "terminalize i st at p sub tr c s = Inr (row, s')"
  obtains r where "event_of s i = Some r" "row = terminal_row st at p sub tr c r" "st \<noteq> VERIFIED"
    "billingEvents s' = update_where (\<lambda>x. ev_id x = i) (terminal_row st at p sub tr c) (billingEvents s)"
    "payments s' = payments s" "subscriptions s' = subscriptions s" "transitions s' = transitions s"
    "checkoutIntents s' = checkoutIntents s"
    "\<And>q j. p = Some q \<Longrightarrow> job_of s q = Some j \<Longrightarrow>
       job_of s' q = Some (if open_job j then release_job st c (db_now s) j else j)"
proof -
  obtain u s1 where upd: "update_event i (terminal_row st at p sub tr c) s = Inr (u, s1)"
    and rest: "(case u of None \<Rightarrow> throw (Thrown ''BILLING_EVENT_CLAIM_LOST'')
       | Some row \<Rightarrow>
           (case p of
              None \<Rightarrow> ret row
            | Some p \<Rightarrow>
                andThen (gets db_now) (\<lambda>now.
                andThen (update_job p open_job (release_job st c now)) (\<lambda>_. ret row)))) s1 = Inr (row, s')"
    using assms unfolding terminalize_def by (rule andThen_InrE)
  obtain r where r: "event_of s i = Some r" "u = Some (terminal_row st at p sub tr c r)" "st \<noteq> VERIFIED"
    and s1: "s1 = s\<lparr>billingEvents := update_where (\<lambda>x. ev_id x = i) (terminal_row st at p sub tr c) (billingEvents s)\<rparr>"
    using upd rest by (auto simp: update_event_Inr event_update_guard_def split: option.splits)
  have row: "row = terminal_row st at p sub tr c r"
    using rest r(2) by (auto simp: andThen_Inr_iff split: option.splits)
  have job: "job_of s' q = Some (if open_job j then release_job st c (db_now s) j else j)"
    if "p = Some q" "job_of s q = Some j" for q j
  proof -
    have "\<exists>v. update_job q open_job (release_job st c (db_now s)) s1 = Inr (v, s')"
      using rest r(2) that(1) by (auto simp: andThen_Inr_iff s1)
    moreover have "job_paymentId (release_job st c (db_now s) x) = job_paymentId x" for x
      by (simp add: release_job_def)
    moreover have "job_paymentId j = q"
      using that(2) by (auto simp: job_of_def dest: find_Some_mem)
    moreover have "job_of s1 q = Some j"
      using that(2) by (simp add: s1)
    ultimately show ?thesis
      by (auto simp: update_job_Inr job_of_def find_update_where [where k = job_paymentId] split: if_splits)
  qed
  show thesis
    by (rule that [OF r(1) row r(3)])
      (use rest r(2) job in \<open>auto simp: s1 andThen_Inr_iff update_job_Inr split: option.splits if_splits\<close>)
qed

lemma terminalize_recorded:
  assumes "terminalize i st at p sub tr c s1 = Inr (row, s')" and "billingEvents s1 = billingEvents s"
  shows "outcome_recorded s i (resultFromTerminal row False) s'"
  using assms(1)
proof (rule terminalize_effect)
  fix r
  assume "event_of s1 i = Some r" "row = terminal_row st at p sub tr c r" "st \<noteq> VERIFIED"
    "billingEvents s' = update_where (\<lambda>x. ev_id x = i) (terminal_row st at p sub tr c) (billingEvents s1)"
  then show ?thesis
    unfolding outcome_recorded_def using assms(2)
    by (intro exI [of _ r] exI [of _ st] exI [of _ at] exI [of _ p] exI [of _ sub] exI [of _ tr] exI [of _ c])
      (simp add: event_of_def)
qed

lemma fail_event_recorded:
  assumes "billingEvents s1 = billingEvents s"
  shows "yields (fail_event i at p c) s1 (outcome_recorded s i)"
  unfolding fail_event_def using terminalize_recorded assms by (intro yields_rules) blast

lemma activate_recorded:
  assumes "billingEvents s1 = billingEvents s"
  shows "yields (activate_from_event H clock e c i q ck) s1 (outcome_recorded s i)"
  unfolding activate_from_event_def
  by (intro yields_rules)
    (use assms in \<open>auto intro!: terminalize_recorded dest!: open_for_payment_ledger ledger_frames\<close>)

lemma apply_succeeded_recorded: "yields (apply_succeeded H clock e c i q) s (outcome_recorded s i)"
  unfolding apply_succeeded_def
  by (intro yields_rules fail_event_recorded activate_recorded) (auto dest!: ledger_frames)

lemma apply_claimed_recorded: "yields (apply_claimed H clock e c at i) s (outcome_recorded s i)"
  unfolding apply_claimed_def apply_to_settled_def apply_unsuccessful_def
  by (intro yields_rules fail_event_recorded apply_succeeded_recorded;
      auto intro!: terminalize_recorded apply_succeeded_recorded dest!: ledger_frames)

section \<open>Replays\<close>

lemma find_event_row:
  assumes "events_coherent s" and "r \<in> set (billingEvents s)"
  shows "find_event s (ev_provider r) (ev_eventIdentity r) = Some r"
proof -
  let ?k = "\<lambda>r. (ev_provider r, ev_eventIdentity r)"
  have "List.find (\<lambda>x. ?k x = ?k r) (billingEvents s) = Some r"
    using assms by (intro find_unique) (simp_all add: events_coherent_def)
  then show ?thesis by (simp add: find_event_def)
qed

lemma find_event_mem:
  assumes "find_event s p i = Some r"
  shows "r \<in> set (billingEvents s)" "ev_provider r = p" "ev_eventIdentity r = i"
  using find_Some_mem assms by (fastforce simp: find_event_def)+

text \<open>What a request is told about a ledger row that has its outcome.\<close>

definition replay_result :: "verified_event \<Rightarrow> billing_event_row \<Rightarrow> billing_result" where
  "replay_result e r =
     (if ev_eventType r \<noteq> event_type_text (ve_eventType e) \<or> ev_payloadSha256 r \<noteq> ve_payloadSha256 e
      then EvFAILED True (ev_id r) EVENT_IDENTITY_CONFLICT (ev_paymentId r) (ev_subscriptionId r)
      else resultFromTerminal r True)"

fun as_replay :: "billing_result \<Rightarrow> billing_result" where
  "as_replay (EvAPPLIED _ i p s t) = EvAPPLIED True i p s t"
| "as_replay (EvIGNORED _ i p s) = EvIGNORED True i p s"
| "as_replay (EvFAILED _ i c p s) = EvFAILED True i c p s"
| "as_replay x = x"

lemma as_replay_terminal [simp]: "as_replay (resultFromTerminal r b) = resultFromTerminal r True"
  by (cases "ev_processingState r") (simp_all add: resultFromTerminal_def)

definition all_settled :: "db \<Rightarrow> bool" where
  "all_settled s \<longleftrightarrow> list_all (\<lambda>r. ev_processingState r \<noteq> VERIFIED) (billingEvents s)"

definition event_received :: "verified_event \<Rightarrow> billing_event_row \<Rightarrow> bool" where
  "event_received e r \<longleftrightarrow> ev_provider r = ve_provider e \<and> ev_eventIdentity r = ve_eventIdentity e
     \<and> ev_processingState r \<noteq> VERIFIED"

lemma received_row_fields [simp]:
  "ev_id (received_row e rat vat now i) = i"
  "ev_provider (received_row e rat vat now i) = ve_provider e"
  "ev_eventIdentity (received_row e rat vat now i) = ve_eventIdentity e"
  "ev_eventType (received_row e rat vat now i) = event_type_text (ve_eventType e)"
  "ev_payloadSha256 (received_row e rat vat now i) = ve_payloadSha256 e"
  "ev_processingState (received_row e rat vat now i) = VERIFIED"
  "event_unprocessed (received_row e rat vat now i)"
  by (simp_all add: received_row_def event_unprocessed_def)

lemma event_checks_received:
  "event_checks (received_row e rat vat now i) \<longleftrightarrow>
     machine_key (ve_provider e) \<and> length (ve_provider e) \<le> 64
     \<and> non_whitespace (ve_eventIdentity e) \<and> length (ve_eventIdentity e) \<le> 256
     \<and> safe_hash (ve_payloadSha256 e) \<and> rat \<le> vat"
  by (cases "ve_eventType e") (auto simp: event_checks_def received_row_def at_least_def non_whitespace_def)

text \<open>A run either finds the ledger row settled, or claims the event and records its outcome.\<close>

lemma apply_event_cases:
  assumes inv: "commercial_inv s" and all: "all_settled s"
    and run: "apply_event_transaction H clock e c rat vat s = Inr (x, s')"
  obtains (old) r where "find_event s (ve_provider e) (ve_eventIdentity e) = Some r"
      "x = replay_result e r" "s' = s\<lparr>db_drawn := Suc (db_drawn s)\<rparr>"
  | (claimed) i s1 where "find_event s (ve_provider e) (ve_eventIdentity e) = None"
      "i = db_uuids s (db_drawn s)" "i \<notin> ev_id ` set (billingEvents s)"
      "s1 = s\<lparr>billingEvents := billingEvents s @ [received_row e rat vat (db_now s) i],
             db_drawn := Suc (db_drawn s)\<rparr>"
      "apply_claimed H clock e c rat i s1 = Inr (x, s')" "commercial_inv s1"
proof -
  let ?mk = "received_row e rat vat (db_now s)"
  let ?i = "db_uuids s (db_drawn s)"
  obtain cl s1 where ins: "insert_event_row ?mk s = Inr (cl, s1)"
    and rest: "(case find_event s1 (ve_provider e) (ve_eventIdentity e) of
         None \<Rightarrow> throw (Thrown ''BILLING_EVENT_CLAIM_LOST'')
       | Some ledger \<Rightarrow>
           if ev_eventType ledger \<noteq> event_type_text (ve_eventType e)
              \<or> ev_payloadSha256 ledger \<noteq> ve_payloadSha256 e then
             ret (EvFAILED True (ev_id ledger) EVENT_IDENTITY_CONFLICT (ev_paymentId ledger)
               (ev_subscriptionId ledger))
           else if ev_processingState ledger \<noteq> VERIFIED then
             ret (resultFromTerminal ledger (cl = None))
           else apply_claimed H clock e c rat (ev_id ledger)) s1 = Inr (x, s')"
    using run unfolding apply_event_transaction_def by (auto simp only: andThen_gets andThen_Inr_iff)
  show thesis
  proof (cases "find_event s (ve_provider e) (ve_eventIdentity e)")
    case (Some r)
    have s1: "cl = None" "s1 = s\<lparr>db_drawn := Suc (db_drawn s)\<rparr>"
      using ins Some by (auto simp: insert_event_row_Inr Let_def)
    have "ev_processingState r \<noteq> VERIFIED"
      using all find_event_mem(1) [OF Some] by (simp add: all_settled_def list_all_iff)
    then show thesis
      using old [OF Some] rest Some by (auto simp: s1 find_event_def replay_result_def split: if_splits)
  next
    case None
    have s1: "s1 = s\<lparr>billingEvents := billingEvents s @ [?mk ?i], db_drawn := Suc (db_drawn s)\<rparr>"
      and fresh: "?i \<notin> ev_id ` set (billingEvents s)"
      using ins None by (auto simp: insert_event_row_Inr Let_def)
    have "find_event s1 (ve_provider e) (ve_eventIdentity e) = Some (?mk ?i)"
      using None by (simp add: s1 find_event_def find_append)
    moreover have "commercial_inv s1"
      using protocol_insert_event inv ins by (rule moves_atD [THEN conjunct2])
    ultimately show thesis
      using claimed [OF None _ _ s1] rest fresh by simp
  qed
qed

text \<open>After a run the event is in the ledger with its outcome, and the outcome is what a replay
  is told.\<close>

lemma claimed_outcome:
  assumes fresh: "i \<notin> ev_id ` set (billingEvents s)"
    and s1: "s1 = s\<lparr>billingEvents := billingEvents s @ [received_row e rat vat now i], db_drawn := n\<rparr>"
    and run: "apply_claimed H clock e c rat i s1 = Inr (x, s')"
  obtains r where "billingEvents s' = billingEvents s @ [r]" "event_received e r"
    "ev_eventType r = event_type_text (ve_eventType e)" "ev_payloadSha256 r = ve_payloadSha256 e"
    "ev_id r = i" "x = resultFromTerminal r False"
proof -
  have "outcome_recorded s1 i x s'"
    using yieldsD [OF apply_claimed_recorded run] .
  moreover have "event_of s1 i = Some (received_row e rat vat now i)"
    using fresh by (auto simp: s1 event_of_def find_append find_None_mem split: option.split dest: find_Some_mem)
  moreover have "update_where (\<lambda>x. ev_id x = i) f (billingEvents s) = billingEvents s" for f
    unfolding update_where_def using fresh by (intro map_idI) auto
  ultimately show thesis
    using that by (auto simp: outcome_recorded_def s1 update_where_def event_received_def)
qed

lemma run_outcome:
  assumes inv: "commercial_inv s" and all: "all_settled s"
    and run: "apply_event_transaction H clock e c rat vat s = Inr (x, s')"
  shows "all_settled s' \<and> (\<exists>r \<in> set (billingEvents s'). event_received e r \<and> as_replay x = replay_result e r)"
  using inv all run
proof (cases rule: apply_event_cases)
  case (old r)
  then show ?thesis
    using find_event_mem [OF old(1)] all
    by (auto simp: all_settled_def list_all_iff event_received_def replay_result_def intro!: bexI [of _ r])
next
  case (claimed i s1)
  from claimed(3-5) show ?thesis
  proof (rule claimed_outcome)
    fix r
    assume "billingEvents s' = billingEvents s @ [r]" "event_received e r"
      "ev_eventType r = event_type_text (ve_eventType e)" "ev_payloadSha256 r = ve_payloadSha256 e"
      "ev_id r = i" "x = resultFromTerminal r False"
    then show ?thesis
      using all by (auto simp: all_settled_def event_received_def replay_result_def)
  qed
qed

lemma replay_run:
  assumes "find_event s (ve_provider e) (ve_eventIdentity e) = Some r" and "ev_processingState r \<noteq> VERIFIED"
    and "event_checks (received_row e rat vat (db_now s) (db_uuids s (db_drawn s)))"
  shows "apply_event_transaction H clock e c rat vat s
    = Inr (replay_result e r, s\<lparr>db_drawn := Suc (db_drawn s)\<rparr>)"
proof -
  have "insert_event_row (received_row e rat vat (db_now s)) s = Inr (None, s\<lparr>db_drawn := Suc (db_drawn s)\<rparr>)"
    using assms by (simp add: insert_event_row_Inr Let_def)
  then show ?thesis
    using assms(1,2)
    by (simp add: apply_event_transaction_def andThen_def gets_def find_event_def replay_result_def ret_def)
qed

section \<open>Activation\<close>

text \<open>The current subscription after a materialization.\<close>

lemma materialize_current_row:
  assumes inv: "commercial_inv s" and cur: "current_subscription s a = Some r"
    and run: "materializeDueCurrentSubscriptionLocked H a at c s = Inr (x, s')"
  shows "subscription_of s' (sub_id r)
    = Some (case lifecycle_of s r at of TRANSITION t re d \<Rightarrow> materialized_row t re at r | _ \<Rightarrow> r)"
proof -
  have cl: "classify s a at = Some (r, lifecycle_of s r at)"
    using cur by (simp add: classify_def)
  note row = classify_row(1) [OF inv cl]
  show ?thesis
  proof (cases "lifecycle_of s r at")
    case (TRANSITION t re d)
    obtain y where mt: "materialize_transition H r t re d at c s = Inr (y, s')"
      using run cl TRANSITION
      by (auto simp: materializeDueCurrentSubscriptionLocked_def andThen_Inr_iff split: if_splits)
    have "subscriptions s' = update_where (\<lambda>x. sub_id x = sub_id r) (materialized_row t re at) (subscriptions s)"
      by (rule materialize_transition_effect [OF mt row]) simp
    then show ?thesis
      using row TRANSITION
      by (simp add: subscription_of_def find_update_where [where k = sub_id])
  qed (use run cl row in \<open>auto simp: materializeDueCurrentSubscriptionLocked_def\<close>)
qed

lemma fail_event_result:
  "fail_event i at p c s = Inr (x, s') \<Longrightarrow> x = EvFAILED False i c p None"
  by (auto simp: fail_event_def andThen_Inr_iff resultFromTerminal_def event_of_def
      elim!: terminalize_effect dest: find_Some_mem)

lemma lifecycle_of_active:
  "sub_state r = ACTIVE \<Longrightarrow> \<not> sub_cancelAtPeriodEnd r \<Longrightarrow>
     lifecycle_of s r at = (if sub_currentPeriodEnd r \<le> at
       then TRANSITION EXPIRED ACTIVE_PERIOD_ENDED (sub_currentPeriodEnd r) else NOOP)"
  by (simp add: lifecycle_of_def decideSubscriptionLifecycle_def Let_def)

text \<open>The subscription that a payment has opened, as it stands after the final materialization.\<close>

definition opened_as :: "subscription_row \<Rightarrow> time \<Rightarrow> subscription_row" where
  "opened_as r at =
     (if sub_currentPeriodEnd r \<le> at then materialized_row EXPIRED ACTIVE_PERIOD_ENDED at r else r)"

lemma open_for_payment_linked:
  assumes run: "open_for_payment a plan price start un n source ident reason at p c link s = Inr ((sub, tr), s')"
    and q: "payment_of s p = Some q" "c q" "\<And>i x. pay_id (link i x) = pay_id x"
  shows "payment_of s' p = Some (link (sub_id sub) q)" and "sub \<in> set (subscriptions s')"
    and "sub_accountId sub = a" and "sub_state sub = ACTIVE"
proof -
  obtain pe sub' s1 tr' s2 u where x: "(sub, tr) = (sub', tr')"
    and w: "insert_subscription (activated_row a plan price start pe reason at) s = Inr (sub', s1)"
      "insert_transition_row (activation_row source ident reason start (sub_id sub')) s1 = Inr (tr', s2)"
      "update_payment p c (link (sub_id sub')) s2 = Inr (u, s')"
    and row: "sub' = activated_row a plan price start pe reason at (sub_id sub')"
    using open_for_payment_effect [OF run] by metis
  show "sub \<in> set (subscriptions s')"
    using q w x by (auto simp: insert_subscription_Inr insert_transition_row_Inr update_payment_Inr
        split: option.splits if_splits)
  have "sub_accountId sub' = a" "sub_state sub' = ACTIVE"
    by (subst row, simp)+
  then show "sub_accountId sub = a" "sub_state sub = ACTIVE"
    using x by simp_all
  have "payment_of s2 p = Some q"
    using w(1,2) q(1) by (auto simp: insert_subscription_Inr insert_transition_row_Inr)
  moreover then have "payments s' = update_where (\<lambda>x. pay_id x = p) (link (sub_id sub)) (payments s2)"
    using w(3) q(2) x by (auto simp: update_payment_Inr)
  ultimately show "payment_of s' p = Some (link (sub_id sub) q)"
    using q(3) by (auto simp: payment_of_def find_update_where [where k = pay_id] dest: find_Some_mem)
qed

lemma open_for_payment_current:
  assumes "open_for_payment a plan price start un n source ident reason at p c link s = Inr ((sub, tr), s')"
    and "payment_of s p = Some q" "c q" "\<And>i x. pay_id (link i x) = pay_id x" and "commercial_inv s'"
  shows "current_subscription s' a = Some sub"
  using open_for_payment_linked [OF assms(1-4)]
  by (simp add: current_subscription_iff [OF commercial_invD(2) [OF assms(5)]] is_current_def)

text \<open>The result of an activation: the period is the calendar interval the checkout was sold
  with, counted from the provider's time of the payment.\<close>

definition activated ::
  "db \<Rightarrow> (nat \<Rightarrow> time) \<Rightarrow> verified_event \<Rightarrow> uuid \<Rightarrow> payment_row \<Rightarrow> checkout_intent_row \<Rightarrow> billing_result \<Rightarrow> db \<Rightarrow> bool" where
  "activated s clock e i q ck x s' \<longleftrightarrow>
     (\<exists>pe j t.
        addUtcCalendarInterval (ve_occurredAt e) (ck_billingIntervalUnit ck) (ck_billingIntervalCount ck)
          = Inr (Some pe)
      \<and> subscription_of s' j = Some (opened_as (activated_row (pay_accountId q) (ck_planRevisionId ck)
          (pay_priceRevisionId q) (ve_occurredAt e) pe ''BILLING_PAYMENT_SUCCEEDED'' (clock 2) j) (clock 3))
      \<and> payment_of s' (pay_id q) = Some (link_paid (clock 2) j q)
      \<and> x = EvAPPLIED False i (Some (pay_id q)) (Some j) (Some t))
   \<and> (\<forall>j. job_of s (pay_id q) = Some j \<longrightarrow> open_job j \<longrightarrow>
        job_of s' (pay_id q) = Some (release_job APPLIED None (db_now s) j))"

lemma activated_by_writes:
  assumes inv: "commercial_inv s"
    and q: "payment_of s (pay_id q) = Some q" "pay_subscriptionId q = None" "pay_state q = SUCCEEDED"
    and run: "open_for_payment (pay_accountId q) (ck_planRevisionId ck) (pay_priceRevisionId q)
       (ve_occurredAt e) (ck_billingIntervalUnit ck) (ck_billingIntervalCount ck) SRC_WEBHOOK
       (ve_eventIdentity e) ''BILLING_PAYMENT_SUCCEEDED'' (clock 2) (pay_id q)
       (\<lambda>r. pay_subscriptionId r = None) (link_paid (clock 2)) s = Inr ((sub, tr), s1)"
      "audit_billing c act ty tid md s1 = Inr (y, s2)"
      "materializeDueCurrentSubscriptionLocked H (pay_accountId q) (clock 3) c s2 = Inr (m, s3)"
      "terminalize i APPLIED (clock 4) (Some (pay_id q)) (Some (sub_id sub)) (Some (tr_id tr)) None s3
        = Inr (row, s')"
  shows "activated s clock e i q ck (resultFromTerminal row False) s'"
proof -
  have "protocol (open_for_payment (pay_accountId q) (ck_planRevisionId ck) (pay_priceRevisionId q)
       (ve_occurredAt e) (ck_billingIntervalUnit ck) (ck_billingIntervalCount ck) SRC_WEBHOOK
       (ve_eventIdentity e) ''BILLING_PAYMENT_SUCCEEDED'' (clock 2) (pay_id q)
       (\<lambda>r. pay_subscriptionId r = None) (link_paid (clock 2))) s"
    by (rule protocol_open_for_payment [OF q(1)])
      (use q in \<open>simp_all add: link_paid_def payment_progress_def\<close>)
  then have inv1: "commercial_inv s1"
    using inv run(1) by (rule moves_atD [THEN conjunct2])
  have inv2: "commercial_inv s2"
    using protocol_audit_billing inv1 run(2) by (rule moves_atD [THEN conjunct2])
  have rows: "current_subscription s1 (pay_accountId q) = Some sub"
      "payment_of s1 (pay_id q) = Some (link_paid (clock 2) (sub_id sub) q)"
    using open_for_payment_current [OF run(1) q(1) _ _ inv1] open_for_payment_linked(1) [OF run(1) q(1)] q(2)
    by (simp_all add: link_paid_def)
  have s2: "current_subscription s2 a = current_subscription s1 a" "payment_of s2 p = payment_of s1 p" for a p
    using run(2) by (auto simp: audit_billing_def insert_audit_Inr)
  obtain pe sub' tr' where x: "(sub, tr) = (sub', tr')"
    and pe: "addUtcCalendarInterval (ve_occurredAt e) (ck_billingIntervalUnit ck)
      (ck_billingIntervalCount ck) = Inr (Some pe)"
    and sub': "sub' = activated_row (pay_accountId q) (ck_planRevisionId ck) (pay_priceRevisionId q)
       (ve_occurredAt e) pe ''BILLING_PAYMENT_SUCCEEDED'' (clock 2) (sub_id sub')"
    by (rule open_for_payment_effect [OF run(1)])
  have sub: "sub = activated_row (pay_accountId q) (ck_planRevisionId ck) (pay_priceRevisionId q)
       (ve_occurredAt e) pe ''BILLING_PAYMENT_SUCCEEDED'' (clock 2) (sub_id sub)"
    using sub' x by (metis prod.inject)
  have st: "sub_state sub = ACTIVE" "\<not> sub_cancelAtPeriodEnd sub"
    by (subst sub, simp add: activated_row_def)+
  have s': "subscription_of s' j = subscription_of s3 j" "payment_of s' j = payment_of s3 j" for j
    using run(4) by (auto simp: subscription_of_def payment_of_def elim!: terminalize_effect)
  have "subscription_of s' (sub_id sub) = Some (opened_as sub (clock 3))"
    using materialize_current_row [OF inv2 _ run(3), of sub] rows(1)
    by (simp add: s' s2 lifecycle_of_active [OF st] opened_as_def)
  moreover have "payment_of s' (pay_id q) = Some (link_paid (clock 2) (sub_id sub) q)"
    using payment_of_outside [OF materialize_frame [OF run(3)]] rows(2) by (simp add: s' s2)
  moreover have "resultFromTerminal row False
      = EvAPPLIED False i (Some (pay_id q)) (Some (sub_id sub)) (Some (tr_id tr))"
    using run(4) by (auto simp: resultFromTerminal_def event_of_def elim!: terminalize_effect dest: find_Some_mem)
  moreover have "job_of s3 p = job_of s p" "db_now s3 = db_now s" for p
    using run(2) materialize_frame [OF run(3)] open_for_payment_frame [OF run(1)]
    by (auto simp: audit_billing_def insert_audit_Inr outside_subscriptions_def job_of_def)
  then have "\<forall>j. job_of s (pay_id q) = Some j \<longrightarrow> open_job j \<longrightarrow>
      job_of s' (pay_id q) = Some (release_job APPLIED None (db_now s) j)"
    using run(4) by (auto elim!: terminalize_effect)
  ultimately show ?thesis
    unfolding activated_def
    by (intro conjI exI [of _ pe] exI [of _ "sub_id sub"] exI [of _ "tr_id tr"]) (simp_all add: pe sub [symmetric])
qed

lemma yields_activated:
  assumes "commercial_inv s" and "payment_of s (pay_id q) = Some q" "pay_subscriptionId q = None" "pay_state q = SUCCEEDED"
  shows "yields (activate_from_event H clock e c i q ck) s (activated s clock e i q ck)"
  unfolding activate_from_event_def
  by (intro yields_rules) (auto intro: activated_by_writes [OF assms])

lemma paid_row_fields [simp]:
  "pay_id (paid_row e at q) = pay_id q" "pay_accountId (paid_row e at q) = pay_accountId q"
  "pay_priceRevisionId (paid_row e at q) = pay_priceRevisionId q"
  "pay_subscriptionId (paid_row e at q) = pay_subscriptionId q"
  "pay_state (paid_row e at q) = SUCCEEDED" "pay_confirmedAt (paid_row e at q) = Some (ve_occurredAt e)"
  by (simp_all add: paid_row_def)

text \<open>Every payment has the READY checkout intent it was ordered with, and its job.\<close>

lemma payment_ordered:
  assumes inv: "commercial_inv s" and q: "payment_of s p = Some q"
  obtains ck j where "findCheckout s p = Some ck" "ck_state ck = READY" "ck_paymentId ck = Some p"
    "checkout_matches_payment ck q" "job_of s p = Some j"
proof -
  have mem: "q \<in> set (payments s)" "pay_id q = p"
    using payment_row_mem [OF q] payment_of_id [OF q] by simp_all
  have ok: "orders_ok (set (payments s)) (set (checkoutIntents s)) (set (jobs s))"
    using commercial_invD(5) [OF inv] by (simp add: orders_coherent_def)
  have "\<exists>c \<in> set (checkoutIntents s). ck_paymentId c = Some p"
    and "\<exists>j \<in> set (jobs s). job_paymentId j = p"
    using ok mem unfolding orders_ok_def payments_ordered_def by blast+
  then obtain ck j where ck: "findCheckout s p = Some ck" and j: "job_of s p = Some j"
    by (cases "findCheckout s p"; cases "job_of s p") (auto simp: findCheckout_def job_of_def find_None_mem)
  have ckm: "ck \<in> set (checkoutIntents s)" "ck_paymentId ck = Some p"
    using find_Some_mem ck by (fastforce simp: findCheckout_def)+
  then have "ck_state ck = READY \<and> (\<exists>q' \<in> set (payments s). ck_paymentId ck = Some (pay_id q')
      \<and> checkout_matches_payment ck q')"
    using ok unfolding orders_ok_def checkout_paid_def by fastforce
  moreover have "q' = q" if "q' \<in> set (payments s)" "pay_id q' = p" for q'
    using distinct_map_unique [OF keys_distinctD(3) [OF commercial_invD(1) [OF inv]] that(1) mem(1)] that mem by simp
  ultimately have "ck_state ck = READY" "checkout_matches_payment ck q"
    using ckm(2) by auto
  then show thesis
    using that ck j ckm(2) by blast
qed

lemma fail_event_effect:
  assumes "fail_event i at (Some p) code s = Inr (x, s')"
  shows "x = EvFAILED False i code (Some p) None" "payments s' = payments s"
    and "job_of s p = Some j \<Longrightarrow>
      job_of s' p = Some (if open_job j then release_job EVENT_FAILED (Some code) (db_now s) j else j)"
proof -
  show "x = EvFAILED False i code (Some p) None"
    using fail_event_result [OF assms] .
  obtain row where t: "terminalize i EVENT_FAILED at (Some p) None None (Some code) s = Inr (row, s')"
    using assms by (auto simp: fail_event_def andThen_Inr_iff)
  show "payments s' = payments s"
    by (rule terminalize_effect [OF t])
  show "job_of s p = Some j \<Longrightarrow>
      job_of s' p = Some (if open_job j then release_job EVENT_FAILED (Some code) (db_now s) j else j)"
    by (rule terminalize_effect [OF t]) blast
qed

text \<open>A succeeded payment either activates, or keeps its money and its job for a later attempt.\<close>

definition left_for_retry ::
  "db \<Rightarrow> uuid \<Rightarrow> payment_row \<Rightarrow> billing_failure \<Rightarrow> billing_result \<Rightarrow> db \<Rightarrow> bool" where
  "left_for_retry s i q code x s' \<longleftrightarrow>
     x = EvFAILED False i code (Some (pay_id q)) None
     \<and> payment_of s' (pay_id q) = Some q
     \<and> (\<forall>j. job_of s (pay_id q) = Some j \<longrightarrow> open_job j \<longrightarrow>
          job_of s' (pay_id q) = Some (release_job EVENT_FAILED (Some code) (db_now s) j))"

definition succeeded_outcome ::
  "db \<Rightarrow> (nat \<Rightarrow> time) \<Rightarrow> verified_event \<Rightarrow> uuid \<Rightarrow> payment_row \<Rightarrow> checkout_intent_row \<Rightarrow> billing_result \<Rightarrow> db \<Rightarrow> bool" where
  "succeeded_outcome s clock e i q ck x s' \<longleftrightarrow>
     activated s clock e i (paid_row e (clock 0) q) ck x s'
   \<or> left_for_retry s i (paid_row e (clock 0) q) CURRENT_SUBSCRIPTION_CONFLICT x s'
   \<or> left_for_retry s i (paid_row e (clock 0) q) PAYMENT_SUBSCRIPTION_CORRUPTED x s'"

lemma yields_left_for_retry:
  assumes "payment_of s1 (pay_id q) = Some q" and "job_of s1 (pay_id q) = job_of s (pay_id q)"
    and "db_now s1 = db_now s"
  shows "yields (fail_event i at (Some (pay_id q)) code) s1 (left_for_retry s i q code)"
proof (rule yieldsI)
  fix x s'
  assume "fail_event i at (Some (pay_id q)) code s1 = Inr (x, s')"
  from fail_event_effect [OF this] assms show "left_for_retry s i q code x s'"
    by (auto simp: left_for_retry_def payment_of_def)
qed

lemma yields_weaken: "yields m s P \<Longrightarrow> (\<And>x s'. P x s' \<Longrightarrow> Q x s') \<Longrightarrow> yields m s Q"
  by (simp add: yields_def)

lemma yields_apply_succeeded:
  assumes inv: "commercial_inv s" and q: "payment_of s (pay_id q) = Some q" "pay_state q = PENDING"
    and ck: "findCheckout s (pay_id q) = Some ck" "coherent_checkout e q (ck_amountMinor ck) ck"
  shows "yields (apply_succeeded H clock e c i q) s (succeeded_outcome s clock e i q ck)"
proof -
  let ?q = "paid_row e (clock 0) q"
  have same: "activate_from_event H clock e c i q ck = activate_from_event H clock e c i ?q ck"
    by (simp add: activate_from_event_def cong: materialization.case_cong)
  have mid: "payment_of s3 (pay_id q) = Some ?q" "job_of s3 p = job_of s p" "db_now s3 = db_now s"
      "findCheckout s2 p = findCheckout s p"
    if "update_payment (pay_id q) (\<lambda>_. True) (paid_row e (clock 0)) s = Inr (u, s1)"
      "audit_billing c a t j m s1 = Inr (v, s2)" "outside_subscriptions s2 s3" for u s1 a t j m v s2 s3 p
    using that q(1)
    by (auto simp: update_payment_Inr audit_billing_def insert_audit_Inr outside_subscriptions_def
        payment_of_def job_of_def findCheckout_def find_update_where [where k = pay_id])
  have refl: "outside_subscriptions s2 s2" for s2
    by (simp add: outside_subscriptions_def)
  have inv3: "commercial_inv s3"
    if "update_payment (pay_id q) (\<lambda>_. True) (paid_row e (clock 0)) s = Inr (u, s1)"
      "audit_billing c a t j m s1 = Inr (v, s2)"
      "materializeDueCurrentSubscriptionLocked H ac at c s2 = Inr (w, s3)" for u s1 a t j m v s2 s3 ac at w
  proof -
    have "protocol (update_payment (pay_id q) (\<lambda>_. True) (paid_row e (clock 0))) s"
      by (rule protocol_update_payment) (use q in \<open>auto simp: payment_progress_def\<close>)
    then have "commercial_inv s1"
      using inv that(1) by (rule moves_atD [THEN conjunct2])
    from protocol_audit_billing this that(2) have "commercial_inv s2"
      by (rule moves_atD [THEN conjunct2])
    from protocol_materialize this that(3) show ?thesis
      by (rule moves_atD [THEN conjunct2])
  qed
  have found: "checkout = ck"
    if "update_payment (pay_id q) (\<lambda>_. True) (paid_row e (clock 0)) s = Inr (u, s1)"
      "audit_billing c a t j m s1 = Inr (v, s2)" "findCheckout s2 (pay_id q) = Some checkout" for u s1 a t j m v s2 checkout
    using mid(4) [OF that(1,2) refl, of "pay_id q"] that(3) ck(1) by simp
  show ?thesis
    unfolding apply_succeeded_def
  proof (intro yields_rules, goal_cases)
    case (1 u s1 v s2)
    then show ?case using mid(4) [OF 1(1,2) refl, of "pay_id q"] ck(1) by simp
  next
    case (2 u s1 v s2 checkout amount s2')
    then show ?case using found [OF 2(1,2,3)] ck(2) by simp
  next
    case (3 u s1 v s2 checkout amount s2' current s3)
    then have w: "checkout = ck" "s2' = s2" using found by auto
    note mat = 3(6) [unfolded w]
    have "yields (activate_from_event H clock e c i ?q ck) s3 (activated s3 clock e i ?q ck)"
      using yields_activated [OF inv3 [OF 3(1,2) mat], of ?q H clock e c i ck]
        mid(1) [OF 3(1,2) materialize_frame [OF mat]] pending_unlinked [OF inv q] by simp
    then show ?case
      unfolding w same using mid(2,3) [OF 3(1,2) materialize_frame [OF mat]]
      by (auto simp: succeeded_outcome_def activated_def elim!: yields_weaken)
  next
    case (4 u s1 v s2 checkout amount s2' current s3)
    then have w: "s2' = s2" by auto
    note m = mid(1-3) [OF 4(1,2) materialize_frame [OF 4(6) [unfolded w]]]
    show ?case
      using yields_left_for_retry [of s3 ?q s i "clock 2" CURRENT_SUBSCRIPTION_CONFLICT] m
      by (auto simp: succeeded_outcome_def elim: yields_weaken)
  next
    case (5 u s1 v s2 checkout amount s2' current s3)
    then have w: "s2' = s2" by auto
    note m = mid(1-3) [OF 5(1,2) materialize_frame [OF 5(6) [unfolded w]]]
    show ?case
      using yields_left_for_retry [of s3 ?q s i "clock 2" PAYMENT_SUBSCRIPTION_CORRUPTED] m
      by (auto simp: succeeded_outcome_def elim: yields_weaken)
  qed
qed

section \<open>Examples\<close>

text \<open>The account has ordered: a READY checkout intent, its pending payment and its job.\<close>

definition ordered_payment :: payment_row where
  "ordered_payment =
     \<lparr>pay_id = ''pay'', pay_accountId = ''acct'', pay_subscriptionId = None, pay_provider = ''sim'',
      pay_providerPaymentId = ''p-1'', pay_priceRevisionId = ''price-r1'', pay_amountMinor = 990,
      pay_currency = ''EUR'', pay_state = PENDING, pay_idempotencyKeyHash = example_hash,
      pay_requestFingerprintSha256 = example_hash, pay_createdAt = 1000, pay_updatedAt = 1000,
      pay_confirmedAt = None\<rparr>"

definition ordered_checkout :: checkout_intent_row where
  "ordered_checkout =
     \<lparr>ck_id = ''ck'', ck_accountId = ''acct'', ck_priceRevisionId = ''price-r1'',
      ck_planRevisionId = ''plan-r1'', ck_provider = ''sim'', ck_state = READY,
      ck_idempotencyKeyHash = example_hash, ck_requestFingerprintSha256 = example_hash,
      ck_admittedAt = 900, ck_amountMinor = 990, ck_currency = ''EUR'', ck_billingIntervalUnit = MONTH,
      ck_billingIntervalCount = 1, ck_providerCheckoutId = Some ''c-1'', ck_providerPaymentId = Some ''p-1'',
      ck_checkoutReference = Some ''ref-1'', ck_paymentId = Some ''pay'', ck_failureCode = None,
      ck_createdAt = 900, ck_updatedAt = 1000, ck_completedAt = Some 1000\<rparr>"

definition ordered_job :: reconciliation_job_row where
  "ordered_job =
     \<lparr>job_paymentId = ''pay'', job_state = JOB_READY, job_nextAttemptAt = Some 61000,
      job_leaseToken = None, job_leaseUntil = None, job_attemptCount = 0, job_lastResultCode = None,
      job_createdAt = 1000, job_updatedAt = 1000\<rparr>"

definition ordered_db :: db where
  "ordered_db = example_db\<lparr>payments := [ordered_payment], checkoutIntents := [ordered_checkout],
     jobs := [ordered_job]\<rparr>"

definition example_event :: "billing_event_type \<Rightarrow> verified_event" where
  "example_event type =
     \<lparr>ve_provider = ''sim'', ve_eventIdentity = ''evt-1'', ve_eventType = type,
      ve_providerPaymentId = ''p-1'', ve_amountMinor = 990, ve_currency = ''EUR'',
      ve_occurredAt = 2000, ve_payloadSha256 = example_hash\<rparr>"

lemma one_month [eval_simps]: "addUtcCalendarInterval 2000 MONTH 1 = Inr (Some 2678402000)"
  by code_simp

definition paid_db :: db where
  "paid_db = snd (applyVerifiedBillingEvent (\<lambda>_. example_hash) (\<lambda>n. 2500 + int n)
     (example_event PAYMENT_SUCCEEDED) ''c-9'' 2200 2200 ordered_db)"

lemma ordered_db_inv: "commercial_inv ordered_db"
  by (simp add: ordered_db_def ordered_payment_def ordered_checkout_def ordered_job_def example_db_def
      commercial_inv_def keys_distinct_def one_current_def at_most_one_current_def
      logs_coherent_def links_coherent_def links_ok_def orders_coherent_def orders_ok_def
      payments_ordered_def one_checkout_each_def events_coherent_def checkout_paid_def
      checkout_matches_payment_def)

lemma ordered_db_settled: "all_settled ordered_db"
  by (simp add: all_settled_def ordered_db_def example_db_def)

lemmas event_eval [eval_simps] = applyVerifiedBillingEvent_def apply_event_transaction_def
  apply_claimed_def apply_succeeded_def apply_unsuccessful_def apply_to_settled_def
  activate_from_event_def open_for_payment_def activated_row_def activation_row_def link_paid_def
  paid_row_def period_end_def terminalize_def terminal_row_def release_job_def fail_event_def
  resultFromTerminal_def money_def lockAccount_def audit_billing_def retryable_failure_def open_job_def
  findPayment_def findCheckout_def coherent_checkout_def received_row_def verified_event_schema_def
  machine_key_schema_def opaque_reference_schema_def amount_schema_def correlation_schema_def
  valid_time_def max_time_def

lemmas order_examples = ordered_db_def ordered_payment_def ordered_checkout_def ordered_job_def
  example_db_def example_event_def

abbreviation example_digest :: "string \<Rightarrow> string" where
  "example_digest \<equiv> (\<lambda>_. example_hash)"

abbreviation example_clock :: "nat \<Rightarrow> time" where
  "example_clock \<equiv> (\<lambda>n. 2500 + int n)"

lemma paid_run:
  "applyVerifiedBillingEvent example_digest example_clock (example_event PAYMENT_SUCCEEDED) ''c-9'' 2200 2200
     ordered_db = (Inr (EvAPPLIED False ''u'' (Some ''pay'') (Some ''u1'') (Some ''u11'')), paid_db)"
  by (simp add: paid_db_def order_examples eval_simps del: set_filter)

section \<open>Properties of the webhook\<close>

lemma webhook_run:
  "applyVerifiedBillingEvent H clock e c rat vat s = (Inr x, s') \<longleftrightarrow>
     verified_event_schema e \<and> correlation_schema c
     \<and> apply_event_transaction H clock e c rat vat s = Inr (x, s')"
  by (auto simp: applyVerifiedBillingEvent_def transaction_def split: sum.splits prod.splits)

lemma opaque_non_whitespace: "opaque_reference s \<Longrightarrow> non_whitespace s"
proof -
  assume s: "opaque_reference s"
  then obtain c cs where c: "s = c # cs" "is_lower c \<or> is_upper c \<or> is_digit c \<or> c \<in> set ''._:-''"
    by (cases s) (auto simp: opaque_reference_def)
  have "c \<notin> set [CHR '' '', CHR 0x09, CHR 0x0A, CHR 0x0B, CHR 0x0C, CHR 0x0D]"
    using c(2) by (auto simp: is_lower_def is_upper_def is_digit_def)
  then show ?thesis
    by (simp add: c(1) non_whitespace_def)
qed

lemma schema_checks:
  "verified_event_schema e \<Longrightarrow> rat \<le> vat \<Longrightarrow> event_checks (received_row e rat vat now i)"
  by (simp add: event_checks_received verified_event_schema_def machine_key_schema_def
      opaque_reference_schema_def opaque_non_whitespace)

text \<open>C28. A webhook delivered again is recognised, however much has been committed in between: the
  repeated delivery is told the recorded outcome, marked as a replay, and writes nothing.\<close>

theorem webhook_replay:
  assumes "commercial_inv s" and "all_settled s"
    and "applyVerifiedBillingEvent H clock e c rat vat s = (Inr x, s1)"
    and "step\<^sup>*\<^sup>* s1 s2"
    and "correlation_schema c'" and "rat' \<le> vat'"
  shows "applyVerifiedBillingEvent H clock' e c' rat' vat' s2
    = (Inr (as_replay x), s2\<lparr>db_drawn := Suc (db_drawn s2)\<rparr>)"
proof -
  have run: "apply_event_transaction H clock e c rat vat s = Inr (x, s1)" and schema: "verified_event_schema e"
    using assms(3) by (simp_all add: webhook_run)
  obtain r where r: "r \<in> set (billingEvents s1)" "event_received e r" "as_replay x = replay_result e r"
    using run_outcome [OF assms(1,2) run] by blast
  have inv1: "commercial_inv s1"
    using protocol_apply_event assms(1) run by (rule moves_atD [THEN conjunct2])
  then have "finals_kept s1 s2" and inv2: "commercial_inv s2"
    using path_history [OF assms(4)] path_commercial_inv [OF assms(4)] by (simp_all add: history_kept_def)
  then have "r \<in> set (billingEvents s2)"
    using r(1,2) by (simp add: finals_kept_def event_received_def)
  then have "find_event s2 (ve_provider e) (ve_eventIdentity e) = Some r"
    using find_event_row [OF commercial_invD(6) [OF inv2], of r] r(2) by (simp add: event_received_def)
  from replay_run [OF this, of rat' vat' H clock' c'] show ?thesis
    using r(2,3) schema assms(5,6) schema_checks [OF schema assms(6)]
    by (simp add: webhook_run event_received_def)
qed

theorem webhook_replay_witness:
  "applyVerifiedBillingEvent example_digest (\<lambda>_. 0) (example_event PAYMENT_SUCCEEDED) ''c-10'' 7000 7000 paid_db
     = (Inr (EvAPPLIED True ''u'' (Some ''pay'') (Some ''u1'') (Some ''u11'')),
        paid_db\<lparr>db_drawn := Suc (db_drawn paid_db)\<rparr>)"
  using webhook_replay [OF ordered_db_inv ordered_db_settled paid_run rtranclp.rtrancl_refl,
      where c' = "''c-10''" and rat' = 7000 and vat' = 7000 and clock' = "\<lambda>_. 0"]
  by (simp add: correlation_schema_def)

text \<open>C29. A webhook never leaves an event in the ledger without its outcome: when every event of the
  ledger has one before a delivery, every event has one after it, whether it committed or not.\<close>

theorem webhook_settles_ledger:
  assumes "commercial_inv s" and "all_settled s"
  shows "commercial_inv (snd (applyVerifiedBillingEvent H clock e c rat vat s))
    \<and> all_settled (snd (applyVerifiedBillingEvent H clock e c rat vat s))"
proof -
  have "all_settled (snd (transaction (apply_event_transaction H clock e c rat vat) s))"
    using assms(2) run_outcome [OF assms]
    by (cases rule: transaction_cases [of "apply_event_transaction H clock e c rat vat" s]) auto
  then show ?thesis
    using webhook_path [OF assms(1)] assms(2) by (simp add: applyVerifiedBillingEvent_def)
qed

theorem webhook_settles_ledger_witness:
  "commercial_inv paid_db \<and> all_settled paid_db"
  using webhook_settles_ledger [OF ordered_db_inv ordered_db_settled, of example_digest example_clock
      "example_event PAYMENT_SUCCEEDED" "''c-9''" 2200 2200]
  by (simp add: paid_run)

lemma andThen_money [simp]:
  "0 \<le> n \<Longrightarrow> n \<le> max_safe_integer \<Longrightarrow> andThen (money n) f s = f n s"
  by (simp add: money_def)

lemma andThen_lockAccount [simp]: "andThen (lockAccount a) f s = f (account_of s a \<noteq> None) s"
  by (simp add: lockAccount_def)

definition event_fits :: "verified_event \<Rightarrow> time \<Rightarrow> payment_row \<Rightarrow> bool" where
  "event_fits e receivedAt q \<longleftrightarrow>
     pay_amountMinor q = ve_amountMinor e \<and> pay_currency q = ve_currency e
     \<and> pay_createdAt q \<le> ve_occurredAt e \<and> ve_occurredAt e \<le> receivedAt"

lemma matching_checkout_coherent:
  assumes "findPayment s e = Some q" and "keys_distinct s"
    and "ck_state ck = READY" "ck_paymentId ck = Some (pay_id q)" "checkout_matches_payment ck q"
    and "pay_amountMinor q = ve_amountMinor e" "pay_currency q = ve_currency e"
  shows "coherent_checkout e q (ck_amountMinor ck) ck"
  using assms findPayment_row [OF assms(2,1)]
  by (auto simp: coherent_checkout_def checkout_matches_payment_def)

lemma claimed_success:
  assumes inv: "commercial_inv s" and q: "findPayment s e = Some q" "pay_state q = PENDING"
    and ev: "ve_eventType e = PAYMENT_SUCCEEDED" "verified_event_schema e" "event_fits e rat q"
    and run: "apply_claimed H clock e c rat i s = Inr (x, s')"
  shows "\<exists>ck. findCheckout s (pay_id q) = Some ck \<and> succeeded_outcome s clock e i q ck x s'"
proof -
  note row = findPayment_row(1) [OF commercial_invD(1) [OF inv] q(1)]
  obtain ck where ck: "findCheckout s (pay_id q) = Some ck" "ck_state ck = READY"
      "ck_paymentId ck = Some (pay_id q)" "checkout_matches_payment ck q"
    by (rule payment_ordered [OF inv row])
  have coh: "coherent_checkout e q (ck_amountMinor ck) ck"
    using matching_checkout_coherent [OF q(1) commercial_invD(1) [OF inv] ck(2-4)] ev(3)
    by (simp add: event_fits_def)
  have "apply_succeeded H clock e c i q s = Inr (x, s')"
    using run q ev
    by (auto simp: apply_claimed_def event_fits_def verified_event_schema_def amount_schema_def
        split: if_splits)
  then show ?thesis
    using yieldsD [OF yields_apply_succeeded [OF inv row q(2) ck(1) coh]] ck(1) by blast
qed

lemma succeeded_outcome_ledger:
  "succeeded_outcome (s\<lparr>billingEvents := ta, db_drawn := n\<rparr>) = succeeded_outcome s"
  by (simp add: fun_eq_iff succeeded_outcome_def activated_def left_for_retry_def)

lemma delivered_success:
  assumes "commercial_inv s" and "all_settled s"
    and "find_event s (ve_provider e) (ve_eventIdentity e) = None"
    and "ve_eventType e = PAYMENT_SUCCEEDED"
    and "findPayment s e = Some q" and "pay_state q = PENDING" and "event_fits e rat q"
    and "applyVerifiedBillingEvent H clock e c rat vat s = (Inr x, s')"
  shows "\<exists>i ck. findCheckout s (pay_id q) = Some ck \<and> succeeded_outcome s clock e i q ck x s'"
proof -
  have run: "apply_event_transaction H clock e c rat vat s = Inr (x, s')" and schema: "verified_event_schema e"
    using assms(8) by (simp_all add: webhook_run)
  from assms(1,2) run show ?thesis
  proof (cases rule: apply_event_cases)
    case (claimed i s1)
    have "findPayment s1 e = Some q"
      using assms(5) by (simp add: claimed(4) findPayment_def)
    from claimed_success [OF claimed(6) this assms(6,4) schema assms(7) claimed(5)]
    show ?thesis
      by (auto simp: claimed(4) findCheckout_def succeeded_outcome_ledger)
  qed (use assms(3) in simp)
qed

text \<open>C30. A succeeded payment: the delivery of a new event that fits its pending payment either
  activates the subscription (the calendar interval the checkout was sold with, from the provider's
  time of payment, expired at once when it is already over; the payment linked, its job settled), or
  reports that the account is occupied or its lifecycle corrupted, keeps the payment as succeeded
  and gives its job back for reconciliation. There is no other outcome.\<close>

theorem webhook_success_outcome:
  assumes "commercial_inv s" and "all_settled s"
    and "find_event s (ve_provider e) (ve_eventIdentity e) = None"
    and "ve_eventType e = PAYMENT_SUCCEEDED"
    and "findPayment s e = Some q" and "pay_state q = PENDING" and "event_fits e rat q"
    and "applyVerifiedBillingEvent H clock e c rat vat s = (Inr x, s')"
  shows "\<exists>i ck. findCheckout s (pay_id q) = Some ck \<and> succeeded_outcome s clock e i q ck x s'"
  by (rule delivered_success [OF assms])

theorem webhook_success_outcome_witness:
  "\<exists>i ck. findCheckout ordered_db ''pay'' = Some ck
    \<and> succeeded_outcome ordered_db example_clock (example_event PAYMENT_SUCCEEDED) i ordered_payment ck
        (EvAPPLIED False ''u'' (Some ''pay'') (Some ''u1'') (Some ''u11'')) paid_db"
proof -
  have "find_event ordered_db (ve_provider (example_event PAYMENT_SUCCEEDED))
      (ve_eventIdentity (example_event PAYMENT_SUCCEEDED)) = None"
    and "findPayment ordered_db (example_event PAYMENT_SUCCEEDED) = Some ordered_payment"
    and "ve_eventType (example_event PAYMENT_SUCCEEDED) = PAYMENT_SUCCEEDED"
    and "pay_state ordered_payment = PENDING" "pay_id ordered_payment = ''pay''"
    and "event_fits (example_event PAYMENT_SUCCEEDED) 2200 ordered_payment"
    by (simp_all add: order_examples find_event_def findPayment_def event_fits_def)
  then show ?thesis
    using webhook_success_outcome [OF ordered_db_inv ordered_db_settled _ _ _ _ _ paid_run, of ordered_payment]
    by simp
qed

lemma settled_failure_codes:
  "yields (apply_to_settled i at q st) s (\<lambda>x s'. \<forall>b j code p sub. x = EvFAILED b j code p sub \<longrightarrow>
     code \<in> {PAYMENT_STATE_CONFLICT, PAYMENT_SUBSCRIPTION_CORRUPTED})"
  unfolding apply_to_settled_def
  by (intro yields_rules; auto intro!: yieldsI dest!: fail_event_result
      simp: resultFromTerminal_def elim!: terminalize_effect)

lemma unsuccessful_applied:
  "yields (apply_unsuccessful e c i at q st) s (\<lambda>x s'. x = EvAPPLIED False i (Some (pay_id q)) None None)"
  unfolding apply_unsuccessful_def
  by (intro yields_rules)
    (auto simp: resultFromTerminal_def event_of_def elim!: terminalize_effect dest: find_Some_mem)

text \<open>C31. On a database with the invariants the two failures that mean a broken order never happen:
  a delivery fails because the event does not fit a payment, because the payment or the account is
  in another state, and never because a checkout is missing or does not match its payment.\<close>

theorem webhook_failure_codes:
  assumes "commercial_inv s" and "all_settled s"
    and "applyVerifiedBillingEvent H clock e c rat vat s = (Inr (EvFAILED False i code p sub), s')"
  shows "code \<in> {PAYMENT_NOT_FOUND, PAYMENT_TERMS_MISMATCH, EVENT_TIME_INVALID, PAYMENT_STATE_CONFLICT,
    CURRENT_SUBSCRIPTION_CONFLICT, PAYMENT_SUBSCRIPTION_CORRUPTED}"
proof -
  have run: "apply_event_transaction H clock e c rat vat s = Inr (EvFAILED False i code p sub, s')"
    and schema: "verified_event_schema e"
    using assms(3) by (simp_all add: webhook_run)
  from assms(1,2) run show ?thesis
  proof (cases rule: apply_event_cases)
    case (old r)
    then show ?thesis
      by (cases "ev_processingState r") (auto simp: replay_result_def resultFromTerminal_def split: if_splits)
  next
    case (claimed j s1)
    show ?thesis
    proof (cases "findPayment s1 e")
      case None
      then show ?thesis
        using claimed(5) by (auto simp: apply_claimed_def dest: fail_event_result)
    next
      case (Some q)
      consider "apply_claimed H clock e c rat j s1 = fail_event j rat (Some (pay_id q)) PAYMENT_TERMS_MISMATCH s1"
        | "apply_claimed H clock e c rat j s1 = fail_event j rat (Some (pay_id q)) EVENT_TIME_INVALID s1"
        | "apply_claimed H clock e c rat j s1 = apply_to_settled j (clock 0) q (eventState (ve_eventType e)) s1"
        | "apply_claimed H clock e c rat j s1 = apply_unsuccessful e c j (clock 0) q (eventState (ve_eventType e)) s1"
        | "event_fits e rat q" "ve_eventType e = PAYMENT_SUCCEEDED" "pay_state q = PENDING"
        using claimed(5) Some schema
        by (cases "ve_eventType e")
          (auto simp: apply_claimed_def event_fits_def andThen_Inr_iff verified_event_schema_def
            amount_schema_def split: if_splits)
      then show ?thesis
      proof cases
        case 3
        show ?thesis
        proof -
          have "apply_to_settled j (clock 0) q (eventState (ve_eventType e)) s1
              = Inr (EvFAILED False i code p sub, s')"
            using 3 claimed(5) by simp
          from yieldsD [OF settled_failure_codes this] show ?thesis by auto
        qed
      next
        case 4
        then have "apply_unsuccessful e c j (clock 0) q (eventState (ve_eventType e)) s1
            = Inr (EvFAILED False i code p sub, s')"
          using claimed(5) by simp
        from yieldsD [OF unsuccessful_applied this] show ?thesis by simp
      next
        case 5
        then show ?thesis
          using claimed_success [OF claimed(6) Some 5(3,2) schema 5(1) claimed(5)]
          by (auto simp: succeeded_outcome_def activated_def left_for_retry_def)
      qed (use claimed(5) in \<open>auto dest: fail_event_result [OF sym] fail_event_result\<close>)
    qed
  qed
qed

theorem webhook_failure_codes_witness:
  "\<exists>s'. applyVerifiedBillingEvent id (\<lambda>_. 0) (example_event PAYMENT_SUCCEEDED\<lparr>ve_currency := ''USD''\<rparr>)
      ''c-9'' 2200 2200 ordered_db
      = (Inr (EvFAILED False ''u'' PAYMENT_TERMS_MISMATCH (Some ''pay'') None), s')
    \<and> PAYMENT_TERMS_MISMATCH \<in> {PAYMENT_NOT_FOUND, PAYMENT_TERMS_MISMATCH, EVENT_TIME_INVALID,
        PAYMENT_STATE_CONFLICT, CURRENT_SUBSCRIPTION_CONFLICT, PAYMENT_SUBSCRIPTION_CORRUPTED}"
proof -
  obtain s' where "applyVerifiedBillingEvent id (\<lambda>_. 0) (example_event PAYMENT_SUCCEEDED\<lparr>ve_currency := ''USD''\<rparr>)
      ''c-9'' 2200 2200 ordered_db
      = (Inr (EvFAILED False ''u'' PAYMENT_TERMS_MISMATCH (Some ''pay'') None), s')"
    by (simp add: order_examples eval_simps del: set_filter)
  with webhook_failure_codes [OF ordered_db_inv ordered_db_settled this] show ?thesis by blast
qed

section \<open>The service behind its interface\<close>

text \<open>
  \<open>BillingEventApplicationRepository\<close> of packages/server/billing/src/index.ts: what the service
  calls, and what it may rely on. A call that throws has rolled back; a call that returns keeps the
  invariant of the store and reports an outcome of the event, not a rejection.
\<close>

locale event_repository =
  fixes inv :: "'s \<Rightarrow> bool"
    and applyEvent :: "verified_event \<Rightarrow> string \<Rightarrow> time \<Rightarrow> time \<Rightarrow> 's \<Rightarrow> (failure + billing_result) \<times> 's"
  assumes thrown_rolls_back: "applyEvent e c rat vat s = (Inl f, s') \<Longrightarrow> s' = s"
    and returned_keeps: "inv s \<Longrightarrow> applyEvent e c rat vat s = (Inr x, s') \<Longrightarrow> inv s'"
    and returned_outcome: "inv s \<Longrightarrow> applyEvent e c rat vat s = (Inr x, s') \<Longrightarrow>
      x \<noteq> EvRETRYABLE \<and> (\<forall>code. x \<noteq> EvREJECTED code)"
begin

lemma service_keeps:
  "inv s \<Longrightarrow> inv (snd (processBillingEvent verify key applyEvent at raw ctx s))"
  using returned_keeps
  by (auto simp: processBillingEvent_def split: option.split verification.split prod.split sum.split
      dest!: thrown_rolls_back)

lemma refused_writes_nothing:
  assumes "inv s" and "processBillingEvent verify key applyEvent at raw ctx s = (x, s')"
    and "x = EvRETRYABLE \<or> (\<exists>code. x = EvREJECTED code)"
  shows "s' = s"
  using assms thrown_rolls_back returned_outcome
  by (auto simp: processBillingEvent_def split: option.splits verification.splits prod.splits sum.splits if_splits)

lemma accepted_is_verified:
  assumes "processBillingEvent verify key applyEvent at raw ctx s = (x, s')" and "s' \<noteq> s"
  shows "\<exists>e c. verify raw = Some (EVENT_VERIFIED e) \<and> ve_provider e = key \<and> ctx = Some c
    \<and> applyEvent e c at at s = (Inr x, s')"
  using assms thrown_rolls_back
  by (auto simp: processBillingEvent_def split: option.splits verification.splits prod.splits sum.splits if_splits)

end

definition ledger_inv :: "db \<Rightarrow> bool" where
  "ledger_inv s \<longleftrightarrow> commercial_inv s \<and> all_settled s"

lemma transaction_Inl: "transaction m s = (Inl f, s') \<Longrightarrow> s' = s"
  by (auto simp: transaction_def split: sum.splits prod.splits)

lemma webhook_outcome_kind:
  assumes "commercial_inv s" "all_settled s" and "applyVerifiedBillingEvent H clock e c rat vat s = (Inr x, s')"
  shows "x \<noteq> EvRETRYABLE \<and> (\<forall>code. x \<noteq> EvREJECTED code)"
proof -
  have "apply_event_transaction H clock e c rat vat s = Inr (x, s')"
    using assms(3) by (simp add: webhook_run)
  from assms(1,2) this show ?thesis
  proof (cases rule: apply_event_cases)
    case (old r)
    then show ?thesis
      by (cases "ev_processingState r") (auto simp: replay_result_def resultFromTerminal_def split: if_splits)
  next
    case (claimed i s1)
    obtain r where "x = resultFromTerminal r False"
      by (rule claimed_outcome [OF claimed(3-5)])
    then show ?thesis
      by (cases "ev_processingState r") (auto simp: resultFromTerminal_def)
  qed
qed

interpretation webhook: event_repository ledger_inv "applyVerifiedBillingEvent H clock"
proof
  fix e c rat vat s f x s'
  show "applyVerifiedBillingEvent H clock e c rat vat s = (Inl f, s') \<Longrightarrow> s' = s"
    by (auto simp: applyVerifiedBillingEvent_def dest: transaction_Inl split: if_splits)
  assume inv: "ledger_inv s" and run: "applyVerifiedBillingEvent H clock e c rat vat s = (Inr x, s')"
  have tx: "apply_event_transaction H clock e c rat vat s = Inr (x, s')"
    using run by (simp add: webhook_run)
  have "commercial_inv s'"
    using protocol_apply_event _ tx by (rule moves_atD [THEN conjunct2]) (use inv in \<open>simp add: ledger_inv_def\<close>)
  then show "ledger_inv s'"
    using run_outcome [OF _ _ tx] inv by (simp add: ledger_inv_def)
  show "x \<noteq> EvRETRYABLE \<and> (\<forall>code. x \<noteq> EvREJECTED code)"
    using webhook_outcome_kind [OF _ _ run] inv by (simp add: ledger_inv_def)
qed

text \<open>C32. The webhook service writes only on behalf of a verified event of its own provider: whatever it
  answers REJECTED or RETRYABLE to has left the database as it was, and a database it has changed was
  changed by the committed application of an event the verifier has vouched for.\<close>

theorem webhook_service_safe:
  assumes "commercial_inv s" and "all_settled s"
    and "processBillingEvent verify key (applyVerifiedBillingEvent H clock) at raw ctx s = (x, s')"
  shows "((x = EvRETRYABLE \<or> (\<exists>code. x = EvREJECTED code)) \<longrightarrow> s' = s)
    \<and> (s' \<noteq> s \<longrightarrow> (\<exists>e c. verify raw = Some (EVENT_VERIFIED e) \<and> ve_provider e = key
        \<and> applyVerifiedBillingEvent H clock e c at at s = (Inr x, s')))"
proof -
  have "ledger_inv s"
    using assms(1,2) by (simp add: ledger_inv_def)
  from webhook.refused_writes_nothing [OF this assms(3)] webhook.accepted_is_verified [OF assms(3)]
  show ?thesis by blast
qed

theorem webhook_service_safe_witness:
  "\<exists>e c. applyVerifiedBillingEvent example_digest example_clock e c 2200 2200 ordered_db
     = (Inr (EvAPPLIED False ''u'' (Some ''pay'') (Some ''u1'') (Some ''u11'')), paid_db)"
proof -
  have schema: "verified_event_schema (example_event PAYMENT_SUCCEEDED)"
    using paid_run by (simp only: webhook_run)
  have "ve_provider (example_event PAYMENT_SUCCEEDED) = ''sim''"
    by (simp add: example_event_def)
  then have run: "processBillingEvent (\<lambda>_::unit. Some (EVENT_VERIFIED (example_event PAYMENT_SUCCEEDED))) ''sim''
      (applyVerifiedBillingEvent example_digest example_clock) 2200 () (Some ''c-9'') ordered_db
    = (EvAPPLIED False ''u'' (Some ''pay'') (Some ''u1'') (Some ''u11''), paid_db)"
    using schema by (simp add: processBillingEvent_def correlation_schema_def paid_run)
  have "apply_event_transaction example_digest example_clock (example_event PAYMENT_SUCCEEDED) ''c-9'' 2200 2200
      ordered_db = Inr (EvAPPLIED False ''u'' (Some ''pay'') (Some ''u1'') (Some ''u11''), paid_db)"
    using paid_run by (simp only: webhook_run)
  then have "billingEvents paid_db \<noteq> []"
    using run_outcome [OF ordered_db_inv ordered_db_settled] by fastforce
  moreover have "billingEvents ordered_db = []"
    by (simp add: ordered_db_def example_db_def)
  ultimately have "paid_db \<noteq> ordered_db"
    by metis
  with webhook_service_safe [OF ordered_db_inv ordered_db_settled run] show ?thesis by blast
qed

end
