(* ===== verification/Reconciliation.thy ===== *)
theory Reconciliation
  imports Billing_Events "HOL-Library.Product_Lexorder"
begin

text \<open>
  packages/server/db/src/p5-reconciliation-repository.ts and the reconciliation service of
  packages/server/billing/src/index.ts: a worker claims the due jobs under a lease, asks the
  provider for the status of the payment, and applies it with the same outcomes as a webhook, as
  long as it still holds the lease. \<open>H\<close> is the SHA-256 digest; \<open>clock n\<close> is the n-th reading of
  the repository's clock inside a transaction.
\<close>

section \<open>Statuses, claims and results\<close>

datatype status_state = STATUS_PENDING | STATUS_SUCCEEDED | STATUS_FAILED | STATUS_CANCELED

fun status_text :: "status_state \<Rightarrow> string" where
  "status_text STATUS_PENDING = ''PENDING''"
| "status_text STATUS_SUCCEEDED = ''SUCCEEDED''"
| "status_text STATUS_FAILED = ''FAILED''"
| "status_text STATUS_CANCELED = ''CANCELED''"

fun status_payment_state :: "status_state \<Rightarrow> payment_state" where
  "status_payment_state STATUS_PENDING = PENDING"
| "status_payment_state STATUS_SUCCEEDED = SUCCEEDED"
| "status_payment_state STATUS_FAILED = PAYMENT_FAILED"
| "status_payment_state STATUS_CANCELED = PAYMENT_CANCELED"

record found_status =
  st_state :: status_state
  st_amountMinor :: int
  st_currency :: string
  st_statusAt :: time

datatype payment_status = STATUS_FOUND found_status | STATUS_NOT_FOUND | STATUS_UNAVAILABLE

definition found_status_schema :: "found_status \<Rightarrow> bool" where
  "found_status_schema s \<longleftrightarrow>
     amount_schema (st_amountMinor s) \<and> currency_code (st_currency s) \<and> valid_time (st_statusAt s)"

datatype retry_code =
    PROVIDER_PENDING | RETRY_PROVIDER_UNAVAILABLE | PROVIDER_NOT_FOUND
  | RETRY_CURRENT_SUBSCRIPTION_CONFLICT | RETRY_PAYMENT_STATE_CONFLICT
  | RETRY_PAYMENT_SUBSCRIPTION_CORRUPTED

fun retry_code_text :: "retry_code \<Rightarrow> string" where
  "retry_code_text PROVIDER_PENDING = ''PROVIDER_PENDING''"
| "retry_code_text RETRY_PROVIDER_UNAVAILABLE = ''PROVIDER_UNAVAILABLE''"
| "retry_code_text PROVIDER_NOT_FOUND = ''PROVIDER_NOT_FOUND''"
| "retry_code_text RETRY_CURRENT_SUBSCRIPTION_CONFLICT = ''CURRENT_SUBSCRIPTION_CONFLICT''"
| "retry_code_text RETRY_PAYMENT_STATE_CONFLICT = ''PAYMENT_STATE_CONFLICT''"
| "retry_code_text RETRY_PAYMENT_SUBSCRIPTION_CORRUPTED = ''PAYMENT_SUBSCRIPTION_CORRUPTED''"

record reconciliation_claim =
  cl_paymentId :: uuid
  cl_provider :: string
  cl_providerPaymentId :: string
  cl_accountId :: uuid
  cl_priceRevisionId :: uuid
  cl_amountMinor :: int
  cl_currency :: string
  cl_paymentState :: payment_state
  cl_createdAt :: time
  cl_attemptCount :: int
  cl_leaseToken :: uuid

datatype result_kind = REC_APPLIED | REC_IGNORED | REC_BLOCKED | REC_FAILED

datatype reconciliation_result =
    RESCHEDULED retry_code
  | RECONCILED result_kind uuid "string option" "uuid option"
  | STALE_LEASE uuid

section \<open>Identities of the recorded events\<close>

definition retry_delay_ms :: int where
  "retry_delay_ms = 60000"

text \<open>\<open>reconciliationRetryAt\<close>, for a delay that is a finite number.\<close>

definition reconciliationRetryAt :: "time \<Rightarrow> int \<Rightarrow> string + time" where
  "reconciliationRetryAt processedAt delayMs =
     (if delayMs < 0 then Inl ''INVALID_RETRY_DELAY''
      else case time_clip (processedAt + delayMs) of
             None \<Rightarrow> Inl ''INVALID_DATE''
           | Some t \<Rightarrow> Inr t)"

definition payload_text :: "reconciliation_claim \<Rightarrow> found_status \<Rightarrow> string" where
  "payload_text claim status =
     ''product-control-plane/billing-reconciliation/payload/v1'' @ newline
       @ ''paymentId='' @ cl_paymentId claim @ newline
       @ ''provider='' @ cl_provider claim @ newline
       @ ''providerPaymentId='' @ cl_providerPaymentId claim @ newline
       @ ''state='' @ status_text (st_state status) @ newline
       @ ''amountMinor='' @ decimal_int (st_amountMinor status) @ newline
       @ ''currency='' @ st_currency status @ newline
       @ ''statusAt='' @ toISOString (st_statusAt status)"

definition reconciliationPayloadSha256 ::
  "(string \<Rightarrow> string) \<Rightarrow> reconciliation_claim \<Rightarrow> found_status \<Rightarrow> string" where
  "reconciliationPayloadSha256 H claim status = H (payload_text claim status)"

definition identity_text :: "uuid \<Rightarrow> int \<Rightarrow> status_state \<Rightarrow> time \<Rightarrow> string \<Rightarrow> string" where
  "identity_text paymentId attemptCount state statusAt payload =
     ''product-control-plane/billing-reconciliation/event-identity/v1'' @ newline
       @ ''paymentId='' @ paymentId @ newline
       @ ''attempt='' @ decimal_int attemptCount @ newline
       @ ''state='' @ status_text state @ newline
       @ ''statusAt='' @ toISOString statusAt @ newline
       @ ''payloadSha256='' @ payload"

definition reconciliationEventIdentity ::
  "(string \<Rightarrow> string) \<Rightarrow> uuid \<Rightarrow> int \<Rightarrow> status_state \<Rightarrow> time \<Rightarrow> string \<Rightarrow> string" where
  "reconciliationEventIdentity H paymentId attemptCount state statusAt payload =
     ''recon_v1_'' @ H (identity_text paymentId attemptCount state statusAt payload)"

fun status_event_type :: "status_state \<Rightarrow> string" where
  "status_event_type STATUS_SUCCEEDED = ''payment.succeeded''"
| "status_event_type STATUS_FAILED = ''payment.failed''"
| "status_event_type _ = ''payment.canceled''"

section \<open>Helpers of the repository\<close>

text \<open>A Date computed by adding milliseconds; an Invalid Date cannot be written.\<close>

definition date_column :: "int \<Rightarrow> time dbtx" where
  "date_column n = (case time_clip n of None \<Rightarrow> throw (Violation ''timestamptz'') | Some t \<Rightarrow> ret t)"

definition optional_date :: "int option \<Rightarrow> time option dbtx" where
  "optional_date x =
     (case x of None \<Rightarrow> ret None | Some n \<Rightarrow> andThen (date_column n) (\<lambda>t. ret (Some t)))"

definition leased_under :: "uuid \<Rightarrow> reconciliation_job_row \<Rightarrow> bool" where
  "leased_under leaseToken j \<longleftrightarrow> job_state j = LEASED \<and> job_leaseToken j = Some leaseToken"

definition finished_job ::
  "job_state \<Rightarrow> string option \<Rightarrow> time option \<Rightarrow> time \<Rightarrow> reconciliation_job_row \<Rightarrow> reconciliation_job_row" where
  "finished_job state code nextAttemptAt now j =
     j\<lparr>job_state := state, job_nextAttemptAt := nextAttemptAt, job_leaseToken := None,
       job_leaseUntil := None, job_lastResultCode := code, job_updatedAt := max now (job_createdAt j)\<rparr>"

definition finishJob ::
  "uuid \<Rightarrow> uuid \<Rightarrow> job_state \<Rightarrow> string option \<Rightarrow> int option \<Rightarrow> time \<Rightarrow> bool dbtx" where
  "finishJob paymentId leaseToken state code nextAttemptAt now =
     andThen (optional_date nextAttemptAt) (\<lambda>next.
     andThen (update_job paymentId (leased_under leaseToken) (finished_job state code next now)) (\<lambda>updated.
     ret (updated \<noteq> None)))"

definition reconciled_row :: "string \<Rightarrow> string \<Rightarrow> string \<Rightarrow> string \<Rightarrow> time \<Rightarrow> time \<Rightarrow> uuid \<Rightarrow> billing_event_row" where
  "reconciled_row provider identity eventType payload receivedAt now i =
     \<lparr>ev_id = i, ev_provider = provider, ev_source = RECONCILIATION, ev_eventIdentity = identity,
      ev_eventType = eventType, ev_payloadSha256 = payload, ev_processingState = VERIFIED,
      ev_receivedAt = receivedAt, ev_verifiedAt = receivedAt, ev_processedAt = None,
      ev_paymentId = None, ev_subscriptionId = None, ev_subscriptionTransitionId = None,
      ev_failureCode = None, ev_createdAt = now\<rparr>"

definition insertEvent :: "string \<Rightarrow> string \<Rightarrow> string \<Rightarrow> string \<Rightarrow> time \<Rightarrow> billing_event_row dbtx" where
  "insertEvent provider identity eventType payload receivedAt =
     andThen (gets db_now) (\<lambda>now.
     andThen (insert_event_row (reconciled_row provider identity eventType payload receivedAt now)) (\<lambda>_.
     andThen (gets (\<lambda>s. find_event s provider identity)) (\<lambda>row.
       case row of None \<Rightarrow> throw (Thrown ''BILLING_EVENT_CLAIM_LOST'') | Some r \<Rightarrow> ret r)))"

definition terminalize_event ::
  "uuid \<Rightarrow> billing_event_state \<Rightarrow> time \<Rightarrow> uuid \<Rightarrow> uuid option \<Rightarrow> uuid option \<Rightarrow> billing_failure option
    \<Rightarrow> billing_event_row dbtx" where
  "terminalize_event eventId state processedAt paymentId subscriptionId transitionId code =
     andThen (update_event eventId
       (terminal_row state processedAt (Some paymentId) subscriptionId transitionId code)) (\<lambda>row.
       case row of None \<Rightarrow> throw (Thrown ''BILLING_EVENT_CLAIM_LOST'') | Some r \<Rightarrow> ret r)"

definition terminalResult :: "billing_event_row \<Rightarrow> uuid \<Rightarrow> reconciliation_result" where
  "terminalResult row paymentId =
     RECONCILED
       (case ev_processingState row of APPLIED \<Rightarrow> REC_APPLIED | IGNORED \<Rightarrow> REC_IGNORED | _ \<Rightarrow> REC_FAILED)
       paymentId (map_option billing_failure_text (ev_failureCode row)) (Some (ev_id row))"

definition audit_reconciliation ::
  "string \<Rightarrow> string \<Rightarrow> uuid \<Rightarrow> string \<Rightarrow> (string \<times> json) list \<Rightarrow> unit dbtx" where
  "audit_reconciliation action targetType targetId correlationId metadata =
     insert_audit
       \<lparr>aud_actorType = ''SYSTEM'', aud_actorId = None, aud_action = action,
        aud_targetType = targetType, aud_targetId = targetId, aud_correlationId = correlationId,
        aud_reason = Some ''BILLING_RECONCILIATION'', aud_safeMetadata = metadata\<rparr>"

text \<open>Record the outcome of the event, finish the job, report the event.\<close>

definition conclude ::
  "reconciliation_claim \<Rightarrow> uuid \<Rightarrow> time \<Rightarrow> billing_event_state \<Rightarrow> uuid option \<Rightarrow> uuid option
    \<Rightarrow> billing_failure option \<Rightarrow> job_state \<Rightarrow> string option \<Rightarrow> int option \<Rightarrow> reconciliation_result dbtx" where
  "conclude claim eventId at state subscriptionId transitionId code jobState jobCode nextAttemptAt =
     andThen (terminalize_event eventId state at (cl_paymentId claim) subscriptionId transitionId code)
       (\<lambda>row.
     andThen (finishJob (cl_paymentId claim) (cl_leaseToken claim) jobState jobCode nextAttemptAt at) (\<lambda>_.
     ret (terminalResult row (cl_paymentId claim))))"

text \<open>A failure that blocks the job, and one that gives it back in a minute.\<close>

definition fail_blocked :: "reconciliation_claim \<Rightarrow> uuid \<Rightarrow> time \<Rightarrow> billing_failure \<Rightarrow> string \<Rightarrow> reconciliation_result dbtx" where
  "fail_blocked claim eventId at code jobCode =
     conclude claim eventId at EVENT_FAILED None None (Some code) BLOCKED (Some jobCode) None"

definition fail_retry :: "reconciliation_claim \<Rightarrow> uuid \<Rightarrow> time \<Rightarrow> billing_failure \<Rightarrow> reconciliation_result dbtx" where
  "fail_retry claim eventId at code =
     conclude claim eventId at EVENT_FAILED None None (Some code) JOB_READY
       (Some (billing_failure_text code)) (Some (at + 60000))"

definition settle_event ::
  "reconciliation_claim \<Rightarrow> uuid \<Rightarrow> time \<Rightarrow> billing_event_state \<Rightarrow> uuid option \<Rightarrow> uuid option
    \<Rightarrow> reconciliation_result dbtx" where
  "settle_event claim eventId at state subscriptionId transitionId =
     conclude claim eventId at state subscriptionId transitionId None SETTLED None None"

section \<open>Applying a status\<close>

definition coherent_claim :: "reconciliation_claim \<Rightarrow> int \<Rightarrow> checkout_intent_row \<Rightarrow> bool" where
  "coherent_claim claim amount c \<longleftrightarrow>
     ck_state c = READY \<and> ck_accountId c = cl_accountId claim \<and> ck_provider c = cl_provider claim
     \<and> ck_providerPaymentId c = Some (cl_providerPaymentId claim)
     \<and> ck_paymentId c = Some (cl_paymentId claim) \<and> ck_priceRevisionId c = cl_priceRevisionId claim
     \<and> amount = cl_amountMinor claim \<and> ck_currency c = cl_currency claim"

definition link_reconciled :: "time \<Rightarrow> time \<Rightarrow> uuid \<Rightarrow> payment_row \<Rightarrow> payment_row" where
  "link_reconciled statusAt at subscriptionId r =
     r\<lparr>pay_state := SUCCEEDED,
       pay_confirmedAt := (if pay_state r = SUCCEEDED then pay_confirmedAt r else Some statusAt),
       pay_subscriptionId := Some subscriptionId, pay_updatedAt := at\<rparr>"

definition payment_reconciled ::
  "reconciliation_claim \<Rightarrow> string \<Rightarrow> payment_state \<Rightarrow> payment_state \<Rightarrow> json \<Rightarrow> unit dbtx" where
  "payment_reconciled claim correlationId oldState newState subscription =
     audit_reconciliation ''PAYMENT_RECONCILED'' ''PAYMENT'' (cl_paymentId claim) correlationId
       [(''paymentId'', JStr (cl_paymentId claim)), (''provider'', JStr (cl_provider claim)),
        (''oldState'', JStr (payment_state_text oldState)),
        (''newState'', JStr (payment_state_text newState)), (''subscriptionId'', subscription),
        (''priceRevisionId'', JStr (cl_priceRevisionId claim))]"

text \<open>The account is free: open the subscription and link the payment.\<close>

definition activate_reconciled ::
  "(string \<Rightarrow> string) \<Rightarrow> (nat \<Rightarrow> time) \<Rightarrow> reconciliation_claim \<Rightarrow> found_status \<Rightarrow> string \<Rightarrow> uuid \<Rightarrow> string
    \<Rightarrow> payment_state \<Rightarrow> checkout_intent_row \<Rightarrow> reconciliation_result dbtx" where
  "activate_reconciled H clock claim status correlationId eventId identity oldState checkout =
     andThen (open_for_payment (cl_accountId claim) (ck_planRevisionId checkout) (cl_priceRevisionId claim)
       (st_statusAt status) (ck_billingIntervalUnit checkout) (ck_billingIntervalCount checkout)
       SRC_RECONCILIATION identity ''BILLING_RECONCILIATION_SUCCEEDED'' (clock 2) (cl_paymentId claim)
       (\<lambda>_. True) (link_reconciled (st_statusAt status) (clock 2))) (\<lambda>(subscription, transition).
     andThen (payment_reconciled claim correlationId oldState SUCCEEDED (JStr (sub_id subscription))) (\<lambda>_.
     andThen (audit_reconciliation ''SUBSCRIPTION_ACTIVATED'' ''SUBSCRIPTION'' (sub_id subscription)
       correlationId
       [(''subscriptionId'', JStr (sub_id subscription)), (''state'', JStr ''ACTIVE''),
        (''stateRevision'', JInt 1), (''transitionRevision'', JInt 1)]) (\<lambda>_.
     andThen (materializeDueCurrentSubscriptionLocked H (cl_accountId claim) (clock 3) correlationId)
       (\<lambda>activatedLifecycle.
       case activatedLifecycle of
         MAT_CORRUPTED _ \<Rightarrow> throw (Thrown ''SUBSCRIPTION_CORRUPTED'')
       | _ \<Rightarrow> settle_event claim eventId (clock 4) APPLIED (Some (sub_id subscription))
                (Some (tr_id transition))))))"

text \<open>The provider reports success.\<close>

definition reconcile_succeeded ::
  "(string \<Rightarrow> string) \<Rightarrow> (nat \<Rightarrow> time) \<Rightarrow> reconciliation_claim \<Rightarrow> found_status \<Rightarrow> string \<Rightarrow> uuid \<Rightarrow> string
    \<Rightarrow> payment_row \<Rightarrow> reconciliation_result dbtx" where
  "reconcile_succeeded H clock claim status correlationId eventId identity payment =
     andThen (gets (\<lambda>s. findCheckout s (cl_paymentId claim))) (\<lambda>found.
       case found of
         None \<Rightarrow> fail_blocked claim eventId (clock 0) CHECKOUT_NOT_FOUND ''CHECKOUT_NOT_FOUND''
       | Some checkout \<Rightarrow>
           andThen (money (ck_amountMinor checkout)) (\<lambda>amount.
             if \<not> coherent_claim claim amount checkout then
               fail_blocked claim eventId (clock 0) EVENT_CHECKOUT_CORRUPTED ''CHECKOUT_CORRUPTED''
             else
               (case pay_subscriptionId payment of
                  Some i \<Rightarrow>
                    andThen (gets (\<lambda>s. subscription_of s i)) (\<lambda>linked.
                      if (case linked of None \<Rightarrow> True | Some r \<Rightarrow> sub_accountId r \<noteq> cl_accountId claim) then
                        fail_retry claim eventId (clock 0) PAYMENT_SUBSCRIPTION_CORRUPTED
                      else settle_event claim eventId (clock 0) IGNORED (Some i) None)
                | None \<Rightarrow>
                    andThen (materializeDueCurrentSubscriptionLocked H (cl_accountId claim) (clock 1)
                      correlationId) (\<lambda>current.
                      case current of
                        MAT_CORRUPTED _ \<Rightarrow> fail_retry claim eventId (clock 2) PAYMENT_SUBSCRIPTION_CORRUPTED
                      | MAT_CURRENT _ _ \<Rightarrow> fail_retry claim eventId (clock 2) CURRENT_SUBSCRIPTION_CONFLICT
                      | MAT_NONE \<Rightarrow>
                          activate_reconciled H clock claim status correlationId eventId identity
                            (pay_state payment) checkout))))"

text \<open>The payment is locked; its state decides with the reported one.\<close>

definition reconcile_payment ::
  "(string \<Rightarrow> string) \<Rightarrow> (nat \<Rightarrow> time) \<Rightarrow> reconciliation_claim \<Rightarrow> found_status \<Rightarrow> string \<Rightarrow> uuid \<Rightarrow> string
    \<Rightarrow> payment_row \<Rightarrow> reconciliation_result dbtx" where
  "reconcile_payment H clock claim status correlationId eventId identity payment =
     (let currentState = pay_state payment; reported = status_payment_state (st_state status) in
      if currentState = REFUNDED \<or> currentState = CHARGEBACK then
        fail_blocked claim eventId (clock 0) PAYMENT_STATE_CONFLICT ''UNSUPPORTED_PAYMENT_STATE''
      else if currentState = SUCCEEDED \<and> st_state status \<noteq> STATUS_SUCCEEDED then
        fail_blocked claim eventId (clock 0) PAYMENT_STATE_CONFLICT ''PAYMENT_STATE_CONFLICT''
      else if currentState = reported \<and> st_state status \<noteq> STATUS_SUCCEEDED then
        settle_event claim eventId (clock 0) IGNORED None None
      else if st_state status \<noteq> STATUS_SUCCEEDED then
        andThen (update_payment (cl_paymentId claim) (\<lambda>_. True)
          (\<lambda>r. r\<lparr>pay_state := reported, pay_updatedAt := clock 0\<rparr>)) (\<lambda>_.
        andThen (payment_reconciled claim correlationId currentState reported JNull) (\<lambda>_.
        settle_event claim eventId (clock 0) APPLIED None None))
      else reconcile_succeeded H clock claim status correlationId eventId identity payment)"

text \<open>The claimed event of the status: terms, time, account and payment.\<close>

definition reconcile_event ::
  "(string \<Rightarrow> string) \<Rightarrow> (nat \<Rightarrow> time) \<Rightarrow> reconciliation_claim \<Rightarrow> found_status \<Rightarrow> time \<Rightarrow> string \<Rightarrow> uuid
    \<Rightarrow> string \<Rightarrow> reconciliation_result dbtx" where
  "reconcile_event H clock claim status processedAt correlationId eventId identity =
     (if st_amountMinor status \<noteq> cl_amountMinor claim \<or> st_currency status \<noteq> cl_currency claim then
        fail_blocked claim eventId processedAt PAYMENT_TERMS_MISMATCH ''PAYMENT_TERMS_MISMATCH''
      else if st_statusAt status < cl_createdAt claim \<or> processedAt < st_statusAt status then
        fail_blocked claim eventId processedAt EVENT_TIME_INVALID ''EVENT_TIME_INVALID''
      else
        andThen (lockAccount (cl_accountId claim)) (\<lambda>locked.
          if \<not> locked then throw (Thrown ''ACCOUNT_NOT_FOUND'')
          else
            andThen (gets (\<lambda>s. payment_of s (cl_paymentId claim))) (\<lambda>found.
              case found of
                None \<Rightarrow> throw (Thrown ''PAYMENT_NOT_FOUND'')
              | Some payment \<Rightarrow>
                  reconcile_payment H clock claim status correlationId eventId identity payment)))"

definition reconcile_found ::
  "(string \<Rightarrow> string) \<Rightarrow> (nat \<Rightarrow> time) \<Rightarrow> reconciliation_claim \<Rightarrow> found_status \<Rightarrow> time \<Rightarrow> string
    \<Rightarrow> reconciliation_result dbtx" where
  "reconcile_found H clock claim status processedAt correlationId =
     (let payload = reconciliationPayloadSha256 H claim status;
          identity = reconciliationEventIdentity H (cl_paymentId claim) (cl_attemptCount claim)
            (st_state status) (st_statusAt status) payload in
      andThen (insertEvent (cl_provider claim) identity (status_event_type (st_state status)) payload
        processedAt) (\<lambda>event.
        if ev_processingState event \<noteq> VERIFIED then
          andThen (finishJob (cl_paymentId claim) (cl_leaseToken claim) SETTLED None None processedAt) (\<lambda>_.
          ret (terminalResult event (cl_paymentId claim)))
        else reconcile_event H clock claim status processedAt correlationId (ev_id event) identity))"

definition reschedule_pending :: "(nat \<Rightarrow> time) \<Rightarrow> reconciliation_claim \<Rightarrow> reconciliation_result dbtx" where
  "reschedule_pending clock claim =
     andThen (finishJob (cl_paymentId claim) (cl_leaseToken claim) JOB_READY (Some ''PROVIDER_PENDING'')
       (Some (clock 0 + 60000)) (clock 0)) (\<lambda>ok.
     ret (if ok then RESCHEDULED PROVIDER_PENDING else STALE_LEASE (cl_paymentId claim)))"

definition apply_status_transaction ::
  "(string \<Rightarrow> string) \<Rightarrow> (nat \<Rightarrow> time) \<Rightarrow> reconciliation_claim \<Rightarrow> found_status \<Rightarrow> time \<Rightarrow> string
    \<Rightarrow> reconciliation_result dbtx" where
  "apply_status_transaction H clock claim status processedAt correlationId =
     andThen (gets (\<lambda>s. job_of s (cl_paymentId claim))) (\<lambda>job.
       if (case job of None \<Rightarrow> True | Some j \<Rightarrow> \<not> leased_under (cl_leaseToken claim) j) then
         ret (STALE_LEASE (cl_paymentId claim))
       else if st_state status = STATUS_PENDING then reschedule_pending clock claim
       else reconcile_found H clock claim status processedAt correlationId)"

definition applyStatus ::
  "(string \<Rightarrow> string) \<Rightarrow> (nat \<Rightarrow> time) \<Rightarrow> reconciliation_claim \<Rightarrow> found_status \<Rightarrow> time \<Rightarrow> string
    \<Rightarrow> db \<Rightarrow> (failure + reconciliation_result) \<times> db" where
  "applyStatus H clock claim status processedAt correlationId s =
     (if found_status_schema status
      then transaction (apply_status_transaction H clock claim status processedAt correlationId) s
      else (Inl (Thrown ''ZodError''), s))"

section \<open>Claiming, rescheduling and blocking\<close>

definition job_due :: "time \<Rightarrow> reconciliation_job_row \<Rightarrow> bool" where
  "job_due now j \<longleftrightarrow>
     job_state j = JOB_READY \<and> (case job_nextAttemptAt j of None \<Rightarrow> False | Some t \<Rightarrow> t \<le> now)
   \<or> job_state j = LEASED \<and> (case job_leaseUntil j of None \<Rightarrow> False | Some t \<Rightarrow> t \<le> now)"

text \<open>\<open>ORDER BY next_attempt_at NULLS FIRST, created_at, payment_id\<close>\<close>

definition job_order :: "reconciliation_job_row \<Rightarrow> (int \<times> time) \<times> time \<times> uuid" where
  "job_order j =
     ((case job_nextAttemptAt j of None \<Rightarrow> (0, 0) | Some t \<Rightarrow> (1, t)), job_createdAt j, job_paymentId j)"

text \<open>The due jobs joined with their payments; rows that another transaction has locked are
  skipped (\<open>FOR UPDATE OF j SKIP LOCKED\<close>).\<close>

definition due_jobs :: "(uuid \<Rightarrow> bool) \<Rightarrow> db \<Rightarrow> time \<Rightarrow> nat \<Rightarrow> (reconciliation_job_row \<times> payment_row) list" where
  "due_jobs locked s now batchSize =
     take batchSize
       (concat (map (\<lambda>j. case payment_of s (job_paymentId j) of None \<Rightarrow> [] | Some p \<Rightarrow> [(j, p)])
          (sort_key job_order (filter (\<lambda>j. job_due now j \<and> \<not> locked (job_paymentId j)) (jobs s)))))"

definition leasable :: "time \<Rightarrow> reconciliation_job_row \<Rightarrow> bool" where
  "leasable now j \<longleftrightarrow>
     job_state j = JOB_READY
   \<or> job_state j = LEASED \<and> (case job_leaseUntil j of None \<Rightarrow> False | Some t \<Rightarrow> t \<le> now)"

definition leased_job :: "uuid \<Rightarrow> time \<Rightarrow> time \<Rightarrow> reconciliation_job_row \<Rightarrow> reconciliation_job_row" where
  "leased_job token leaseUntil now j =
     j\<lparr>job_state := LEASED, job_nextAttemptAt := None, job_leaseToken := Some token,
       job_leaseUntil := Some leaseUntil, job_attemptCount := job_attemptCount j + 1,
       job_updatedAt := max now (job_createdAt j)\<rparr>"

definition claim_of :: "payment_row \<Rightarrow> int \<Rightarrow> int \<Rightarrow> uuid \<Rightarrow> reconciliation_claim" where
  "claim_of p amount attemptCount token =
     \<lparr>cl_paymentId = pay_id p, cl_provider = pay_provider p,
      cl_providerPaymentId = pay_providerPaymentId p, cl_accountId = pay_accountId p,
      cl_priceRevisionId = pay_priceRevisionId p, cl_amountMinor = amount, cl_currency = pay_currency p,
      cl_paymentState = pay_state p, cl_createdAt = pay_createdAt p, cl_attemptCount = attemptCount,
      cl_leaseToken = token\<rparr>"

text \<open>The loop over the selected rows; \<open>token n\<close> is the n-th \<open>randomUUID()\<close> of the call.\<close>

fun claim_rows ::
  "(nat \<Rightarrow> uuid) \<Rightarrow> time \<Rightarrow> int \<Rightarrow> nat \<Rightarrow> (reconciliation_job_row \<times> payment_row) list
    \<Rightarrow> reconciliation_claim list dbtx" where
  "claim_rows token now leaseMs n [] = ret []"
| "claim_rows token now leaseMs n ((j, p) # rows) =
     andThen (date_column (now + leaseMs)) (\<lambda>leaseUntil.
     andThen (update_job (job_paymentId j) (leasable now) (leased_job (token n) leaseUntil now)) (\<lambda>updated.
     case updated of
       None \<Rightarrow> claim_rows token now leaseMs (Suc n) rows
     | Some row \<Rightarrow>
         andThen (money (pay_amountMinor p)) (\<lambda>amount.
         andThen (claim_rows token now leaseMs (Suc n) rows) (\<lambda>claims.
         ret (claim_of p amount (job_attemptCount row) (token n) # claims)))))"

definition claimDue ::
  "(nat \<Rightarrow> uuid) \<Rightarrow> (uuid \<Rightarrow> bool) \<Rightarrow> time \<Rightarrow> int \<Rightarrow> nat \<Rightarrow> db \<Rightarrow> (failure + reconciliation_claim list) \<times> db" where
  "claimDue token locked now leaseMs batchSize s =
     (if leaseMs \<le> 0 \<or> max_safe_integer < leaseMs then (Inl (Thrown ''INVALID_LEASE''), s)
      else transaction (andThen (gets (\<lambda>s. due_jobs locked s now batchSize))
             (claim_rows token now leaseMs 0)) s)"

definition reschedule ::
  "time \<Rightarrow> uuid \<Rightarrow> uuid \<Rightarrow> time \<Rightarrow> retry_code \<Rightarrow> db \<Rightarrow> (failure + reconciliation_result) \<times> db" where
  "reschedule now paymentId leaseToken nextAttemptAt code =
     transaction (andThen (finishJob paymentId leaseToken JOB_READY (Some (retry_code_text code))
       (Some nextAttemptAt) now) (\<lambda>ok. ret (if ok then RESCHEDULED code else STALE_LEASE paymentId)))"

definition blockUnsupported ::
  "reconciliation_claim \<Rightarrow> time \<Rightarrow> string \<Rightarrow> db \<Rightarrow> (failure + reconciliation_result) \<times> db" where
  "blockUnsupported claim processedAt code =
     transaction (andThen (finishJob (cl_paymentId claim) (cl_leaseToken claim) BLOCKED (Some code) None
       processedAt) (\<lambda>ok.
       ret (if ok then RECONCILED REC_BLOCKED (cl_paymentId claim) (Some code) None
            else STALE_LEASE (cl_paymentId claim))))"

section \<open>The service\<close>

text \<open>
  \<open>processClaim\<close> of \<open>createBillingReconciliationService\<close>: \<open>fetch\<close> is the provider's status port,
  None when it throws or answers something malformed (\<open>BillingPaymentStatusResultSchema\<close>);
  \<open>now n\<close> is the n-th reading of the clock of the service.
\<close>

definition observed_status :: "(string \<Rightarrow> payment_status option) \<Rightarrow> string \<Rightarrow> payment_status" where
  "observed_status fetch providerPaymentId =
     (case fetch providerPaymentId of
        None \<Rightarrow> STATUS_UNAVAILABLE
      | Some (STATUS_FOUND f) \<Rightarrow> if found_status_schema f then STATUS_FOUND f else STATUS_UNAVAILABLE
      | Some status \<Rightarrow> status)"

definition retry_later ::
  "(uuid \<Rightarrow> uuid \<Rightarrow> time \<Rightarrow> retry_code \<Rightarrow> 's \<Rightarrow> (failure + reconciliation_result) \<times> 's)
    \<Rightarrow> reconciliation_claim \<Rightarrow> time \<Rightarrow> int \<Rightarrow> retry_code \<Rightarrow> 's \<Rightarrow> (failure + reconciliation_result) \<times> 's" where
  "retry_later resched claim observedAt retryDelayMs code s =
     (case reconciliationRetryAt observedAt retryDelayMs of
        Inl e \<Rightarrow> (Inl (Thrown e), s)
      | Inr at \<Rightarrow> resched (cl_paymentId claim) (cl_leaseToken claim) at code s)"

definition processClaim ::
  "string \<Rightarrow> (string \<Rightarrow> payment_status option) \<Rightarrow> (nat \<Rightarrow> time) \<Rightarrow> int
    \<Rightarrow> (reconciliation_claim \<Rightarrow> time \<Rightarrow> string \<Rightarrow> 's \<Rightarrow> (failure + reconciliation_result) \<times> 's)
    \<Rightarrow> (uuid \<Rightarrow> uuid \<Rightarrow> time \<Rightarrow> retry_code \<Rightarrow> 's \<Rightarrow> (failure + reconciliation_result) \<times> 's)
    \<Rightarrow> (reconciliation_claim \<Rightarrow> found_status \<Rightarrow> time \<Rightarrow> string \<Rightarrow> 's \<Rightarrow> (failure + reconciliation_result) \<times> 's)
    \<Rightarrow> reconciliation_claim \<Rightarrow> string \<Rightarrow> 's \<Rightarrow> (failure + reconciliation_result) \<times> 's" where
  "processClaim providerKey fetch now retryDelayMs block resched app claim correlationId s =
     (if cl_provider claim \<noteq> providerKey then block claim (now 0) ''PROVIDER_MISMATCH'' s
      else case observed_status fetch (cl_providerPaymentId claim) of
             STATUS_UNAVAILABLE \<Rightarrow> retry_later resched claim (now 0) retryDelayMs RETRY_PROVIDER_UNAVAILABLE s
           | STATUS_NOT_FOUND \<Rightarrow> retry_later resched claim (now 0) retryDelayMs PROVIDER_NOT_FOUND s
           | STATUS_FOUND status \<Rightarrow>
               if st_state status = STATUS_PENDING
               then retry_later resched claim (now 0) retryDelayMs PROVIDER_PENDING s
               else app claim status (now 0) correlationId s)"

section \<open>Every run is a path of the protocol\<close>

lemma protocol_date_column [tx_rules]: "protocol (date_column n) s"
  by (auto simp: date_column_def intro: tx_rules split: option.split)

lemma protocol_optional_date [tx_rules]: "protocol (optional_date x) s"
  unfolding optional_date_def by (intro tx_rules)

lemma protocol_finishJob [tx_rules]: "protocol (finishJob p t st c n now) s"
  unfolding finishJob_def by (intro tx_rules)

lemma protocol_insertEvent [tx_rules]: "protocol (insertEvent p i t h at) s"
  unfolding insertEvent_def by (intro tx_rules)

lemma protocol_terminalize_event [tx_rules]: "protocol (terminalize_event i st at p sub tr c) s"
  unfolding terminalize_event_def by (intro tx_rules)

lemma protocol_audit_reconciliation [tx_rules]: "protocol (audit_reconciliation a t i c m) s"
  by (simp add: audit_reconciliation_def protocol_audit)

lemma protocol_payment_reconciled [tx_rules]: "protocol (payment_reconciled cl c a b j) s"
  by (simp add: payment_reconciled_def protocol_audit_reconciliation)

lemma protocol_conclude [tx_rules]: "protocol (conclude cl i at st sub tr c js jc n) s"
  unfolding conclude_def by (intro tx_rules)

lemma protocol_conclusions [tx_rules]:
  "protocol (fail_blocked cl i at c j) s" "protocol (fail_retry cl i at c) s"
  "protocol (settle_event cl i at st sub tr) s"
  by (simp_all add: fail_blocked_def fail_retry_def settle_event_def protocol_conclude)

lemma protocol_activate_reconciled:
  assumes q: "payment_of s (cl_paymentId cl) = Some q" "pay_subscriptionId q = None"
      "payment_progress (pay_state q) SUCCEEDED"
    and same: "cl_accountId cl = pay_accountId q" "cl_priceRevisionId cl = pay_priceRevisionId q"
  shows "protocol (activate_reconciled H clock cl stt c i ident old ck) s"
proof -
  have "protocol (open_for_payment (cl_accountId cl) (ck_planRevisionId ck) (cl_priceRevisionId cl)
       (st_statusAt stt) (ck_billingIntervalUnit ck) (ck_billingIntervalCount ck)
       SRC_RECONCILIATION ident ''BILLING_RECONCILIATION_SUCCEEDED'' (clock 2) (cl_paymentId cl)
       (\<lambda>_. True) (link_reconciled (st_statusAt stt) (clock 2))) s"
    by (rule protocol_open_for_payment [OF q(1)])
      (use q same in \<open>simp_all add: link_reconciled_def\<close>)
  then show ?thesis
    unfolding activate_reconciled_def by (intro tx_rules protocol_materialization)
qed

text \<open>A claim whose checkout is coherent is a claim about the payment of that checkout.\<close>

lemma coherent_claim_payment:
  assumes inv: "commercial_inv s" and q: "payment_of s (cl_paymentId cl) = Some q"
    and ck: "findCheckout s (cl_paymentId cl) = Some ck" "coherent_claim cl amount ck"
  shows "cl_accountId cl = pay_accountId q" "cl_priceRevisionId cl = pay_priceRevisionId q"
proof -
  have "checkout_matches_payment ck q"
    using payment_ordered [OF inv q] ck(1) by (metis option.inject)
  then show "cl_accountId cl = pay_accountId q" "cl_priceRevisionId cl = pay_priceRevisionId q"
    using ck(2) by (simp_all add: coherent_claim_def checkout_matches_payment_def)
qed

lemma protocol_reconcile_succeeded:
  assumes q: "payment_of s (cl_paymentId cl) = Some q" "payment_progress (pay_state q) SUCCEEDED"
  shows "protocol (reconcile_succeeded H clock cl stt c i ident q) s"
proof -
  have act: "protocol (activate_reconciled H clock cl stt c i ident old ck) s1"
    if inv: "commercial_inv s" and ck: "findCheckout s (cl_paymentId cl) = Some ck" "coherent_claim cl n ck"
      and free: "pay_subscriptionId q = None"
      and mat: "materializeDueCurrentSubscriptionLocked H (cl_accountId cl) at c s = Inr (m, s1)"
    for s1 old ck n at m
  proof (rule protocol_activate_reconciled)
    show "payment_of s1 (cl_paymentId cl) = Some q"
      using payment_of_outside [OF materialize_frame [OF mat]] q(1) by simp
  qed (use coherent_claim_payment [OF inv q(1) ck] free q(2) in simp_all)
  show ?thesis
    unfolding reconcile_succeeded_def
    by (intro tx_rules protocol_materialization) (auto intro: act)
qed

lemma protocol_reconcile_payment:
  assumes q: "payment_of s (cl_paymentId cl) = Some q" and st: "st_state stt \<noteq> STATUS_PENDING"
  shows "protocol (reconcile_payment H clock cl stt c i ident q) s"
proof -
  have upd: "protocol (update_payment (cl_paymentId cl) (\<lambda>_. True)
      (\<lambda>r. r\<lparr>pay_state := status_payment_state (st_state stt), pay_updatedAt := clock 0\<rparr>)) s"
    if "pay_state q \<noteq> REFUNDED" "pay_state q \<noteq> CHARGEBACK" "pay_state q \<noteq> SUCCEEDED" "st_state stt \<noteq> STATUS_SUCCEEDED"
    by (rule protocol_update_payment)
      (use that q st in \<open>cases "st_state stt"; cases "pay_state q"; simp add: payment_progress_def\<close>)
  have succ: "protocol (reconcile_succeeded H clock cl stt c i ident q) s"
    if "pay_state q \<noteq> REFUNDED" "pay_state q \<noteq> CHARGEBACK"
    by (rule protocol_reconcile_succeeded [OF q])
      (use that in \<open>cases "pay_state q"; simp add: payment_progress_def\<close>)
  show ?thesis
    unfolding reconcile_payment_def Let_def
    by (intro tx_rules) (use upd succ in auto)
qed

lemma protocol_reconcile_event:
  assumes "st_state stt \<noteq> STATUS_PENDING"
  shows "protocol (reconcile_event H clock cl stt at c i ident) s"
  unfolding reconcile_event_def
  by (intro tx_rules) (use assms in \<open>auto intro: protocol_reconcile_payment\<close>)

lemma protocol_apply_status [tx_rules]: "protocol (apply_status_transaction H clock cl stt at c) s"
  unfolding apply_status_transaction_def reschedule_pending_def reconcile_found_def Let_def
  by (intro tx_rules protocol_reconcile_event)

lemma protocol_claim_rows [tx_rules]: "protocol (claim_rows tok now ms n rows) s"
  by (induction rows arbitrary: n s) (auto intro!: tx_rules split: option.split prod.split)

lemma applyStatus_path:
  assumes "commercial_inv s"
  shows "step\<^sup>*\<^sup>* s (snd (applyStatus H clock cl stt at c s)) \<and> commercial_inv (snd (applyStatus H clock cl stt at c s))"
  using moves_at_transaction [OF protocol_apply_status assms, of H clock cl stt at c] assms
  by (simp add: applyStatus_def)

lemma claimDue_path:
  assumes "commercial_inv s"
  shows "step\<^sup>*\<^sup>* s (snd (claimDue tok locked now ms n s)) \<and> commercial_inv (snd (claimDue tok locked now ms n s))"
proof -
  have "protocol (andThen (gets (\<lambda>s. due_jobs locked s now n)) (claim_rows tok now ms 0)) s"
    by (intro tx_rules)
  from moves_at_transaction [OF this assms] assms show ?thesis
    by (simp add: claimDue_def)
qed

lemma reschedule_path:
  assumes "commercial_inv s"
  shows "step\<^sup>*\<^sup>* s (snd (reschedule now p t at code s)) \<and> commercial_inv (snd (reschedule now p t at code s))"
  unfolding reschedule_def by (intro moves_at_transaction tx_rules assms)

lemma blockUnsupported_path:
  assumes "commercial_inv s"
  shows "step\<^sup>*\<^sup>* s (snd (blockUnsupported cl at code s)) \<and> commercial_inv (snd (blockUnsupported cl at code s))"
  unfolding blockUnsupported_def by (intro moves_at_transaction tx_rules assms)

section \<open>Leases\<close>

lemma optional_date_Inr:
  "optional_date x s = Inr (y, s') \<Longrightarrow> s' = s \<and> (x = None \<longleftrightarrow> y = None)"
  by (auto simp: optional_date_def date_column_def andThen_Inr_iff split: option.splits)

lemma finishJob_effect:
  assumes "finishJob p t st c n now s = Inr (ok, s')"
  obtains nx where
    "job_of s' p = map_option (\<lambda>j. if leased_under t j then finished_job st c nx now j else j) (job_of s p)"
    "payments s' = payments s" "billingEvents s' = billingEvents s"
    "ok \<longleftrightarrow> (\<exists>j. job_of s p = Some j \<and> leased_under t j)" "\<not> ok \<Longrightarrow> s' = s"
proof -
  obtain nx u where upd: "update_job p (leased_under t) (finished_job st c nx now) s = Inr (u, s')"
    and ok: "ok = (u \<noteq> None)"
    using assms by (auto simp: finishJob_def andThen_Inr_iff dest!: optional_date_Inr)
  have key: "job_paymentId (finished_job st c nx now x) = job_paymentId x" for x
    by (simp add: finished_job_def)
  have id: "job_of s p = Some j \<Longrightarrow> job_paymentId j = p" for j
    by (auto simp: job_of_def dest: find_Some_mem)
  show thesis
    by (rule that [of nx])
      (use upd ok id in \<open>auto simp: update_job_Inr job_of_def find_update_where [where k = job_paymentId, OF key]
        split: option.splits if_splits\<close>)
qed

lemma stale_finishJob:
  assumes "\<not> (\<exists>j. job_of s p = Some j \<and> leased_under t j)"
  shows "update_job p (leased_under t) f s = Inr (None, s)"
  using assms by (auto simp: update_job_Inr split: option.splits)

text \<open>What the loop of a claim leaves: the jobs it did not select, and the ones it did.\<close>

definition held :: "time \<Rightarrow> db \<Rightarrow> reconciliation_claim \<Rightarrow> bool" where
  "held leaseUntil s c \<longleftrightarrow>
     (\<exists>j. job_of s (cl_paymentId c) = Some j \<and> leased_under (cl_leaseToken c) j
        \<and> job_leaseUntil j = Some leaseUntil \<and> job_attemptCount j = cl_attemptCount c)"

lemma job_after_update:
  assumes "update_job p c f s = Inr (u, s')" and "\<And>x. job_paymentId (f x) = job_paymentId x"
  shows "job_of s' q = (if q = p \<and> u \<noteq> None then u else job_of s q)"
proof (cases "job_of s p")
  case None
  then show ?thesis using assms(1) by (simp add: update_job_Inr)
next
  case (Some j)
  then have "job_paymentId j = p"
    by (auto simp: job_of_def dest: find_Some_mem)
  then show ?thesis
    using assms Some
    by (auto simp: update_job_Inr job_of_def find_update_where [where k = job_paymentId, OF assms(2)]
        map_option.identity [unfolded id_def] split: if_splits)
qed

lemma date_column_Inr: "date_column n s = Inr (t, s') \<Longrightarrow> t = n \<and> s' = s"
  by (auto simp: date_column_def time_clip_def split: option.splits if_splits)

lemma claim_rows_effect:
  assumes "claim_rows tok now ms n rows s = Inr (cs, s')"
    and "distinct (map (\<lambda>r. job_paymentId (fst r)) rows)"
    and "\<forall>(j, p) \<in> set rows. payment_of s (job_paymentId j) = Some p"
  shows "(\<forall>c \<in> set cs. held (now + ms) s' c \<and> cl_paymentId c \<in> (\<lambda>r. job_paymentId (fst r)) ` set rows
      \<and> (\<exists>j. job_of s (cl_paymentId c) = Some j \<and> leasable now j))
    \<and> (\<forall>q. q \<notin> (\<lambda>r. job_paymentId (fst r)) ` set rows \<longrightarrow> job_of s' q = job_of s q)"
  using assms
proof (induction rows arbitrary: n s cs)
  case Nil
  then show ?case by simp
next
  case (Cons row rows)
  obtain j p where row: "row = (j, p)" by (cases row)
  have pid: "pay_id p = job_paymentId j"
    using Cons.prems(3) payment_of_id by (auto simp: row)
  obtain lu u s1 where lu: "lu = now + ms"
    and upd: "update_job (job_paymentId j) (leasable now) (leased_job (tok n) lu now) s = Inr (u, s1)"
    and rest: "(case u of
       None \<Rightarrow> claim_rows tok now ms (Suc n) rows
     | Some row \<Rightarrow>
         andThen (money (pay_amountMinor p)) (\<lambda>amount.
         andThen (claim_rows tok now ms (Suc n) rows) (\<lambda>claims.
         ret (claim_of p amount (job_attemptCount row) (tok n) # claims)))) s1 = Inr (cs, s')"
    using Cons.prems(1) by (auto simp: row andThen_Inr_iff dest!: date_column_Inr)
  obtain cs' where cs': "claim_rows tok now ms (Suc n) rows s1 = Inr (cs', s')"
    and cs: "cs = (case u of None \<Rightarrow> cs'
        | Some r \<Rightarrow> claim_of p (pay_amountMinor p) (job_attemptCount r) (tok n) # cs')"
    using rest by (cases u) (auto simp: andThen_Inr_iff)
  have s1: "job_of s1 q = (if q = job_paymentId j \<and> u \<noteq> None then u else job_of s q)" for q
    by (rule job_after_update [OF upd]) (simp add: leased_job_def)
  have "payments s1 = payments s"
    using upd by (auto simp: update_job_Inr split: option.splits if_splits)
  then have pays: "\<forall>(j, p) \<in> set rows. payment_of s1 (job_paymentId j) = Some p"
    using Cons.prems(3) by (auto simp: payment_of_def)
  have dist: "distinct (map (\<lambda>r. job_paymentId (fst r)) rows)" "job_paymentId j \<notin> (\<lambda>r. job_paymentId (fst r)) ` set rows"
    using Cons.prems(2) by (auto simp: row)
  note IH = Cons.IH [OF cs' dist(1) pays]
  have frame: "job_of s' q = job_of s q" if "q \<notin> (\<lambda>r. job_paymentId (fst r)) ` set (row # rows)" for q
    using IH s1 [of q] that by (auto simp: row)
  have new: "held (now + ms) s' (claim_of p (pay_amountMinor p) (job_attemptCount r) (tok n))
      \<and> (\<exists>k. job_of s (job_paymentId j) = Some k \<and> leasable now k)" if u: "u = Some r" for r
  proof -
    obtain k where k: "job_of s (job_paymentId j) = Some k" "leasable now k" "r = leased_job (tok n) lu now k"
      using upd unfolding u update_job_Inr by (auto split: option.splits if_splits)
    have "job_of s' (job_paymentId j) = Some r"
      using IH dist(2) s1 [of "job_paymentId j"] u by auto
    then show ?thesis
      using k lu by (simp add: held_def claim_of_def pid leased_job_def leased_under_def)
  qed
  have old: "held (now + ms) s' c \<and> cl_paymentId c \<in> (\<lambda>r. job_paymentId (fst r)) ` set (row # rows)
      \<and> (\<exists>j. job_of s (cl_paymentId c) = Some j \<and> leasable now j)" if "c \<in> set cs'" for c
  proof -
    have "cl_paymentId c \<noteq> job_paymentId j"
      using IH that dist(2) by metis
    then show ?thesis
      using IH that s1 [of "cl_paymentId c"] by auto
  qed
  show ?case
  proof (cases u)
    case None
    then show ?thesis using old frame cs by simp
  next
    case (Some r)
    have "cl_paymentId (claim_of p a b d) = job_paymentId j" for a b d
      by (simp add: claim_of_def pid)
    then show ?thesis using old frame cs new [OF Some] Some by (simp add: row)
  qed
qed

lemma due_jobs_rows:
  assumes "keys_distinct s"
  shows "distinct (map (\<lambda>r. job_paymentId (fst r)) (due_jobs locked s now n))"
    and "\<forall>(j, p) \<in> set (due_jobs locked s now n). payment_of s (job_paymentId j) = Some p"
proof -
  let ?f = "\<lambda>j. case payment_of s (job_paymentId j) of None \<Rightarrow> [] | Some p \<Rightarrow> [(j, p)]"
  have eq: "map (\<lambda>r. job_paymentId (fst r)) (concat (map ?f js))
      = map job_paymentId (filter (\<lambda>j. payment_of s (job_paymentId j) \<noteq> None) js)" for js
    by (induction js) (auto split: option.split)
  have d: "distinct (map job_paymentId (sort_key job_order
      (filter (\<lambda>j. job_due now j \<and> \<not> locked (job_paymentId j)) (jobs s))))"
    using keys_distinctD(6) [OF assms] by (auto simp: distinct_map inj_on_def)
  have "distinct (map (\<lambda>r. job_paymentId (fst r)) (concat (map ?f (sort_key job_order
      (filter (\<lambda>j. job_due now j \<and> \<not> locked (job_paymentId j)) (jobs s))))))"
    unfolding eq using d by (rule distinct_map_filter)
  then show "distinct (map (\<lambda>r. job_paymentId (fst r)) (due_jobs locked s now n))"
    unfolding due_jobs_def by (simp only: take_map [symmetric] distinct_take)
  show "\<forall>(j, p) \<in> set (due_jobs locked s now n). payment_of s (job_paymentId j) = Some p"
    by (auto simp: due_jobs_def dest!: in_set_takeD split: option.splits)
qed

lemma claimDue_effect:
  assumes "keys_distinct s" and "claimDue tok locked now ms n s = (Inr cs, s')"
  shows "\<forall>c \<in> set cs. held (now + ms) s' c \<and> (\<exists>j. job_of s (cl_paymentId c) = Some j \<and> leasable now j)"
proof -
  have "claim_rows tok now ms 0 (due_jobs locked s now n) s = Inr (cs, s')"
    using assms(2) by (auto simp: claimDue_def transaction_def split: if_splits sum.splits prod.splits)
  from claim_rows_effect [OF this due_jobs_rows [OF assms(1)]] show ?thesis by blast
qed

end
