(* ===== verification/Reconciliation_Outcomes.thy ===== *)
theory Reconciliation_Outcomes
  imports Reconciliation
begin

text \<open>
  What a reconciliation transaction leaves: a job is settled only when the payment has its
  commercial outcome, the recorded event has its result, a stale lease writes nothing; and the
  service on top of the repository.
\<close>

section \<open>When a job is settled\<close>

text \<open>A payment whose commercial outcome is decided: it has failed, was canceled, or has succeeded
  and its subscription is there.\<close>

definition payment_final :: "payment_row \<Rightarrow> bool" where
  "payment_final q \<longleftrightarrow>
     pay_state q = PAYMENT_FAILED \<or> pay_state q = PAYMENT_CANCELED
   \<or> pay_state q = SUCCEEDED \<and> pay_subscriptionId q \<noteq> None"

definition settled_is_final :: "uuid \<Rightarrow> db \<Rightarrow> bool" where
  "settled_is_final p s \<longleftrightarrow>
     (\<forall>j. job_of s p = Some j \<longrightarrow> job_state j = SETTLED \<longrightarrow>
        (\<exists>q. payment_of s p = Some q \<and> payment_final q))"

definition lease_held :: "reconciliation_claim \<Rightarrow> db \<Rightarrow> bool" where
  "lease_held cl s \<longleftrightarrow>
     (\<exists>j. job_of s (cl_paymentId cl) = Some j \<and> leased_under (cl_leaseToken cl) j)"

lemma terminalize_event_frame:
  assumes "terminalize_event i st at p sub tr c s = Inr (row, s')"
  shows "jobs s' = jobs s" "payments s' = payments s" "subscriptions s' = subscriptions s"
    "\<exists>r. event_of s i = Some r \<and> row = terminal_row st at (Some p) sub tr c r" "st \<noteq> VERIFIED"
    "billingEvents s' = update_where (\<lambda>x. ev_id x = i) (terminal_row st at (Some p) sub tr c) (billingEvents s)"
proof -
  let ?f = "terminal_row st at (Some p) sub tr c"
  have "\<exists>r. event_of s i = Some r \<and> event_update_guard s r (?f r) \<and> row = ?f r
      \<and> s' = s\<lparr>billingEvents := update_where (\<lambda>x. ev_id x = i) ?f (billingEvents s)\<rparr>"
    using assms by (auto simp: terminalize_event_def andThen_Inr_iff update_event_Inr split: option.splits)
  then obtain r where r: "event_of s i = Some r" "event_update_guard s r (?f r)" "row = ?f r"
    and s': "s' = s\<lparr>billingEvents := update_where (\<lambda>x. ev_id x = i) ?f (billingEvents s)\<rparr>"
    by blast
  show "jobs s' = jobs s" "payments s' = payments s" "subscriptions s' = subscriptions s"
    "\<exists>r. event_of s i = Some r \<and> row = ?f r" "billingEvents s' = update_where (\<lambda>x. ev_id x = i) ?f (billingEvents s)"
    using r(1,3) by (simp_all add: s')
  show "st \<noteq> VERIFIED"
    using r(2) unfolding event_update_guard_def terminal_row_fields by blast
qed

lemma conclude_run:
  assumes "conclude cl i at st sub tr c js jc nx s = Inr (x, s')"
  obtains row s1 ok where "terminalize_event i st at (cl_paymentId cl) sub tr c s = Inr (row, s1)"
    "finishJob (cl_paymentId cl) (cl_leaseToken cl) js jc nx at s1 = Inr (ok, s')"
    "x = terminalResult row (cl_paymentId cl)"
  using assms by (auto simp: conclude_def andThen_Inr_iff)

lemma conclude_effect:
  assumes "conclude cl i at st sub tr c js jc nx s = Inr (x, s')" and "lease_held cl s"
  obtains j r where "payments s' = payments s" "job_of s' (cl_paymentId cl) = Some j" "job_state j = js"
    "event_of s i = Some r"
    "x = terminalResult (terminal_row st at (Some (cl_paymentId cl)) sub tr c r) (cl_paymentId cl)"
proof -
  obtain row s1 ok where t: "terminalize_event i st at (cl_paymentId cl) sub tr c s = Inr (row, s1)"
    and f: "finishJob (cl_paymentId cl) (cl_leaseToken cl) js jc nx at s1 = Inr (ok, s')"
    and x: "x = terminalResult row (cl_paymentId cl)"
    by (rule conclude_run [OF assms(1)])
  note frame = terminalize_event_frame [OF t]
  have "job_of s1 (cl_paymentId cl) = job_of s (cl_paymentId cl)"
    using frame(1) by (simp add: job_of_def)
  then obtain k where k: "job_of s1 (cl_paymentId cl) = Some k" "leased_under (cl_leaseToken cl) k"
    using assms(2) by (auto simp: lease_held_def)
  obtain n where "job_of s' (cl_paymentId cl) = Some (finished_job js jc n at k)" "payments s' = payments s1"
    by (rule finishJob_effect [OF f]) (use k in auto)
  then show thesis
    using that frame(2,4) x by (fastforce simp: finished_job_def)
qed

lemma settled_is_final_conclude:
  assumes "lease_held cl s" and "js = SETTLED \<Longrightarrow> \<exists>q. payment_of s (cl_paymentId cl) = Some q \<and> payment_final q"
  shows "yields (conclude cl i at st sub tr c js jc nx) s (\<lambda>_. settled_is_final (cl_paymentId cl))"
proof (rule yieldsI)
  fix x s'
  assume "conclude cl i at st sub tr c js jc nx s = Inr (x, s')"
  then show "settled_is_final (cl_paymentId cl) s'"
    by (rule conclude_effect [OF _ assms(1)]) (use assms(2) in \<open>auto simp: settled_is_final_def payment_of_def\<close>)
qed

lemma settled_is_final_failures:
  assumes "lease_held cl s"
  shows "yields (fail_blocked cl i at c jc) s (\<lambda>_. settled_is_final (cl_paymentId cl))"
    and "yields (fail_retry cl i at c) s (\<lambda>_. settled_is_final (cl_paymentId cl))"
  unfolding fail_blocked_def fail_retry_def
  by (rule settled_is_final_conclude [OF assms]; simp)+

lemma settled_is_final_settle:
  assumes "lease_held cl s" and "payment_of s (cl_paymentId cl) = Some q" and "payment_final q"
  shows "yields (settle_event cl i at st sub tr) s (\<lambda>_. settled_is_final (cl_paymentId cl))"
  unfolding settle_event_def
  by (rule settled_is_final_conclude [OF assms(1)]) (use assms(2,3) in blast)

text \<open>The lease survives everything that happens before the job is finished.\<close>

lemma lease_frames:
  "update_payment p c f s = Inr (u, s') \<Longrightarrow> jobs s' = jobs s"
  "audit_reconciliation a t i co m s = Inr (v, s') \<Longrightarrow> jobs s' = jobs s \<and> payments s' = payments s"
  "payment_reconciled cl co st st' j s = Inr (v', s') \<Longrightarrow> jobs s' = jobs s \<and> payments s' = payments s"
  by (auto simp: update_payment_Inr audit_reconciliation_def payment_reconciled_def insert_audit_Inr
      split: option.splits if_splits)

lemma lease_frame_materialize:
  "materializeDueCurrentSubscriptionLocked H ac at co s = Inr (w, s') \<Longrightarrow> jobs s' = jobs s \<and> payments s' = payments s"
  by (auto simp: outside_subscriptions_def dest: materialize_frame)

lemma lease_frame_event:
  assumes "insertEvent p i t h at s = Inr (e, s')"
  shows "jobs s' = jobs s" "payments s' = payments s" "subscriptions s' = subscriptions s"
proof -
  obtain x where "insert_event_row (reconciled_row p i t h at (db_now s)) s = Inr (x, s')"
    using assms by (auto simp: insertEvent_def andThen_Inr_iff split: option.splits)
  then show "jobs s' = jobs s" "payments s' = payments s" "subscriptions s' = subscriptions s"
    by (auto simp: insert_event_row_Inr Let_def split: option.splits)
qed

lemma lease_held_same: "jobs s' = jobs s \<Longrightarrow> lease_held cl s' = lease_held cl s"
  by (simp add: lease_held_def job_of_def)

lemma payment_of_same: "payments s' = payments s \<Longrightarrow> payment_of s' p = payment_of s p"
  by (simp add: payment_of_def)

lemma activate_reconciled_final:
  assumes lease: "lease_held cl s" and q: "payment_of s (cl_paymentId cl) = Some q"
  shows "yields (activate_reconciled H clock cl stt c i ident old ck) s (\<lambda>_. settled_is_final (cl_paymentId cl))"
proof -
  have fin: "yields (settle_event cl i at st su t) s4 (\<lambda>_. settled_is_final (cl_paymentId cl))"
    if run: "open_for_payment a plan price start un n so ident re att (cl_paymentId cl) (\<lambda>_. True)
        (link_reconciled (st_statusAt stt) (clock 2)) s = Inr ((sub, tr), s1)"
      "payment_reconciled cl c o1 o2 js s1 = Inr (y, s2)" "audit_reconciliation ac ty ti c m s2 = Inr (z, s3)"
      "materializeDueCurrentSubscriptionLocked H aa ab c s3 = Inr (w, s4)"
    for at st su t s4 a plan price start un n so re att sub tr s1 o1 o2 js y s2 ac ty ti m z s3 aa ab w
  proof (rule settled_is_final_settle)
    have same: "jobs s4 = jobs s" "payments s4 = payments s1"
      using open_for_payment_frame(1) [OF run(1)] run lease_frames lease_frame_materialize by metis+
    show "lease_held cl s4"
      using lease lease_held_same [OF same(1)] by simp
    show "payment_of s4 (cl_paymentId cl) = Some (link_reconciled (st_statusAt stt) (clock 2) (sub_id sub) q)"
      unfolding payment_of_same [OF same(2)]
      by (rule open_for_payment_linked(1) [OF run(1) q]) (simp_all add: link_reconciled_def)
    show "payment_final (link_reconciled (st_statusAt stt) (clock 2) (sub_id sub) q)"
      by (simp add: payment_final_def link_reconciled_def)
  qed
  show ?thesis
    unfolding activate_reconciled_def by (intro yields_rules) (auto intro: fin)
qed

lemma yields_money: "(\<And>n. yields (f n) s Q) \<Longrightarrow> yields (andThen (money a) f) s Q"
  by (auto simp: yields_def andThen_Inr_iff)

lemma reconcile_succeeded_final:
  assumes inv: "commercial_inv s" and lease: "lease_held cl s"
    and q: "payment_of s (cl_paymentId cl) = Some q"
  shows "yields (reconcile_succeeded H clock cl stt c i ident q) s (\<lambda>_. settled_is_final (cl_paymentId cl))"
proof -
  have linked: "payment_final q" if "pay_subscriptionId q = Some j" for j
  proof -
    have "pay_state q = SUCCEEDED"
      using commercial_invD(4) [OF inv] payment_row_mem [OF q] that
      unfolding links_coherent_def links_ok_def by blast
    then show ?thesis
      using that by (simp add: payment_final_def)
  qed
  have later: "lease_held cl s1" "payment_of s1 (cl_paymentId cl) = Some q"
    if "materializeDueCurrentSubscriptionLocked H a at c s = Inr (m, s1)" for a at m s1
    using lease_frame_materialize [OF that] lease q lease_held_same [of s1 s] payment_of_same [of s1 s] by simp_all
  show ?thesis
    unfolding reconcile_succeeded_def
  proof (intro yields_money yields_rules, goal_cases)
    case (3 ck n m s1)
    show ?case
      by (rule activate_reconciled_final [OF later [OF 3(4)]])
  next
    case (4 ck n m s1)
    show ?case
      by (rule settled_is_final_failures(2) [OF later(1) [OF 4(4)]])
  next
    case (5 ck n m s1)
    show ?case
      by (rule settled_is_final_failures(2) [OF later(1) [OF 5(4)]])
  next
    case (7 ck n j)
    show ?case
      by (rule settled_is_final_settle [OF lease q linked [OF 7(3)]])
  qed (rule settled_is_final_failures [OF lease])+
qed

lemma reconcile_payment_final:
  assumes inv: "commercial_inv s" and lease: "lease_held cl s"
    and q: "payment_of s (cl_paymentId cl) = Some q" and st: "st_state stt \<noteq> STATUS_PENDING"
  shows "yields (reconcile_payment H clock cl stt c i ident q) s (\<lambda>_. settled_is_final (cl_paymentId cl))"
proof -
  let ?st = "status_payment_state (st_state stt)"
  have final: "payment_final r" if "pay_state r = ?st" "st_state stt \<noteq> STATUS_SUCCEEDED" for r
    using that st by (cases "st_state stt") (auto simp: payment_final_def)
  have written: "yields (settle_event cl i at ev su t) s2 (\<lambda>_. settled_is_final (cl_paymentId cl))"
    if "update_payment (cl_paymentId cl) (\<lambda>_. True) (\<lambda>r. r\<lparr>pay_state := ?st, pay_updatedAt := clock 0\<rparr>) s = Inr (u, s1)"
      "payment_reconciled cl c o1 ?st js s1 = Inr (y, s2)" "st_state stt \<noteq> STATUS_SUCCEEDED"
    for at ev su t u s1 o1 js y s2
  proof (rule settled_is_final_settle)
    have "payment_of s1 (cl_paymentId cl) = Some (q\<lparr>pay_state := ?st, pay_updatedAt := clock 0\<rparr>)"
      using that(1) q by (auto simp: update_payment_Inr payment_of_def find_update_where [where k = pay_id])
    then show "payment_of s2 (cl_paymentId cl) = Some (q\<lparr>pay_state := ?st, pay_updatedAt := clock 0\<rparr>)"
      using payment_of_same [OF conjunct2 [OF lease_frames(3) [OF that(2)]]] by simp
    show "lease_held cl s2"
      using lease_frames(1) [OF that(1)] lease_frames(3) [OF that(2)] lease lease_held_same [of s2 s] by simp
  qed (use that(3) in \<open>simp add: final\<close>)
  show ?thesis
    unfolding reconcile_payment_def Let_def
  proof (intro yields_rules, goal_cases)
    case 3
    show ?case
      by (rule settled_is_final_settle [OF lease q final]) (use 3 in simp_all)
  next
    case (4 u s1 y s2)
    show ?case
      by (rule written [OF 4(5,6,4)])
  next
    case 5
    show ?case
      by (rule reconcile_succeeded_final [OF inv lease q])
  qed (rule settled_is_final_failures [OF lease])+
qed

lemma reconcile_event_final:
  assumes inv: "commercial_inv s" and lease: "lease_held cl s" and st: "st_state stt \<noteq> STATUS_PENDING"
  shows "yields (reconcile_event H clock cl stt at c i ident) s (\<lambda>_. settled_is_final (cl_paymentId cl))"
  unfolding reconcile_event_def
proof (intro yields_rules, goal_cases)
  case (3 locked s1 q)
  have "s1 = s" and q: "payment_of s (cl_paymentId cl) = Some q"
    using 3(3,5) by simp_all
  then show ?case
    using reconcile_payment_final [OF inv lease q st] by simp
qed (rule settled_is_final_failures [OF lease])+

text \<open>The event a transaction concludes is the only one without an outcome.\<close>

definition settled_but :: "uuid \<Rightarrow> db \<Rightarrow> bool" where
  "settled_but i s \<longleftrightarrow> (\<forall>r \<in> set (billingEvents s). ev_processingState r = VERIFIED \<longrightarrow> ev_id r = i)"

lemma conclude_settles:
  assumes "settled_but i s"
  shows "yields (conclude cl i at st sub tr c js jc nx) s (\<lambda>_. all_settled)"
proof (rule yieldsI)
  fix x s'
  assume run: "conclude cl i at st sub tr c js jc nx s = Inr (x, s')"
  obtain row s1 ok where t: "terminalize_event i st at (cl_paymentId cl) sub tr c s = Inr (row, s1)"
    and f: "finishJob (cl_paymentId cl) (cl_leaseToken cl) js jc nx at s1 = Inr (ok, s')"
    by (rule conclude_run [OF run])
  have s1: "billingEvents s1 = update_where (\<lambda>x. ev_id x = i) (terminal_row st at (Some (cl_paymentId cl)) sub tr c)
      (billingEvents s)"
    by (rule terminalize_event_frame(6) [OF t])
  have s': "billingEvents s' = billingEvents s1"
    by (rule finishJob_effect [OF f])
  have "ev_processingState r \<noteq> VERIFIED" if "r \<in> set (billingEvents s)" "ev_id r \<noteq> i" for r
    using assms that unfolding settled_but_def by blast
  then show "all_settled s'"
    unfolding all_settled_def list_all_iff s' s1 set_update_where
    using terminalize_event_frame(5) [OF t] by auto
qed

lemma conclusions_settle:
  assumes "settled_but i s"
  shows "yields (fail_blocked cl i at c jc) s (\<lambda>_. all_settled)"
    and "yields (fail_retry cl i at c) s (\<lambda>_. all_settled)"
    and "yields (settle_event cl i at st sub tr) s (\<lambda>_. all_settled)"
  unfolding fail_blocked_def fail_retry_def settle_event_def by (rule conclude_settles [OF assms])+

lemma settled_but_same: "billingEvents s' = billingEvents s \<Longrightarrow> settled_but i s \<Longrightarrow> settled_but i s'"
  by (simp add: settled_but_def)

lemma reconciliation_ledger_frames:
  "audit_reconciliation a t i co m s = Inr (v, s') \<Longrightarrow> billingEvents s' = billingEvents s"
  "payment_reconciled cl co st st' j s = Inr (v', s') \<Longrightarrow> billingEvents s' = billingEvents s"
  by (auto simp: audit_reconciliation_def payment_reconciled_def insert_audit_Inr split: option.splits if_splits)

lemma activate_reconciled_settles:
  assumes "settled_but i s"
  shows "yields (activate_reconciled H clock cl stt c i ident old ck) s (\<lambda>_. all_settled)"
  unfolding activate_reconciled_def
  by (intro yields_rules; rule conclusions_settle;
      rule settled_but_same [OF _ assms];
      simp add: open_for_payment_ledger reconciliation_ledger_frames ledger_frames)

lemma reconcile_succeeded_settles:
  assumes "settled_but i s"
  shows "yields (reconcile_succeeded H clock cl stt c i ident q) s (\<lambda>_. all_settled)"
  unfolding reconcile_succeeded_def
  by (intro yields_money yields_rules; (rule conclusions_settle activate_reconciled_settles)?;
      rule settled_but_same [OF _ assms]; simp add: ledger_frames)

lemma reconcile_payment_settles:
  assumes "settled_but i s"
  shows "yields (reconcile_payment H clock cl stt c i ident q) s (\<lambda>_. all_settled)"
  unfolding reconcile_payment_def Let_def
  by (intro yields_rules; (rule conclusions_settle reconcile_succeeded_settles)?;
      rule settled_but_same [OF _ assms]; simp add: ledger_frames reconciliation_ledger_frames)

lemma reconcile_event_settles:
  assumes "settled_but i s"
  shows "yields (reconcile_event H clock cl stt at c i ident) s (\<lambda>_. all_settled)"
  unfolding reconcile_event_def
  by (intro yields_rules; (rule conclusions_settle reconcile_payment_settles)?;
      rule settled_but_same [OF _ assms]; simp)

text \<open>A status that is applied claims its event, or finds it recorded.\<close>

abbreviation status_payload :: "(string \<Rightarrow> string) \<Rightarrow> reconciliation_claim \<Rightarrow> found_status \<Rightarrow> string" where
  "status_payload H cl stt \<equiv> reconciliationPayloadSha256 H cl stt"

abbreviation status_identity :: "(string \<Rightarrow> string) \<Rightarrow> reconciliation_claim \<Rightarrow> found_status \<Rightarrow> string" where
  "status_identity H cl stt \<equiv> reconciliationEventIdentity H (cl_paymentId cl) (cl_attemptCount cl)
     (st_state stt) (st_statusAt stt) (status_payload H cl stt)"

lemma reconcile_found_cases:
  assumes all: "all_settled s" and inv: "commercial_inv s" and lease: "lease_held cl s"
    and run: "reconcile_found H clock cl stt at c s = Inr (x, s')"
  obtains (recorded) r s1 ok where "find_event s (cl_provider cl) (status_identity H cl stt) = Some r"
      "billingEvents s1 = billingEvents s"
      "finishJob (cl_paymentId cl) (cl_leaseToken cl) SETTLED None None at s1 = Inr (ok, s')"
      "x = terminalResult r (cl_paymentId cl)"
  | (claimed) i s1 where "find_event s (cl_provider cl) (status_identity H cl stt) = None"
      "reconcile_event H clock cl stt at c i (status_identity H cl stt) s1 = Inr (x, s')"
      "commercial_inv s1" "lease_held cl s1" "settled_but i s1"
proof -
  obtain e s1 where ins: "insertEvent (cl_provider cl) (status_identity H cl stt)
        (status_event_type (st_state stt)) (status_payload H cl stt) at s = Inr (e, s1)"
    and rest: "(if ev_processingState e \<noteq> VERIFIED then
          andThen (finishJob (cl_paymentId cl) (cl_leaseToken cl) SETTLED None None at) (\<lambda>_.
          ret (terminalResult e (cl_paymentId cl)))
        else reconcile_event H clock cl stt at c (ev_id e) (status_identity H cl stt)) s1 = Inr (x, s')"
    using run unfolding reconcile_found_def Let_def by (rule andThen_InrE)
  let ?row = "reconciled_row (cl_provider cl) (status_identity H cl stt)
        (status_event_type (st_state stt)) (status_payload H cl stt) at (db_now s)"
  obtain y where row: "insert_event_row ?row s = Inr (y, s1)"
    and found: "find_event s1 (cl_provider cl) (status_identity H cl stt) = Some e"
    using ins by (auto simp: insertEvent_def andThen_Inr_iff split: option.splits)
  show thesis
  proof (cases "find_event s (cl_provider cl) (status_identity H cl stt)")
    case (Some r)
    have same: "billingEvents s1 = billingEvents s"
      using row Some by (auto simp: insert_event_row_Inr reconciled_row_def Let_def)
    then have e: "e = r"
      using found Some by (simp add: find_event_def)
    have "ev_processingState r \<noteq> VERIFIED"
      using all find_event_mem(1) [OF Some] by (simp add: all_settled_def list_all_iff)
    then show thesis
      using recorded [OF Some same] rest by (auto simp: e andThen_Inr_iff)
  next
    case None
    have ev: "billingEvents s1 = billingEvents s @ [?row (db_uuids s (db_drawn s))]"
      using row None by (auto simp: insert_event_row_Inr reconciled_row_def Let_def)
    then have e: "e = ?row (db_uuids s (db_drawn s))"
      using found None by (auto simp: find_event_def find_append reconciled_row_def)
    have "settled_but (ev_id e) s1"
      using all by (auto simp: settled_but_def all_settled_def list_all_iff ev e)
    moreover have "commercial_inv s1"
      using protocol_insert_event inv row by (rule moves_atD [THEN conjunct2])
    moreover have "lease_held cl s1"
      using lease_held_same [OF lease_frame_event(1) [OF ins]] lease by simp
    ultimately show thesis
      using claimed [OF None, of "ev_id e" s1] rest by (simp add: e reconciled_row_def)
  qed
qed

section \<open>Properties of the reconciliation\<close>

lemma applyStatus_run:
  "applyStatus H clock cl stt at c s = (Inr x, s') \<longleftrightarrow>
     found_status_schema stt \<and> apply_status_transaction H clock cl stt at c s = Inr (x, s')"
  by (auto simp: applyStatus_def transaction_def split: sum.splits prod.splits)

lemma apply_status_leased:
  assumes "lease_held cl s" and "st_state stt \<noteq> STATUS_PENDING"
  shows "apply_status_transaction H clock cl stt at c s = reconcile_found H clock cl stt at c s"
  using assms by (auto simp: apply_status_transaction_def lease_held_def)

lemma apply_status_stale:
  assumes "\<not> lease_held cl s"
  shows "apply_status_transaction H clock cl stt at c s = Inr (STALE_LEASE (cl_paymentId cl), s)"
  using assms by (auto simp: apply_status_transaction_def lease_held_def ret_def split: option.split)

lemma reschedule_pending_effect:
  assumes "reschedule_pending clock cl s = Inr (x, s')"
  obtains ok where "finishJob (cl_paymentId cl) (cl_leaseToken cl) JOB_READY (Some ''PROVIDER_PENDING'')
    (Some (clock 0 + 60000)) (clock 0) s = Inr (ok, s')"
  using assms by (auto simp: reschedule_pending_def andThen_Inr_iff)

lemma finishJob_final:
  assumes "finishJob p t js c n now s = Inr (ok, s')" and "settled_is_final p s" and "js \<noteq> SETTLED"
  shows "settled_is_final p s'"
  by (rule finishJob_effect [OF assms(1)])
    (use assms(2,3) in \<open>auto simp: settled_is_final_def payment_of_def finished_job_def split: if_splits\<close>)


text \<open>C35. A worker that has lost its lease writes nothing: applying a status, giving the job back and
  blocking it answer STALE_LEASE and leave the database as it was.\<close>

theorem stale_lease_writes_nothing:
  assumes "\<not> lease_held cl s" and "found_status_schema stt" and "time_clip at' = Some at'"
  shows "applyStatus H clock cl stt at c s = (Inr (STALE_LEASE (cl_paymentId cl)), s)
    \<and> reschedule now (cl_paymentId cl) (cl_leaseToken cl) at' code s = (Inr (STALE_LEASE (cl_paymentId cl)), s)
    \<and> blockUnsupported cl at reason s = (Inr (STALE_LEASE (cl_paymentId cl)), s)"
proof -
  have stale: "update_job (cl_paymentId cl) (leased_under (cl_leaseToken cl)) f s = Inr (None, s)" for f
    by (rule stale_finishJob) (use assms(1) in \<open>simp add: lease_held_def\<close>)
  have "applyStatus H clock cl stt at c s = (Inr (STALE_LEASE (cl_paymentId cl)), s)"
    using apply_status_stale [OF assms(1)] assms(2) by (simp add: applyStatus_run)
  moreover have "reschedule now (cl_paymentId cl) (cl_leaseToken cl) at' code s
      = (Inr (STALE_LEASE (cl_paymentId cl)), s)"
    using stale assms(3)
    by (simp add: reschedule_def transaction_def finishJob_def optional_date_def date_column_def
        andThen_def ret_def)
  moreover have "blockUnsupported cl at reason s = (Inr (STALE_LEASE (cl_paymentId cl)), s)"
    using stale by (simp add: blockUnsupported_def transaction_def finishJob_def optional_date_def andThen_def ret_def)
  ultimately show ?thesis by blast
qed

text \<open>C34. Two workers never hold the same job: a claim made before the leases of an earlier claim have
  run out returns none of its payments, whatever rows it skips, and leaves its leases as they are.\<close>

theorem leases_exclusive:
  assumes "commercial_inv s"
    and "claimDue tok locked now ms n s = (Inr cs, s1)"
    and "claimDue tok' locked' now' ms' n' s1 = (Inr cs', s2)" and "now' < now + ms"
  shows "cl_paymentId ` set cs \<inter> cl_paymentId ` set cs' = {} \<and> (\<forall>c \<in> set cs. lease_held c s2)"
proof -
  have held: "held (now + ms) s1 c" if "c \<in> set cs" for c
    using claimDue_effect [OF commercial_invD(1) [OF assms(1)] assms(2)] that by blast
  have inv1: "commercial_inv s1"
    using claimDue_path [OF assms(1), of tok locked now ms n] assms(2) by simp
  let ?rows = "due_jobs locked' s1 now' n'"
  have run: "claim_rows tok' now' ms' 0 ?rows s1 = Inr (cs', s2)"
    using assms(3) by (auto simp: claimDue_def transaction_def split: if_splits sum.splits prod.splits)
  note later = claim_rows_effect [OF run due_jobs_rows [OF commercial_invD(1) [OF inv1]]]
  have free: "cl_paymentId c \<notin> (\<lambda>r. job_paymentId (fst r)) ` set ?rows" if c: "c \<in> set cs" for c
  proof
    assume "cl_paymentId c \<in> (\<lambda>r. job_paymentId (fst r)) ` set ?rows"
    then obtain j where j: "j \<in> set (jobs s1)" "job_due now' j" "job_paymentId j = cl_paymentId c"
      by (auto simp: due_jobs_def dest!: in_set_takeD split: option.splits)
    then have "job_of s1 (cl_paymentId c) = Some j"
      using find_unique [OF keys_distinctD(6) [OF commercial_invD(1) [OF inv1]] j(1)] by (simp add: job_of_def)
    then show False
      using held [OF c] j(2) assms(4) by (auto simp: held_def job_due_def leased_under_def)
  qed
  have "lease_held c s2" if "c \<in> set cs" for c
    using later free [OF that] held [OF that] by (auto simp: held_def lease_held_def)
  moreover have "cl_paymentId c \<noteq> cl_paymentId c'" if "c \<in> set cs" "c' \<in> set cs'" for c c'
    using later free [OF that(1)] that(2) by metis
  ultimately show ?thesis by blast
qed

lemma finishJob_ledger:
  assumes "finishJob p t js c n now s = Inr (ok, s')" and "all_settled s"
  shows "all_settled s'"
proof -
  have "billingEvents s' = billingEvents s"
    by (rule finishJob_effect [OF assms(1)])
  then show ?thesis using assms(2) by (simp add: all_settled_def)
qed

lemma apply_status_ledger:
  assumes inv: "commercial_inv s" and all: "all_settled s"
    and run: "apply_status_transaction H clock cl stt at c s = Inr (y, s')"
  shows "all_settled s'"
proof (cases "lease_held cl s")
  case False
  then show ?thesis using run all apply_status_stale [OF False] by auto
next
  case lease: True
  show ?thesis
  proof (cases "st_state stt = STATUS_PENDING")
    case True
    then have "reschedule_pending clock cl s = Inr (y, s')"
      using run lease by (auto simp: apply_status_transaction_def lease_held_def)
    then obtain ok where "finishJob (cl_paymentId cl) (cl_leaseToken cl) JOB_READY (Some ''PROVIDER_PENDING'')
        (Some (clock 0 + 60000)) (clock 0) s = Inr (ok, s')"
      by (rule reschedule_pending_effect)
    then show ?thesis using finishJob_ledger all by blast
  next
    case False
    then have "reconcile_found H clock cl stt at c s = Inr (y, s')"
      using run apply_status_leased [OF lease] by simp
    from all inv lease this show ?thesis
    proof (cases rule: reconcile_found_cases)
      case (recorded r s1 ok)
      have "all_settled s1"
        using recorded(2) all by (simp add: all_settled_def)
      then show ?thesis using finishJob_ledger [OF recorded(3)] by simp
    next
      case (claimed i s1)
      then show ?thesis using yieldsD [OF reconcile_event_settles [OF claimed(5)] claimed(2)] by simp
    qed
  qed
qed

lemma reconciliation_keeps_ledger:
  assumes "ledger_inv s"
  shows "ledger_inv (snd (applyStatus H clock cl stt at c s))"
    and "ledger_inv (snd (reschedule now p t at' code s))"
    and "ledger_inv (snd (blockUnsupported cl at reason s))"
proof -
  have inv: "commercial_inv s" and all: "all_settled s"
    using assms by (simp_all add: ledger_inv_def)
  have "all_settled (snd (applyStatus H clock cl stt at c s))"
    unfolding applyStatus_def using all
    by (auto intro!: transaction_keeps [of all_settled] intro: apply_status_ledger [OF inv])
  then show "ledger_inv (snd (applyStatus H clock cl stt at c s))"
    using applyStatus_path [OF inv] by (simp add: ledger_inv_def)
  have "all_settled (snd (reschedule now p t at' code s))"
    unfolding reschedule_def
    by (rule transaction_keeps [of all_settled, OF all]) (auto simp: andThen_Inr_iff dest: finishJob_ledger [OF _ all])
  then show "ledger_inv (snd (reschedule now p t at' code s))"
    using reschedule_path [OF inv] by (simp add: ledger_inv_def)
  have "all_settled (snd (blockUnsupported cl at reason s))"
    unfolding blockUnsupported_def
    by (rule transaction_keeps [of all_settled, OF all]) (auto simp: andThen_Inr_iff dest: finishJob_ledger [OF _ all])
  then show "ledger_inv (snd (blockUnsupported cl at reason s))"
    using blockUnsupported_path [OF inv] by (simp add: ledger_inv_def)
qed

section \<open>The service behind its interface\<close>

text \<open>
  \<open>BillingReconciliationRepository\<close>: what \<open>processClaim\<close> calls. Every operation keeps the invariant
  of the store, and without the lease of the claim writes nothing.
\<close>

locale reconciliation_repository =
  fixes inv :: "'s \<Rightarrow> bool" and holds :: "uuid \<Rightarrow> uuid \<Rightarrow> 's \<Rightarrow> bool"
    and block :: "reconciliation_claim \<Rightarrow> time \<Rightarrow> string \<Rightarrow> 's \<Rightarrow> (failure + reconciliation_result) \<times> 's"
    and resched :: "uuid \<Rightarrow> uuid \<Rightarrow> time \<Rightarrow> retry_code \<Rightarrow> 's \<Rightarrow> (failure + reconciliation_result) \<times> 's"
    and app :: "reconciliation_claim \<Rightarrow> found_status \<Rightarrow> time \<Rightarrow> string \<Rightarrow> 's \<Rightarrow> (failure + reconciliation_result) \<times> 's"
  assumes keeps: "inv s \<Longrightarrow> inv (snd (block cl at reason s))" "inv s \<Longrightarrow> inv (snd (resched p t at code s))"
      "inv s \<Longrightarrow> inv (snd (app cl stt at c s))"
    and stale: "\<not> holds (cl_paymentId cl) (cl_leaseToken cl) s \<Longrightarrow> snd (block cl at reason s) = s"
      "\<not> holds p t s \<Longrightarrow> snd (resched p t at code s) = s"
      "\<not> holds (cl_paymentId cl) (cl_leaseToken cl) s \<Longrightarrow> snd (app cl stt at c s) = s"
begin

lemma claim_keeps: "inv s \<Longrightarrow> inv (snd (processClaim key fetch now delay block resched app cl c s))"
  using keeps by (auto simp: processClaim_def retry_later_def split: payment_status.split sum.split)

lemma stale_claim: "\<not> holds (cl_paymentId cl) (cl_leaseToken cl) s \<Longrightarrow>
    snd (processClaim key fetch now delay block resched app cl c s) = s"
  using stale by (auto simp: processClaim_def retry_later_def split: payment_status.split sum.split)

text \<open>A status reaches the store only when it is a well-formed, final status of the claim's provider.\<close>

lemma applied_status:
  assumes "snd (processClaim key fetch now delay block resched app cl c s)
      \<noteq> snd (processClaim key (\<lambda>_. None) now delay block resched app cl c s)"
    and "\<And>p t at code code' s. snd (resched p t at code s) = snd (resched p t at code' s)"
  shows "\<exists>stt. cl_provider cl = key \<and> fetch (cl_providerPaymentId cl) = Some (STATUS_FOUND stt)
    \<and> found_status_schema stt \<and> st_state stt \<noteq> STATUS_PENDING"
  using assms by (auto simp: processClaim_def retry_later_def observed_status_def
      split: payment_status.splits sum.splits option.splits if_splits)

end

lemma stale_update:
  assumes "\<not> (\<exists>j. job_of s p = Some j \<and> leased_under t j)"
  shows "snd (transaction (andThen (finishJob p t js c n now) (\<lambda>ok. ret (r ok))) s) = s"
proof (rule transaction_keeps [of "\<lambda>s'. s' = s"])
  fix x s'
  assume "andThen (finishJob p t js c n now) (\<lambda>ok. ret (r ok)) s = Inr (x, s')"
  then show "s' = s"
    using stale_finishJob [OF assms] by (auto simp: andThen_Inr_iff finishJob_def dest!: optional_date_Inr)
qed simp

interpretation reconciliation: reconciliation_repository ledger_inv
    "\<lambda>p t s. \<exists>j. job_of s p = Some j \<and> leased_under t j"
    blockUnsupported "reschedule now" "applyStatus H clock"
proof
  fix s cl stt at c p t at' code reason
  show "ledger_inv s \<Longrightarrow> ledger_inv (snd (blockUnsupported cl at reason s))"
    "ledger_inv s \<Longrightarrow> ledger_inv (snd (reschedule now p t at' code s))"
    "ledger_inv s \<Longrightarrow> ledger_inv (snd (applyStatus H clock cl stt at c s))"
    by (fact reconciliation_keeps_ledger)+
  show "\<nexists>j. job_of s (cl_paymentId cl) = Some j \<and> leased_under (cl_leaseToken cl) j \<Longrightarrow>
      snd (blockUnsupported cl at reason s) = s"
    unfolding blockUnsupported_def by (rule stale_update)
  show "\<nexists>j. job_of s p = Some j \<and> leased_under t j \<Longrightarrow> snd (reschedule now p t at' code s) = s"
    unfolding reschedule_def by (rule stale_update)
  assume "\<nexists>j. job_of s (cl_paymentId cl) = Some j \<and> leased_under (cl_leaseToken cl) j"
  then have "\<not> lease_held cl s"
    by (simp add: lease_held_def)
  from apply_status_stale [OF this] show "snd (applyStatus H clock cl stt at c s) = s"
    by (simp add: applyStatus_def transaction_def)
qed

text \<open>The reconciliation service, whatever the provider answers: processing a claim keeps the
  invariants of the store, and a claim whose lease is lost leaves the store as it was.\<close>

theorem reconciliation_service_safe:
  assumes "ledger_inv s"
    and "processClaim key fetch clk delay blockUnsupported (reschedule now) (applyStatus H clock) cl c s = (x, s')"
  shows "ledger_inv s' \<and> (\<not> lease_held cl s \<longrightarrow> s' = s)"
proof -
  have "ledger_inv s'"
    using reconciliation.claim_keeps [OF assms(1)] assms(2) by (metis snd_conv)
  moreover have "s' = s" if "\<not> lease_held cl s"
    using reconciliation.stale_claim that assms(2) unfolding lease_held_def by (metis snd_conv)
  ultimately show ?thesis by blast
qed

section \<open>Examples\<close>

definition example_lease :: reconciliation_claim where
  "example_lease = claim_of ordered_payment 990 1 ''lease-1''"

definition leased_db :: db where
  "leased_db = snd (claimDue (\<lambda>_. ''lease-1'') (\<lambda>_. False) 61000 30000 10 ordered_db)"

definition paid_status :: found_status where
  "paid_status = \<lparr>st_state = STATUS_SUCCEEDED, st_amountMinor = 990, st_currency = ''EUR'', st_statusAt = 2000\<rparr>"

definition reconciled_db :: db where
  "reconciled_db = snd (applyStatus example_digest (\<lambda>n. 62000 + int n) example_lease paid_status 62000 ''c-9'' leased_db)"

lemmas reconciliation_eval [eval_simps] = claimDue_def due_jobs_def job_due_def leasable_def leased_job_def
  claim_of_def date_column_def time_clip_def max_time_def applyStatus_def apply_status_transaction_def
  leased_under_def found_status_schema_def amount_schema_def currency_code_def valid_time_def
  reconcile_found_def insertEvent_def reconciled_row_def finishJob_def finished_job_def optional_date_def
  reconcile_event_def reconcile_payment_def reconcile_succeeded_def activate_reconciled_def
  coherent_claim_def link_reconciled_def payment_reconciled_def audit_reconciliation_def
  settle_event_def fail_blocked_def fail_retry_def conclude_def terminalize_event_def terminalResult_def
  reconciliationEventIdentity_def reconciliationPayloadSha256_def open_for_payment_def

lemmas reconciliation_examples = leased_db_def example_lease_def paid_status_def order_examples

lemma claim_run:
  "claimDue (\<lambda>_. ''lease-1'') (\<lambda>_. False) 61000 30000 10 ordered_db = (Inr [example_lease], leased_db)"
  by (simp add: reconciliation_examples eval_simps sort_key_def del: set_filter)

lemma leased_db_inv: "commercial_inv leased_db"
  using claimDue_path [OF ordered_db_inv, of "\<lambda>_. ''lease-1''" "\<lambda>_. False" 61000 30000 10]
  by (simp add: leased_db_def)

lemma leased_db_fields:
  "billingEvents leased_db = []" "job_of leased_db ''pay'' = Some (leased_job ''lease-1'' 91000 61000 ordered_job)"
  by (simp_all add: reconciliation_examples eval_simps sort_key_def job_of_def del: set_filter)

lemma leased_db_ledger: "ledger_inv leased_db"
  by (simp add: ledger_inv_def leased_db_inv all_settled_def leased_db_fields)

lemma example_lease_fields [simp]:
  "cl_paymentId example_lease = ''pay''" "cl_leaseToken example_lease = ''lease-1''"
  by (simp_all add: example_lease_def claim_of_def ordered_payment_def)

lemma example_lease_held: "lease_held example_lease leased_db"
  by (simp add: lease_held_def leased_db_fields leased_under_def leased_job_def)

lemma paid_status_schema: "found_status_schema paid_status"
  by (simp add: found_status_schema_def paid_status_def amount_schema_def max_safe_integer_def currency_code_def is_upper_def
      valid_time_def max_time_def)

lemma reconciled_run:
  "applyStatus example_digest (\<lambda>n. 62000 + int n) example_lease paid_status 62000 ''c-9'' leased_db
     = (Inr (RECONCILED REC_APPLIED ''pay'' None (Some ''u'')), reconciled_db)"
  by (simp add: reconciled_db_def reconciliation_examples eval_simps sort_key_def del: set_filter)


theorem stale_lease_writes_nothing_witness:
  "applyStatus example_digest example_clock example_lease paid_status 62000 ''c-9'' ordered_db
     = (Inr (STALE_LEASE ''pay''), ordered_db)
   \<and> reschedule 62000 ''pay'' ''lease-1'' 122000 PROVIDER_NOT_FOUND ordered_db = (Inr (STALE_LEASE ''pay''), ordered_db)
   \<and> blockUnsupported example_lease 62000 ''PROVIDER_MISMATCH'' ordered_db = (Inr (STALE_LEASE ''pay''), ordered_db)"
proof -
  have "\<not> lease_held example_lease ordered_db"
    by (simp add: lease_held_def job_of_def ordered_db_def ordered_job_def leased_under_def)
  from stale_lease_writes_nothing [OF this paid_status_schema, of 122000] show ?thesis
    by (simp add: time_clip_def valid_time_def max_time_def)
qed

theorem leases_exclusive_witness:
  "\<exists>s2. claimDue (\<lambda>_. ''lease-2'') (\<lambda>_. False) 90999 30000 10 leased_db = (Inr [], s2)
     \<and> lease_held example_lease s2"
proof -
  have "claimDue (\<lambda>_. ''lease-2'') (\<lambda>_. False) 90999 30000 10 leased_db = (Inr [], leased_db)"
    by (simp add: reconciliation_examples eval_simps sort_key_def transaction_def ret_def del: set_filter)
  with leases_exclusive [OF ordered_db_inv claim_run this] show ?thesis by simp
qed

theorem reconciliation_service_safe_witness:
  "processClaim ''sim'' (\<lambda>_. Some (STATUS_FOUND paid_status)) (\<lambda>_. 62000) retry_delay_ms blockUnsupported
     (reschedule 62000) (applyStatus example_digest (\<lambda>n. 62000 + int n)) example_lease ''c-9'' leased_db
     = (Inr (RECONCILED REC_APPLIED ''pay'' None (Some ''u'')), reconciled_db)
   \<and> ledger_inv reconciled_db"
proof -
  have "cl_provider example_lease = ''sim''"
    by (simp add: example_lease_def claim_of_def ordered_payment_def)
  then have run: "processClaim ''sim'' (\<lambda>_. Some (STATUS_FOUND paid_status)) (\<lambda>_. 62000) retry_delay_ms blockUnsupported
     (reschedule 62000) (applyStatus example_digest (\<lambda>n. 62000 + int n)) example_lease ''c-9'' leased_db
     = (Inr (RECONCILED REC_APPLIED ''pay'' None (Some ''u'')), reconciled_db)"
    using paid_status_schema
    by (simp add: processClaim_def observed_status_def reconciled_run) (simp add: paid_status_def)
  with reconciliation_service_safe [OF leased_db_ledger run] show ?thesis by simp
qed

end
