(* ===== verification/Checkout.thy ===== *)
theory Checkout
  imports Billing_Events
begin

text \<open>
  packages/server/db/src/p5-checkout-repository.ts: an order is an intent that is CREATING until the
  provider has answered, then READY with its pending payment and its reconciliation job, or FAILED.
  \<open>H\<close> is the SHA-256 digest, \<open>clock n\<close> the n-th reading of the repository's clock inside a
  transaction.
\<close>

section \<open>Data\<close>

fun offer_failure_text :: "offer_failure \<Rightarrow> string" where
  "offer_failure_text PRICE_REVISION_NOT_FOUND = ''PRICE_REVISION_NOT_FOUND''"
| "offer_failure_text PRICE_REVISION_NOT_PUBLISHED = ''PRICE_REVISION_NOT_PUBLISHED''"
| "offer_failure_text PLAN_NOT_ACTIVE = ''PLAN_NOT_ACTIVE''"
| "offer_failure_text PRICE_NOT_ACTIVE = ''PRICE_NOT_ACTIVE''"
| "offer_failure_text NO_EFFECTIVE_ASSIGNMENT = ''NO_EFFECTIVE_ASSIGNMENT''"
| "offer_failure_text EXPLICITLY_CLOSED = ''EXPLICITLY_CLOSED''"
| "offer_failure_text PRICE_REVISION_NOT_SELECTED = ''PRICE_REVISION_NOT_SELECTED''"
| "offer_failure_text REVISION_OUTSIDE_EFFECTIVE_WINDOW = ''REVISION_OUTSIDE_EFFECTIVE_WINDOW''"
| "offer_failure_text PLAN_REVISION_NOT_PUBLISHED = ''PLAN_REVISION_NOT_PUBLISHED''"
| "offer_failure_text PLAN_REVISION_PLAN_MISMATCH = ''PLAN_REVISION_PLAN_MISMATCH''"

fun checkout_failure_text :: "checkout_failure \<Rightarrow> string" where
  "checkout_failure_text ACCOUNT_NOT_FOUND = ''ACCOUNT_NOT_FOUND''"
| "checkout_failure_text FORBIDDEN = ''FORBIDDEN''"
| "checkout_failure_text ACCOUNT_IS_SUSPENDED = ''ACCOUNT_SUSPENDED''"
| "checkout_failure_text CURRENT_SUBSCRIPTION_EXISTS = ''CURRENT_SUBSCRIPTION_EXISTS''"
| "checkout_failure_text CHECKOUT_IN_PROGRESS = ''CHECKOUT_IN_PROGRESS''"
| "checkout_failure_text IDEMPOTENCY_KEY_REUSED = ''IDEMPOTENCY_KEY_REUSED''"
| "checkout_failure_text CHECKOUT_PROVIDER_MISMATCH = ''CHECKOUT_PROVIDER_MISMATCH''"
| "checkout_failure_text PROVIDER_REJECTED = ''PROVIDER_REJECTED''"
| "checkout_failure_text PROVIDER_UNAVAILABLE = ''PROVIDER_UNAVAILABLE''"
| "checkout_failure_text CHECKOUT_CORRUPTED = ''CHECKOUT_CORRUPTED''"
| "checkout_failure_text CHECKOUT_PAYMENT_FAILED = ''PAYMENT_FAILED''"
| "checkout_failure_text CHECKOUT_PAYMENT_CANCELED = ''PAYMENT_CANCELED''"
| "checkout_failure_text SERVICE_UNAVAILABLE = ''SERVICE_UNAVAILABLE''"
| "checkout_failure_text (OFFER_FAILURE f) = offer_failure_text f"

fun checkout_state_text :: "checkout_state \<Rightarrow> string" where
  "checkout_state_text CREATING = ''CREATING''"
| "checkout_state_text READY = ''READY''"
| "checkout_state_text CHECKOUT_FAILED = ''FAILED''"

text \<open>A \<open>CheckoutIntent\<close>: the row of the intent and the state of the payment joined to it.\<close>

record checkout_intent =
  in_row :: checkout_intent_row
  in_paymentState :: "payment_state option"

record account_observation =
  ob_accountExists :: bool
  ob_owner :: bool
  ob_accountStatus :: "account_status option"
  ob_hasCurrentSubscription :: bool

record checkout_context =
  cx_actorId :: uuid
  cx_correlationId :: string

definition checkout_context_schema :: "checkout_context \<Rightarrow> bool" where
  "checkout_context_schema c \<longleftrightarrow> correlation_schema (cx_correlationId c)"

record purchasable_offer =
  po_priceRevisionId :: uuid
  po_planRevisionId :: uuid
  po_amountMinor :: int
  po_currency :: string
  po_billingIntervalUnit :: interval_unit
  po_billingIntervalCount :: int

record prepare_input =
  pi_accountId :: uuid
  pi_actorId :: uuid
  pi_provider :: string
  pi_idempotencyKeyHash :: string
  pi_requestFingerprintSha256 :: string
  pi_admittedAt :: time
  pi_offer :: purchasable_offer
  pi_context :: checkout_context

datatype prepare_result =
    PREP_CREATED checkout_intent
  | PREP_EXISTING checkout_intent
  | PREP_REJECTED checkout_failure

datatype finalize_result =
    FIN_READY checkout_intent
  | FIN_FAILED checkout_intent checkout_failure
  | FIN_REJECTED checkout_failure
  | FIN_SERVICE_UNAVAILABLE

datatype provider_result =
    PROVIDER_CREATED string string string
  | PROVIDER_REJECTS
  | PROVIDER_IS_UNAVAILABLE

definition provider_result_schema :: "provider_result \<Rightarrow> bool" where
  "provider_result_schema r =
     (case r of
        PROVIDER_CREATED checkout payment reference \<Rightarrow>
          opaque_reference_schema checkout \<and> opaque_reference_schema payment
          \<and> opaque_reference_schema reference
      | _ \<Rightarrow> True)"

section \<open>Reading\<close>

text \<open>\<open>snapshot\<close>: the amount must fit a safe integer.\<close>

definition intent_snapshot :: "checkout_intent_row \<Rightarrow> payment_state option \<Rightarrow> checkout_intent dbtx" where
  "intent_snapshot row paymentState =
     (if 0 \<le> ck_amountMinor row \<and> ck_amountMinor row \<le> max_safe_integer
      then ret \<lparr>in_row = row, in_paymentState = paymentState\<rparr>
      else throw (Thrown ''CHECKOUT_CORRUPTED''))"

text \<open>\<open>checkout_intents i LEFT JOIN payments p ON p.id = i.payment_id\<close>\<close>

definition joined_payment :: "db \<Rightarrow> checkout_intent_row \<Rightarrow> payment_state option" where
  "joined_payment s row =
     (case ck_paymentId row of
        None \<Rightarrow> None
      | Some p \<Rightarrow> map_option pay_state (payment_of s p))"

definition accountPolicy :: "db \<Rightarrow> uuid \<Rightarrow> uuid \<Rightarrow> time \<Rightarrow> account_observation" where
  "accountPolicy s accountId actorId at =
     (case account_of s accountId of
        None \<Rightarrow> \<lparr>ob_accountExists = False, ob_owner = False, ob_accountStatus = None,
                 ob_hasCurrentSubscription = False\<rparr>
      | Some account \<Rightarrow>
          \<lparr>ob_accountExists = True, ob_owner = (accountId, actorId) \<in> set (memberships s),
           ob_accountStatus = Some (acct_status account),
           ob_hasCurrentSubscription = hasCurrentSubscriptionAt s accountId at\<rparr>)"

definition find_intent :: "db \<Rightarrow> uuid \<Rightarrow> string \<Rightarrow> checkout_intent_row option" where
  "find_intent s accountId hash =
     List.find (\<lambda>c. ck_accountId c = accountId \<and> ck_idempotencyKeyHash c = hash) (checkoutIntents s)"

definition loadIntent :: "uuid \<Rightarrow> string \<Rightarrow> checkout_intent option dbtx" where
  "loadIntent accountId hash =
     andThen (gets (\<lambda>s. map_option (\<lambda>r. (r, joined_payment s r)) (find_intent s accountId hash))) (\<lambda>found.
       case found of
         None \<Rightarrow> ret None
       | Some (row, paymentState) \<Rightarrow> andThen (intent_snapshot row paymentState) (\<lambda>i. ret (Some i)))"

text \<open>The loop of \<open>otherActionableIntent\<close>, over the joined rows.\<close>

fun actionable_row :: "(checkout_intent_row \<times> payment_state option) list \<Rightarrow> checkout_failure option" where
  "actionable_row [] = None"
| "actionable_row ((row, paymentState) # rows) =
     (if ck_state row = CREATING then Some CHECKOUT_IN_PROGRESS
      else case (ck_paymentId row, paymentState) of
             (Some _, Some state) \<Rightarrow>
               if state = PENDING then Some CHECKOUT_IN_PROGRESS
               else if state = PAYMENT_FAILED \<or> state = PAYMENT_CANCELED then actionable_row rows
               else Some CHECKOUT_CORRUPTED
           | _ \<Rightarrow> Some CHECKOUT_CORRUPTED)"

definition otherActionableIntent :: "db \<Rightarrow> uuid \<Rightarrow> string \<Rightarrow> checkout_failure option" where
  "otherActionableIntent s accountId hash =
     actionable_row (map (\<lambda>r. (r, joined_payment s r))
       (filter (\<lambda>c. ck_accountId c = accountId \<and> ck_idempotencyKeyHash c \<noteq> hash
          \<and> ck_state c \<noteq> CHECKOUT_FAILED) (checkoutIntents s)))"

section \<open>Writing\<close>

definition audit_checkout ::
  "checkout_context \<Rightarrow> string \<Rightarrow> uuid \<Rightarrow> (string \<times> json) list \<Rightarrow> unit dbtx" where
  "audit_checkout context action intentId metadata =
     insert_audit
       \<lparr>aud_actorType = ''ACCOUNT_USER'', aud_actorId = Some (cx_actorId context), aud_action = action,
        aud_targetType = ''CHECKOUT_INTENT'', aud_targetId = intentId,
        aud_correlationId = cx_correlationId context, aud_reason = None, aud_safeMetadata = metadata\<rparr>"

definition intent_metadata :: "checkout_intent_row \<Rightarrow> (string \<times> json) list" where
  "intent_metadata r =
     [(''accountId'', JStr (ck_accountId r)), (''planRevisionId'', JStr (ck_planRevisionId r)),
      (''priceRevisionId'', JStr (ck_priceRevisionId r)), (''provider'', JStr (ck_provider r)),
      (''state'', JStr (checkout_state_text (ck_state r)))]"

text \<open>A RETURNING row; \<open>updated.rows[0]!\<close> is read without a check.\<close>

definition returned_intent :: "checkout_intent_row option \<Rightarrow> checkout_intent dbtx" where
  "returned_intent row =
     (case row of None \<Rightarrow> throw (Thrown ''TypeError'') | Some r \<Rightarrow> intent_snapshot r None)"

definition failed_row :: "checkout_failure \<Rightarrow> time \<Rightarrow> checkout_intent_row \<Rightarrow> checkout_intent_row" where
  "failed_row code at r =
     r\<lparr>ck_state := CHECKOUT_FAILED, ck_failureCode := Some code, ck_updatedAt := at, ck_completedAt := Some at\<rparr>"

definition stored_failure :: "checkout_intent \<Rightarrow> checkout_failure" where
  "stored_failure intent =
     (case ck_failureCode (in_row intent) of None \<Rightarrow> CHECKOUT_CORRUPTED | Some code \<Rightarrow> code)"

definition terminal_intent :: "checkout_intent \<Rightarrow> finalize_result" where
  "terminal_intent intent =
     (if ck_state (in_row intent) = READY then FIN_READY intent else FIN_FAILED intent (stored_failure intent))"

definition terminalFailure ::
  "checkout_intent \<Rightarrow> checkout_failure \<Rightarrow> checkout_context \<Rightarrow> time \<Rightarrow> finalize_result dbtx" where
  "terminalFailure intent code context completedAt =
     (if ck_state (in_row intent) \<noteq> CREATING then ret (terminal_intent intent)
      else
        andThen (gets db_now) (\<lambda>now.
        andThen (update_checkout (ck_id (in_row intent)) (failed_row code (max now completedAt))) (\<lambda>updated.
        andThen (returned_intent updated) (\<lambda>failed.
        andThen (audit_checkout context ''CHECKOUT_FAILED'' (ck_id (in_row failed))
          (intent_metadata (in_row failed)
             @ [(''paymentId'', JNull), (''failureCode'', JStr (checkout_failure_text code))])) (\<lambda>_.
        ret (FIN_FAILED failed code))))))"

section \<open>The operations\<close>

definition inspectCheckout ::
  "(nat \<Rightarrow> time) \<Rightarrow> uuid \<Rightarrow> uuid \<Rightarrow> string \<Rightarrow> db
    \<Rightarrow> (failure + account_observation \<times> checkout_intent option) \<times> db" where
  "inspectCheckout clock accountId actorId hash =
     transaction (andThen (gets (\<lambda>s. accountPolicy s accountId actorId (clock 0))) (\<lambda>account.
       andThen (if ob_accountExists account \<and> ob_owner account then loadIntent accountId hash else ret None)
         (\<lambda>intent. ret (account, intent))))"

text \<open>Why an account cannot order now, in the order of the checks.\<close>

definition actionabilityFailure :: "account_observation \<Rightarrow> checkout_failure option" where
  "actionabilityFailure o' =
     (if \<not> ob_accountExists o' then Some ACCOUNT_NOT_FOUND
      else if \<not> ob_owner o' then Some FORBIDDEN
      else if ob_accountStatus o' = Some ACCOUNT_SUSPENDED then Some ACCOUNT_IS_SUSPENDED
      else if ob_hasCurrentSubscription o' then Some CURRENT_SUBSCRIPTION_EXISTS
      else None)"

definition created_row :: "prepare_input \<Rightarrow> time \<Rightarrow> uuid \<Rightarrow> checkout_intent_row" where
  "created_row input now i =
     \<lparr>ck_id = i, ck_accountId = pi_accountId input,
      ck_priceRevisionId = po_priceRevisionId (pi_offer input),
      ck_planRevisionId = po_planRevisionId (pi_offer input), ck_provider = pi_provider input,
      ck_state = CREATING, ck_idempotencyKeyHash = pi_idempotencyKeyHash input,
      ck_requestFingerprintSha256 = pi_requestFingerprintSha256 input,
      ck_admittedAt = pi_admittedAt input, ck_amountMinor = po_amountMinor (pi_offer input),
      ck_currency = po_currency (pi_offer input),
      ck_billingIntervalUnit = po_billingIntervalUnit (pi_offer input),
      ck_billingIntervalCount = po_billingIntervalCount (pi_offer input),
      ck_providerCheckoutId = None, ck_providerPaymentId = None, ck_checkoutReference = None,
      ck_paymentId = None, ck_failureCode = None, ck_createdAt = now, ck_updatedAt = now,
      ck_completedAt = None\<rparr>"

definition existing_intent ::
  "(nat \<Rightarrow> time) \<Rightarrow> prepare_input \<Rightarrow> account_observation \<Rightarrow> checkout_intent \<Rightarrow> prepare_result dbtx" where
  "existing_intent clock input account existing =
     (if ck_requestFingerprintSha256 (in_row existing) \<noteq> pi_requestFingerprintSha256 input then
        ret (PREP_REJECTED IDEMPOTENCY_KEY_REUSED)
      else if ck_provider (in_row existing) \<noteq> pi_provider input then
        ret (PREP_REJECTED CHECKOUT_PROVIDER_MISMATCH)
      else
        case actionabilityFailure account of
          None \<Rightarrow> ret (PREP_EXISTING existing)
        | Some blocked \<Rightarrow>
            if ck_state (in_row existing) = CREATING then
              andThen (terminalFailure existing blocked (pi_context input) (clock 2)) (\<lambda>terminal.
              ret (PREP_EXISTING (case terminal of FIN_FAILED intent _ \<Rightarrow> intent | _ \<Rightarrow> existing)))
            else ret (PREP_EXISTING existing))"

definition new_intent :: "prepare_input \<Rightarrow> account_observation \<Rightarrow> prepare_result dbtx" where
  "new_intent input account =
     (case actionabilityFailure account of
        Some code \<Rightarrow> ret (PREP_REJECTED code)
      | None \<Rightarrow>
          andThen (gets (\<lambda>s. otherActionableIntent s (pi_accountId input) (pi_idempotencyKeyHash input)))
            (\<lambda>actionable.
            case actionable of
              Some code \<Rightarrow> ret (PREP_REJECTED code)
            | None \<Rightarrow>
                andThen (gets db_now) (\<lambda>now.
                andThen (insert_checkout (created_row input now)) (\<lambda>row.
                andThen (intent_snapshot row None) (\<lambda>intent.
                andThen (audit_checkout (pi_context input) ''CHECKOUT_INTENT_CREATED'' (ck_id (in_row intent))
                  (intent_metadata (in_row intent))) (\<lambda>_.
                ret (PREP_CREATED intent)))))))"

text \<open>The decision, once the due transition of the account is written.\<close>

definition prepare_decided :: "(nat \<Rightarrow> time) \<Rightarrow> prepare_input \<Rightarrow> prepare_result dbtx" where
  "prepare_decided clock input =
     andThen (gets (\<lambda>s. accountPolicy s (pi_accountId input) (pi_actorId input) (clock 1))) (\<lambda>account.
     andThen (loadIntent (pi_accountId input) (pi_idempotencyKeyHash input)) (\<lambda>found.
     case found of
       Some existing \<Rightarrow> existing_intent clock input account existing
     | None \<Rightarrow> new_intent input account))"

definition prepare_transaction ::
  "(string \<Rightarrow> string) \<Rightarrow> (nat \<Rightarrow> time) \<Rightarrow> prepare_input \<Rightarrow> prepare_result dbtx" where
  "prepare_transaction H clock input =
     andThen (lockAccount (pi_accountId input)) (\<lambda>locked.
       if \<not> locked then ret (PREP_REJECTED ACCOUNT_NOT_FOUND)
       else
         andThen (materializeDueCurrentSubscriptionLocked H (pi_accountId input) (clock 0)
           (cx_correlationId (pi_context input))) (\<lambda>materialized.
         case materialized of
           MAT_CORRUPTED _ \<Rightarrow> ret (PREP_REJECTED CHECKOUT_CORRUPTED)
         | _ \<Rightarrow> prepare_decided clock input))"

definition prepareCheckout ::
  "(string \<Rightarrow> string) \<Rightarrow> (nat \<Rightarrow> time) \<Rightarrow> prepare_input \<Rightarrow> db \<Rightarrow> (failure + prepare_result) \<times> db" where
  "prepareCheckout H clock input s =
     (if checkout_context_schema (pi_context input)
      then transaction (prepare_transaction H clock input) s
      else (Inl (Thrown ''ZodError''), s))"

definition ordered_payment_row :: "checkout_intent_row \<Rightarrow> string \<Rightarrow> time \<Rightarrow> uuid \<Rightarrow> payment_row" where
  "ordered_payment_row r providerPaymentId now i =
     \<lparr>pay_id = i, pay_accountId = ck_accountId r, pay_subscriptionId = None, pay_provider = ck_provider r,
      pay_providerPaymentId = providerPaymentId, pay_priceRevisionId = ck_priceRevisionId r,
      pay_amountMinor = ck_amountMinor r, pay_currency = ck_currency r, pay_state = PENDING,
      pay_idempotencyKeyHash = ck_idempotencyKeyHash r,
      pay_requestFingerprintSha256 = ck_requestFingerprintSha256 r, pay_createdAt = now,
      pay_updatedAt = now, pay_confirmedAt = None\<rparr>"

definition new_job_row :: "uuid \<Rightarrow> time \<Rightarrow> reconciliation_job_row" where
  "new_job_row paymentId at =
     \<lparr>job_paymentId = paymentId, job_state = JOB_READY, job_nextAttemptAt = Some at,
      job_leaseToken = None, job_leaseUntil = None, job_attemptCount = 0, job_lastResultCode = None,
      job_createdAt = at, job_updatedAt = at\<rparr>"

definition ready_row ::
  "string \<Rightarrow> string \<Rightarrow> string \<Rightarrow> uuid \<Rightarrow> time \<Rightarrow> checkout_intent_row \<Rightarrow> checkout_intent_row" where
  "ready_row checkoutId providerPaymentId reference paymentId at r =
     r\<lparr>ck_state := READY, ck_providerCheckoutId := Some checkoutId,
       ck_providerPaymentId := Some providerPaymentId, ck_checkoutReference := Some reference,
       ck_paymentId := Some paymentId, ck_updatedAt := at, ck_completedAt := Some at\<rparr>"

text \<open>The writes that make an order payable: the payment, its job, the READY intent.\<close>

definition write_order ::
  "(nat \<Rightarrow> time) \<Rightarrow> uuid \<Rightarrow> checkout_intent_row \<Rightarrow> string \<Rightarrow> string \<Rightarrow> string \<Rightarrow> checkout_intent_row option dbtx" where
  "write_order clock intentId locked checkoutId providerPaymentId reference =
     andThen (gets db_now) (\<lambda>now.
     andThen (insert_payment (ordered_payment_row locked providerPaymentId now)) (\<lambda>payment.
     andThen (insert_job (new_job_row (pay_id payment) (clock 1))) (\<lambda>_.
     update_checkout intentId
       (ready_row checkoutId providerPaymentId reference (pay_id payment) (max now (clock 2))))))"

definition report_ready :: "checkout_context \<Rightarrow> checkout_intent_row option \<Rightarrow> finalize_result dbtx" where
  "report_ready context updated =
     andThen (returned_intent updated) (\<lambda>ready.
     andThen (audit_checkout context ''CHECKOUT_READY'' (ck_id (in_row ready))
       (intent_metadata (in_row ready)
          @ [(''paymentId'', case ck_paymentId (in_row ready) of None \<Rightarrow> JNull | Some p \<Rightarrow> JStr p)])) (\<lambda>_.
     ret (FIN_READY ready)))"

definition finalize_created ::
  "(string \<Rightarrow> string) \<Rightarrow> (nat \<Rightarrow> time) \<Rightarrow> uuid \<Rightarrow> checkout_context \<Rightarrow> checkout_intent
    \<Rightarrow> string \<Rightarrow> string \<Rightarrow> string \<Rightarrow> finalize_result dbtx" where
  "finalize_created H clock intentId context locked checkoutId providerPaymentId reference =
     andThen (materializeDueCurrentSubscriptionLocked H (ck_accountId (in_row locked)) (clock 0)
       (cx_correlationId context)) (\<lambda>materialized.
       case materialized of
         MAT_CORRUPTED _ \<Rightarrow> terminalFailure locked CHECKOUT_CORRUPTED context (clock 1)
       | MAT_CURRENT _ _ \<Rightarrow> terminalFailure locked CURRENT_SUBSCRIPTION_EXISTS context (clock 1)
       | MAT_NONE \<Rightarrow>
           andThen (write_order clock intentId (in_row locked) checkoutId providerPaymentId reference)
             (report_ready context))"

text \<open>The intent under the lock of its account.\<close>

definition locked_intent :: "uuid \<Rightarrow> checkout_intent option dbtx" where
  "locked_intent intentId =
     andThen (gets (\<lambda>s. checkout_of s intentId)) (\<lambda>found.
       case found of
         None \<Rightarrow> ret None
       | Some row \<Rightarrow>
           andThen (lockAccount (ck_accountId row)) (\<lambda>locked.
             if \<not> locked then ret None
             else
               andThen (gets (\<lambda>s. joined_payment s row)) (\<lambda>paymentState.
               andThen (intent_snapshot row paymentState) (\<lambda>i. ret (Some i)))))"

definition finalize_transaction ::
  "(string \<Rightarrow> string) \<Rightarrow> (nat \<Rightarrow> time) \<Rightarrow> uuid \<Rightarrow> string \<Rightarrow> checkout_context \<Rightarrow> provider_result
    \<Rightarrow> finalize_result dbtx" where
  "finalize_transaction H clock intentId provider context result =
     andThen (locked_intent intentId) (\<lambda>found.
       case found of
         None \<Rightarrow> ret (FIN_REJECTED CHECKOUT_CORRUPTED)
       | Some locked \<Rightarrow>
           if ck_state (in_row locked) \<noteq> CREATING then ret (terminal_intent locked)
           else
             andThen (gets (\<lambda>s. account_of s (ck_accountId (in_row locked)))) (\<lambda>account.
             case account of
               None \<Rightarrow> ret (FIN_REJECTED CHECKOUT_CORRUPTED)
             | Some a \<Rightarrow>
                 if ck_provider (in_row locked) \<noteq> provider then ret (FIN_REJECTED CHECKOUT_PROVIDER_MISMATCH)
                 else case result of
                        PROVIDER_CREATED checkoutId providerPaymentId reference \<Rightarrow>
                          if acct_status a = ACCOUNT_SUSPENDED then
                            terminalFailure locked ACCOUNT_IS_SUSPENDED context (clock 0)
                          else finalize_created H clock intentId context locked checkoutId providerPaymentId reference
                      | _ \<Rightarrow> terminalFailure locked PROVIDER_REJECTED context (clock 0)))"

definition finalizeCheckout ::
  "(string \<Rightarrow> string) \<Rightarrow> (nat \<Rightarrow> time) \<Rightarrow> uuid \<Rightarrow> string \<Rightarrow> checkout_context \<Rightarrow> provider_result \<Rightarrow> db
    \<Rightarrow> (failure + finalize_result) \<times> db" where
  "finalizeCheckout H clock intentId provider context result s =
     (if checkout_context_schema context \<and> provider_result_schema result
      then transaction (finalize_transaction H clock intentId provider context result) s
      else (Inl (Thrown ''ZodError''), s))"

definition fail_transaction ::
  "(nat \<Rightarrow> time) \<Rightarrow> uuid \<Rightarrow> checkout_failure \<Rightarrow> string \<Rightarrow> checkout_context \<Rightarrow> finalize_result dbtx" where
  "fail_transaction clock intentId code provider context =
     andThen (locked_intent intentId) (\<lambda>found.
       case found of
         None \<Rightarrow> ret (FIN_REJECTED CHECKOUT_CORRUPTED)
       | Some locked \<Rightarrow>
           if ck_provider (in_row locked) \<noteq> provider then ret (FIN_REJECTED CHECKOUT_PROVIDER_MISMATCH)
           else terminalFailure locked code context (clock 0))"

definition failCheckout ::
  "(nat \<Rightarrow> time) \<Rightarrow> uuid \<Rightarrow> checkout_failure \<Rightarrow> string \<Rightarrow> checkout_context \<Rightarrow> db
    \<Rightarrow> (failure + finalize_result) \<times> db" where
  "failCheckout clock intentId code provider context s =
     (if checkout_context_schema context
      then transaction (fail_transaction clock intentId code provider context) s
      else (Inl (Thrown ''ZodError''), s))"

section \<open>Every run is a path of the protocol\<close>

lemma intent_snapshot_Inr [simp]:
  "intent_snapshot r p s = Inr (i, s') \<longleftrightarrow>
     0 \<le> ck_amountMinor r \<and> ck_amountMinor r \<le> max_safe_integer
     \<and> i = \<lparr>in_row = r, in_paymentState = p\<rparr> \<and> s' = s"
  by (auto simp: intent_snapshot_def)

lemma protocol_intent_snapshot [tx_rules]: "protocol (intent_snapshot r p) s"
  by (rule protocolI) simp

lemma protocol_returned_intent [tx_rules]: "protocol (returned_intent row) s"
  unfolding returned_intent_def by (intro tx_rules)

lemma protocol_loadIntent [tx_rules]: "protocol (loadIntent a h) s"
  unfolding loadIntent_def by (intro tx_rules)

lemma protocol_locked_intent [tx_rules]: "protocol (locked_intent i) s"
  unfolding locked_intent_def by (intro tx_rules)

lemma protocol_audit_checkout [tx_rules]: "protocol (audit_checkout c a i m) s"
  by (simp add: audit_checkout_def protocol_audit)

lemma protocol_fail_checkout [tx_rules]: "protocol (update_checkout i (failed_row code at)) s"
  by (rule protocolI)
    (auto simp: update_checkout_Inr failed_row_def split: option.splits intro!: step.fail_checkout)

lemma protocol_terminalFailure [tx_rules]: "protocol (terminalFailure i code c at) s"
  unfolding terminalFailure_def by (intro tx_rules)

lemma protocol_fail_transaction [tx_rules]: "protocol (fail_transaction clock i code p c) s"
  unfolding fail_transaction_def by (intro tx_rules)

text \<open>What the loop over the other orders of the account has seen.\<close>

lemma actionable_row_None:
  "actionable_row rows = None \<longleftrightarrow>
     (\<forall>(r, p) \<in> set rows. ck_state r \<noteq> CREATING \<and> ck_paymentId r \<noteq> None
        \<and> (p = Some PAYMENT_FAILED \<or> p = Some PAYMENT_CANCELED))"
proof (induction rows)
  case (Cons x rows)
  show ?case
    by (cases x; cases "snd x"; cases "ck_paymentId (fst x)") (auto simp: Cons.IH)
qed simp

lemma no_open_order:
  assumes "otherActionableIntent s a h = None" and "find_intent s a h = None"
    and "c \<in> set (checkoutIntents s)" and "ck_accountId c = a"
  shows "\<not> order_open s c"
proof (cases "ck_state c = CHECKOUT_FAILED")
  case True
  then show ?thesis by (simp add: order_open_def)
next
  case False
  have "ck_idempotencyKeyHash c \<noteq> h"
    using assms(2-4) by (auto simp: find_intent_def find_None_mem)
  then have "(c, joined_payment s c) \<in> set (map (\<lambda>r. (r, joined_payment s r))
       (filter (\<lambda>c. ck_accountId c = a \<and> ck_idempotencyKeyHash c \<noteq> h \<and> ck_state c \<noteq> CHECKOUT_FAILED)
         (checkoutIntents s)))"
    using assms(3,4) False by simp
  then have "ck_state c \<noteq> CREATING" "joined_payment s c = Some PAYMENT_FAILED \<or> joined_payment s c = Some PAYMENT_CANCELED"
    using assms(1) unfolding otherActionableIntent_def actionable_row_None by blast+
  then show ?thesis
    by (auto simp: order_open_def joined_payment_def split: option.splits)
qed

lemma loadIntent_Inr:
  "loadIntent a h s = Inr (x, s') \<longleftrightarrow> s' = s \<and>
     (case find_intent s a h of
        None \<Rightarrow> x = None
      | Some r \<Rightarrow> 0 \<le> ck_amountMinor r \<and> ck_amountMinor r \<le> max_safe_integer
          \<and> x = Some \<lparr>in_row = r, in_paymentState = joined_payment s r\<rparr>)"
  by (auto simp: loadIntent_def andThen_Inr_iff split: option.splits)

lemma path_insert_checkout:
  assumes "insert_checkout (created_row input now) s = Inr (r, s')"
    and "otherActionableIntent s (pi_accountId input) (pi_idempotencyKeyHash input) = None"
    and "find_intent s (pi_accountId input) (pi_idempotencyKeyHash input) = None"
  shows "step\<^sup>*\<^sup>* s s'"
proof -
  let ?r = "created_row input now (db_uuids s (db_drawn s))"
  have r: "checkout_initial ?r" "checkout_accepted s (checkoutIntents s) ?r"
    and s': "s' = s\<lparr>checkoutIntents := checkoutIntents s @ [?r]\<rparr>\<lparr>db_drawn := Suc (db_drawn s)\<rparr>"
    using assms(1) by (auto simp: insert_checkout_Inr)
  have "\<forall>c \<in> set (checkoutIntents s). ck_accountId c = ck_accountId ?r \<longrightarrow> \<not> order_open s c"
    using no_open_order [OF assms(2,3)] by (simp add: created_row_def)
  then show ?thesis
    unfolding s' by (intro then_draw r_into_rtranclp step.create_checkout r)
qed

lemma protocol_new_intent:
  assumes "find_intent s (pi_accountId input) (pi_idempotencyKeyHash input) = None"
  shows "protocol (new_intent input account) s"
proof -
  have "protocol (insert_checkout (created_row input now)) s"
    if "otherActionableIntent s (pi_accountId input) (pi_idempotencyKeyHash input) = None" for now
    by (rule protocolI) (rule path_insert_checkout [OF _ that assms])
  then show ?thesis
    unfolding new_intent_def by (intro tx_rules)
qed

lemma protocol_existing_intent [tx_rules]: "protocol (existing_intent clock input account i) s"
  unfolding existing_intent_def by (intro tx_rules)

lemma protocol_prepare [tx_rules]: "protocol (prepare_transaction H clock input) s"
proof -
  have new: "protocol (new_intent input account) s1"
    if "loadIntent (pi_accountId input) (pi_idempotencyKeyHash input) s0 = Inr (None, s1)" for account s0 s1
    by (rule protocol_new_intent) (use that in \<open>auto simp: loadIntent_Inr split: option.splits\<close>)
  have "protocol (prepare_decided clock input) s0" for s0
    unfolding prepare_decided_def by (intro tx_rules; rule new; simp)
  then show ?thesis
    unfolding prepare_transaction_def by (intro tx_rules protocol_materialization)
qed

lemma path_write_order:
  assumes run: "write_order clock i r co pp ref s = Inr (Some u, s')" and row: "checkout_of s i = Some r"
  shows "step\<^sup>*\<^sup>* s s'"
proof -
  let ?q = "ordered_payment_row r pp (db_now s) (db_uuids s (db_drawn s))"
  let ?j = "new_job_row (pay_id ?q) (clock 1)"
  let ?f = "ready_row co pp ref (pay_id ?q) (max (db_now s) (clock 2))"
  let ?s1 = "s\<lparr>payments := payments s @ [?q]\<rparr>"
  have q: "payment_accepted s (payments s) ?q"
    and j: "job_paymentId ?j \<notin> job_paymentId ` set (jobs s)"
    and f: "checkout_update_guard r (?f r)"
      "checkout_accepted ?s1 (filter (\<lambda>o'. ck_id o' \<noteq> i) (checkoutIntents s)) (?f r)"
    and s': "s' = s\<lparr>payments := payments s @ [?q], jobs := jobs s @ [?j],
               checkoutIntents := update_where (\<lambda>x. ck_id x = i) ?f (checkoutIntents s)\<rparr>
               \<lparr>db_drawn := Suc (db_drawn s)\<rparr>"
    using run row
    by (auto simp: write_order_def andThen_Inr_iff insert_payment_Inr insert_job_Inr update_checkout_Inr)
  have "step s (s\<lparr>payments := payments s @ [?q], jobs := jobs s @ [?j],
      checkoutIntents := update_where (\<lambda>x. ck_id x = i) ?f (checkoutIntents s)\<rparr>)"
    by (rule step.ready_checkout [where r = r and f = ?f, OF row f(1) _ q _ _ _ _ f(2)])
      (use j in \<open>simp_all add: ready_row_def ordered_payment_row_def new_job_row_def checkout_matches_payment_def\<close>)
  then show ?thesis
    unfolding s' by (intro then_draw r_into_rtranclp)
qed

lemma protocol_write_order:
  assumes "checkout_of s i = Some r"
    and "\<And>u s'. write_order clock i r co pp ref s = Inr (Some u, s') \<Longrightarrow> protocol (f (Some u)) s'"
    and "\<And>s'. \<exists>e. f None s' = Inl e"
  shows "protocol (andThen (write_order clock i r co pp ref) f) s"
proof (rule protocolI)
  fix x t
  assume inv: "commercial_inv s" and "andThen (write_order clock i r co pp ref) f s = Inr (x, t)"
  then obtain u s' where w: "write_order clock i r co pp ref s = Inr (u, s')" and f: "f u s' = Inr (x, t)"
    by (auto simp: andThen_Inr_iff)
  obtain v where u: "u = Some v"
    using f assms(3) [of s'] by (cases u) auto
  have p: "step\<^sup>*\<^sup>* s s'"
    using path_write_order [OF _ assms(1)] w u by simp
  moreover have "step\<^sup>*\<^sup>* s' t"
    using moves_atD [OF assms(2) path_commercial_inv [OF p inv]] w f u by blast
  ultimately show "step\<^sup>*\<^sup>* s t" by simp
qed

lemma checkout_of_outside: "outside_subscriptions s s' \<Longrightarrow> checkout_of s' i = checkout_of s i"
  by (simp add: outside_subscriptions_def checkout_of_def)

lemma protocol_report_ready [tx_rules]: "protocol (report_ready c u) s"
  unfolding report_ready_def by (intro tx_rules)

lemma protocol_finalize_created:
  assumes "checkout_of s i = Some (in_row locked)"
  shows "protocol (finalize_created H clock i c locked co pp ref) s"
proof -
  have order: "protocol (andThen (write_order clock i (in_row locked) co pp ref) (report_ready c)) s1"
    if "materializeDueCurrentSubscriptionLocked H a at co' s = Inr (m, s1)" for a at co' m s1
    by (rule protocol_write_order)
      (use assms checkout_of_outside [OF materialize_frame [OF that]] in
        \<open>auto intro!: tx_rules simp: report_ready_def returned_intent_def throw_def\<close>)
  show ?thesis
    unfolding finalize_created_def
    by (rule tx_rules, rule tx_rules, rule protocol_materialization; (erule order | rule tx_rules)?)
qed

lemma locked_intent_Inr:
  "locked_intent i s = Inr (x, s') \<longleftrightarrow> s' = s \<and>
     (case checkout_of s i of
        None \<Rightarrow> x = None
      | Some r \<Rightarrow>
          if account_of s (ck_accountId r) = None then x = None
          else 0 \<le> ck_amountMinor r \<and> ck_amountMinor r \<le> max_safe_integer
            \<and> x = Some \<lparr>in_row = r, in_paymentState = joined_payment s r\<rparr>)"
  by (auto simp: locked_intent_def andThen_Inr_iff split: option.splits)

lemma protocol_finalize_transaction [tx_rules]: "protocol (finalize_transaction H clock i p c res) s"
proof -
  have created: "protocol (finalize_created H clock i c locked co pp ref) s1"
    if "locked_intent i s = Inr (Some locked, s1)" for locked co pp ref s1
    by (rule protocol_finalize_created)
      (use that in \<open>auto simp: locked_intent_Inr split: option.splits if_splits\<close>)
  show ?thesis
    unfolding finalize_transaction_def by (cases res) (auto intro!: tx_rules intro: created)
qed

lemma checkout_paths:
  assumes "commercial_inv s"
  shows "step\<^sup>*\<^sup>* s (snd (inspectCheckout clock a u h s)) \<and> commercial_inv (snd (inspectCheckout clock a u h s))"
    and "step\<^sup>*\<^sup>* s (snd (prepareCheckout H clock input s)) \<and> commercial_inv (snd (prepareCheckout H clock input s))"
    and "step\<^sup>*\<^sup>* s (snd (finalizeCheckout H clock i p c res s)) \<and> commercial_inv (snd (finalizeCheckout H clock i p c res s))"
    and "step\<^sup>*\<^sup>* s (snd (failCheckout clock i code p c s)) \<and> commercial_inv (snd (failCheckout clock i code p c s))"
proof -
  show "step\<^sup>*\<^sup>* s (snd (inspectCheckout clock a u h s)) \<and> commercial_inv (snd (inspectCheckout clock a u h s))"
    unfolding inspectCheckout_def by (intro moves_at_transaction tx_rules assms)
  show "step\<^sup>*\<^sup>* s (snd (prepareCheckout H clock input s)) \<and> commercial_inv (snd (prepareCheckout H clock input s))"
    using moves_at_transaction [OF protocol_prepare assms, of H clock input] assms by (simp add: prepareCheckout_def)
  show "step\<^sup>*\<^sup>* s (snd (finalizeCheckout H clock i p c res s)) \<and> commercial_inv (snd (finalizeCheckout H clock i p c res s))"
    using moves_at_transaction [OF protocol_finalize_transaction assms, of H clock i p c res] assms
    by (simp add: finalizeCheckout_def)
  show "step\<^sup>*\<^sup>* s (snd (failCheckout clock i code p c s)) \<and> commercial_inv (snd (failCheckout clock i code p c s))"
    using moves_at_transaction [OF protocol_fail_transaction assms, of clock i code p c] assms
    by (simp add: failCheckout_def)
qed

section \<open>One open order\<close>

definition one_open_order :: "db \<Rightarrow> bool" where
  "one_open_order s \<longleftrightarrow>
     (\<forall>c \<in> set (checkoutIntents s). \<forall>c' \<in> set (checkoutIntents s).
        ck_accountId c = ck_accountId c' \<longrightarrow> order_open s c \<longrightarrow> order_open s c' \<longrightarrow> c = c')"

lemma payment_of_update:
  assumes "keys_distinct s" and "payment_of s p = Some q" and "same_payment q (f q)"
  shows "payment_of (s'\<lparr>payments := update_where (\<lambda>x. pay_id x = p) f (payments s)\<rparr>) x
    = (if x = p then Some (f q) else payment_of s x)"
proof -
  have "pay_id (f q) = p"
    using assms(2,3) find_Some_mem [of "\<lambda>r. pay_id r = p" "payments s" q] by (simp add: payment_of_def same_payment_def)
  then show ?thesis
    using find_update_row [OF keys_distinctD(3) [OF assms(1)], of p q f x] assms(2)
    by (simp add: payment_of_def)
qed

lemma open_payment_update:
  assumes "keys_distinct s" and "payment_of s p = Some q" and "same_payment q (f q)"
    and "pay_state (f q) = PENDING \<Longrightarrow> pay_state q = PENDING"
    and "payments s' = update_where (\<lambda>x. pay_id x = p) f (payments s)" and "order_open s' c"
  shows "order_open s c"
proof -
  have upd: "payment_of s' x = (if x = p then Some (f q) else payment_of s x)" for x
    using payment_of_update [of s p q f s' x] assms(1-3,5) by (simp add: payment_of_def)
  show ?thesis
  proof (cases "ck_paymentId c = Some p")
    case True
    then show ?thesis
      using assms(2,4,6) by (auto simp: order_open_def upd)
  next
    case False
    then show ?thesis
      using assms(6) by (auto simp: order_open_def upd split: option.splits)
  qed
qed

lemma one_open_shrinks:
  assumes "one_open_order s" and "checkoutIntents s' = checkoutIntents s"
    and "\<And>c. order_open s' c \<Longrightarrow> order_open s c"
  shows "one_open_order s'"
  unfolding one_open_order_def assms(2)
proof (intro ballI impI)
  fix c c'
  assume "c \<in> set (checkoutIntents s)" "c' \<in> set (checkoutIntents s)" "ck_accountId c = ck_accountId c'"
    "order_open s' c" "order_open s' c'"
  then show "c = c'"
    using assms(1,3) unfolding one_open_order_def by blast
qed

lemma one_open_updated:
  assumes one: "one_open_order s" and r: "r \<in> set (checkoutIntents s)" "ck_accountId r' = ck_accountId r"
    and rows: "set (checkoutIntents s') = insert r' (set (checkoutIntents s) - {r})"
    and opened: "order_open s' r' \<Longrightarrow> order_open s r"
    and others: "\<And>c. c \<in> set (checkoutIntents s) \<Longrightarrow> order_open s' c \<Longrightarrow> order_open s c"
  shows "one_open_order s'"
proof -
  have written: "c = r'" if c: "c \<in> set (checkoutIntents s')" "ck_accountId c = ck_accountId r"
    "order_open s' c" "order_open s' r'" for c
  proof (rule ccontr)
    assume "c \<noteq> r'"
    then have "c \<in> set (checkoutIntents s)" "c \<noteq> r"
      using c(1) rows by auto
    moreover have "order_open s c" "order_open s r"
      using calculation(1) others c(3) opened c(4) by blast+
    ultimately show False
      using one r(1) c(2) unfolding one_open_order_def by blast
  qed
  show ?thesis
    unfolding one_open_order_def
  proof (intro ballI impI)
    fix c c'
    assume c: "c \<in> set (checkoutIntents s')" "c' \<in> set (checkoutIntents s')"
      "ck_accountId c = ck_accountId c'" "order_open s' c" "order_open s' c'"
    show "c = c'"
    proof (cases "c = r' \<or> c' = r'")
      case True
      then show ?thesis using written [of c] written [of c'] c r(2) by metis
    next
      case False
      then have "c \<in> set (checkoutIntents s)" "c' \<in> set (checkoutIntents s)"
        using c(1,2) rows by auto
      then show ?thesis
        using one others c(3-5) unfolding one_open_order_def by blast
    qed
  qed
qed

lemma order_open_same:
  "payments s' = payments s \<Longrightarrow> order_open s' c = order_open s c"
  by (simp add: order_open_def payment_of_def cong: option.case_cong)

lemma one_open_same:
  "one_open_order s \<Longrightarrow> checkoutIntents s' = checkoutIntents s \<Longrightarrow> payments s' = payments s \<Longrightarrow>
     one_open_order s'"
  using one_open_shrinks order_open_same by blast

lemma paid_intent_payment:
  assumes "orders_coherent s" and "c \<in> set (checkoutIntents s)" and "ck_paymentId c = Some p"
  shows "payment_of s p \<noteq> None"
proof -
  have "\<exists>q \<in> set (payments s). pay_id q = p"
    using assms unfolding orders_coherent_def orders_ok_def checkout_paid_def by fastforce
  then show ?thesis
    by (auto simp: payment_of_def find_None_mem)
qed

lemma step_one_open_order:
  assumes "step s s'" and "keys_distinct s" and "orders_coherent s" and "one_open_order s"
  shows "one_open_order s'"
  using assms
proof (induction rule: step.induct)
  case (activate s r t p q f)
  show ?case
    by (rule one_open_shrinks [OF activate.prems(3)])
      (simp, rule open_payment_update [where f = f, OF activate.prems(1) activate.hyps(2,3)],
        use activate.hyps(6) in simp_all)
next
  case (settle_payment s p q f)
  show ?case
    by (rule one_open_shrinks [OF settle_payment.prems(3)])
      (simp, rule open_payment_update [where f = f, OF settle_payment.prems(1) settle_payment.hyps(1,2)],
        use settle_payment.hyps(4) in \<open>auto simp: payment_progress_def\<close>)
next
  case (create_checkout r s)
  have same: "order_open (s\<lparr>checkoutIntents := t\<rparr>) c = order_open s c" for t c
    by (rule order_open_same) simp
  show ?case
    using create_checkout by (auto simp: one_open_order_def same)
next
  case (fail_checkout s i r f)
  have same: "order_open (s\<lparr>checkoutIntents := t\<rparr>) c = order_open s c" for t c
    by (rule order_open_same) simp
  show ?case
    by (rule one_open_updated [OF fail_checkout.prems(3), where r = r and r' = "f r"])
      (use checkout_rows [OF fail_checkout.prems(1) fail_checkout.hyps(1), of f] fail_checkout.hyps(2)
        in \<open>auto simp: same checkout_update_guard_def\<close>, simp add: order_open_def)
next
  case (ready_checkout s i r f q j)
  have other: "order_open s c"
    if "c \<in> set (checkoutIntents s)" "order_open (s\<lparr>payments := payments s @ [q], jobs := js, checkoutIntents := t\<rparr>) c"
    for c js t
    using that paid_intent_payment [OF ready_checkout.prems(2) that(1)]
    by (auto simp: order_open_def payment_of_def find_append split: option.splits)
  show ?case
    by (rule one_open_updated [OF ready_checkout.prems(3), where r = r and r' = "f r"])
      (use checkout_rows [OF ready_checkout.prems(1) ready_checkout.hyps(1), of f] ready_checkout.hyps other
        in \<open>auto simp: checkout_update_guard_def\<close>, simp add: order_open_def)
qed (erule one_open_same, simp, simp)+

lemma path_one_open_order:
  assumes "step\<^sup>*\<^sup>* s s'" and "commercial_inv s" and "one_open_order s"
  shows "one_open_order s'"
  using assms
proof (induction rule: rtranclp_induct)
  case (step t u)
  then have "commercial_inv t" by (meson path_commercial_inv)
  then show ?case
    using step step_one_open_order by (auto dest: commercial_invD)
qed simp

section \<open>What persists of an intent\<close>

text \<open>The identity and the terms of an intent are never rewritten.\<close>

definition same_order :: "checkout_intent_row \<Rightarrow> checkout_intent_row \<Rightarrow> bool" where
  "same_order r r' \<longleftrightarrow>
     ck_id r' = ck_id r \<and> ck_accountId r' = ck_accountId r \<and> ck_provider r' = ck_provider r
     \<and> ck_priceRevisionId r' = ck_priceRevisionId r \<and> ck_planRevisionId r' = ck_planRevisionId r
     \<and> ck_idempotencyKeyHash r' = ck_idempotencyKeyHash r
     \<and> ck_requestFingerprintSha256 r' = ck_requestFingerprintSha256 r
     \<and> ck_amountMinor r' = ck_amountMinor r \<and> ck_currency r' = ck_currency r
     \<and> (ck_state r \<noteq> CREATING \<longrightarrow> r' = r)"

lemma same_order_refl: "same_order r r"
  by (simp add: same_order_def)

lemma same_order_trans: "same_order a b \<Longrightarrow> same_order b c \<Longrightarrow> same_order a c"
  by (auto simp: same_order_def)

definition orders_kept :: "db \<Rightarrow> db \<Rightarrow> bool" where
  "orders_kept s s' \<longleftrightarrow> (\<forall>r \<in> set (checkoutIntents s). \<exists>r' \<in> set (checkoutIntents s'). same_order r r')
     \<and> accounts s' = accounts s"

lemma orders_kept_update:
  assumes "keys_distinct s" and "checkout_of s i = Some r" and "checkout_update_guard r (f r)"
    and "checkoutIntents s' = update_where (\<lambda>x. ck_id x = i) f (checkoutIntents s)" and "accounts s' = accounts s"
  shows "orders_kept s s'"
proof -
  have "same_order r (f r)"
    using assms(3) by (simp add: checkout_update_guard_def same_order_def)
  moreover have "set (checkoutIntents s') = insert (f r) (set (checkoutIntents s) - {r})"
    unfolding assms(4) using checkout_rows [OF assms(1,2)] by simp
  ultimately show ?thesis
    using assms(5) same_order_refl unfolding orders_kept_def by blast
qed

lemma orders_kept_more:
  "checkoutIntents s' = checkoutIntents s @ rs \<Longrightarrow> accounts s' = accounts s \<Longrightarrow> orders_kept s s'"
  using same_order_refl by (fastforce simp: orders_kept_def)

lemma step_orders_kept:
  assumes "step s s'" and "keys_distinct s"
  shows "orders_kept s s'"
  using assms
proof (induction rule: step.induct)
  case (fail_checkout s i r f)
  show ?case
    by (rule orders_kept_update [where f = f, OF fail_checkout.prems fail_checkout.hyps(1,2)]) simp_all
next
  case (ready_checkout s i r f q j)
  show ?case
    by (rule orders_kept_update [where f = f, OF ready_checkout.prems ready_checkout.hyps(1,2)]) simp_all
next
  case (create_checkout r s)
  show ?case by (rule orders_kept_more) simp_all
qed (simp_all add: orders_kept_more [where rs = "[]"])

lemma path_orders_kept:
  assumes "step\<^sup>*\<^sup>* s s'" and "commercial_inv s"
  shows "orders_kept s s'"
  using assms
proof (induction rule: rtranclp_induct)
  case base
  show ?case by (auto simp: orders_kept_def intro: same_order_refl)
next
  case (step t u)
  have "commercial_inv t"
    using step.hyps(1) step.prems by (rule path_commercial_inv)
  then have "orders_kept t u"
    using step_orders_kept [OF step.hyps(2)] by (simp add: commercial_invD)
  then show ?case
    using step.IH [OF step.prems] unfolding orders_kept_def by (metis same_order_trans)
qed

text \<open>At most one intent carries a key of an account: the unique index, kept by every step.\<close>

definition keys_unique :: "db \<Rightarrow> bool" where
  "keys_unique s \<longleftrightarrow> distinct (map (\<lambda>r. (ck_accountId r, ck_idempotencyKeyHash r)) (checkoutIntents s))"

lemma checkout_key_map:
  assumes "keys_distinct s" and "checkout_of s i = Some r" and "checkout_update_guard r (f r)"
  shows "map (\<lambda>r. (ck_accountId r, ck_idempotencyKeyHash r)) (update_where (\<lambda>x. ck_id x = i) f (checkoutIntents s))
    = map (\<lambda>r. (ck_accountId r, ck_idempotencyKeyHash r)) (checkoutIntents s)"
  using assms keys_distinctD(5) [OF assms(1)]
  by (intro map_update_row [where r = r]) (simp_all add: checkout_of_def checkout_update_guard_def)

lemma step_keys_unique:
  assumes "step s s'" and "keys_distinct s" and "keys_unique s"
  shows "keys_unique s'"
  using assms
proof (induction rule: step.induct)
  case (create_checkout r s)
  then show ?case
    by (auto simp: keys_unique_def checkout_accepted_def list_all_iff checkout_distinct_def)
next
  case (fail_checkout s i r f)
  then show ?case
    using checkout_key_map [where f = f, OF fail_checkout.prems(1) fail_checkout.hyps(1,2)] by (simp add: keys_unique_def)
next
  case (ready_checkout s i r f q j)
  then show ?case
    using checkout_key_map [where f = f, OF ready_checkout.prems(1) ready_checkout.hyps(1,2)] by (simp add: keys_unique_def)
qed (simp_all add: keys_unique_def)

lemma path_keys_unique:
  assumes "step\<^sup>*\<^sup>* s s'" and "commercial_inv s" and "keys_unique s"
  shows "keys_unique s'"
  using assms
proof (induction rule: rtranclp_induct)
  case (step t u)
  then have "commercial_inv t" by (meson path_commercial_inv)
  then show ?case
    using step step_keys_unique by (auto dest: commercial_invD)
qed simp

lemma find_intent_row:
  assumes "keys_unique s" and "r \<in> set (checkoutIntents s)"
  shows "find_intent s (ck_accountId r) (ck_idempotencyKeyHash r) = Some r"
proof -
  let ?k = "\<lambda>r. (ck_accountId r, ck_idempotencyKeyHash r)"
  have "List.find (\<lambda>x. ?k x = ?k r) (checkoutIntents s) = Some r"
    using assms by (intro find_unique) (simp_all add: keys_unique_def)
  then show ?thesis by (simp add: find_intent_def)
qed

section \<open>What the operations commit\<close>

definition intents_of :: "db \<Rightarrow> uuid list" where
  "intents_of s = map ck_id (checkoutIntents s)"

lemma intents_of_outside: "outside_subscriptions s s' \<Longrightarrow> intents_of s' = intents_of s"
  by (simp add: outside_subscriptions_def intents_of_def)

text \<open>Failing an intent writes that row and nothing else of the tables of commerce.\<close>

lemma terminalFailure_effect:
  assumes "terminalFailure i code c at s = Inr (x, s')" and "checkout_of s (ck_id (in_row i)) = Some (in_row i)"
    and "ck_state (in_row i) = CREATING"
  shows "x = FIN_FAILED \<lparr>in_row = failed_row code (max (db_now s) at) (in_row i), in_paymentState = None\<rparr> code"
    and "checkoutIntents s' = update_where (\<lambda>x. ck_id x = ck_id (in_row i))
      (failed_row code (max (db_now s) at)) (checkoutIntents s)"
    and "payments s' = payments s" "jobs s' = jobs s" "subscriptions s' = subscriptions s"
  using assms
  by (auto simp: terminalFailure_def andThen_Inr_iff update_checkout_Inr returned_intent_def audit_checkout_def
      insert_audit_Inr)

lemma failed_row_fields [simp]:
  "ck_id (failed_row code at r) = ck_id r" "ck_state (failed_row code at r) = CHECKOUT_FAILED"
  "ck_accountId (failed_row code at r) = ck_accountId r"
  "ck_failureCode (failed_row code at r) = Some code"
  by (simp_all add: failed_row_def)

lemma ready_row_fields [simp]:
  "ck_id (ready_row co pp ref p at r) = ck_id r" "ck_state (ready_row co pp ref p at r) = READY"
  "ck_paymentId (ready_row co pp ref p at r) = Some p"
  by (simp_all add: ready_row_def)

lemma checkout_of_id: "checkout_of s i = Some r \<Longrightarrow> ck_id r = i"
  using find_Some_mem by (fastforce simp: checkout_of_def)

lemma update_intent_row:
  assumes "checkout_of s i = Some r" and "\<And>x. ck_id (f x) = ck_id x"
    and "checkoutIntents s' = update_where (\<lambda>x. ck_id x = i) f (checkoutIntents s)"
  shows "checkout_of s' i = Some (f r)" "intents_of s' = intents_of s"
proof -
  show "checkout_of s' i = Some (f r)"
    using assms by (simp add: checkout_of_def find_update_where [where k = ck_id])
  show "intents_of s' = intents_of s"
    unfolding intents_of_def assms(3) by (rule update_where_keeps_keys) (rule assms(2))
qed

definition order_failed ::
  "db \<Rightarrow> checkout_intent_row \<Rightarrow> checkout_failure \<Rightarrow> finalize_result \<Rightarrow> db \<Rightarrow> bool" where
  "order_failed s r code x s' \<longleftrightarrow>
     (\<exists>at. x = FIN_FAILED \<lparr>in_row = failed_row code at r, in_paymentState = None\<rparr> code
        \<and> checkout_of s' (ck_id r) = Some (failed_row code at r))
     \<and> payments s' = payments s \<and> jobs s' = jobs s"

definition order_ready ::
  "db \<Rightarrow> checkout_intent_row \<Rightarrow> string \<Rightarrow> string \<Rightarrow> string \<Rightarrow> finalize_result \<Rightarrow> db \<Rightarrow> bool" where
  "order_ready s r co pp ref x s' \<longleftrightarrow>
     (\<exists>p at due. x = FIN_READY \<lparr>in_row = ready_row co pp ref p at r, in_paymentState = None\<rparr>
        \<and> checkout_of s' (ck_id r) = Some (ready_row co pp ref p at r)
        \<and> payments s' = payments s @ [ordered_payment_row r pp (db_now s) p]
        \<and> jobs s' = jobs s @ [new_job_row p due])
     \<and> current_subscription s' (ck_accountId r) = None"

lemma terminal_order_failed:
  assumes "terminalFailure i code c at s1 = Inr (x, s')" and "checkout_of s1 (ck_id (in_row i)) = Some (in_row i)"
    and "ck_state (in_row i) = CREATING" and "payments s1 = payments s" "jobs s1 = jobs s"
  shows "order_failed s (in_row i) code x s'"
proof -
  note eff = terminalFailure_effect [OF assms(1-3)]
  have "checkout_of s' (ck_id (in_row i)) = Some (failed_row code (max (db_now s1) at) (in_row i))"
    by (rule update_intent_row(1) [OF assms(2) _ eff(2)]) simp
  then show ?thesis
    using eff(1,3,4) assms(4,5) by (auto simp: order_failed_def)
qed

lemma write_order_effect:
  assumes "write_order clock i r co pp ref s = Inr (Some u, s')" and "checkout_of s i = Some r"
  obtains p at where "u = ready_row co pp ref p at r" "checkout_of s' i = Some u"
    "payments s' = payments s @ [ordered_payment_row r pp (db_now s) p]"
    "jobs s' = jobs s @ [new_job_row p (clock 1)]" "subscriptions s' = subscriptions s"
proof -
  let ?p = "db_uuids s (db_drawn s)"
  let ?f = "ready_row co pp ref ?p (max (db_now s) (clock 2))"
  have w: "u = ?f r" "checkoutIntents s' = update_where (\<lambda>x. ck_id x = i) ?f (checkoutIntents s)"
    "payments s' = payments s @ [ordered_payment_row r pp (db_now s) ?p]"
    "jobs s' = jobs s @ [new_job_row ?p (clock 1)]" "subscriptions s' = subscriptions s"
    using assms
    by (auto simp: write_order_def andThen_Inr_iff insert_payment_Inr insert_job_Inr update_checkout_Inr
        ordered_payment_row_def)
  moreover have "checkout_of s' i = Some (?f r)"
    by (rule update_intent_row(1) [OF assms(2) _ w(2)]) simp
  ultimately show thesis using that by metis
qed

lemma current_subscription_same:
  "subscriptions s' = subscriptions s \<Longrightarrow> current_subscription s' a = current_subscription s a"
  by (simp add: current_subscription_def)

lemma finalize_created_outcome:
  assumes inv: "commercial_inv s" and row: "checkout_of s i = Some (in_row l)" and st: "ck_state (in_row l) = CREATING"
    and run: "finalize_created H clock i c l co pp ref s = Inr (x, s')"
  shows "if hasCurrentSubscriptionAt s (ck_accountId (in_row l)) (clock 0)
    then \<exists>code \<in> {CHECKOUT_CORRUPTED, CURRENT_SUBSCRIPTION_EXISTS}. order_failed s (in_row l) code x s'
    else order_ready s (in_row l) co pp ref x s'"
proof -
  let ?r = "in_row l"
  obtain m s1 where mat: "materializeDueCurrentSubscriptionLocked H (ck_accountId ?r) (clock 0) (cx_correlationId c) s = Inr (m, s1)"
    and rest: "(case m of
         MAT_CORRUPTED _ \<Rightarrow> terminalFailure l CHECKOUT_CORRUPTED c (clock 1)
       | MAT_CURRENT _ _ \<Rightarrow> terminalFailure l CURRENT_SUBSCRIPTION_EXISTS c (clock 1)
       | MAT_NONE \<Rightarrow>
           andThen (write_order clock i ?r co pp ref) (report_ready c)) s1 = Inr (x, s')"
    using run unfolding finalize_created_def by (auto simp only: andThen_Inr_iff)
  note out = materialize_frame [OF mat]
  have row1: "checkout_of s1 i = Some ?r" "checkout_of s1 (ck_id ?r) = Some ?r"
    using row checkout_of_outside [OF out] checkout_of_id [OF row] by simp_all
  have same: "payments s1 = payments s" "jobs s1 = jobs s" "db_now s1 = db_now s"
    using out by (simp_all add: outside_subscriptions_def)
  note pre = preflight_agrees [OF mat]
  show ?thesis
  proof (cases m)
    case MAT_NONE
    then obtain u s2 where w: "write_order clock i ?r co pp ref s1 = Inr (u, s2)"
      and last: "report_ready c u s2 = Inr (x, s')"
      using rest by (auto simp: andThen_Inr_iff)
    obtain v where u: "u = Some v"
      using last by (cases u) (auto simp: report_ready_def returned_intent_def andThen_Inr_iff)
    obtain p at where v: "v = ready_row co pp ref p at ?r" "checkout_of s2 i = Some v"
      "payments s2 = payments s1 @ [ordered_payment_row ?r pp (db_now s1) p]"
      "jobs s2 = jobs s1 @ [new_job_row p (clock 1)]" "subscriptions s2 = subscriptions s1"
      by (rule write_order_effect [OF w [unfolded u] row1(1)])
    have x: "x = FIN_READY \<lparr>in_row = v, in_paymentState = None\<rparr>"
      and s': "checkoutIntents s' = checkoutIntents s2" "payments s' = payments s2" "jobs s' = jobs s2"
        "subscriptions s' = subscriptions s2"
      using last by (auto simp: u report_ready_def returned_intent_def andThen_Inr_iff audit_checkout_def insert_audit_Inr)
    have "current_subscription s1 (ck_accountId ?r) = None"
      using materialize_None_current [OF inv] mat MAT_NONE by simp
    then have "current_subscription s' (ck_accountId ?r) = None"
      using s'(4) v(5) by (simp add: current_subscription_def)
    moreover have "checkout_of s' (ck_id ?r) = Some v"
      using v(2) s'(1) checkout_of_id [OF row] by (simp add: checkout_of_def)
    ultimately have "order_ready s ?r co pp ref x s'"
      unfolding order_ready_def x s' v(3,4) same v(1) by blast
    then show ?thesis using pre MAT_NONE by simp
  next
    case (MAT_CURRENT j t)
    have "order_failed s ?r CURRENT_SUBSCRIPTION_EXISTS x s'"
      using rest MAT_CURRENT by (intro terminal_order_failed [OF _ row1(2) st same(1,2)]) simp
    then show ?thesis using pre MAT_CURRENT by simp
  next
    case (MAT_CORRUPTED j)
    have "order_failed s ?r CHECKOUT_CORRUPTED x s'"
      using rest MAT_CORRUPTED by (intro terminal_order_failed [OF _ row1(2) st same(1,2)]) simp
    then show ?thesis using pre MAT_CORRUPTED by simp
  qed
qed

section \<open>Properties\<close>

text \<open>C36. When the provider has created the payment, an order that is being created becomes payable exactly
  when its account is active and has no current subscription: one new pending payment that carries
  the terms of the intent, its reconciliation job, and the READY intent that points at it. Otherwise
  the order is failed, for the reason, and neither a payment nor a job is written.\<close>

theorem checkout_finalize_outcome:
  assumes "commercial_inv s" and "checkout_of s i = Some r" and "ck_state r = CREATING"
    and "account_of s (ck_accountId r) = Some a" and "ck_provider r = p"
    and "finalizeCheckout H clock i p c (PROVIDER_CREATED co pp ref) s = (Inr x, s')"
  shows "if acct_status a = ACCOUNT_ACTIVE \<and> \<not> hasCurrentSubscriptionAt s (ck_accountId r) (clock 0)
    then order_ready s r co pp ref x s'
    else \<exists>code \<in> {ACCOUNT_IS_SUSPENDED, CHECKOUT_CORRUPTED, CURRENT_SUBSCRIPTION_EXISTS}. order_failed s r code x s'"
proof -
  have run: "finalize_transaction H clock i p c (PROVIDER_CREATED co pp ref) s = Inr (x, s')"
    using assms(6) by (auto simp: finalizeCheckout_def transaction_def split: if_splits sum.splits prod.splits)
  let ?l = "\<lparr>in_row = r, in_paymentState = joined_payment s r\<rparr>"
  have "(if acct_status a = ACCOUNT_SUSPENDED then terminalFailure ?l ACCOUNT_IS_SUSPENDED c (clock 0)
      else finalize_created H clock i c ?l co pp ref) s = Inr (x, s')"
    using run assms(2-5)
    by (auto simp: finalize_transaction_def andThen_Inr_iff [of "locked_intent i"] locked_intent_Inr)
  then consider "acct_status a = ACCOUNT_SUSPENDED" "terminalFailure ?l ACCOUNT_IS_SUSPENDED c (clock 0) s = Inr (x, s')"
    | "acct_status a = ACCOUNT_ACTIVE" "finalize_created H clock i c ?l co pp ref s = Inr (x, s')"
    by (cases "acct_status a") auto
  then show ?thesis
  proof cases
    case 1
    have "order_failed s r ACCOUNT_IS_SUSPENDED x s'"
      using terminal_order_failed [OF 1(2), of s] assms(2,3) checkout_of_id [OF assms(2)] by simp
    then show ?thesis using 1(1) by simp
  next
    case 2
    from finalize_created_outcome [OF assms(1) _ _ 2(2)] assms(2,3) 2(1) show ?thesis
      by (auto split: if_splits)
  qed
qed

lemma prepareCheckout_run:
  "prepareCheckout H clock input s = (Inr x, s') \<longleftrightarrow>
     checkout_context_schema (pi_context input) \<and> prepare_transaction H clock input s = Inr (x, s')"
  by (auto simp: prepareCheckout_def transaction_def split: sum.splits prod.splits)

lemma outside_reads:
  assumes "outside_subscriptions s s'"
  shows "find_intent s' a h = find_intent s a h" "joined_payment s' c = joined_payment s c"
    "otherActionableIntent s' a h = otherActionableIntent s a h" "payments s' = payments s"
proof -
  have same: "checkoutIntents s' = checkoutIntents s" "payments s' = payments s"
    using assms by (simp_all add: outside_subscriptions_def)
  have join: "joined_payment s' r = joined_payment s r" for r
    by (cases "ck_paymentId r") (simp_all add: joined_payment_def payment_of_def same)
  show "find_intent s' a h = find_intent s a h" "joined_payment s' c = joined_payment s c"
    "otherActionableIntent s' a h = otherActionableIntent s a h" "payments s' = payments s"
    by (simp_all add: find_intent_def otherActionableIntent_def same join)
qed

text \<open>A run of the preparation, after the lock and the materialization.\<close>

lemma prepare_run_cases:
  assumes run: "prepare_transaction H clock input s = Inr (x, s')"
  obtains (unknown) "account_of s (pi_accountId input) = None" "x = PREP_REJECTED ACCOUNT_NOT_FOUND" "s' = s"
  | (corrupted) i where "materializeDueCurrentSubscriptionLocked H (pi_accountId input) (clock 0)
        (cx_correlationId (pi_context input)) s = Inr (MAT_CORRUPTED i, s')" "x = PREP_REJECTED CHECKOUT_CORRUPTED"
  | (existing) s1 r where "outside_subscriptions s s1"
      "find_intent s (pi_accountId input) (pi_idempotencyKeyHash input) = Some r"
      "0 \<le> ck_amountMinor r \<and> ck_amountMinor r \<le> max_safe_integer"
      "existing_intent clock input (accountPolicy s1 (pi_accountId input) (pi_actorId input) (clock 1))
        \<lparr>in_row = r, in_paymentState = joined_payment s r\<rparr> s1 = Inr (x, s')"
  | (fresh) s1 where "outside_subscriptions s s1"
      "find_intent s (pi_accountId input) (pi_idempotencyKeyHash input) = None"
      "new_intent input (accountPolicy s1 (pi_accountId input) (pi_actorId input) (clock 1)) s1 = Inr (x, s')"
proof (cases "account_of s (pi_accountId input)")
  case None
  then show thesis
    using unknown run by (simp add: prepare_transaction_def)
next
  case (Some a)
  obtain m s1 where mat: "materializeDueCurrentSubscriptionLocked H (pi_accountId input) (clock 0)
      (cx_correlationId (pi_context input)) s = Inr (m, s1)"
    and rest: "(case m of
           MAT_CORRUPTED _ \<Rightarrow> ret (PREP_REJECTED CHECKOUT_CORRUPTED)
         | _ \<Rightarrow> prepare_decided clock input) s1 = Inr (x, s')"
    using run Some by (auto simp: prepare_transaction_def andThen_Inr_iff)
  note out = materialize_frame [OF mat]
  note same = outside_reads [OF out]
  show thesis
  proof (cases "find_intent s (pi_accountId input) (pi_idempotencyKeyHash input)")
    case None
    then show thesis
      using fresh [OF out None] corrupted mat rest
      by (cases m) (auto simp: prepare_decided_def andThen_Inr_iff loadIntent_Inr same)
  next
    case (Some r)
    then show thesis
      using existing [OF out Some] corrupted mat rest
      by (cases m) (auto simp: prepare_decided_def andThen_Inr_iff loadIntent_Inr same)
  qed
qed

lemma new_intent_created:
  assumes "new_intent input account s = Inr (PREP_CREATED i, s')"
  shows "in_row i \<in> set (checkoutIntents s')" "ck_accountId (in_row i) = pi_accountId input"
    "ck_idempotencyKeyHash (in_row i) = pi_idempotencyKeyHash input"
    "ck_requestFingerprintSha256 (in_row i) = pi_requestFingerprintSha256 input"
    "ck_provider (in_row i) = pi_provider input" "ck_state (in_row i) = CREATING"
    "otherActionableIntent s (pi_accountId input) (pi_idempotencyKeyHash input) = None"
  using assms
  by (auto simp: new_intent_def andThen_Inr_iff insert_checkout_Inr audit_checkout_def insert_audit_Inr
      created_row_def split: option.splits)

lemma existing_intent_result:
  assumes "existing_intent clock input account i s = Inr (x, s')"
    and "checkout_of s (ck_id (in_row i)) = Some (in_row i)"
    and "ck_requestFingerprintSha256 (in_row i) = pi_requestFingerprintSha256 input"
    and "ck_provider (in_row i) = pi_provider input"
  shows "(\<exists>i'. x = PREP_EXISTING i' \<and> ck_id (in_row i') = ck_id (in_row i))
    \<and> intents_of s' = intents_of s \<and> payments s' = payments s"
proof (cases "actionabilityFailure account = None \<or> ck_state (in_row i) \<noteq> CREATING")
  case True
  then show ?thesis
    using assms(1,3,4) by (auto simp: existing_intent_def split: option.splits)
next
  case False
  then obtain code y s1 where t: "terminalFailure i code (pi_context input) (clock 2) s = Inr (y, s1)"
    and x: "x = PREP_EXISTING (case y of FIN_FAILED intent _ \<Rightarrow> intent | _ \<Rightarrow> i)" "s' = s1"
    using assms(1,3,4) by (auto simp: existing_intent_def andThen_Inr_iff)
  have st: "ck_state (in_row i) = CREATING"
    using False by simp
  note eff = terminalFailure_effect [OF t assms(2) st]
  have "intents_of s1 = intents_of s"
    by (rule update_intent_row(2) [OF assms(2) _ eff(2)]) simp
  then show ?thesis
    using x eff(1,3) by simp
qed

lemma prepare_not_created:
  assumes "prepare_transaction H clock input s = Inr (PREP_CREATED i, s')"
  shows "otherActionableIntent s (pi_accountId input) (pi_idempotencyKeyHash input) = None"
  using assms
proof (cases rule: prepare_run_cases)
  case (existing s1 r)
  then show ?thesis
    by (auto simp: existing_intent_def andThen_Inr_iff split: option.splits if_splits)
next
  case (fresh s1)
  show ?thesis
    using new_intent_created(7) [OF fresh(3)] by (simp add: outside_reads [OF fresh(1)])
qed simp_all

lemma prepare_created:
  assumes "prepare_transaction H clock input s = Inr (PREP_CREATED i, s')"
  obtains s1 account where "new_intent input account s1 = Inr (PREP_CREATED i, s')"
  using assms
  by (cases rule: prepare_run_cases)
    (auto simp: existing_intent_def andThen_Inr_iff split: option.splits if_splits)



section \<open>Examples\<close>

definition example_input :: prepare_input where
  "example_input =
     \<lparr>pi_accountId = ''acct'', pi_actorId = ''user'', pi_provider = ''sim'',
      pi_idempotencyKeyHash = example_hash, pi_requestFingerprintSha256 = example_hash, pi_admittedAt = 900,
      pi_offer = \<lparr>po_priceRevisionId = ''price-r1'', po_planRevisionId = ''plan-r1'', po_amountMinor = 990,
        po_currency = ''EUR'', po_billingIntervalUnit = MONTH, po_billingIntervalCount = 1\<rparr>,
      pi_context = \<lparr>cx_actorId = ''user'', cx_correlationId = ''c-1''\<rparr>\<rparr>"

definition example_intent :: checkout_intent_row where
  "example_intent = created_row example_input 1000 ''u''"

definition prepared_db :: db where
  "prepared_db = snd (prepareCheckout example_digest example_clock example_input example_db)"

definition readied_db :: db where
  "readied_db = snd (finalizeCheckout example_digest example_clock ''u'' ''sim'' (pi_context example_input)
     (PROVIDER_CREATED ''c-1'' ''p-1'' ''ref-1'') prepared_db)"

lemmas checkout_eval [eval_simps] = prepareCheckout_def prepare_transaction_def prepare_decided_def
  new_intent_def existing_intent_def created_row_def actionabilityFailure_def accountPolicy_def
  loadIntent_def find_intent_def joined_payment_def otherActionableIntent_def intent_snapshot_def
  audit_checkout_def intent_metadata_def checkout_context_schema_def correlation_schema_def
  finalizeCheckout_def finalize_transaction_def finalize_created_def locked_intent_def lockAccount_def
  write_order_def ordered_payment_row_def new_job_row_def ready_row_def report_ready_def returned_intent_def
  provider_result_schema_def opaque_reference_schema_def terminalFailure_def failed_row_def
  terminal_intent_def stored_failure_def failCheckout_def fail_transaction_def inspectCheckout_def

lemmas checkout_examples = prepared_db_def example_intent_def example_input_def example_db_def

lemma prepare_run:
  "prepareCheckout example_digest example_clock example_input example_db
     = (Inr (PREP_CREATED \<lparr>in_row = example_intent, in_paymentState = None\<rparr>), prepared_db)"
  by (simp add: checkout_examples eval_simps del: set_filter)

lemma prepared_db_fields:
  "checkoutIntents prepared_db = [example_intent]" "accounts prepared_db = accounts example_db"
  "subscriptions prepared_db = []" "payments prepared_db = []" "db_now prepared_db = 1000"
  by (simp_all add: checkout_examples eval_simps del: set_filter)

lemma prepared_db_inv: "commercial_inv prepared_db"
  using checkout_paths(2) [OF example_db_inv, of example_digest example_clock example_input]
  by (simp add: prepare_run)

lemma finalize_run:
  "\<exists>x. finalizeCheckout example_digest example_clock ''u'' ''sim'' (pi_context example_input)
     (PROVIDER_CREATED ''c-1'' ''p-1'' ''ref-1'') prepared_db = (Inr x, readied_db)"
  by (simp add: readied_db_def checkout_examples eval_simps del: set_filter)

theorem checkout_finalize_outcome_witness:
  "\<exists>x. order_ready prepared_db example_intent ''c-1'' ''p-1'' ''ref-1'' x readied_db"
proof -
  obtain x where run: "finalizeCheckout example_digest example_clock ''u'' ''sim'' (pi_context example_input)
     (PROVIDER_CREATED ''c-1'' ''p-1'' ''ref-1'') prepared_db = (Inr x, readied_db)"
    using finalize_run by blast
  have row: "checkout_of prepared_db ''u'' = Some example_intent" "ck_state example_intent = CREATING"
    "account_of prepared_db (ck_accountId example_intent) = Some \<lparr>acct_id = ''acct'', acct_status = ACCOUNT_ACTIVE\<rparr>"
    "ck_provider example_intent = ''sim''"
    by (simp_all add: checkout_of_def account_of_def prepared_db_fields)
      (simp_all add: example_intent_def created_row_def example_input_def example_db_def)
  have "\<not> hasCurrentSubscriptionAt prepared_db (ck_accountId example_intent) 2500"
    by (simp add: hasCurrentSubscriptionAt_def classify_def current_subscription_def prepared_db_fields)
  then show ?thesis
    using checkout_finalize_outcome [OF prepared_db_inv row run] by auto
qed


lemma example_hash_head: "example_hash \<noteq> CHR ''b'' # xs"
proof
  assume "example_hash = CHR ''b'' # xs"
  from arg_cong [OF this, of hd] show False by (simp add: example_hash_def)
qed


end
