(* ===== verification/Checkout_Service.thy ===== *)
theory Checkout_Service
  imports Checkout
begin

text \<open>
  \<open>createCheckoutService\<close> of packages/server/billing/src/index.ts. The repository is given by its four
  operations; the offer resolver and the billing provider are the ports of the service: functions
  that return None when the call throws. \<open>H\<close> is the SHA-256 digest.
\<close>

section \<open>Requests and answers\<close>

record checkout_command =
  cc_accountId :: uuid
  cc_priceRevisionId :: uuid
  cc_idempotencyKey :: string

definition idempotency_key_schema :: "string \<Rightarrow> bool" where
  "idempotency_key_schema k \<longleftrightarrow>
     16 \<le> length k \<and> length k \<le> 128
     \<and> list_all (\<lambda>c. is_lower c \<or> is_upper c \<or> is_digit c \<or> c \<in> set ''._:-'') k"

record provider_input =
  pr_providerRequestId :: uuid
  pr_amountMinor :: int
  pr_currency :: string
  pr_billingIntervalUnit :: interval_unit
  pr_billingIntervalCount :: int

record ready_checkout =
  rc_checkoutIntentId :: uuid
  rc_paymentId :: uuid
  rc_planRevisionId :: uuid
  rc_priceRevisionId :: uuid
  rc_amountMinor :: int
  rc_currency :: string
  rc_billingIntervalUnit :: interval_unit
  rc_billingIntervalCount :: int
  rc_provider :: string
  rc_checkoutReference :: string

datatype checkout_result =
    CK_READY bool ready_checkout
  | CK_REJECTED checkout_failure bool
  | CK_RETRYABLE checkout_failure uuid

definition hashCheckoutIdempotencyKey :: "(string \<Rightarrow> string) \<Rightarrow> string \<Rightarrow> string" where
  "hashCheckoutIdempotencyKey H key = H (''product-control-plane/checkout-idempotency/v1'' @ newline @ key)"

definition fingerprintCheckoutRequest :: "(string \<Rightarrow> string) \<Rightarrow> uuid \<Rightarrow> uuid \<Rightarrow> string" where
  "fingerprintCheckoutRequest H accountId priceRevisionId =
     H (''product-control-plane/checkout-request/v1'' @ newline @ ''accountId='' @ accountId
        @ newline @ ''priceRevisionId='' @ priceRevisionId)"

section \<open>Deciding about an existing intent\<close>

definition terminalReadyFailure :: "checkout_intent \<Rightarrow> account_observation \<Rightarrow> checkout_failure option" where
  "terminalReadyFailure intent observation =
     (case in_paymentState intent of
        Some PENDING \<Rightarrow> None
      | Some PAYMENT_FAILED \<Rightarrow> Some CHECKOUT_PAYMENT_FAILED
      | Some PAYMENT_CANCELED \<Rightarrow> Some CHECKOUT_PAYMENT_CANCELED
      | Some SUCCEEDED \<Rightarrow>
          Some (if ob_hasCurrentSubscription observation then CURRENT_SUBSCRIPTION_EXISTS else CHECKOUT_CORRUPTED)
      | _ \<Rightarrow> Some CHECKOUT_CORRUPTED)"

text \<open>A string that is truthy: there and not empty.\<close>

definition truthy :: "string option \<Rightarrow> bool" where
  "truthy x = (case x of None \<Rightarrow> False | Some v \<Rightarrow> v \<noteq> [])"

definition readyResult :: "checkout_intent \<Rightarrow> bool \<Rightarrow> checkout_result" where
  "readyResult intent replayed =
     (let r = in_row intent in
      if ck_state r \<noteq> READY \<or> \<not> truthy (ck_paymentId r) \<or> \<not> truthy (ck_checkoutReference r)
         \<or> \<not> truthy (ck_providerCheckoutId r) \<or> \<not> truthy (ck_providerPaymentId r)
      then CK_REJECTED CHECKOUT_CORRUPTED replayed
      else CK_READY replayed
        \<lparr>rc_checkoutIntentId = ck_id r, rc_paymentId = the (ck_paymentId r),
         rc_planRevisionId = ck_planRevisionId r, rc_priceRevisionId = ck_priceRevisionId r,
         rc_amountMinor = ck_amountMinor r, rc_currency = ck_currency r,
         rc_billingIntervalUnit = ck_billingIntervalUnit r,
         rc_billingIntervalCount = ck_billingIntervalCount r, rc_provider = ck_provider r,
         rc_checkoutReference = the (ck_checkoutReference r)\<rparr>)"

fun finalizeToResult :: "finalize_result \<Rightarrow> bool \<Rightarrow> uuid \<Rightarrow> checkout_result" where
  "finalizeToResult (FIN_READY intent) replayed _ = readyResult intent replayed"
| "finalizeToResult (FIN_FAILED _ code) replayed _ = CK_REJECTED code replayed"
| "finalizeToResult (FIN_REJECTED code) replayed _ = CK_REJECTED code replayed"
| "finalizeToResult FIN_SERVICE_UNAVAILABLE _ fallbackIntentId = CK_RETRYABLE SERVICE_UNAVAILABLE fallbackIntentId"

text \<open>The answer for a READY intent.\<close>

definition replay_ready :: "checkout_intent \<Rightarrow> account_observation \<Rightarrow> checkout_result" where
  "replay_ready intent observation =
     (case terminalReadyFailure intent observation of
        Some code \<Rightarrow> CK_REJECTED code True
      | None \<Rightarrow>
          (case actionabilityFailure observation of
             Some code \<Rightarrow> CK_REJECTED code True
           | None \<Rightarrow> readyResult intent True))"

definition finishExisting ::
  "string \<Rightarrow> (uuid \<Rightarrow> checkout_failure \<Rightarrow> string \<Rightarrow> checkout_context \<Rightarrow> 's \<Rightarrow> (failure + finalize_result) \<times> 's)
    \<Rightarrow> checkout_intent \<Rightarrow> account_observation \<Rightarrow> string \<Rightarrow> checkout_context \<Rightarrow> 's \<Rightarrow> checkout_result option \<times> 's" where
  "finishExisting key failIt intent observation fingerprint context s =
     (let r = in_row intent in
      if ck_requestFingerprintSha256 r \<noteq> fingerprint then (None, s)
      else if ck_provider r \<noteq> key then (Some (CK_REJECTED CHECKOUT_PROVIDER_MISMATCH True), s)
      else case ck_state r of
             CHECKOUT_FAILED \<Rightarrow> (Some (CK_REJECTED (stored_failure intent) True), s)
           | READY \<Rightarrow> (Some (replay_ready intent observation), s)
           | CREATING \<Rightarrow>
               (case actionabilityFailure observation of
                  None \<Rightarrow> (None, s)
                | Some blocked \<Rightarrow>
                    (case failIt (ck_id r) blocked key context s of
                       (Inl _, s') \<Rightarrow> (Some (CK_RETRYABLE SERVICE_UNAVAILABLE (ck_id r)), s')
                     | (Inr failed, s') \<Rightarrow> (Some (finalizeToResult failed True (ck_id r)), s'))))"

section \<open>Creating a checkout\<close>

text \<open>The provider is asked with the terms of the stored intent; its answer is written.\<close>

definition provider_request :: "checkout_intent_row \<Rightarrow> provider_input" where
  "provider_request r =
     \<lparr>pr_providerRequestId = ck_id r, pr_amountMinor = ck_amountMinor r, pr_currency = ck_currency r,
      pr_billingIntervalUnit = ck_billingIntervalUnit r, pr_billingIntervalCount = ck_billingIntervalCount r\<rparr>"

definition complete_order ::
  "string \<Rightarrow> (provider_input \<Rightarrow> provider_result option)
    \<Rightarrow> (uuid \<Rightarrow> string \<Rightarrow> checkout_context \<Rightarrow> provider_result \<Rightarrow> 's \<Rightarrow> (failure + finalize_result) \<times> 's)
    \<Rightarrow> checkout_intent \<Rightarrow> bool \<Rightarrow> checkout_context \<Rightarrow> 's \<Rightarrow> checkout_result \<times> 's" where
  "complete_order key provider finalizeIt intent replayed context s =
     (let r = in_row intent in
      case provider (provider_request r) of
        None \<Rightarrow> (CK_RETRYABLE PROVIDER_UNAVAILABLE (ck_id r), s)
      | Some answer \<Rightarrow>
          if \<not> provider_result_schema answer \<or> answer = PROVIDER_IS_UNAVAILABLE
          then (CK_RETRYABLE PROVIDER_UNAVAILABLE (ck_id r), s)
          else
            (case finalizeIt (ck_id r) key context answer s of
               (Inl _, s') \<Rightarrow> (CK_RETRYABLE SERVICE_UNAVAILABLE (ck_id r), s')
             | (Inr finalized, s') \<Rightarrow> (finalizeToResult finalized replayed (ck_id r), s')))"

text \<open>The offer and the time of admission: those of the intent, or of a fresh resolution.\<close>

definition order_terms ::
  "(uuid \<Rightarrow> time \<Rightarrow> (offer_failure + purchasable_offer) option) \<Rightarrow> time \<Rightarrow> uuid \<Rightarrow> checkout_intent option
    \<Rightarrow> checkout_failure + purchasable_offer \<times> time" where
  "order_terms resolver now priceRevisionId intent =
     (case intent of
        Some i \<Rightarrow>
          (let r = in_row i in
           Inr (\<lparr>po_priceRevisionId = ck_priceRevisionId r, po_planRevisionId = ck_planRevisionId r,
                 po_amountMinor = ck_amountMinor r, po_currency = ck_currency r,
                 po_billingIntervalUnit = ck_billingIntervalUnit r,
                 po_billingIntervalCount = ck_billingIntervalCount r\<rparr>, ck_admittedAt r))
      | None \<Rightarrow>
          (case resolver priceRevisionId now of
             None \<Rightarrow> Inl SERVICE_UNAVAILABLE
           | Some (Inl code) \<Rightarrow> Inl (OFFER_FAILURE code)
           | Some (Inr offer) \<Rightarrow> Inr (offer, now)))"

text \<open>From the preparation on.\<close>

definition place_order ::
  "string \<Rightarrow> (provider_input \<Rightarrow> provider_result option)
    \<Rightarrow> (prepare_input \<Rightarrow> 's \<Rightarrow> (failure + prepare_result) \<times> 's)
    \<Rightarrow> (uuid \<Rightarrow> string \<Rightarrow> checkout_context \<Rightarrow> provider_result \<Rightarrow> 's \<Rightarrow> (failure + finalize_result) \<times> 's)
    \<Rightarrow> (uuid \<Rightarrow> checkout_failure \<Rightarrow> string \<Rightarrow> checkout_context \<Rightarrow> 's \<Rightarrow> (failure + finalize_result) \<times> 's)
    \<Rightarrow> account_observation \<Rightarrow> checkout_intent option \<Rightarrow> prepare_input \<Rightarrow> 's \<Rightarrow> checkout_result \<times> 's" where
  "place_order key provider prepareIt finalizeIt failIt account intent input s =
     (case prepareIt input s of
        (Inl _, s') \<Rightarrow>
          (CK_RETRYABLE SERVICE_UNAVAILABLE (case intent of None \<Rightarrow> '''' | Some i \<Rightarrow> ck_id (in_row i)), s')
      | (Inr (PREP_REJECTED code), s') \<Rightarrow> (CK_REJECTED code (intent \<noteq> None), s')
      | (Inr (PREP_EXISTING i), s') \<Rightarrow>
          (case finishExisting key failIt i account (pi_requestFingerprintSha256 input) (pi_context input) s' of
             (Some resumed, s'') \<Rightarrow> (resumed, s'')
           | (None, s'') \<Rightarrow> complete_order key provider finalizeIt i True (pi_context input) s'')
      | (Inr (PREP_CREATED i), s') \<Rightarrow> complete_order key provider finalizeIt i False (pi_context input) s')"

definition createCheckout ::
  "(string \<Rightarrow> string) \<Rightarrow> string \<Rightarrow> (provider_input \<Rightarrow> provider_result option)
    \<Rightarrow> (uuid \<Rightarrow> time \<Rightarrow> (offer_failure + purchasable_offer) option) \<Rightarrow> time
    \<Rightarrow> (uuid \<Rightarrow> uuid \<Rightarrow> string \<Rightarrow> 's \<Rightarrow> (failure + account_observation \<times> checkout_intent option) \<times> 's)
    \<Rightarrow> (prepare_input \<Rightarrow> 's \<Rightarrow> (failure + prepare_result) \<times> 's)
    \<Rightarrow> (uuid \<Rightarrow> string \<Rightarrow> checkout_context \<Rightarrow> provider_result \<Rightarrow> 's \<Rightarrow> (failure + finalize_result) \<times> 's)
    \<Rightarrow> (uuid \<Rightarrow> checkout_failure \<Rightarrow> string \<Rightarrow> checkout_context \<Rightarrow> 's \<Rightarrow> (failure + finalize_result) \<times> 's)
    \<Rightarrow> checkout_command \<Rightarrow> checkout_context \<Rightarrow> 's \<Rightarrow> (failure + checkout_result) \<times> 's" where
  "createCheckout H key provider resolver now inspect prepareIt finalizeIt failIt command context s =
     (if \<not> idempotency_key_schema (cc_idempotencyKey command) \<or> \<not> checkout_context_schema context then
        (Inl (Thrown ''ZodError''), s)
      else
        let hash = hashCheckoutIdempotencyKey H (cc_idempotencyKey command);
            fingerprint = fingerprintCheckoutRequest H (cc_accountId command) (cc_priceRevisionId command) in
        case inspect (cc_accountId command) (cx_actorId context) hash s of
          (Inl _, s1) \<Rightarrow> (Inr (CK_RETRYABLE SERVICE_UNAVAILABLE ''''), s1)
        | (Inr (account, intent), s1) \<Rightarrow>
            (case (case intent of
                     None \<Rightarrow> (None, s1)
                   | Some i \<Rightarrow>
                       if ck_requestFingerprintSha256 (in_row i) \<noteq> fingerprint
                       then (Some (CK_REJECTED IDEMPOTENCY_KEY_REUSED True), s1)
                       else finishExisting key failIt i account fingerprint context s1) of
               (Some answer, s2) \<Rightarrow> (Inr answer, s2)
             | (None, s2) \<Rightarrow>
                 (case actionabilityFailure account of
                    Some blocked \<Rightarrow> (Inr (CK_REJECTED blocked (intent \<noteq> None)), s2)
                  | None \<Rightarrow>
                      (case order_terms resolver now (cc_priceRevisionId command) intent of
                         Inl code \<Rightarrow> (Inr (CK_REJECTED code False), s2)
                       | Inr (offer, admittedAt) \<Rightarrow>
                           (case place_order key provider prepareIt finalizeIt failIt account intent
                                 \<lparr>pi_accountId = cc_accountId command, pi_actorId = cx_actorId context,
                                  pi_provider = key, pi_idempotencyKeyHash = hash,
                                  pi_requestFingerprintSha256 = fingerprint, pi_admittedAt = admittedAt,
                                  pi_offer = offer, pi_context = context\<rparr> s2 of
                              (answer, s3) \<Rightarrow> (Inr answer, s3))))))"

section \<open>The repository as the service sees it\<close>

text \<open>
  \<open>CheckoutRepository\<close>: inspecting writes nothing and shows an intent only to an owner of the
  account; every operation keeps the invariant of the store.
\<close>

locale checkout_repository =
  fixes inv :: "'s \<Rightarrow> bool"
    and inspect :: "uuid \<Rightarrow> uuid \<Rightarrow> string \<Rightarrow> 's \<Rightarrow> (failure + account_observation \<times> checkout_intent option) \<times> 's"
    and prepareIt :: "prepare_input \<Rightarrow> 's \<Rightarrow> (failure + prepare_result) \<times> 's"
    and finalizeIt :: "uuid \<Rightarrow> string \<Rightarrow> checkout_context \<Rightarrow> provider_result \<Rightarrow> 's \<Rightarrow> (failure + finalize_result) \<times> 's"
    and failIt :: "uuid \<Rightarrow> checkout_failure \<Rightarrow> string \<Rightarrow> checkout_context \<Rightarrow> 's \<Rightarrow> (failure + finalize_result) \<times> 's"
  assumes inspect_reads: "snd (inspect a u h s) = s"
    and inspect_owner: "inspect a u h s = (Inr (account, intent), s') \<Longrightarrow> \<not> ob_owner account \<Longrightarrow> intent = None"
    and prepare_keeps: "inv s \<Longrightarrow> inv (snd (prepareIt input s))"
    and finalize_keeps: "inv s \<Longrightarrow> inv (snd (finalizeIt i p c res s))"
    and fail_keeps: "inv s \<Longrightarrow> inv (snd (failIt i code p c s))"
begin

lemma finish_keeps: "inv s \<Longrightarrow> inv (snd (finishExisting key failIt i o' f c s))"
  using fail_keeps [of s "ck_id (in_row i)" _ key c]
  by (auto simp: finishExisting_def Let_def split: checkout_state.split option.split prod.split sum.split)
    (metis snd_conv)+

lemma complete_keeps: "inv s \<Longrightarrow> inv (snd (complete_order key provider finalizeIt i b c s))"
  using finalize_keeps [of s "ck_id (in_row i)" key c]
  by (auto simp: complete_order_def Let_def split: option.split prod.split sum.split) (metis snd_conv)+

lemma place_keeps:
  assumes "inv s"
  shows "inv (snd (place_order key provider prepareIt finalizeIt failIt account intent input s))"
proof -
  obtain x s1 where prep: "prepareIt input s = (x, s1)" by fastforce
  have inv1: "inv s1"
    using prepare_keeps [OF assms, of input] prep by simp
  show ?thesis
  proof (cases x)
    case (Inl f)
    then show ?thesis using prep inv1 by (simp add: place_order_def)
  next
    case (Inr r)
    show ?thesis
    proof (cases r)
      case (PREP_EXISTING i)
      obtain y s2 where fin: "finishExisting key failIt i account (pi_requestFingerprintSha256 input) (pi_context input) s1
          = (y, s2)" by fastforce
      have "inv s2"
        using finish_keeps [OF inv1, of key i account "pi_requestFingerprintSha256 input" "pi_context input"] fin by simp
      then show ?thesis
        using prep Inr PREP_EXISTING fin complete_keeps by (cases y) (simp_all add: place_order_def)
    qed (use prep Inr inv1 complete_keeps in \<open>simp_all add: place_order_def\<close>)
  qed
qed

lemma service_keeps:
  assumes "inv s"
  shows "inv (snd (createCheckout H key provider resolver now inspect prepareIt finalizeIt failIt cmd c s))"
proof -
  let ?h = "hashCheckoutIdempotencyKey H (cc_idempotencyKey cmd)"
  obtain x s1 where ins: "inspect (cc_accountId cmd) (cx_actorId c) ?h s = (x, s1)" by fastforce
  have "s1 = s"
    using inspect_reads [of "cc_accountId cmd" "cx_actorId c" ?h s] ins by simp
  with ins assms place_keeps finish_keeps show ?thesis
    by (auto simp: createCheckout_def Let_def split: sum.split prod.split option.split)
      (metis snd_conv)+
qed

text \<open>Somebody who is not an owner of the account causes no write and no call of the provider.\<close>

lemma stranger_refused:
  assumes "inspect (cc_accountId cmd) (cx_actorId c) (hashCheckoutIdempotencyKey H (cc_idempotencyKey cmd)) s
      = (Inr (account, intent), s')" and "\<not> ob_owner account"
    and "idempotency_key_schema (cc_idempotencyKey cmd)" "checkout_context_schema c"
  shows "\<exists>code \<in> {ACCOUNT_NOT_FOUND, FORBIDDEN}.
    createCheckout H key provider resolver now inspect prepareIt finalizeIt failIt cmd c s
      = (Inr (CK_REJECTED code False), s)"
proof -
  have "s' = s"
    using inspect_reads assms(1) by (metis snd_conv)
  moreover have "intent = None"
    by (rule inspect_owner [OF assms(1,2)])
  ultimately show ?thesis
    using assms by (simp add: createCheckout_def Let_def actionabilityFailure_def)
qed

text \<open>A READY intent with the fingerprint and the provider of the request is answered from the store.\<close>

lemma ready_answered:
  assumes "inspect (cc_accountId cmd) (cx_actorId c) (hashCheckoutIdempotencyKey H (cc_idempotencyKey cmd)) s
      = (Inr (account, Some i), s')"
    and "ck_requestFingerprintSha256 (in_row i) = fingerprintCheckoutRequest H (cc_accountId cmd) (cc_priceRevisionId cmd)"
    and "ck_provider (in_row i) = key" and "ck_state (in_row i) = READY"
    and "idempotency_key_schema (cc_idempotencyKey cmd)" "checkout_context_schema c"
  shows "createCheckout H key provider resolver now inspect prepareIt finalizeIt failIt cmd c s
    = (Inr (replay_ready i account), s)"
proof -
  have "s' = s"
    using inspect_reads assms(1) by (metis snd_conv)
  then show ?thesis
    using assms by (simp add: createCheckout_def Let_def finishExisting_def)
qed

end

section \<open>The repository of the model\<close>

text \<open>The invariant of the store that every part of the commercial core keeps.\<close>

definition shop_inv :: "db \<Rightarrow> bool" where
  "shop_inv s \<longleftrightarrow> commercial_inv s \<and> all_settled s \<and> one_open_order s \<and> keys_unique s"

lemma shop_path:
  assumes "shop_inv s" and "step\<^sup>*\<^sup>* s s'" and "all_settled s'"
  shows "shop_inv s'"
  using assms path_commercial_inv path_one_open_order path_keys_unique by (auto simp: shop_inv_def)

text \<open>Checkout does not touch the event ledger.\<close>

lemma checkout_event_frames:
  "insert_checkout mk s = Inr (r, s') \<Longrightarrow> billingEvents s' = billingEvents s"
  "update_checkout i f s = Inr (u, s') \<Longrightarrow> billingEvents s' = billingEvents s"
  "audit_checkout c a i m s = Inr (v, s') \<Longrightarrow> billingEvents s' = billingEvents s"
  "write_order clock i row co pp ref s = Inr (w, s') \<Longrightarrow> billingEvents s' = billingEvents s"
  "intent_snapshot row' p s = Inr (x, s') \<Longrightarrow> billingEvents s' = billingEvents s"
  "returned_intent u s = Inr (y, s') \<Longrightarrow> billingEvents s' = billingEvents s"
  "loadIntent a h s = Inr (z, s') \<Longrightarrow> billingEvents s' = billingEvents s"
  "locked_intent i s = Inr (z, s') \<Longrightarrow> billingEvents s' = billingEvents s"
  by (auto simp: insert_checkout_Inr update_checkout_Inr audit_checkout_def insert_audit_Inr write_order_def
      andThen_Inr_iff insert_payment_Inr insert_job_Inr returned_intent_def loadIntent_Inr locked_intent_Inr
      split: option.splits)

lemma terminalFailure_events:
  "billingEvents s = e \<Longrightarrow> yields (terminalFailure i code c at) s (\<lambda>_ s'. billingEvents s' = e)"
  unfolding terminalFailure_def
  by (intro yields_rules) (auto dest!: checkout_event_frames)

lemma existing_events:
  "billingEvents s = e \<Longrightarrow> yields (existing_intent clock input account i) s (\<lambda>_ s'. billingEvents s' = e)"
  unfolding existing_intent_def
  by (intro yields_rules) (auto dest: yieldsD [OF terminalFailure_events [OF refl]])

lemma new_events:
  "billingEvents s = e \<Longrightarrow> yields (new_intent input account) s (\<lambda>_ s'. billingEvents s' = e)"
  unfolding new_intent_def
  by (intro yields_rules) (auto dest!: checkout_event_frames)

lemma prepare_events:
  "billingEvents s = e \<Longrightarrow> yields (prepare_transaction H clock input) s (\<lambda>_ s'. billingEvents s' = e)"
  unfolding prepare_transaction_def prepare_decided_def
  by (intro yields_rules existing_events new_events) (auto dest!: ledger_frames checkout_event_frames)

lemma finalize_events:
  "billingEvents s = e \<Longrightarrow> yields (finalize_transaction H clock i p c res) s (\<lambda>_ s'. billingEvents s' = e)"
  unfolding finalize_transaction_def finalize_created_def report_ready_def
  by (cases res)
    (auto intro!: yields_rules terminalFailure_events dest!: ledger_frames checkout_event_frames)

lemma fail_events:
  "billingEvents s = e \<Longrightarrow> yields (fail_transaction clock i code p c) s (\<lambda>_ s'. billingEvents s' = e)"
  unfolding fail_transaction_def
  by (intro yields_rules terminalFailure_events) (auto dest!: checkout_event_frames)

lemma settled_transaction:
  assumes "\<And>e. billingEvents s = e \<Longrightarrow> yields m s (\<lambda>_ s'. billingEvents s' = e)" and "all_settled s"
  shows "all_settled (snd (transaction m s))"
proof (cases rule: transaction_cases [of m s])
  case (commit x s')
  then have "billingEvents s' = billingEvents s"
    using yieldsD [OF assms(1) [OF refl]] by blast
  then show ?thesis
    using assms(2) commit(2) by (simp add: all_settled_def)
qed (use assms(2) in simp)

lemma checkout_keeps_shop:
  assumes "shop_inv s"
  shows "shop_inv (snd (prepareCheckout H clock input s))"
    and "shop_inv (snd (finalizeCheckout H clock i p c res s))"
    and "shop_inv (snd (failCheckout clock i code p c s))"
proof -
  have inv: "commercial_inv s" and all: "all_settled s"
    using assms by (simp_all add: shop_inv_def)
  have "all_settled (snd (prepareCheckout H clock input s))"
    using settled_transaction [OF prepare_events all] all by (simp add: prepareCheckout_def)
  then show "shop_inv (snd (prepareCheckout H clock input s))"
    using shop_path [OF assms] checkout_paths(2) [OF inv] by blast
  have "all_settled (snd (finalizeCheckout H clock i p c res s))"
    using settled_transaction [OF finalize_events all] all by (simp add: finalizeCheckout_def)
  then show "shop_inv (snd (finalizeCheckout H clock i p c res s))"
    using shop_path [OF assms] checkout_paths(3) [OF inv] by blast
  have "all_settled (snd (failCheckout clock i code p c s))"
    using settled_transaction [OF fail_events all] all by (simp add: failCheckout_def)
  then show "shop_inv (snd (failCheckout clock i code p c s))"
    using shop_path [OF assms] checkout_paths(4) [OF inv] by blast
qed

lemma inspectCheckout_run:
  "inspectCheckout clock a u h s =
     (let account = accountPolicy s a u (clock 0) in
      if ob_accountExists account \<and> ob_owner account then
        (case find_intent s a h of
           None \<Rightarrow> (Inr (account, None), s)
         | Some r \<Rightarrow>
             if 0 \<le> ck_amountMinor r \<and> ck_amountMinor r \<le> max_safe_integer
             then (Inr (account, Some \<lparr>in_row = r, in_paymentState = joined_payment s r\<rparr>), s)
             else (Inl (Thrown ''CHECKOUT_CORRUPTED''), s))
      else (Inr (account, None), s))"
  by (simp add: inspectCheckout_def transaction_def loadIntent_def intent_snapshot_def andThen_def gets_def
      ret_def throw_def Let_def split: option.split)

interpretation checkouts: checkout_repository shop_inv "inspectCheckout clock1" "prepareCheckout H clock2"
    "finalizeCheckout H clock3" "failCheckout clock4"
proof
  fix a u h s account intent s' input i p c res code
  show "snd (inspectCheckout clock1 a u h s) = s"
    by (simp add: inspectCheckout_run Let_def split: option.split)
  show "inspectCheckout clock1 a u h s = (Inr (account, intent), s') \<Longrightarrow> \<not> ob_owner account \<Longrightarrow> intent = None"
    by (auto simp: inspectCheckout_run Let_def split: option.splits if_splits)
  show "shop_inv s \<Longrightarrow> shop_inv (snd (prepareCheckout H clock2 input s))"
    "shop_inv s \<Longrightarrow> shop_inv (snd (finalizeCheckout H clock3 i p c res s))"
    "shop_inv s \<Longrightarrow> shop_inv (snd (failCheckout clock4 i code p c s))"
    by (fact checkout_keeps_shop)+
qed

section \<open>Which stored order a READY answer is about\<close>

definition request_row :: "uuid \<Rightarrow> string \<Rightarrow> string \<Rightarrow> string \<Rightarrow> checkout_intent_row \<Rightarrow> bool" where
  "request_row accountId hash fingerprint key r \<longleftrightarrow>
     ck_accountId r = accountId \<and> ck_idempotencyKeyHash r = hash
     \<and> ck_requestFingerprintSha256 r = fingerprint \<and> ck_provider r = key"

definition safe_amount :: "checkout_intent_row \<Rightarrow> bool" where
  "safe_amount r \<longleftrightarrow> 0 \<le> ck_amountMinor r \<and> ck_amountMinor r \<le> max_safe_integer"

definition ready_row_in :: "db \<Rightarrow> checkout_intent_row \<Rightarrow> bool" where
  "ready_row_in s r \<longleftrightarrow> r \<in> set (checkoutIntents s) \<and> ck_state r = READY \<and> safe_amount r"

lemma checkout_of_mem: "checkout_of s i = Some r \<Longrightarrow> r \<in> set (checkoutIntents s)"
  by (auto simp: checkout_of_def dest: find_Some_mem)

lemma terminalFailure_creating:
  assumes "terminalFailure i code c at s = Inr (x, s')" and "ck_state (in_row i) = CREATING"
  shows "\<exists>j. x = FIN_FAILED j code"
  using assms by (auto simp: terminalFailure_def andThen_Inr_iff)

lemma after_lock:
  assumes "andThen (locked_intent i) (\<lambda>found. case found of None \<Rightarrow> ret y | Some l \<Rightarrow> f l) s = Inr (x, s')" and "x \<noteq> y"
  obtains l where "checkout_of s i = Some (in_row l)" "safe_amount (in_row l)" "f l s = Inr (x, s')"
proof -
  obtain found s1 where lock: "locked_intent i s = Inr (found, s1)"
    and rest: "(case found of None \<Rightarrow> ret y | Some l \<Rightarrow> f l) s1 = Inr (x, s')"
    using assms(1) by (rule andThen_InrE)
  obtain l where found: "found = Some l"
    using rest assms(2) by (cases found) auto
  then have "s1 = s" "checkout_of s i = Some (in_row l)" "safe_amount (in_row l)"
    using lock by (auto simp: locked_intent_Inr safe_amount_def split: option.splits if_splits)
  then show thesis
    using that rest found by simp
qed

lemma finalized_ready:
  assumes inv: "commercial_inv s" and run: "finalizeCheckout H clock i p c res s = (Inr (FIN_READY x), s')"
  shows "ready_row_in s' (in_row x) \<and> ck_id (in_row x) = i"
proof -
  have "finalize_transaction H clock i p c res s = Inr (FIN_READY x, s')"
    using run by (auto simp: finalizeCheckout_def transaction_def split: if_splits sum.splits prod.splits)
  then obtain l where row: "checkout_of s i = Some (in_row l)" "safe_amount (in_row l)"
    and rest: "(if ck_state (in_row l) \<noteq> CREATING then ret (terminal_intent l)
       else
         andThen (gets (\<lambda>s. account_of s (ck_accountId (in_row l)))) (\<lambda>account.
         case account of
           None \<Rightarrow> ret (FIN_REJECTED CHECKOUT_CORRUPTED)
         | Some a \<Rightarrow>
             if ck_provider (in_row l) \<noteq> p then ret (FIN_REJECTED CHECKOUT_PROVIDER_MISMATCH)
             else case res of
                    PROVIDER_CREATED checkoutId providerPaymentId reference \<Rightarrow>
                      if acct_status a = ACCOUNT_SUSPENDED then
                        terminalFailure l ACCOUNT_IS_SUSPENDED c (clock 0)
                      else finalize_created H clock i c l checkoutId providerPaymentId reference
                  | _ \<Rightarrow> terminalFailure l PROVIDER_REJECTED c (clock 0))) s = Inr (FIN_READY x, s')"
    unfolding finalize_transaction_def by (rule after_lock) simp
  show ?thesis
  proof (cases "ck_state (in_row l) = CREATING")
    case False
    then show ?thesis
      using rest row checkout_of_id [OF row(1)] checkout_of_mem [OF row(1)]
      by (auto simp: terminal_intent_def ready_row_in_def split: if_splits)
  next
    case True
    note not_failed = terminalFailure_creating [OF _ True]
    obtain co pp ref where run: "finalize_created H clock i c l co pp ref s = Inr (FIN_READY x, s')"
      using rest True
      by (auto split: option.splits if_splits provider_result.splits dest: not_failed)
    from finalize_created_outcome [OF inv row(1) True run] have "order_ready s (in_row l) co pp ref (FIN_READY x) s'"
      by (auto simp: order_failed_def split: if_splits)
    then obtain q at where "in_row x = ready_row co pp ref q at (in_row l)"
      and mem: "checkout_of s' (ck_id (in_row l)) = Some (in_row x)"
      by (auto simp: order_ready_def)
    then show ?thesis
      using checkout_of_mem [OF mem] row(2) checkout_of_id [OF row(1)]
      by (simp add: ready_row_in_def safe_amount_def ready_row_def)
  qed
qed

lemma failed_ready:
  assumes run: "failCheckout clock i code p c s = (Inr (FIN_READY x), s')"
  shows "ready_row_in s' (in_row x) \<and> ck_id (in_row x) = i"
proof -
  have "fail_transaction clock i code p c s = Inr (FIN_READY x, s')"
    using run by (auto simp: failCheckout_def transaction_def split: if_splits sum.splits prod.splits)
  then obtain l where row: "checkout_of s i = Some (in_row l)" "safe_amount (in_row l)"
    and rest: "(if ck_provider (in_row l) \<noteq> p then ret (FIN_REJECTED CHECKOUT_PROVIDER_MISMATCH)
      else terminalFailure l code c (clock 0)) s = Inr (FIN_READY x, s')"
    unfolding fail_transaction_def by (rule after_lock) simp
  then have rest: "terminalFailure l code c (clock 0) s = Inr (FIN_READY x, s')"
    by (auto split: if_splits)
  have "ck_state (in_row l) \<noteq> CREATING"
    using terminalFailure_creating [OF rest] by auto
  then show ?thesis
    using rest row checkout_of_id [OF row(1)] checkout_of_mem [OF row(1)]
    by (auto simp: terminalFailure_def terminal_intent_def ready_row_in_def split: if_splits)
qed

text \<open>A row of the request keeps its key; a later READY row with its id is that row.\<close>

lemma request_row_later:
  assumes "r \<in> set (checkoutIntents s)" "request_row a h f k r" and "orders_kept s s'" and "keys_distinct s'"
    and "r' \<in> set (checkoutIntents s')" "ck_id r' = ck_id r"
  shows "request_row a h f k r'"
proof -
  obtain r'' where r'': "r'' \<in> set (checkoutIntents s')" "same_order r r''"
    using assms(1,3) unfolding orders_kept_def by blast
  then have "r'' = r'"
    using distinct_map_unique [OF keys_distinctD(5) [OF assms(4)] r''(1) assms(5)] assms(6) by (simp add: same_order_def)
  then show ?thesis
    using r''(2) assms(2) by (simp add: same_order_def request_row_def)
qed

lemma readyResult_row:
  assumes "readyResult i b = CK_READY b' rc"
  shows "ck_state (in_row i) = READY" "ck_paymentId (in_row i) = Some (rc_paymentId rc)"
    "readyResult \<lparr>in_row = in_row i, in_paymentState = p\<rparr> True = CK_READY True rc"
  using assms by (auto simp: readyResult_def Let_def truthy_def split: if_splits option.splits)

definition answers :: "uuid \<Rightarrow> string \<Rightarrow> string \<Rightarrow> string \<Rightarrow> ready_checkout \<Rightarrow> db \<Rightarrow> bool" where
  "answers a h f k rc s \<longleftrightarrow>
     (\<exists>r. ready_row_in s r \<and> request_row a h f k r \<and> ck_paymentId r = Some (rc_paymentId rc)
        \<and> readyResult \<lparr>in_row = r, in_paymentState = Some PENDING\<rparr> True = CK_READY True rc)"

lemma answersI:
  assumes "readyResult i b = CK_READY b' rc" and "ready_row_in s (in_row i)" and "request_row a h f k (in_row i)"
  shows "answers a h f k rc s"
  using readyResult_row(2) [OF assms(1)] readyResult_row(3) [OF assms(1), of "Some PENDING"] assms(2,3)
  unfolding answers_def by blast

lemma finalizeToResult_ready:
  "finalizeToResult x b i = CK_READY b' rc \<Longrightarrow> \<exists>j. x = FIN_READY j \<and> readyResult j b = CK_READY b' rc"
  by (cases x) auto

lemma finish_answers:
  assumes inv: "commercial_inv s" and row: "in_row i \<in> set (checkoutIntents s)"
      "ck_state (in_row i) = READY \<Longrightarrow> safe_amount (in_row i)"
    and req: "ck_accountId (in_row i) = a" "ck_idempotencyKeyHash (in_row i) = h"
    and run: "finishExisting k (failCheckout clock) i o' f c s = (Some (CK_READY b rc), s')"
  shows "answers a h f k rc s'"
proof -
  have fits: "request_row a h f k (in_row i)"
    using run req by (auto simp: finishExisting_def request_row_def Let_def split: if_splits)
  show ?thesis
  proof (cases "ck_state (in_row i) = READY")
    case True
    then have ready: "readyResult i True = CK_READY b rc" "s' = s"
      using run by (auto simp: finishExisting_def replay_ready_def Let_def split: if_splits option.splits)
    then show ?thesis
      using answersI [OF ready(1) _ fits] True row by (simp add: ready_row_in_def)
  next
    case False
    then obtain code x where f: "failCheckout clock (ck_id (in_row i)) code k c s = (Inr x, s')"
      and x: "finalizeToResult x True (ck_id (in_row i)) = CK_READY b rc"
      using run by (cases "ck_state (in_row i)")
        (auto simp: finishExisting_def Let_def split: if_splits option.splits prod.splits sum.splits)
    obtain j where j: "x = FIN_READY j" "readyResult j True = CK_READY b rc"
      using finalizeToResult_ready [OF x] by blast
    note stored = failed_ready [OF f [unfolded j(1)]]
    have path: "step\<^sup>*\<^sup>* s s'" "commercial_inv s'"
      using checkout_paths(4) [OF inv, of clock "ck_id (in_row i)" code k c] f by simp_all
    have "request_row a h f k (in_row j)"
      by (rule request_row_later [OF row(1) fits path_orders_kept [OF path(1) inv] commercial_invD(1) [OF path(2)]])
        (use stored in \<open>simp_all add: ready_row_in_def\<close>)
    then show ?thesis
      using answersI [OF j(2)] stored by blast
  qed
qed

lemma complete_answers:
  assumes inv: "commercial_inv s" and row: "in_row i \<in> set (checkoutIntents s)" "request_row a h f k (in_row i)"
    and run: "complete_order k provider (finalizeCheckout H clock) i b c s = (CK_READY b' rc, s')"
  shows "answers a h f k rc s'"
proof -
  obtain res x where f: "finalizeCheckout H clock (ck_id (in_row i)) k c res s = (Inr x, s')"
    and x: "finalizeToResult x b (ck_id (in_row i)) = CK_READY b' rc"
    using run by (auto simp: complete_order_def Let_def split: option.splits if_splits prod.splits sum.splits)
  obtain j where j: "x = FIN_READY j" "readyResult j b = CK_READY b' rc"
    using finalizeToResult_ready [OF x] by blast
  note stored = finalized_ready [OF inv f [unfolded j(1)]]
  have path: "step\<^sup>*\<^sup>* s s'" "commercial_inv s'"
    using checkout_paths(3) [OF inv, of H clock "ck_id (in_row i)" k c res] f by simp_all
  have "request_row a h f k (in_row j)"
    by (rule request_row_later [OF row path_orders_kept [OF path(1) inv] commercial_invD(1) [OF path(2)]])
      (use stored in \<open>simp_all add: ready_row_in_def\<close>)
  then show ?thesis
    using answersI [OF j(2)] stored by blast
qed

lemma prepared_existing:
  assumes run: "prepareCheckout H clock input s = (Inr (PREP_EXISTING i), s')" and inv: "commercial_inv s"
  shows "in_row i \<in> set (checkoutIntents s') \<and> (ck_state (in_row i) = READY \<longrightarrow> safe_amount (in_row i))
    \<and> request_row (pi_accountId input) (pi_idempotencyKeyHash input) (pi_requestFingerprintSha256 input)
        (pi_provider input) (in_row i)"
proof -
  have "prepare_transaction H clock input s = Inr (PREP_EXISTING i, s')"
    using run by (simp add: prepareCheckout_run)
  then show ?thesis
  proof (cases rule: prepare_run_cases)
    case (existing s1 r)
    have same: "checkoutIntents s1 = checkoutIntents s"
      using existing(1) by (simp add: outside_subscriptions_def)
    have key: "r \<in> set (checkoutIntents s)" "ck_accountId r = pi_accountId input"
      "ck_idempotencyKeyHash r = pi_idempotencyKeyHash input"
      using find_Some_mem existing(2) by (fastforce simp: find_intent_def)+
    have found: "checkout_of s1 (ck_id r) = Some r"
      unfolding checkout_of_def same
      by (rule find_unique [OF keys_distinctD(5) [OF commercial_invD(1) [OF inv]] key(1)])
    let ?i = "\<lparr>in_row = r, in_paymentState = joined_payment s r\<rparr>"
    let ?account = "accountPolicy s1 (pi_accountId input) (pi_actorId input) (clock 1)"
    note run = existing(4)
    have fits: "ck_requestFingerprintSha256 r = pi_requestFingerprintSha256 input" "ck_provider r = pi_provider input"
      using run by (auto simp: existing_intent_def split: if_splits)
    show ?thesis
    proof (cases "actionabilityFailure ?account = None \<or> ck_state r \<noteq> CREATING")
      case True
      then have "i = ?i" "s' = s1"
        using run fits by (auto simp: existing_intent_def split: option.splits)
      then show ?thesis
        using key fits existing(3) by (simp add: request_row_def safe_amount_def same)
    next
      case False
      then obtain code y where t: "terminalFailure ?i code (pi_context input) (clock 2) s1 = Inr (y, s')"
        and i: "i = (case y of FIN_FAILED intent _ \<Rightarrow> intent | _ \<Rightarrow> ?i)"
        using run fits by (auto simp: existing_intent_def andThen_Inr_iff)
      note eff = terminalFailure_effect [OF t]
      have st: "ck_state r = CREATING" using False by simp
      let ?f = "failed_row code (max (db_now s1) (clock 2))"
      have row: "in_row i = ?f r"
        using i eff(1) found st by simp
      have "checkout_of s' (ck_id r) = Some (?f r)"
        by (rule update_intent_row(1) [OF found]) (use eff(2) found st in simp_all)
      then show ?thesis
        using checkout_of_mem key fits by (auto simp: row request_row_def failed_row_def)
    qed
  next
    case (fresh s1)
    then show ?thesis
      by (auto simp: new_intent_def andThen_Inr_iff split: option.splits)
  qed simp_all
qed

lemma prepared_created:
  assumes "prepareCheckout H clock input s = (Inr (PREP_CREATED i), s')"
  shows "in_row i \<in> set (checkoutIntents s')
    \<and> request_row (pi_accountId input) (pi_idempotencyKeyHash input) (pi_requestFingerprintSha256 input)
        (pi_provider input) (in_row i)"
proof -
  have run: "prepare_transaction H clock input s = Inr (PREP_CREATED i, s')"
    using assms by (simp add: prepareCheckout_run)
  obtain s0 account where "new_intent input account s0 = Inr (PREP_CREATED i, s')"
    by (rule prepare_created [OF run])
  from new_intent_created [OF this] show ?thesis
    by (simp add: request_row_def)
qed

lemma finish_same_state:
  assumes "finishExisting k (failCheckout clock) i o' f c s = (None, s')"
  shows "s' = s"
  using assms by (auto simp: finishExisting_def Let_def split: if_splits checkout_state.splits option.splits prod.splits sum.splits)

lemma place_answers:
  assumes inv: "commercial_inv s" and k: "pi_provider input = k"
    and run: "place_order k provider (prepareCheckout H clock2) (finalizeCheckout H clock3) (failCheckout clock4)
      account intent input s = (CK_READY b rc, s')"
  shows "answers (pi_accountId input) (pi_idempotencyKeyHash input) (pi_requestFingerprintSha256 input) k rc s'"
proof -
  obtain x s1 where prep: "prepareCheckout H clock2 input s = (x, s1)" by fastforce
  have inv1: "commercial_inv s1"
    using checkout_paths(2) [OF inv, of H clock2 input] prep by simp
  consider (existing) i where "x = Inr (PREP_EXISTING i)" | (created) i where "x = Inr (PREP_CREATED i)"
    using run prep by (auto simp: place_order_def split: sum.splits prepare_result.splits)
  then show ?thesis
  proof cases
    case existing
    note stored = prepared_existing [OF prep [unfolded existing] inv]
    obtain y s2 where fin: "finishExisting k (failCheckout clock4) i account (pi_requestFingerprintSha256 input)
        (pi_context input) s1 = (y, s2)" by fastforce
    show ?thesis
    proof (cases y)
      case None
      have "s2 = s1"
        by (rule finish_same_state [OF fin [unfolded None]])
      moreover have "complete_order k provider (finalizeCheckout H clock3) i True (pi_context input) s2 = (CK_READY b rc, s')"
        using run prep existing fin None by (simp add: place_order_def)
      ultimately show ?thesis
        using complete_answers [OF inv1] stored k by blast
    next
      case (Some z)
      have z: "finishExisting k (failCheckout clock4) i account (pi_requestFingerprintSha256 input)
          (pi_context input) s1 = (Some (CK_READY b rc), s')"
        using run prep existing fin Some by (simp add: place_order_def)
      show ?thesis
        by (rule finish_answers [OF inv1 _ _ _ _ z]) (use stored in \<open>simp_all add: request_row_def\<close>)
    qed
  next
    case created
    have "complete_order k provider (finalizeCheckout H clock3) i False (pi_context input) s1 = (CK_READY b rc, s')"
      using run prep created by (simp add: place_order_def)
    then show ?thesis
      using complete_answers [OF inv1] prepared_created [OF prep [unfolded created]] k by blast
  qed
qed

abbreviation checkout_service where
  "checkout_service H key provider resolver now clocks \<equiv>
     createCheckout H key provider resolver now (inspectCheckout (clocks 0)) (prepareCheckout H (clocks (1::nat)))
       (finalizeCheckout H (clocks 2)) (failCheckout (clocks 3))"

lemma service_answers:
  assumes inv: "commercial_inv s"
    and run: "checkout_service H key provider resolver now clocks cmd c s = (Inr (CK_READY b rc), s')"
  shows "answers (cc_accountId cmd) (hashCheckoutIdempotencyKey H (cc_idempotencyKey cmd))
    (fingerprintCheckoutRequest H (cc_accountId cmd) (cc_priceRevisionId cmd)) key rc s'"
proof -
  let ?h = "hashCheckoutIdempotencyKey H (cc_idempotencyKey cmd)"
  let ?f = "fingerprintCheckoutRequest H (cc_accountId cmd) (cc_priceRevisionId cmd)"
  obtain account intent where ins: "inspectCheckout (clocks 0) (cc_accountId cmd) (cx_actorId c) ?h s
      = (Inr (account, intent), s)"
    using run by (auto simp: createCheckout_def inspectCheckout_run Let_def split: if_splits option.splits)
  have stored: "in_row i \<in> set (checkoutIntents s) \<and> safe_amount (in_row i) \<and> ck_accountId (in_row i) = cc_accountId cmd
      \<and> ck_idempotencyKeyHash (in_row i) = ?h" if "intent = Some i" for i
    using ins that find_Some_mem
    by (fastforce simp: inspectCheckout_run Let_def find_intent_def safe_amount_def split: option.splits if_splits)
  obtain y s2 where fin: "(case intent of
        None \<Rightarrow> (None, s)
      | Some i \<Rightarrow>
          if ck_requestFingerprintSha256 (in_row i) \<noteq> ?f
          then (Some (CK_REJECTED IDEMPOTENCY_KEY_REUSED True), s)
          else finishExisting key (failCheckout (clocks 3)) i account ?f c s) = (y, s2)" by fastforce
  show ?thesis
  proof (cases y)
    case (Some z)
    then obtain i where i: "intent = Some i"
      and "finishExisting key (failCheckout (clocks 3)) i account ?f c s = (Some (CK_READY b rc), s')"
      using run ins fin by (auto simp: createCheckout_def Let_def split: option.splits if_splits)
    with finish_answers [OF inv _ _ _ _ this(2)] stored [OF i] show ?thesis by simp
  next
    case None
    then have s2: "s2 = s"
      using fin finish_same_state by (auto split: option.splits if_splits)
    obtain offer admitted where placed: "place_order key provider (prepareCheckout H (clocks 1))
        (finalizeCheckout H (clocks 2)) (failCheckout (clocks 3)) account intent
          \<lparr>pi_accountId = cc_accountId cmd, pi_actorId = cx_actorId c, pi_provider = key,
           pi_idempotencyKeyHash = ?h, pi_requestFingerprintSha256 = ?f, pi_admittedAt = admitted,
           pi_offer = offer, pi_context = c\<rparr> s = (CK_READY b rc, s')"
      using run ins fin unfolding None s2
      by (auto simp: createCheckout_def Let_def split: option.splits sum.splits prod.splits if_splits)
    from place_answers [OF inv _ placed] show ?thesis by simp
  qed
qed

section \<open>Properties of the service\<close>

text \<open>C39. Checkout is safe against strangers: a request of somebody who is not an owner of the account is
  refused with ACCOUNT_NOT_FOUND or FORBIDDEN whatever the catalog and the provider would say, and
  leaves the database as it was.\<close>

theorem checkout_stranger_refused:
  assumes "(cc_accountId cmd, cx_actorId c) \<notin> set (memberships s)"
    and "idempotency_key_schema (cc_idempotencyKey cmd)" and "checkout_context_schema c"
  shows "\<exists>code \<in> {ACCOUNT_NOT_FOUND, FORBIDDEN}.
    checkout_service H key provider resolver now clocks cmd c s = (Inr (CK_REJECTED code False), s)"
proof -
  let ?account = "accountPolicy s (cc_accountId cmd) (cx_actorId c) (clocks 0 0)"
  have owner: "\<not> ob_owner ?account"
    using assms(1) by (simp add: accountPolicy_def split: option.split)
  then have "inspectCheckout (clocks 0) (cc_accountId cmd) (cx_actorId c)
      (hashCheckoutIdempotencyKey H (cc_idempotencyKey cmd)) s = (Inr (?account, None), s)"
    by (simp add: inspectCheckout_run Let_def)
  from checkouts.stranger_refused [OF this owner assms(2,3)] show ?thesis .
qed

text \<open>Whatever the provider, the resolver and the request are, a run of the checkout service keeps the
  invariant of the store, one open order for an account included.\<close>

theorem checkout_service_keeps:
  assumes "shop_inv s"
  shows "shop_inv (snd (checkout_service H key provider resolver now clocks cmd c s))"
  by (rule checkouts.service_keeps [OF assms])


section \<open>Examples\<close>

definition example_command :: checkout_command where
  "example_command = \<lparr>cc_accountId = ''acct'', cc_priceRevisionId = ''price-r1'', cc_idempotencyKey = ''key-0000000000001''\<rparr>"

definition example_context :: checkout_context where
  "example_context = \<lparr>cx_actorId = ''user'', cx_correlationId = ''c-1''\<rparr>"

definition example_provider :: "provider_input \<Rightarrow> provider_result option" where
  "example_provider _ = Some (PROVIDER_CREATED ''c-1'' ''p-1'' ''ref-1'')"

definition example_resolver :: "uuid \<Rightarrow> time \<Rightarrow> (offer_failure + purchasable_offer) option" where
  "example_resolver i _ = Some (Inr (pi_offer example_input\<lparr>po_priceRevisionId := i\<rparr>))"

abbreviation example_clocks :: "nat \<Rightarrow> nat \<Rightarrow> time" where
  "example_clocks \<equiv> (\<lambda>i n. 2500 + int n)"

definition checked_out_db :: db where
  "checked_out_db = snd (checkout_service example_digest ''sim'' example_provider example_resolver 900
     example_clocks example_command example_context example_db)"

definition example_ready :: ready_checkout where
  "example_ready =
     \<lparr>rc_checkoutIntentId = ''u'', rc_paymentId = ''u1'', rc_planRevisionId = ''plan-r1'',
      rc_priceRevisionId = ''price-r1'', rc_amountMinor = 990, rc_currency = ''EUR'',
      rc_billingIntervalUnit = MONTH, rc_billingIntervalCount = 1, rc_provider = ''sim'',
      rc_checkoutReference = ''ref-1''\<rparr>"

lemmas service_eval [eval_simps] = createCheckout_def place_order_def complete_order_def order_terms_def
  provider_request_def finishExisting_def replay_ready_def terminalReadyFailure_def readyResult_def truthy_def
  hashCheckoutIdempotencyKey_def fingerprintCheckoutRequest_def idempotency_key_schema_def

lemmas service_examples = example_command_def example_context_def example_provider_def example_resolver_def
  example_ready_def example_input_def example_db_def

lemma checkout_run:
  "checkout_service example_digest ''sim'' example_provider example_resolver 900
     example_clocks example_command example_context example_db = (Inr (CK_READY False example_ready), checked_out_db)"
  by (simp add: checked_out_db_def service_examples eval_simps del: set_filter)

lemma example_db_shop: "shop_inv example_db"
  by (simp add: shop_inv_def example_db_inv) (simp add: all_settled_def one_open_order_def keys_unique_def example_db_def)

theorem checkout_stranger_refused_witness:
  "\<exists>code \<in> {ACCOUNT_NOT_FOUND, FORBIDDEN}.
    checkout_service example_digest ''sim'' example_provider example_resolver 900 example_clocks example_command
      (example_context\<lparr>cx_actorId := ''mallory''\<rparr>) checked_out_db = (Inr (CK_REJECTED code False), checked_out_db)"
proof (rule checkout_stranger_refused)
  show "(cc_accountId example_command, cx_actorId (example_context\<lparr>cx_actorId := ''mallory''\<rparr>)) \<notin> set (memberships checked_out_db)"
    by (simp add: checked_out_db_def service_examples eval_simps del: set_filter)
qed (simp_all add: example_command_def example_context_def idempotency_key_schema_def checkout_context_schema_def
    correlation_schema_def is_lower_def is_upper_def is_digit_def)

theorem checkout_service_keeps_witness: "shop_inv checked_out_db"
  using checkout_service_keeps [OF example_db_shop, of example_digest "''sim''" example_provider example_resolver 900
      example_clocks example_command example_context]
  by (simp add: checkout_run)


end
