(* ===== verification/Commerce_Spec.thy ===== *)
theory Commerce_Spec
  imports Checkout
begin

text \<open>
  What the commercial core promises, without its tables: an account has subscriptions, payments and
  orders, and seven things can happen to them. The invariants are proved over these, and
  the steps of the protocol refine them through the abstraction \<open>commerce_of\<close>.
\<close>

section \<open>The abstract specification\<close>

record commerce =
  sold :: "uuid \<Rightarrow> (uuid \<times> subscription_state) option"
  paid :: "uuid \<Rightarrow> (uuid \<times> payment_state \<times> uuid option) option"
  ordered :: "uuid \<Rightarrow> (uuid \<times> checkout_state \<times> uuid option) option"

text \<open>An account that can open a subscription, or order one.\<close>

definition free_account :: "commerce \<Rightarrow> uuid \<Rightarrow> bool" where
  "free_account m a \<longleftrightarrow> (\<forall>i st. sold m i = Some (a, st) \<longrightarrow> st = EXPIRED)"

definition payable :: "commerce \<Rightarrow> uuid \<Rightarrow> uuid \<Rightarrow> bool" where
  "payable m a c \<longleftrightarrow>
     ordered m c = Some (a, CREATING, None)
   \<or> (\<exists>p b l. ordered m c = Some (a, READY, Some p) \<and> paid m p = Some (b, PENDING, l))"

inductive commerce_step :: "commerce \<Rightarrow> commerce \<Rightarrow> bool" where
  sell: "sold m i = None \<Longrightarrow> free_account m a \<Longrightarrow>
    commerce_step m (m\<lparr>sold := (sold m)(i \<mapsto> (a, ACTIVE))\<rparr>)"
| sell_paid: "sold m i = None \<Longrightarrow> free_account m a \<Longrightarrow> paid m p = Some (a, st, None) \<Longrightarrow>
    payment_progress st SUCCEEDED \<Longrightarrow>
    commerce_step m (m\<lparr>sold := (sold m)(i \<mapsto> (a, ACTIVE)), paid := (paid m)(p \<mapsto> (a, SUCCEEDED, Some i))\<rparr>)"
| move: "sold m i = Some (a, st) \<Longrightarrow> validateSubscriptionStateTransition (Some st) st' = None \<Longrightarrow>
    commerce_step m (m\<lparr>sold := (sold m)(i \<mapsto> (a, st'))\<rparr>)"
| settle: "paid m p = Some (a, st, l) \<Longrightarrow> payment_progress st st' \<Longrightarrow>
    commerce_step m (m\<lparr>paid := (paid m)(p \<mapsto> (a, st', l))\<rparr>)"
| order: "ordered m c = None \<Longrightarrow> \<forall>c'. \<not> payable m a c' \<Longrightarrow>
    commerce_step m (m\<lparr>ordered := (ordered m)(c \<mapsto> (a, CREATING, None))\<rparr>)"
| refuse: "ordered m c = Some (a, CREATING, None) \<Longrightarrow>
    commerce_step m (m\<lparr>ordered := (ordered m)(c \<mapsto> (a, CHECKOUT_FAILED, None))\<rparr>)"
| accept: "ordered m c = Some (a, CREATING, None) \<Longrightarrow> paid m p = None \<Longrightarrow>
    commerce_step m (m\<lparr>ordered := (ordered m)(c \<mapsto> (a, READY, Some p)), paid := (paid m)(p \<mapsto> (a, PENDING, None))\<rparr>)"

section \<open>What the specification guarantees\<close>

definition well_sold :: "commerce \<Rightarrow> bool" where
  "well_sold m \<longleftrightarrow>
     (\<forall>i j a st st'. sold m i = Some (a, st) \<longrightarrow> sold m j = Some (a, st') \<longrightarrow>
        st \<noteq> EXPIRED \<longrightarrow> st' \<noteq> EXPIRED \<longrightarrow> i = j)"

definition well_paid :: "commerce \<Rightarrow> bool" where
  "well_paid m \<longleftrightarrow>
     (\<forall>p a st i. paid m p = Some (a, st, Some i) \<longrightarrow> st = SUCCEEDED \<and> (\<exists>st'. sold m i = Some (a, st')))
     \<and> (\<forall>p q a b st st' i. paid m p = Some (a, st, Some i) \<longrightarrow> paid m q = Some (b, st', Some i) \<longrightarrow> p = q)"

text \<open>Rows that are final: an expired subscription, a payment that succeeded, a finished order.\<close>

definition finals_of :: "commerce \<Rightarrow> commerce \<Rightarrow> bool" where
  "finals_of m m' \<longleftrightarrow>
     (\<forall>i a st. sold m i = Some (a, st) \<longrightarrow> (\<exists>st'. sold m' i = Some (a, st') \<and> (st = EXPIRED \<longrightarrow> st' = EXPIRED)))
     \<and> (\<forall>p a st l. paid m p = Some (a, st, l) \<longrightarrow> (\<exists>st' l'. paid m' p = Some (a, st', l')
          \<and> payment_progress st st' \<and> (l \<noteq> None \<longrightarrow> l' = l)))
     \<and> (\<forall>c a st l. ordered m c = Some (a, st, l) \<longrightarrow> (\<exists>st' l'. ordered m' c = Some (a, st', l')
          \<and> (st \<noteq> CREATING \<longrightarrow> st' = st \<and> l' = l)))"

lemma expired_stays: "validateSubscriptionStateTransition (Some st) st' = None \<Longrightarrow> st \<noteq> EXPIRED"
  using allowed_origin_EXPIRED [of st'] by metis

lemma progress_refl [simp]: "payment_progress st st"
  by (simp add: payment_progress_def)

lemma progress_trans: "payment_progress a b \<Longrightarrow> payment_progress b c \<Longrightarrow> payment_progress a c"
  unfolding payment_progress_def by auto

lemma progress_final: "payment_progress SUCCEEDED st \<longleftrightarrow> st = SUCCEEDED"
  by (auto simp: payment_progress_def)

lemma step_well_sold: "commerce_step m m' \<Longrightarrow> well_sold m \<Longrightarrow> well_sold m'"
proof (induction rule: commerce_step.induct)
  case (move m i a st st')
  then have "st \<noteq> EXPIRED" using expired_stays by blast
  with move show ?case
    unfolding well_sold_def by (auto split: if_splits)
qed (auto simp: well_sold_def free_account_def split: if_splits)

lemma linked_payment:
  assumes "well_paid m" and "paid m p = Some (a, st, Some i)"
  obtains st' where "st = SUCCEEDED" "sold m i = Some (a, st')"
  using assms unfolding well_paid_def by blast

lemma linked_once:
  "well_paid m \<Longrightarrow> paid m p = Some (a, st, Some i) \<Longrightarrow> paid m q = Some (b, st', Some i) \<Longrightarrow> p = q"
  unfolding well_paid_def by blast

lemma well_paidI:
  assumes "\<And>p a st i. paid m p = Some (a, st, Some i) \<Longrightarrow> st = SUCCEEDED \<and> (\<exists>st'. sold m i = Some (a, st'))"
    and "\<And>p q a b st st' i. paid m p = Some (a, st, Some i) \<Longrightarrow> paid m q = Some (b, st', Some i) \<Longrightarrow> p = q"
  shows "well_paid m"
  using assms unfolding well_paid_def by blast

lemma step_well_paid: "commerce_step m m' \<Longrightarrow> well_paid m \<Longrightarrow> well_paid m'"
  by (induction rule: commerce_step.induct)
    (rule well_paidI; fastforce simp: progress_final split: if_splits elim: linked_payment dest: linked_once)+

lemma step_finals: "commerce_step m m' \<Longrightarrow> finals_of m m'"
proof (induction rule: commerce_step.induct)
  case (move m i a st st')
  then have "st \<noteq> EXPIRED" using expired_stays by blast
  with move show ?case by (simp add: finals_of_def)
qed (simp_all add: finals_of_def)

definition well_ordered :: "commerce \<Rightarrow> bool" where
  "well_ordered m \<longleftrightarrow>
     (\<forall>c a st p. ordered m c = Some (a, st, Some p) \<longrightarrow> st = READY \<and> (\<exists>st' l. paid m p = Some (a, st', l)))
     \<and> (\<forall>c c' a b st st' p. ordered m c = Some (a, st, Some p) \<longrightarrow> ordered m c' = Some (b, st', Some p) \<longrightarrow> c = c')
     \<and> (\<forall>a c c'. payable m a c \<longrightarrow> payable m a c' \<longrightarrow> c = c')"

lemma well_orderedI:
  assumes "\<And>c a st p. ordered m c = Some (a, st, Some p) \<Longrightarrow> st = READY \<and> (\<exists>st' l. paid m p = Some (a, st', l))"
    and "\<And>c c' a b st st' p. ordered m c = Some (a, st, Some p) \<Longrightarrow> ordered m c' = Some (b, st', Some p) \<Longrightarrow> c = c'"
    and "\<And>a c c'. payable m a c \<Longrightarrow> payable m a c' \<Longrightarrow> c = c'"
  shows "well_ordered m"
  using assms unfolding well_ordered_def by blast

lemma ordered_payment:
  assumes "well_ordered m" and "ordered m c = Some (a, st, Some p)"
  obtains st' l where "st = READY" "paid m p = Some (a, st', l)"
  using assms unfolding well_ordered_def by blast

lemma ordered_once:
  "well_ordered m \<Longrightarrow> ordered m c = Some (a, st, Some p) \<Longrightarrow> ordered m c' = Some (b, st', Some p) \<Longrightarrow> c = c'"
  unfolding well_ordered_def by blast

lemma payable_once: "well_ordered m \<Longrightarrow> payable m a c \<Longrightarrow> payable m a c' \<Longrightarrow> c = c'"
  unfolding well_ordered_def by blast

lemma progress_pending: "payment_progress st PENDING \<longleftrightarrow> st = PENDING"
  by (auto simp: payment_progress_def)

text \<open>A step of the core makes an order payable only by creating it.\<close>

lemma payable_step:
  assumes "commerce_step m m'" and "well_ordered m" and "payable m' a c"
  shows "payable m a c
    \<or> ordered m c = None \<and> (\<forall>c'. \<not> payable m a c') \<and> ordered m' = (ordered m)(c \<mapsto> (a, CREATING, None))"
  using assms
proof (induction rule: commerce_step.induct)
  case (accept m d b p)
  show ?case
  proof (cases "c = d")
    case True
    then show ?thesis using accept by (auto simp: payable_def)
  next
    case False
    with accept.hyps accept.prems show ?thesis
      by (auto simp: payable_def split: if_splits elim: ordered_payment)
  qed
next
  case (settle m p b st l st')
  then show ?case by (auto simp: payable_def progress_pending split: if_splits)
next
  case (sell_paid m i b p st)
  then show ?case by (auto simp: payable_def split: if_splits)
next
  case (order m d b)
  then show ?case by (cases "c = d") (auto simp: payable_def)
next
  case (refuse m d b)
  then show ?case by (cases "c = d") (auto simp: payable_def)
qed (simp_all add: payable_def)

lemma step_ordered_payment:
  "commerce_step m m' \<Longrightarrow> well_ordered m \<Longrightarrow> ordered m' c = Some (a, st, Some p) \<Longrightarrow>
    st = READY \<and> (\<exists>st' l. paid m' p = Some (a, st', l))"
  by (induction rule: commerce_step.induct) (fastforce split: if_splits elim: ordered_payment)+

lemma step_ordered_once:
  assumes "commerce_step m m'" and "well_ordered m"
    and "ordered m' c = Some (a, st, Some p)" "ordered m' c' = Some (b, st', Some p)"
  shows "c = c'"
  using assms
proof (induction rule: commerce_step.induct)
  case (accept m d e q)
  have unpaid: "ordered m x \<noteq> Some (y, st'', Some q)" for x y st''
    using ordered_payment [OF accept.prems(1), of x y st'' q] accept.hyps(2) by auto
  show ?case
    using accept.prems(2,3) ordered_once [OF accept.prems(1), of c a st p c' b st'] unpaid
    by (auto split: if_splits)
next
  case (order m d e)
  then show ?case using ordered_once [OF order.prems(1)] by (simp split: if_splits)
next
  case (refuse m d e)
  then show ?case using ordered_once [OF refuse.prems(1)] by (simp split: if_splits)
qed (simp_all add: ordered_once)

lemma payable_ordered: "payable m a c \<Longrightarrow> ordered m c \<noteq> None"
  by (auto simp: payable_def)

text \<open>Of two orders that are payable after a step, none was payable before, or both were.\<close>

lemma step_payable_once:
  assumes "commerce_step m m'" and "well_ordered m" and c: "payable m' a c" "payable m' a c'"
  shows "c = c'"
  using payable_step [OF assms(1,2) c(1)] payable_step [OF assms(1,2) c(2)]
proof (elim disjE conjE)
  assume "payable m a c" "payable m a c'"
  then show ?thesis by (rule payable_once [OF assms(2)])
next
  assume new: "ordered m c' = None" "ordered m' = (ordered m)(c \<mapsto> (a, CREATING, None))"
  show ?thesis
  proof (rule ccontr)
    assume "c \<noteq> c'"
    then have "ordered m' c' = None" by (simp add: new)
    then show False using payable_ordered [OF c(2)] by contradiction
  qed
next
  assume "payable m a c'" "\<forall>c'. \<not> payable m a c'"
  then show ?thesis by simp
next
  assume "payable m a c" "\<forall>c'. \<not> payable m a c'"
  then show ?thesis by simp
qed

lemma step_well_ordered: "commerce_step m m' \<Longrightarrow> well_ordered m \<Longrightarrow> well_ordered m'"
  by (rule well_orderedI)
    (erule step_ordered_payment step_ordered_once step_payable_once, assumption+)+

section \<open>The abstraction\<close>

definition commerce_of :: "db \<Rightarrow> commerce" where
  "commerce_of s =
     \<lparr>sold = (\<lambda>i. map_option (\<lambda>r. (sub_accountId r, sub_state r)) (subscription_of s i)),
      paid = (\<lambda>p. map_option (\<lambda>q. (pay_accountId q, pay_state q, pay_subscriptionId q)) (payment_of s p)),
      ordered = (\<lambda>c. map_option (\<lambda>r. (ck_accountId r, ck_state r, ck_paymentId r)) (checkout_of s c))\<rparr>"

lemma find_appended:
  "k r \<notin> k ` set t \<Longrightarrow>
     List.find (\<lambda>x. k x = j) (t @ [r]) = (if j = k r then Some r else List.find (\<lambda>x. k x = j) t)"
  by (induction t) auto

text \<open>How the abstraction of each table follows a write of one row.\<close>

lemma sold_writes:
  "sub_id r \<notin> sub_id ` set (subscriptions s) \<Longrightarrow>
     sold (commerce_of (s'\<lparr>subscriptions := subscriptions s @ [r]\<rparr>))
       = (sold (commerce_of s))(sub_id r \<mapsto> (sub_accountId r, sub_state r))"
  "keys_distinct s \<Longrightarrow> subscription_of s i = Some r \<Longrightarrow> sub_id (f r) = i \<Longrightarrow>
     sold (commerce_of (s'\<lparr>subscriptions := update_where (\<lambda>x. sub_id x = i) f (subscriptions s)\<rparr>))
       = (sold (commerce_of s))(i \<mapsto> (sub_accountId (f r), sub_state (f r)))"
  by (auto simp: commerce_of_def subscription_of_def find_appended find_update_row keys_distinctD)

lemma paid_writes:
  "pay_id q \<notin> pay_id ` set (payments s) \<Longrightarrow>
     paid (commerce_of (s'\<lparr>payments := payments s @ [q]\<rparr>))
       = (paid (commerce_of s))(pay_id q \<mapsto> (pay_accountId q, pay_state q, pay_subscriptionId q))"
  "keys_distinct s \<Longrightarrow> payment_of s p = Some q \<Longrightarrow> pay_id (f q) = p \<Longrightarrow>
     paid (commerce_of (s'\<lparr>payments := update_where (\<lambda>x. pay_id x = p) f (payments s)\<rparr>))
       = (paid (commerce_of s))(p \<mapsto> (pay_accountId (f q), pay_state (f q), pay_subscriptionId (f q)))"
  by (auto simp: commerce_of_def payment_of_def find_appended find_update_row keys_distinctD)

lemma ordered_writes:
  "ck_id r \<notin> ck_id ` set (checkoutIntents s) \<Longrightarrow>
     ordered (commerce_of (s'\<lparr>checkoutIntents := checkoutIntents s @ [r]\<rparr>))
       = (ordered (commerce_of s))(ck_id r \<mapsto> (ck_accountId r, ck_state r, ck_paymentId r))"
  "keys_distinct s \<Longrightarrow> checkout_of s i = Some r \<Longrightarrow> ck_id (f r) = i \<Longrightarrow>
     ordered (commerce_of (s'\<lparr>checkoutIntents := update_where (\<lambda>x. ck_id x = i) f (checkoutIntents s)\<rparr>))
       = (ordered (commerce_of s))(i \<mapsto> (ck_accountId (f r), ck_state (f r), ck_paymentId (f r)))"
  by (auto simp: commerce_of_def checkout_of_def find_appended find_update_row keys_distinctD)

lemma commerce_frames:
  "sold (commerce_of (s\<lparr>transitions := ts\<rparr>)) = sold (commerce_of s)"
  "sold (commerce_of (s\<lparr>payments := ps\<rparr>)) = sold (commerce_of s)"
  "sold (commerce_of (s\<lparr>checkoutIntents := cs\<rparr>)) = sold (commerce_of s)"
  "sold (commerce_of (s\<lparr>jobs := js\<rparr>)) = sold (commerce_of s)"
  "paid (commerce_of (s\<lparr>subscriptions := ss\<rparr>)) = paid (commerce_of s)"
  "paid (commerce_of (s\<lparr>transitions := ts\<rparr>)) = paid (commerce_of s)"
  "paid (commerce_of (s\<lparr>checkoutIntents := cs\<rparr>)) = paid (commerce_of s)"
  "paid (commerce_of (s\<lparr>jobs := js\<rparr>)) = paid (commerce_of s)"
  "ordered (commerce_of (s\<lparr>subscriptions := ss\<rparr>)) = ordered (commerce_of s)"
  "ordered (commerce_of (s\<lparr>transitions := ts\<rparr>)) = ordered (commerce_of s)"
  "ordered (commerce_of (s\<lparr>payments := ps\<rparr>)) = ordered (commerce_of s)"
  "ordered (commerce_of (s\<lparr>jobs := js\<rparr>)) = ordered (commerce_of s)"
  by (simp_all add: commerce_of_def subscription_of_def payment_of_def checkout_of_def)

lemma commerce_reads:
  "sold (commerce_of s) i = Some (a, st) \<longleftrightarrow>
     (\<exists>r. subscription_of s i = Some r \<and> sub_accountId r = a \<and> sub_state r = st)"
  "paid (commerce_of s) p = Some (b, pst, l) \<longleftrightarrow>
     (\<exists>q. payment_of s p = Some q \<and> pay_accountId q = b \<and> pay_state q = pst \<and> pay_subscriptionId q = l)"
  "ordered (commerce_of s) c = Some (d, cst, k) \<longleftrightarrow>
     (\<exists>r. checkout_of s c = Some r \<and> ck_accountId r = d \<and> ck_state r = cst \<and> ck_paymentId r = k)"
  "sold (commerce_of s) i = None \<longleftrightarrow> i \<notin> sub_id ` set (subscriptions s)"
  "paid (commerce_of s) p = None \<longleftrightarrow> p \<notin> pay_id ` set (payments s)"
  "ordered (commerce_of s) c = None \<longleftrightarrow> c \<notin> ck_id ` set (checkoutIntents s)"
  by (auto simp: commerce_of_def subscription_of_def payment_of_def checkout_of_def find_None_iff)

lemma free_account_of:
  "list_all (\<lambda>r. \<not> is_current a r) (subscriptions s) \<Longrightarrow> free_account (commerce_of s) a"
  by (auto simp: free_account_def commerce_reads list_all_iff is_current_def subscription_of_def dest!: find_Some_mem)

lemma payable_of:
  assumes "payable (commerce_of s) a c"
  obtains r where "r \<in> set (checkoutIntents s)" "ck_id r = c" "ck_accountId r = a" "order_open s r"
  using assms unfolding payable_def commerce_reads
  by (auto simp: order_open_def checkout_of_def dest: find_Some_mem)

section \<open>The protocol refines the specification\<close>

lemma commerce_eqI:
  fixes m m' :: commerce
  shows "sold m = sold m' \<Longrightarrow> paid m = paid m' \<Longrightarrow> ordered m = ordered m' \<Longrightarrow> m = m'"
  by (cases m; cases m') simp

lemmas commerce_writes = sold_writes paid_writes ordered_writes commerce_frames

lemma creating_unpaid:
  assumes "commercial_inv s" and "checkout_of s i = Some r" and "ck_state r = CREATING"
  shows "ck_paymentId r = None"
proof -
  have "r \<in> set (checkoutIntents s)"
    using assms(2) by (auto simp: checkout_of_def dest!: find_Some_mem)
  then have "checkout_paid (set (payments s)) r"
    using assms(1) by (simp add: commercial_inv_def orders_coherent_def orders_ok_def)
  then show ?thesis
    using assms(3) by (simp add: checkout_paid_def)
qed

lemma accepted_id_fresh: "checkout_accepted s (checkoutIntents s) r \<Longrightarrow> ck_id r \<notin> ck_id ` set (checkoutIntents s)"
  by (auto simp: checkout_accepted_def checkout_distinct_def list_all_iff)

lemma failed_unpaid: "checkout_accepted s t r \<Longrightarrow> ck_state r = CHECKOUT_FAILED \<Longrightarrow> ck_paymentId r = None"
  by (simp add: checkout_accepted_def checkout_shape_guard_def)

lemma opened_free:
  assumes "opens s r t"
  shows "sold (commerce_of s) (sub_id r) = None" "free_account (commerce_of s) (sub_accountId r)"
    "sub_id r \<notin> sub_id ` set (subscriptions s)" "sub_state r = ACTIVE"
  using assms free_account_of by (auto simp: opens_def subscription_accepted_def commerce_reads)

lemma row_ids:
  "subscription_of s i = Some r \<Longrightarrow> sub_id r = i"
  "payment_of s p = Some q \<Longrightarrow> pay_id q = p"
  "checkout_of s c = Some k \<Longrightarrow> ck_id k = c"
  by (auto simp: subscription_of_def payment_of_def checkout_of_def dest!: find_Some_mem)

lemma step_refines:
  assumes "step s s'" and "commercial_inv s"
  shows "commerce_step\<^sup>=\<^sup>= (commerce_of s) (commerce_of s')"
proof -
  have keys: "keys_distinct s"
    using assms(2) by (simp add: commercial_inv_def)
  from assms(1) show ?thesis
  proof cases
    case (open_subscription r t)
    note new = opened_free [OF open_subscription(2)]
    have "commerce_of s' = commerce_of s\<lparr>sold := (sold (commerce_of s))(sub_id r \<mapsto> (sub_accountId r, ACTIVE))\<rparr>"
      using new by (intro commerce_eqI) (simp_all add: open_subscription(1) commerce_writes)
    then show ?thesis using commerce_step.sell [OF new(1,2)] by simp
  next
    case (activate r t p q f)
    note new = opened_free [OF activate(2)]
    have f: "pay_id (f q) = p" "pay_accountId (f q) = pay_accountId q"
      using activate(3,4) row_ids by (auto simp: same_payment_def)
    have "commerce_of s' = commerce_of s
        \<lparr>sold := (sold (commerce_of s))(sub_id r \<mapsto> (sub_accountId r, ACTIVE)),
         paid := (paid (commerce_of s))(p \<mapsto> (sub_accountId r, SUCCEEDED, Some (sub_id r)))\<rparr>"
      using new f activate(6,7,9) keys activate(3)
      by (intro commerce_eqI) (simp_all add: activate(1) commerce_writes)
    moreover have "paid (commerce_of s) p = Some (sub_accountId r, pay_state q, None)"
      using activate(3,5,9) by (simp add: commerce_reads)
    ultimately show ?thesis using commerce_step.sell_paid [OF new(1,2) _ activate(8)] by simp
  next
    case (change_state i r f t)
    have f: "sub_id (f r) = i" "sub_accountId (f r) = sub_accountId r"
      using change_state(2,3) row_ids by (auto simp: changes_state_def same_terms_def same_subscription_def)
    have "commerce_of s' = commerce_of s
        \<lparr>sold := (sold (commerce_of s))(i \<mapsto> (sub_accountId r, sub_state (f r)))\<rparr>"
      using f keys change_state(2) by (intro commerce_eqI) (simp_all add: change_state(1) commerce_writes)
    moreover have "sold (commerce_of s) i = Some (sub_accountId r, sub_state r)"
      using change_state(2) by (simp add: commerce_reads)
    ultimately show ?thesis
      using commerce_step.move change_state(3) by (simp add: changes_state_def)
  next
    case (extend i r f)
    have f: "sub_id (f r) = i" "sub_accountId (f r) = sub_accountId r"
      using extend(2,3) row_ids by (auto simp: same_terms_def same_subscription_def)
    have "sold (commerce_of s) i = Some (sub_accountId r, sub_state r)"
      using extend(2) by (simp add: commerce_reads)
    then have "commerce_of s' = commerce_of s"
      using f keys extend(2,4) by (intro commerce_eqI) (simp_all add: extend(1) commerce_writes fun_upd_idem)
    then show ?thesis by simp
  next
    case (settle_payment p q f)
    have f: "pay_id (f q) = p" "pay_accountId (f q) = pay_accountId q"
      using settle_payment(2,3) row_ids by (auto simp: same_payment_def)
    have "commerce_of s' = commerce_of s
        \<lparr>paid := (paid (commerce_of s))(p \<mapsto> (pay_accountId q, pay_state (f q), pay_subscriptionId q))\<rparr>"
      using f keys settle_payment(2,4) by (intro commerce_eqI) (simp_all add: settle_payment(1) commerce_writes)
    moreover have "paid (commerce_of s) p = Some (pay_accountId q, pay_state q, pay_subscriptionId q)"
      using settle_payment(2) by (simp add: commerce_reads)
    ultimately show ?thesis using commerce_step.settle settle_payment(5) by simp
  next
    case (create_checkout r)
    have fresh: "ck_id r \<notin> ck_id ` set (checkoutIntents s)"
      by (rule accepted_id_fresh [OF create_checkout(3)])
    have "commerce_of s' = commerce_of s\<lparr>ordered := (ordered (commerce_of s))(ck_id r \<mapsto> (ck_accountId r, CREATING, None))\<rparr>"
      using fresh create_checkout(2)
      by (intro commerce_eqI) (simp_all add: create_checkout(1) commerce_writes checkout_initial_def)
    moreover have "\<not> payable (commerce_of s) (ck_accountId r) c" for c
      using create_checkout(4) by (auto elim: payable_of)
    ultimately show ?thesis
      using commerce_step.order [of "commerce_of s" "ck_id r" "ck_accountId r"] fresh by (simp add: commerce_reads)
  next
    case (fail_checkout i r f)
    have f: "ck_id (f r) = i" "ck_accountId (f r) = ck_accountId r" "ck_state r = CREATING"
      using fail_checkout(2,3) row_ids by (auto simp: checkout_update_guard_def)
    have "commerce_of s' = commerce_of s
        \<lparr>ordered := (ordered (commerce_of s))(i \<mapsto> (ck_accountId r, CHECKOUT_FAILED, None))\<rparr>"
      using f keys fail_checkout(2,4) failed_unpaid [OF fail_checkout(5,4)]
      by (intro commerce_eqI) (simp_all add: fail_checkout(1) commerce_writes)
    moreover have "ordered (commerce_of s) i = Some (ck_accountId r, CREATING, None)"
      using fail_checkout(2) f(3) creating_unpaid [OF assms(2)] by (simp add: commerce_reads)
    ultimately show ?thesis using commerce_step.refuse by simp
  next
    case (ready_checkout i r f q j)
    have f: "ck_id (f r) = i" "ck_accountId (f r) = ck_accountId r" "ck_state r = CREATING"
      using ready_checkout(2,3) row_ids by (auto simp: checkout_update_guard_def)
    have fresh: "pay_id q \<notin> pay_id ` set (payments s)" and acct: "pay_accountId q = ck_accountId r"
      using ready_checkout(5,9) f(2) by (auto simp: payment_accepted_def checkout_matches_payment_def)
    have "commerce_of s' = commerce_of s
        \<lparr>ordered := (ordered (commerce_of s))(i \<mapsto> (ck_accountId r, READY, Some (pay_id q))),
         paid := (paid (commerce_of s))(pay_id q \<mapsto> (ck_accountId r, PENDING, None))\<rparr>"
      using f keys fresh acct ready_checkout(2,4,6,7,8)
      by (intro commerce_eqI) (simp_all add: ready_checkout(1) commerce_writes)
    moreover have "ordered (commerce_of s) i = Some (ck_accountId r, CREATING, None)"
      using ready_checkout(2) f(3) creating_unpaid [OF assms(2)] by (simp add: commerce_reads)
    ultimately show ?thesis using commerce_step.accept fresh by (simp add: commerce_reads)
  qed (simp_all add: commerce_of_def subscription_of_def payment_of_def checkout_of_def)
qed

lemma path_refines:
  assumes "step\<^sup>*\<^sup>* s s'" and "commercial_inv s"
  shows "commerce_step\<^sup>*\<^sup>* (commerce_of s) (commerce_of s')"
  using assms(1)
proof (induction rule: rtranclp_induct)
  case (step y z)
  have "commerce_step\<^sup>=\<^sup>= (commerce_of y) (commerce_of z)"
    using step_refines [OF step(2)] path_commercial_inv [OF step(1) assms(2)] by blast
  then show ?case using step.IH by auto
qed simp

text \<open>The guarantees of the specification over whole runs.\<close>

lemma run_well:
  assumes "commerce_step\<^sup>*\<^sup>* m m'"
  shows "well_sold m \<and> well_paid m \<and> well_ordered m \<Longrightarrow> well_sold m' \<and> well_paid m' \<and> well_ordered m'"
  using assms by (induction rule: rtranclp_induct) (auto intro: step_well_sold step_well_paid step_well_ordered)

lemma finals_of_refl: "finals_of m m"
  by (simp add: finals_of_def)

lemma finals_ofD:
  assumes "finals_of m m'"
  shows "sold m i = Some (a, st) \<Longrightarrow> \<exists>st'. sold m' i = Some (a, st') \<and> (st = EXPIRED \<longrightarrow> st' = EXPIRED)"
    and "paid m p = Some (b, pst, l) \<Longrightarrow> \<exists>st' l'. paid m' p = Some (b, st', l') \<and> payment_progress pst st' \<and> (l \<noteq> None \<longrightarrow> l' = l)"
    and "ordered m c = Some (d, cst, k) \<Longrightarrow> \<exists>st' l'. ordered m' c = Some (d, st', l') \<and> (cst \<noteq> CREATING \<longrightarrow> st' = cst \<and> l' = k)"
  using assms unfolding finals_of_def by blast+

lemma finals_of_trans:
  assumes "finals_of x y" and "finals_of y z"
  shows "finals_of x z"
  unfolding finals_of_def
proof (intro conjI allI impI)
  fix i a st assume "sold x i = Some (a, st)"
  then show "\<exists>st'. sold z i = Some (a, st') \<and> (st = EXPIRED \<longrightarrow> st' = EXPIRED)"
    using finals_ofD(1) [OF assms(1)] finals_ofD(1) [OF assms(2)] by blast
next
  fix p a st l assume "paid x p = Some (a, st, l)"
  then obtain st1 l1 where one: "paid y p = Some (a, st1, l1)" "payment_progress st st1" "l \<noteq> None \<longrightarrow> l1 = l"
    using finals_ofD(2) [OF assms(1)] by blast
  show "\<exists>st' l'. paid z p = Some (a, st', l') \<and> payment_progress st st' \<and> (l \<noteq> None \<longrightarrow> l' = l)"
    using finals_ofD(2) [OF assms(2) one(1)] one(2,3) progress_trans by blast
next
  fix c a st l assume "ordered x c = Some (a, st, l)"
  then obtain st1 l1 where one: "ordered y c = Some (a, st1, l1)" "st \<noteq> CREATING \<longrightarrow> st1 = st \<and> l1 = l"
    using finals_ofD(3) [OF assms(1)] by blast
  show "\<exists>st' l'. ordered z c = Some (a, st', l') \<and> (st \<noteq> CREATING \<longrightarrow> st' = st \<and> l' = l)"
    using finals_ofD(3) [OF assms(2) one(1)] one(2) by blast
qed

lemma run_finals: "commerce_step\<^sup>*\<^sup>* m m' \<Longrightarrow> finals_of m m'"
  by (induction rule: rtranclp_induct) (auto intro: finals_of_refl finals_of_trans step_finals)

definition empty_commerce :: commerce where
  "empty_commerce = \<lparr>sold = (\<lambda>_. None), paid = (\<lambda>_. None), ordered = (\<lambda>_. None)\<rparr>"

lemma empty_well: "well_sold empty_commerce \<and> well_paid empty_commerce \<and> well_ordered empty_commerce"
  by (simp add: empty_commerce_def well_sold_def well_paid_def well_ordered_def payable_def)

end
