(* ===== verification/Commerce_System.thy ===== *)
theory Commerce_System
  imports Lifecycle_Job Reconciliation_Outcomes Checkout_Service Commerce_Spec
begin

text \<open>
  The commercial core as a system: any operation of its components may run next, on behalf of any
  request, at any reading of the clocks, and the rest of the server may change accounts and the
  catalog in between. The operations are interleaved as whole transactions, the way the locks and the
  row guards of the database serialize them.
\<close>

section \<open>The event ledger under the other operations\<close>

lemma command_ledger_frames:
  "update_subscription i f s = Inr (u, s') \<Longrightarrow> billingEvents s' = billingEvents s"
  "insert_subscription mk s = Inr (r, s') \<Longrightarrow> billingEvents s' = billingEvents s"
  "insert_transition_row mk' s = Inr (t, s') \<Longrightarrow> billingEvents s' = billingEvents s"
  "insert_audit a s = Inr (v, s') \<Longrightarrow> billingEvents s' = billingEvents s"
  "insertTransition j from to ctx at s = Inr (w, s') \<Longrightarrow> billingEvents s' = billingEvents s"
  "audit_subscription sa ctx' act k m s = Inr (x, s') \<Longrightarrow> billingEvents s' = billingEvents s"
  "audit_move sa ctx'' act' vl nx n s = Inr (y, s') \<Longrightarrow> billingEvents s' = billingEvents s"
  "snapshot row s = Inr (z, s') \<Longrightarrow> billingEvents s' = billingEvents s"
  "the_row up s = Inr (q, s') \<Longrightarrow> billingEvents s' = billingEvents s"
  by (auto simp: update_subscription_Inr insert_subscription_Inr insert_transition_row_Inr insert_audit_Inr
      insertTransition_Inr audit_subscription_def audit_move_def split: option.splits if_splits)

lemma insert_granted_events:
  "billingEvents s = e \<Longrightarrow> yields (insert_granted sa cmd ctx now) s (\<lambda>_ s'. billingEvents s' = e)"
  unfolding insert_granted_def
  by (intro yields_rules) (auto dest!: command_ledger_frames)

lemma grant_events:
  "billingEvents s = e \<Longrightarrow> yields (grant_transaction no_hook sa H now cmd ctx) s (\<lambda>_ s'. billingEvents s' = e)"
  unfolding grant_transaction_def no_hook_def
  by (intro yields_rules insert_granted_events) (auto dest!: ledger_frames)

lemma branch_events:
  "billingEvents s = e \<Longrightarrow> yields (extend_branch sa ctx now v n) s (\<lambda>_ s'. billingEvents s' = e)"
  "billingEvents s = e \<Longrightarrow> yields (suspend_branch sa ctx now v) s (\<lambda>_ s'. billingEvents s' = e)"
  "billingEvents s = e \<Longrightarrow> yields (restore_branch sa ctx now v) s (\<lambda>_ s'. billingEvents s' = e)"
  unfolding extend_branch_def suspend_branch_def restore_branch_def restore_to_def
  by ((intro yields_rules; auto dest!: command_ledger_frames)[1])+

lemma mutate_events:
  "billingEvents s = e \<Longrightarrow> yields (mutate_transaction no_hook sa H now a i op n ctx) s (\<lambda>_ s'. billingEvents s' = e)"
  unfolding mutate_transaction_def no_hook_def
  by (cases op; simp only: mutation_operation.case)
    (intro yields_rules branch_events; auto dest!: ledger_frames command_ledger_frames)+

lemma candidate_events:
  "billingEvents s = e \<Longrightarrow> yields (process_candidate H now c i) s (\<lambda>_ s'. billingEvents s' = e)"
  unfolding process_candidate_def job_transition_def
  by (intro yields_rules) (auto simp: yields_def andThen_Inr_iff split: lifecycle_decision.splits dest!: command_ledger_frames)

lemma process_candidates_settled:
  "all_settled s \<Longrightarrow> all_settled (snd (process_candidates H now c is sm s))"
proof (induction "is" arbitrary: s sm)
  case (Cons i "is")
  have "all_settled (snd (transaction (process_candidate H now c i) s))"
    by (rule settled_transaction [OF candidate_events Cons.prems])
  then show ?case
    using Cons.IH by (cases "transaction (process_candidate H now c i) s") (auto split: sum.split)
qed simp

lemma claim_rows_ledger:
  "claim_rows tok now ms n rows s = Inr (cs, s') \<Longrightarrow> billingEvents s' = billingEvents s"
proof (induction rows arbitrary: n s cs)
  case (Cons row rows)
  then show ?case
    by (cases row) (auto simp: andThen_Inr_iff split: option.splits dest!: ledger_frames(2) date_column_Inr)
qed simp

lemma claim_rows_events:
  "billingEvents s = e \<Longrightarrow> yields (claim_rows tok now ms n rows) s (\<lambda>_ s'. billingEvents s' = e)"
  by (rule yieldsI) (simp add: claim_rows_ledger)

section \<open>Runs of the system\<close>

text \<open>What the rest of the server may change: accounts, memberships, catalog, audit, the clock of the
  database, but none of the tables of the commercial core.\<close>

definition same_commerce :: "db \<Rightarrow> db \<Rightarrow> bool" where
  "same_commerce s s' \<longleftrightarrow>
     subscriptions s' = subscriptions s \<and> transitions s' = transitions s \<and> payments s' = payments s
     \<and> billingEvents s' = billingEvents s \<and> checkoutIntents s' = checkoutIntents s \<and> jobs s' = jobs s"

inductive system_step :: "db \<Rightarrow> db \<Rightarrow> bool" where
  grant: "system_step s (snd (grantSubscription no_hook sanitize H preflightNow lockedNow command context s))"
| command: "system_step s (snd (mutate no_hook sanitize H lockedNow subscriptionId operation expected ctx s))"
| lifecycle_job: "system_step s (snd (processDue H now batchSize correlationId s))"
| webhook: "system_step s (snd (processBillingEvent (verify :: string \<Rightarrow> verification option) key
    (applyVerifiedBillingEvent H clock) at raw corr s))"
| claim: "system_step s (snd (claimDue token locked now leaseMs batchSize s))"
| reconcile: "system_step s (snd (processClaim key fetch clk delay blockUnsupported (reschedule now)
    (applyStatus H clock) rclaim correlationId s))"
| checkout: "system_step s (snd (checkout_service H key provider resolver now clocks cmd cctx s))"
| rest_of_server: "same_commerce s s' \<Longrightarrow> system_step s s'"

definition no_commerce :: "db \<Rightarrow> bool" where
  "no_commerce s \<longleftrightarrow>
     subscriptions s = [] \<and> transitions s = [] \<and> payments s = [] \<and> billingEvents s = []
     \<and> checkoutIntents s = [] \<and> jobs s = []"

text \<open>Every operation is a path of steps of the protocol and keeps the invariant of the store.\<close>

lemma processClaim_path:
  assumes "ledger_inv s"
  shows "step\<^sup>*\<^sup>* s (snd (processClaim key fetch clk delay blockUnsupported (reschedule now)
    (applyStatus H clock) cl c s))"
  using applyStatus_path reschedule_path blockUnsupported_path assms
  by (auto simp: processClaim_def retry_later_def ledger_inv_def split: payment_status.split sum.split)

lemma processBillingEvent_path:
  assumes "ledger_inv s"
  shows "step\<^sup>*\<^sup>* s (snd (processBillingEvent verify key (applyVerifiedBillingEvent H clock) at raw ctx s))"
proof -
  obtain x s' where run: "processBillingEvent verify key (applyVerifiedBillingEvent H clock) at raw ctx s = (x, s')"
    by fastforce
  show ?thesis
  proof (cases "s' = s")
    case False
    then obtain e c where "applyVerifiedBillingEvent H clock e c at at s = (Inr x, s')"
      using webhook.accepted_is_verified [OF run] by blast
    then show ?thesis
      using webhook_path [of s H clock e c at at] assms run by (simp add: ledger_inv_def)
  qed (simp add: run)
qed

lemma claimDue_settled:
  assumes "all_settled s"
  shows "all_settled (snd (claimDue tok locked now ms n s))"
proof -
  have "yields (andThen (gets (\<lambda>s. due_jobs locked s now n)) (claim_rows tok now ms 0)) s
      (\<lambda>_ s'. billingEvents s' = e)" if "billingEvents s = e" for e
    using claim_rows_events [OF that] by (intro yields_rules)
  from settled_transaction [OF this assms] show ?thesis
    using assms by (simp add: claimDue_def)
qed

text \<open>The service of checkout as a path: each of its calls is one.\<close>

lemma finish_path:
  assumes "commercial_inv s"
  shows "step\<^sup>*\<^sup>* s (snd (finishExisting key (failCheckout clock) i o' f c s))
    \<and> commercial_inv (snd (finishExisting key (failCheckout clock) i o' f c s))"
proof -
  have "step\<^sup>*\<^sup>* s s' \<and> commercial_inv s'" if "failCheckout clock j code key c s = (x, s')" for j code x s'
    using checkout_paths(4) [OF assms, of clock j code key c] that by simp
  then show ?thesis
    using assms by (auto simp: finishExisting_def Let_def
        split: checkout_state.split option.split prod.split sum.split)
qed

lemma complete_path:
  assumes "commercial_inv s"
  shows "step\<^sup>*\<^sup>* s (snd (complete_order key provider (finalizeCheckout H clock) i b c s))"
proof -
  have "step\<^sup>*\<^sup>* s s'" if "finalizeCheckout H clock j key c res s = (x, s')" for j res x s'
    using checkout_paths(3) [OF assms, of H clock j key c res] that by simp
  then show ?thesis
    by (auto simp: complete_order_def Let_def split: option.split prod.split sum.split)
qed

lemma place_path:
  assumes "commercial_inv s"
  shows "step\<^sup>*\<^sup>* s (snd (place_order key provider (prepareCheckout H clock2) (finalizeCheckout H clock3)
    (failCheckout clock4) account intent input s))"
proof -
  obtain x s1 where prep: "prepareCheckout H clock2 input s = (x, s1)" by fastforce
  have p1: "step\<^sup>*\<^sup>* s s1" "commercial_inv s1"
    using checkout_paths(2) [OF assms, of H clock2 input] prep by simp_all
  show ?thesis
  proof (cases x)
    case (Inr r)
    show ?thesis
    proof (cases r)
      case (PREP_EXISTING i)
      obtain y s2 where fin: "finishExisting key (failCheckout clock4) i account (pi_requestFingerprintSha256 input)
          (pi_context input) s1 = (y, s2)" by fastforce
      have p2: "step\<^sup>*\<^sup>* s s2" "commercial_inv s2"
        using finish_path [OF p1(2), of key clock4 i account "pi_requestFingerprintSha256 input" "pi_context input"]
          fin p1(1) by (auto intro: rtranclp_trans)
      show ?thesis
        using prep Inr PREP_EXISTING fin p2(1) complete_path [OF p2(2)]
        by (cases y) (auto simp: place_order_def intro: rtranclp_trans)
    next
      case (PREP_CREATED i)
      show ?thesis
        using prep Inr PREP_CREATED p1(1) complete_path [OF p1(2)] by (auto simp: place_order_def intro: rtranclp_trans)
    qed (use prep Inr p1 in \<open>simp add: place_order_def\<close>)
  qed (use prep p1 in \<open>simp add: place_order_def\<close>)
qed

lemma checkout_service_path:
  assumes "commercial_inv s"
  shows "step\<^sup>*\<^sup>* s (snd (checkout_service H key provider resolver now clocks cmd c s))"
proof -
  have finish: "step\<^sup>*\<^sup>* s s' \<and> commercial_inv s'"
    if "finishExisting key (failCheckout (clocks 3)) i o' f c s = (x, s')" for i o' f x s'
    using finish_path [OF assms, of key "clocks 3" i o' f c] that by simp
  have place: "step\<^sup>*\<^sup>* s s'"
    if "place_order key provider (prepareCheckout H (clocks 1)) (finalizeCheckout H (clocks 2))
      (failCheckout (clocks 3)) account intent input s0 = (x, s')" "step\<^sup>*\<^sup>* s s0" "commercial_inv s0"
    for account intent input x s0 s'
    using place_path [OF that(3), of key provider H "clocks 1" "clocks 2" "clocks 3" account intent input] that(1,2)
    by auto
  have same: "snd (inspectCheckout (clocks 0) a u h s) = s" for a u h
    by (rule checkouts.inspect_reads)
  let ?h = "hashCheckoutIdempotencyKey H (cc_idempotencyKey cmd)"
  obtain x where ins: "inspectCheckout (clocks 0) (cc_accountId cmd) (cx_actorId c) ?h s = (x, s)"
    using same by (metis prod.collapse)
  show ?thesis
    unfolding createCheckout_def Let_def ins
    by (auto split: sum.split prod.split option.split dest: finish intro: place assms)
qed

section \<open>The invariant of every run\<close>

lemma rest_of_server_inv:
  assumes "same_commerce s s'"
  shows "shop_inv s' = shop_inv s"
proof -
  have "subscriptions s' = subscriptions s" "transitions s' = transitions s" "payments s' = payments s"
    "billingEvents s' = billingEvents s" "checkoutIntents s' = checkoutIntents s" "jobs s' = jobs s"
    using assms by (simp_all add: same_commerce_def)
  moreover from this have "log_explains s' = log_explains s" "order_open s' = order_open s"
    by (simp_all add: fun_eq_iff log_explains_def log_of_def order_open_def payment_of_def cong: option.case_cong)
  ultimately show ?thesis
    by (simp add: shop_inv_def commercial_inv_def keys_distinct_def one_current_def logs_coherent_def
        links_coherent_def orders_coherent_def orders_ok_def payments_ordered_def
        events_coherent_def all_settled_def one_open_order_def keys_unique_def)
qed

text \<open>Every operation of the core is a path of the protocol and leaves no event without its outcome.\<close>

lemma system_step_path:
  assumes "system_step s s'" and "shop_inv s"
  obtains (path) "step\<^sup>*\<^sup>* s s'" "all_settled s'" | (outside) "same_commerce s s'"
proof -
  have inv: "commercial_inv s" "all_settled s" "ledger_inv s"
    using assms(2) by (simp_all add: shop_inv_def ledger_inv_def)
  from assms(1) have "step\<^sup>*\<^sup>* s s' \<and> all_settled s' \<or> same_commerce s s'"
  proof cases
    case (grant sanitize H preflightNow lockedNow cmd cctx)
    have "all_settled s'"
      unfolding grant using settled_transaction [OF grant_events inv(2)] inv(2)
      by (auto simp: grantSubscription_def)
    then show ?thesis using grant_protocol_inv [OF inv(1)] grant by blast
  next
    case (command sanitize H lockedNow subscriptionId operation expected ctx)
    have "all_settled s'"
      unfolding command using settled_transaction [OF mutate_events inv(2)] inv(2)
      by (auto simp: mutate_def split: option.split)
    then show ?thesis using mutate_protocol_inv [OF inv(1)] command by blast
  next
    case (lifecycle_job H now batchSize correlationId)
    have "all_settled s'"
      unfolding lifecycle_job using process_candidates_settled [OF inv(2)] by (simp add: processDue_def Let_def)
    then show ?thesis using processDue_path [OF inv(1)] lifecycle_job by blast
  next
    case (webhook verify key H clock at raw corr)
    then show ?thesis
      using processBillingEvent_path [OF inv(3), of verify key H clock at raw corr]
        webhook.service_keeps [OF inv(3), of verify key H clock at raw corr] by (simp add: ledger_inv_def)
  next
    case (claim token locked now leaseMs batchSize)
    then show ?thesis using claimDue_path [OF inv(1)] claimDue_settled [OF inv(2)] by blast
  next
    case (reconcile key fetch clk delay now H clock rclaim correlationId)
    then show ?thesis
      using processClaim_path [OF inv(3)] reconciliation.claim_keeps [OF inv(3)] by (simp add: ledger_inv_def)
  next
    case (checkout H key provider resolver now clocks cmd cctx)
    then show ?thesis
      using checkout_service_path [OF inv(1)] checkouts.service_keeps [OF assms(2)] by (simp add: shop_inv_def)
  qed simp
  then show thesis using that by blast
qed

lemma system_step_inv:
  assumes "system_step s s'" and "shop_inv s"
  shows "shop_inv s'"
  using assms
proof (cases rule: system_step_path)
  case path
  then show ?thesis by (rule shop_path [OF assms(2)])
qed (use rest_of_server_inv assms(2) in blast)

lemma system_run_inv:
  assumes "system_step\<^sup>*\<^sup>* s s'" and "shop_inv s"
  shows "shop_inv s'"
  using assms by (induction rule: rtranclp_induct) (auto intro: system_step_inv)

lemma no_commerce_inv: "no_commerce s \<Longrightarrow> shop_inv s"
  by (simp add: no_commerce_def shop_inv_def commercial_inv_def keys_distinct_def one_current_def
      at_most_one_current_def logs_coherent_def links_coherent_def links_ok_def orders_coherent_def orders_ok_def
      payments_ordered_def one_checkout_each_def events_coherent_def all_settled_def one_open_order_def
      keys_unique_def)

lemma system_step_history:
  assumes "system_step s s'" and "shop_inv s"
  shows "history_kept s s'"
  using assms
proof (cases rule: system_step_path)
  case path
  then show ?thesis using path_history assms(2) by (simp add: shop_inv_def)
next
  case outside
  then have "history_kept s s' = history_kept s s"
    by (simp add: history_kept_def finals_kept_def same_commerce_def)
  then show ?thesis using history_kept_refl by simp
qed

lemma system_run_history:
  assumes "system_step\<^sup>*\<^sup>* s s'" and "shop_inv s"
  shows "history_kept s s'"
  using assms(1)
proof (induction rule: rtranclp_induct)
  case base
  show ?case by (rule history_kept_refl)
next
  case (step y z)
  then show ?case
    using system_step_history [OF step(2)] system_run_inv [OF step(1) assms(2)] history_kept_trans by blast
qed

section \<open>The system refines its specification\<close>

lemma system_step_refines:
  assumes "system_step s s'" and "shop_inv s"
  shows "commerce_step\<^sup>*\<^sup>* (commerce_of s) (commerce_of s')"
  using assms
proof (cases rule: system_step_path)
  case path
  then show ?thesis using path_refines assms(2) by (simp add: shop_inv_def)
next
  case outside
  then have "commerce_of s' = commerce_of s"
    by (simp add: same_commerce_def commerce_of_def subscription_of_def payment_of_def checkout_of_def)
  then show ?thesis by simp
qed

lemma system_run_refines:
  assumes "system_step\<^sup>*\<^sup>* s s'" and "shop_inv s"
  shows "commerce_step\<^sup>*\<^sup>* (commerce_of s) (commerce_of s')"
  using assms(1)
proof (induction rule: rtranclp_induct)
  case (step y z)
  have "commerce_step\<^sup>*\<^sup>* (commerce_of y) (commerce_of z)"
    by (rule system_step_refines [OF step(2) system_run_inv [OF step(1) assms(2)]])
  then show ?case using step.IH by (rule rtranclp_trans [rotated])
qed simp

lemma no_commerce_empty: "no_commerce s \<Longrightarrow> commerce_of s = empty_commerce"
  by (simp add: no_commerce_def commerce_of_def empty_commerce_def subscription_of_def payment_of_def
      checkout_of_def fun_eq_iff)

text \<open>What the invariants of the specification say about the rows.\<close>

lemma well_sold_rows:
  assumes "well_sold (commerce_of s)" and "keys_distinct s" and "r \<in> set (subscriptions s)" "r' \<in> set (subscriptions s)"
    and "sub_accountId r = sub_accountId r'" "sub_state r \<noteq> EXPIRED" "sub_state r' \<noteq> EXPIRED"
  shows "r = r'"
proof -
  have rows: "subscription_of s (sub_id r) = Some r" "subscription_of s (sub_id r') = Some r'"
    unfolding subscription_of_def by (rule find_unique [OF keys_distinctD(1) [OF assms(2)]], fact)+
  then have "sold (commerce_of s) (sub_id r) = Some (sub_accountId r', sub_state r)"
    "sold (commerce_of s) (sub_id r') = Some (sub_accountId r', sub_state r')"
    using assms(5) by (simp_all add: commerce_reads)
  from assms(1) [unfolded well_sold_def, rule_format, OF this assms(6,7)]
  have "sub_id r = sub_id r'" .
  then show ?thesis using rows by (metis option.inject)
qed

text \<open>The order that a READY answer was about is still there, and is the order of its payment.\<close>

lemma ready_order_later:
  assumes inv: "shop_inv s"
    and run: "checkout_service H key provider resolver now clocks cmd c s = (Inr (CK_READY b rc), s1)"
    and later: "system_step\<^sup>*\<^sup>* s1 s2"
  obtains r where "findCheckout s2 (rc_paymentId rc) = Some r" "r \<in> set (checkoutIntents s2)"
    "ck_accountId r = cc_accountId cmd" "ck_planRevisionId r = rc_planRevisionId rc"
    "ck_priceRevisionId r = rc_priceRevisionId rc" "ck_billingIntervalUnit r = rc_billingIntervalUnit rc"
    "ck_billingIntervalCount r = rc_billingIntervalCount rc" "ck_amountMinor r = rc_amountMinor rc"
    "ck_currency r = rc_currency rc" "ck_paymentId r = Some (rc_paymentId rc)"
proof -
  have inv1: "shop_inv s1"
    using checkouts.service_keeps [OF inv] run by (metis snd_conv)
  have inv2: "commercial_inv s2"
    using system_run_inv [OF later inv1] by (simp add: shop_inv_def)
  obtain r where r: "ready_row_in s1 r" "ck_accountId r = cc_accountId cmd" "ck_paymentId r = Some (rc_paymentId rc)"
    "readyResult \<lparr>in_row = r, in_paymentState = Some PENDING\<rparr> True = CK_READY True rc"
    using service_answers [OF _ run] inv unfolding answers_def shop_inv_def request_row_def by blast
  have mem: "r \<in> set (checkoutIntents s2)"
    using system_run_history [OF later inv1] r(1) by (simp add: history_kept_def finals_kept_def ready_row_in_def)
  then obtain r' where found: "findCheckout s2 (rc_paymentId rc) = Some r'"
    using r(3) by (cases "findCheckout s2 (rc_paymentId rc)") (auto simp: findCheckout_def find_None_mem)
  have r': "r' \<in> set (checkoutIntents s2)" "ck_paymentId r' = Some (rc_paymentId rc)"
    using found by (auto simp: findCheckout_def dest!: find_Some_mem)
  have "one_checkout_each (set (checkoutIntents s2))"
    using commercial_invD(5) [OF inv2] by (simp add: orders_coherent_def orders_ok_def)
  then have "r' = r"
    using mem r' r(3) unfolding one_checkout_each_def by (metis option.distinct(1))
  moreover have "ck_planRevisionId r = rc_planRevisionId rc \<and> ck_priceRevisionId r = rc_priceRevisionId rc
      \<and> ck_billingIntervalUnit r = rc_billingIntervalUnit rc \<and> ck_billingIntervalCount r = rc_billingIntervalCount rc
      \<and> ck_amountMinor r = rc_amountMinor rc \<and> ck_currency r = rc_currency rc"
    using r(4) by (auto simp: readyResult_def Let_def split: if_splits)
  ultimately show thesis
    using that [of r] found mem r(2,3) by simp
qed

end
