(* ===== verification/Catalog_Db.thy ===== *)
theory Catalog_Db
  imports Subscription_Commands "HOL-Library.Sublist"
begin

text \<open>
  The commercial catalog of packages/server/db/src/schema/commercial.ts: plans, their revisions,
  the entitlement definitions, the entitlements of a plan revision, the overrides of an account,
  prices, their revisions and the assignments that put a price revision on sale, with their
  constraints and the trigger guards of packages/server/db/drizzle/0008. The tables are those of
  a second store: the commerce reads plan and price revisions from it, and nothing else writes
  them. A write is a transaction step that checks the constraints and guards on the new row.
  The second half of the theory has the invariant of the tables and what never changes in them.
\<close>

section \<open>Data\<close>

datatype catalog_status = DRAFT_STATUS | ACTIVE_STATUS | HIDDEN_STATUS | ARCHIVED_STATUS

datatype value_type = BOOLEAN_TYPE | INTEGER_TYPE

datatype classification = CAPABILITY | LIMIT

datatype typed_value = BOOLEAN bool | INTEGER int

datatype override_operation = SET_VALUE | CLEAR_VALUE

fun kind_of_value :: "typed_value \<Rightarrow> value_type" where
  "kind_of_value (BOOLEAN b) = BOOLEAN_TYPE"
| "kind_of_value (INTEGER i) = INTEGER_TYPE"

text \<open>The two columns that store a value.\<close>

fun boolean_column :: "typed_value \<Rightarrow> bool option" where
  "boolean_column (BOOLEAN b) = Some b"
| "boolean_column (INTEGER i) = None"

fun integer_column :: "typed_value \<Rightarrow> int option" where
  "integer_column (BOOLEAN b) = None"
| "integer_column (INTEGER i) = Some i"

record plan =
  pl_id :: uuid
  pl_code :: string
  pl_status :: catalog_status
  pl_createdAt :: time
  pl_updatedAt :: time

record plan_revision =
  pr_id :: uuid
  pr_planId :: uuid
  pr_revision :: int
  pr_state :: revision_state
  pr_displayName :: string
  pr_description :: string
  pr_createdAt :: time
  pr_publishedAt :: "time option"

record definition_row =
  ed_key :: string
  ed_valueType :: value_type
  ed_classification :: classification
  ed_description :: string
  ed_deprecatedAt :: "time option"
  ed_createdAt :: time

record plan_entitlement =
  pe_planRevisionId :: uuid
  pe_key :: string
  pe_boolean :: "bool option"
  pe_integer :: "int option"

record override_row =
  ov_id :: uuid
  ov_accountId :: uuid
  ov_key :: string
  ov_revision :: int
  ov_operation :: override_operation
  ov_boolean :: "bool option"
  ov_integer :: "int option"
  ov_effectiveFrom :: time
  ov_expiresAt :: "time option"
  ov_reason :: string
  ov_createdAt :: time

record price =
  pc_id :: uuid
  pc_planId :: uuid
  pc_code :: string
  pc_marketKey :: string
  pc_channelKey :: string
  pc_status :: catalog_status
  pc_createdAt :: time
  pc_updatedAt :: time

record price_revision =
  pv_id :: uuid
  pv_priceId :: uuid
  pv_planRevisionId :: uuid
  pv_revision :: int
  pv_state :: revision_state
  pv_amountMinor :: int
  pv_currency :: string
  pv_unit :: interval_unit
  pv_count :: int
  pv_effectiveFrom :: time
  pv_effectiveTo :: "time option"
  pv_createdAt :: time
  pv_publishedAt :: "time option"

record assignment =
  as_id :: uuid
  as_priceId :: uuid
  as_revision :: int
  as_selected :: "uuid option"
  as_effectiveFrom :: time
  as_reason :: string
  as_createdAt :: time

record catalog_audit =
  ca_actorType :: string
  ca_actorId :: "uuid option"
  ca_action :: string
  ca_targetType :: string
  ca_targetId :: "uuid option"
  ca_correlationId :: string
  ca_reason :: string
  ca_metadata :: "(string \<times> json) list"

record catalog =
  customers :: "uuid list"
  plans :: "plan list"
  plan_revisions :: "plan_revision list"
  definitions :: "definition_row list"
  plan_entitlements :: "plan_entitlement list"
  overrides :: "override_row list"
  prices :: "price list"
  price_revisions :: "price_revision list"
  assignments :: "assignment list"
  catalog_audits :: "catalog_audit list"
  cat_now :: time
  cat_uuids :: "nat \<Rightarrow> uuid"
  cat_drawn :: nat

type_synonym 'a cattx = "(catalog, failure, 'a) tx"

section \<open>Look-ups\<close>

definition plan_of :: "catalog \<Rightarrow> uuid \<Rightarrow> plan option" where
  "plan_of c i = List.find (\<lambda>r. pl_id r = i) (plans c)"

definition revision_of :: "catalog \<Rightarrow> uuid \<Rightarrow> plan_revision option" where
  "revision_of c i = List.find (\<lambda>r. pr_id r = i) (plan_revisions c)"

definition definition_of :: "catalog \<Rightarrow> string \<Rightarrow> definition_row option" where
  "definition_of c k = List.find (\<lambda>r. ed_key r = k) (definitions c)"

definition price_of :: "catalog \<Rightarrow> uuid \<Rightarrow> price option" where
  "price_of c i = List.find (\<lambda>r. pc_id r = i) (prices c)"

definition terms_of :: "catalog \<Rightarrow> uuid \<Rightarrow> price_revision option" where
  "terms_of c i = List.find (\<lambda>r. pv_id r = i) (price_revisions c)"

definition entitlements_of :: "catalog \<Rightarrow> uuid \<Rightarrow> plan_entitlement list" where
  "entitlements_of c i = filter (\<lambda>r. pe_planRevisionId r = i) (plan_entitlements c)"

section \<open>Constraints and guards\<close>

definition safe_integer :: "int \<Rightarrow> bool" where
  "safe_integer n \<longleftrightarrow> - 9007199254740991 \<le> n \<and> n \<le> 9007199254740991"

text \<open>\<open>reason !~ '[<>[:cntrl:]]'\<close>\<close>

definition safe_reason :: "string \<Rightarrow> bool" where
  "safe_reason t \<longleftrightarrow> nonempty_text t \<and> length t \<le> 512
     \<and> list_all (\<lambda>c. c \<noteq> CHR ''<'' \<and> c \<noteq> CHR ''>'' \<and> 32 \<le> (of_char c :: nat) \<and> of_char c \<noteq> (127 :: nat)) t"

definition plan_checks :: "plan \<Rightarrow> bool" where
  "plan_checks r \<longleftrightarrow> machine_key (pl_code r) \<and> length (pl_code r) \<le> 64"

definition publication_time :: "revision_state \<Rightarrow> time option \<Rightarrow> bool" where
  "publication_time st at \<longleftrightarrow> (st = DRAFT \<longrightarrow> at = None) \<and> (st = PUBLISHED \<longrightarrow> at \<noteq> None)"

definition plan_revision_checks :: "plan_revision \<Rightarrow> bool" where
  "plan_revision_checks r \<longleftrightarrow>
     0 < pr_revision r \<and> int4 (pr_revision r) \<and> publication_time (pr_state r) (pr_publishedAt r)
     \<and> length (pr_displayName r) \<le> 256 \<and> length (pr_description r) \<le> 4000"

definition definition_checks :: "definition_row \<Rightarrow> bool" where
  "definition_checks r \<longleftrightarrow>
     machine_key (ed_key r) \<and> length (ed_key r) \<le> 128 \<and> length (ed_description r) \<le> 512
     \<and> (ed_classification r = CAPABILITY \<and> ed_valueType r = BOOLEAN_TYPE
        \<or> ed_classification r = LIMIT \<and> ed_valueType r = INTEGER_TYPE)"

text \<open>The two columns hold one value of the type of the definition, as the triggers
  \<open>p4_1_plan_entitlement_guard\<close> and \<open>p4_1_override_guard\<close> demand.\<close>

definition typed_columns :: "value_type \<Rightarrow> bool option \<Rightarrow> int option \<Rightarrow> bool" where
  "typed_columns t b i =
     (case t of
        BOOLEAN_TYPE \<Rightarrow> b \<noteq> None \<and> i = None
      | INTEGER_TYPE \<Rightarrow> b = None \<and> (case i of None \<Rightarrow> False | Some n \<Rightarrow> safe_integer n))"

definition plan_entitlement_guard :: "catalog \<Rightarrow> plan_entitlement \<Rightarrow> bool" where
  "plan_entitlement_guard c r \<longleftrightarrow>
     (case revision_of c (pe_planRevisionId r) of None \<Rightarrow> False | Some v \<Rightarrow> pr_state v \<noteq> PUBLISHED)
     \<and> (case definition_of c (pe_key r) of
          None \<Rightarrow> False
        | Some d \<Rightarrow> typed_columns (ed_valueType d) (pe_boolean r) (pe_integer r))"

definition override_checks :: "override_row \<Rightarrow> bool" where
  "override_checks r \<longleftrightarrow>
     0 < ov_revision r \<and> int4 (ov_revision r)
     \<and> (case ov_expiresAt r of None \<Rightarrow> True | Some t \<Rightarrow> ov_effectiveFrom r < t)
     \<and> safe_reason (ov_reason r)
     \<and> (ov_operation r = CLEAR_VALUE \<longrightarrow> ov_boolean r = None \<and> ov_integer r = None)"

definition override_guard :: "catalog \<Rightarrow> override_row \<Rightarrow> bool" where
  "override_guard c r \<longleftrightarrow>
     ov_accountId r \<in> set (customers c)
     \<and> (case definition_of c (ov_key r) of
          None \<Rightarrow> False
        | Some d \<Rightarrow> ov_operation r = SET_VALUE \<longrightarrow>
            typed_columns (ed_valueType d) (ov_boolean r) (ov_integer r))"

definition price_checks :: "price \<Rightarrow> bool" where
  "price_checks r \<longleftrightarrow>
     machine_key (pc_code r) \<and> length (pc_code r) \<le> 64
     \<and> machine_key (pc_marketKey r) \<and> length (pc_marketKey r) \<le> 64
     \<and> machine_key (pc_channelKey r) \<and> length (pc_channelKey r) \<le> 64"

definition price_revision_checks :: "price_revision \<Rightarrow> bool" where
  "price_revision_checks r \<longleftrightarrow>
     0 < pv_revision r \<and> int4 (pv_revision r) \<and> publication_time (pv_state r) (pv_publishedAt r)
     \<and> 0 \<le> pv_amountMinor r \<and> pv_amountMinor r \<le> max_amount
     \<and> currency_code (pv_currency r) \<and> 1 \<le> pv_count r \<and> pv_count r \<le> 1200
     \<and> (case pv_effectiveTo r of None \<Rightarrow> True | Some t \<Rightarrow> pv_effectiveFrom r < t)"

text \<open>\<open>p4_1_price_revision_guard\<close>: the price and the plan revision are of the same plan, and what is
  published sells a published plan revision.\<close>

definition price_revision_guard :: "catalog \<Rightarrow> price_revision \<Rightarrow> bool" where
  "price_revision_guard c r \<longleftrightarrow>
     (case price_of c (pv_priceId r) of
        None \<Rightarrow> False
      | Some p \<Rightarrow>
          (case revision_of c (pv_planRevisionId r) of
             None \<Rightarrow> False
           | Some v \<Rightarrow> pr_planId v = pc_planId p
               \<and> (pv_state r = PUBLISHED \<longrightarrow> pr_state v = PUBLISHED)))"

definition in_window :: "price_revision \<Rightarrow> time \<Rightarrow> bool" where
  "in_window r at \<longleftrightarrow>
     pv_effectiveFrom r \<le> at \<and> (case pv_effectiveTo r of None \<Rightarrow> True | Some t \<Rightarrow> at < t)"

definition assignment_guard :: "catalog \<Rightarrow> assignment \<Rightarrow> bool" where
  "assignment_guard c a \<longleftrightarrow>
     price_of c (as_priceId a) \<noteq> None
     \<and> (case as_selected a of
          None \<Rightarrow> True
        | Some i \<Rightarrow>
            (case terms_of c i of
               None \<Rightarrow> False
             | Some r \<Rightarrow> pv_priceId r = as_priceId a \<and> pv_state r = PUBLISHED
                 \<and> in_window r (as_effectiveFrom a)))"

definition assignment_checks :: "assignment \<Rightarrow> bool" where
  "assignment_checks a \<longleftrightarrow> 0 < as_revision a \<and> int4 (as_revision a) \<and> safe_reason (as_reason a)"

section \<open>Writes\<close>

definition catalog_uuid :: "uuid cattx" where
  "catalog_uuid =
     andThen (gets (\<lambda>c. cat_uuids c (cat_drawn c)))
       (\<lambda>i. andThen (modify (\<lambda>c. c\<lparr>cat_drawn := Suc (cat_drawn c)\<rparr>)) (\<lambda>_. ret i))"

text \<open>INSERT with a generated identifier and \<open>created_at DEFAULT now()\<close>; \<open>put\<close> is the record update of
  the table.\<close>

definition insert_row ::
  "string \<Rightarrow> (catalog \<Rightarrow> 'r \<Rightarrow> bool) \<Rightarrow> (('r list \<Rightarrow> 'r list) \<Rightarrow> catalog \<Rightarrow> catalog) \<Rightarrow> (uuid \<Rightarrow> time \<Rightarrow> 'r)
    \<Rightarrow> 'r cattx" where
  "insert_row table accepted put mk =
     andThen catalog_uuid (\<lambda>i.
     andThen (gets cat_now) (\<lambda>at.
     andThen (require (Violation table) (\<lambda>c. accepted c (mk i at))) (\<lambda>_.
     andThen (modify (put (\<lambda>t. t @ [mk i at]))) (\<lambda>_.
     ret (mk i at)))))"

text \<open>UPDATE of the row with key \<open>i\<close>, RETURNING it.\<close>

definition update_row ::
  "string \<Rightarrow> (catalog \<Rightarrow> 'r list) \<Rightarrow> ('r \<Rightarrow> 'k) \<Rightarrow> (catalog \<Rightarrow> 'r \<Rightarrow> 'r \<Rightarrow> bool)
    \<Rightarrow> (('r list \<Rightarrow> 'r list) \<Rightarrow> catalog \<Rightarrow> catalog) \<Rightarrow> 'k \<Rightarrow> ('r \<Rightarrow> 'r) \<Rightarrow> 'r option cattx" where
  "update_row table rows key accepted put i f =
     andThen (gets (\<lambda>c. List.find (\<lambda>r. key r = i) (rows c))) (\<lambda>found.
       case found of
         None \<Rightarrow> ret None
       | Some r \<Rightarrow>
           andThen (require (Violation table) (\<lambda>c. accepted c r (f r))) (\<lambda>_.
           andThen (modify (put (update_where (\<lambda>x. key x = i) f))) (\<lambda>_.
           ret (Some (f r)))))"

definition plan_accepted :: "catalog \<Rightarrow> plan \<Rightarrow> bool" where
  "plan_accepted c r \<longleftrightarrow>
     plan_checks r \<and> pl_id r \<notin> pl_id ` set (plans c) \<and> pl_code r \<notin> pl_code ` set (plans c)"

text \<open>\<open>p4_1_plan_identity_guard\<close>\<close>

definition plan_identity_guard :: "plan \<Rightarrow> plan \<Rightarrow> bool" where
  "plan_identity_guard r r' \<longleftrightarrow>
     pl_id r' = pl_id r \<and> pl_code r' = pl_code r
     \<and> (pl_status r = ARCHIVED_STATUS \<longrightarrow> pl_status r' = ARCHIVED_STATUS)"

definition insert_plan :: "(uuid \<Rightarrow> time \<Rightarrow> plan) \<Rightarrow> plan cattx" where
  "insert_plan = insert_row ''plans'' plan_accepted plans_update"

definition update_plan :: "uuid \<Rightarrow> (plan \<Rightarrow> plan) \<Rightarrow> plan option cattx" where
  "update_plan = update_row ''plans'' plans pl_id
     (\<lambda>_ r r'. plan_identity_guard r r' \<and> plan_checks r') plans_update"

definition plan_revision_accepted :: "catalog \<Rightarrow> plan_revision \<Rightarrow> bool" where
  "plan_revision_accepted c r \<longleftrightarrow>
     plan_revision_checks r \<and> plan_of c (pr_planId r) \<noteq> None
     \<and> pr_id r \<notin> pr_id ` set (plan_revisions c)
     \<and> (pr_planId r, pr_revision r) \<notin> (\<lambda>x. (pr_planId x, pr_revision x)) ` set (plan_revisions c)"

text \<open>\<open>p4_1_reject_published_revision_mutation\<close> and \<open>p4_1_plan_revision_identity_guard\<close>\<close>

definition plan_revision_update_guard :: "plan_revision \<Rightarrow> plan_revision \<Rightarrow> bool" where
  "plan_revision_update_guard r r' \<longleftrightarrow>
     pr_state r \<noteq> PUBLISHED
     \<and> pr_id r' = pr_id r \<and> pr_planId r' = pr_planId r \<and> pr_revision r' = pr_revision r"

definition insert_plan_revision :: "(uuid \<Rightarrow> time \<Rightarrow> plan_revision) \<Rightarrow> plan_revision cattx" where
  "insert_plan_revision = insert_row ''plan_revisions'' plan_revision_accepted plan_revisions_update"

definition update_plan_revision :: "uuid \<Rightarrow> (plan_revision \<Rightarrow> plan_revision) \<Rightarrow> plan_revision option cattx" where
  "update_plan_revision = update_row ''plan_revisions'' plan_revisions pr_id
     (\<lambda>_ r r'. plan_revision_update_guard r r' \<and> plan_revision_checks r') plan_revisions_update"

text \<open>\<open>p4_1_entitlement_definition_guard\<close>\<close>

definition definition_update_guard :: "definition_row \<Rightarrow> definition_row \<Rightarrow> bool" where
  "definition_update_guard r r' \<longleftrightarrow>
     ed_key r' = ed_key r \<and> ed_valueType r' = ed_valueType r \<and> ed_classification r' = ed_classification r
     \<and> (ed_deprecatedAt r \<noteq> None \<longrightarrow> ed_deprecatedAt r' = ed_deprecatedAt r)"

text \<open>The key of a definition is given by the caller, not generated.\<close>

definition insert_definition :: "(time \<Rightarrow> definition_row) \<Rightarrow> definition_row cattx" where
  "insert_definition mk =
     andThen (gets cat_now) (\<lambda>at.
     andThen (require (Violation ''entitlement_definitions'')
         (\<lambda>c. definition_checks (mk at) \<and> ed_key (mk at) \<notin> ed_key ` set (definitions c))) (\<lambda>_.
     andThen (modify (definitions_update (\<lambda>t. t @ [mk at]))) (\<lambda>_.
     ret (mk at))))"

definition update_definition :: "string \<Rightarrow> (definition_row \<Rightarrow> definition_row) \<Rightarrow> definition_row option cattx" where
  "update_definition = update_row ''entitlement_definitions'' definitions ed_key
     (\<lambda>_ r r'. definition_update_guard r r' \<and> definition_checks r') definitions_update"

text \<open>\<open>INSERT ... ON CONFLICT(plan_revision_id,entitlement_key) DO UPDATE\<close> and \<open>DELETE\<close>.\<close>

definition same_entitlement :: "plan_entitlement \<Rightarrow> plan_entitlement \<Rightarrow> bool" where
  "same_entitlement r x \<longleftrightarrow> pe_planRevisionId x = pe_planRevisionId r \<and> pe_key x = pe_key r"

definition upsert_plan_entitlement :: "plan_entitlement \<Rightarrow> unit cattx" where
  "upsert_plan_entitlement r =
     andThen (require (Violation ''plan_entitlements'') (\<lambda>c. plan_entitlement_guard c r)) (\<lambda>_.
     modify (\<lambda>c. c\<lparr>plan_entitlements :=
       if list_ex (same_entitlement r) (plan_entitlements c)
       then update_where (same_entitlement r) (\<lambda>_. r) (plan_entitlements c)
       else plan_entitlements c @ [r]\<rparr>))"

definition delete_plan_entitlement :: "uuid \<Rightarrow> string \<Rightarrow> unit cattx" where
  "delete_plan_entitlement i k =
     andThen (require (Violation ''plan_entitlements'') (\<lambda>c.
         case revision_of c i of None \<Rightarrow> True | Some r \<Rightarrow> pr_state r \<noteq> PUBLISHED)) (\<lambda>_.
     modify (\<lambda>c. c\<lparr>plan_entitlements :=
       filter (\<lambda>e. \<not> (pe_planRevisionId e = i \<and> pe_key e = k)) (plan_entitlements c)\<rparr>))"

definition override_accepted :: "catalog \<Rightarrow> override_row \<Rightarrow> bool" where
  "override_accepted c r \<longleftrightarrow>
     override_checks r \<and> override_guard c r \<and> ov_id r \<notin> ov_id ` set (overrides c)
     \<and> (ov_accountId r, ov_key r, ov_revision r)
        \<notin> (\<lambda>x. (ov_accountId x, ov_key x, ov_revision x)) ` set (overrides c)"

definition insert_override :: "(uuid \<Rightarrow> time \<Rightarrow> override_row) \<Rightarrow> override_row cattx" where
  "insert_override = insert_row ''account_entitlement_overrides'' override_accepted overrides_update"

definition price_accepted :: "catalog \<Rightarrow> price \<Rightarrow> bool" where
  "price_accepted c r \<longleftrightarrow>
     price_checks r \<and> plan_of c (pc_planId r) \<noteq> None
     \<and> pc_id r \<notin> pc_id ` set (prices c) \<and> pc_code r \<notin> pc_code ` set (prices c)"

text \<open>\<open>p4_1_price_identity_guard\<close>\<close>

definition price_identity_guard :: "price \<Rightarrow> price \<Rightarrow> bool" where
  "price_identity_guard r r' \<longleftrightarrow>
     pc_id r' = pc_id r \<and> pc_planId r' = pc_planId r \<and> pc_code r' = pc_code r
     \<and> pc_marketKey r' = pc_marketKey r \<and> pc_channelKey r' = pc_channelKey r
     \<and> (pc_status r = ARCHIVED_STATUS \<longrightarrow> pc_status r' = ARCHIVED_STATUS)"

definition insert_price :: "(uuid \<Rightarrow> time \<Rightarrow> price) \<Rightarrow> price cattx" where
  "insert_price = insert_row ''prices'' price_accepted prices_update"

definition update_price :: "uuid \<Rightarrow> (price \<Rightarrow> price) \<Rightarrow> price option cattx" where
  "update_price = update_row ''prices'' prices pc_id
     (\<lambda>_ r r'. price_identity_guard r r' \<and> price_checks r') prices_update"

definition price_revision_accepted :: "catalog \<Rightarrow> price_revision \<Rightarrow> bool" where
  "price_revision_accepted c r \<longleftrightarrow>
     price_revision_checks r \<and> price_revision_guard c r \<and> pv_id r \<notin> pv_id ` set (price_revisions c)
     \<and> (pv_priceId r, pv_revision r) \<notin> (\<lambda>x. (pv_priceId x, pv_revision x)) ` set (price_revisions c)"

definition price_revision_update_guard :: "price_revision \<Rightarrow> price_revision \<Rightarrow> bool" where
  "price_revision_update_guard r r' \<longleftrightarrow>
     pv_state r \<noteq> PUBLISHED
     \<and> pv_id r' = pv_id r \<and> pv_priceId r' = pv_priceId r \<and> pv_revision r' = pv_revision r"

definition insert_price_revision :: "(uuid \<Rightarrow> time \<Rightarrow> price_revision) \<Rightarrow> price_revision cattx" where
  "insert_price_revision = insert_row ''price_revisions'' price_revision_accepted price_revisions_update"

definition update_price_revision :: "uuid \<Rightarrow> (price_revision \<Rightarrow> price_revision) \<Rightarrow> price_revision option cattx" where
  "update_price_revision = update_row ''price_revisions'' price_revisions pv_id
     (\<lambda>c r r'. price_revision_update_guard r r' \<and> price_revision_checks r' \<and> price_revision_guard c r')
     price_revisions_update"

definition assignment_accepted :: "catalog \<Rightarrow> assignment \<Rightarrow> bool" where
  "assignment_accepted c r \<longleftrightarrow>
     assignment_checks r \<and> assignment_guard c r \<and> as_id r \<notin> as_id ` set (assignments c)
     \<and> (as_priceId r, as_revision r) \<notin> (\<lambda>x. (as_priceId x, as_revision x)) ` set (assignments c)"

definition insert_assignment :: "(uuid \<Rightarrow> time \<Rightarrow> assignment) \<Rightarrow> assignment cattx" where
  "insert_assignment = insert_row ''price_sale_assignments'' assignment_accepted assignments_update"

definition catalog_audit_checks :: "catalog_audit \<Rightarrow> bool" where
  "catalog_audit_checks r \<longleftrightarrow>
     length (ca_actorType r) \<le> 64 \<and> length (ca_action r) \<le> 128 \<and> length (ca_targetType r) \<le> 64
     \<and> length (ca_correlationId r) \<le> 128 \<and> length (ca_reason r) \<le> 512"

definition insert_catalog_audit :: "catalog_audit \<Rightarrow> unit cattx" where
  "insert_catalog_audit r =
     andThen (require (Violation ''audit_events'') (\<lambda>_. catalog_audit_checks r))
       (\<lambda>_. modify (catalog_audits_update (\<lambda>t. t @ [r])))"

section \<open>The invariant\<close>

text \<open>The unique keys of the tables.\<close>

definition catalog_keys :: "catalog \<Rightarrow> bool" where
  "catalog_keys c \<longleftrightarrow>
     distinct (map pl_id (plans c)) \<and> distinct (map pl_code (plans c))
     \<and> distinct (map pr_id (plan_revisions c))
     \<and> distinct (map (\<lambda>r. (pr_planId r, pr_revision r)) (plan_revisions c))
     \<and> distinct (map ed_key (definitions c))
     \<and> distinct (map (\<lambda>r. (pe_planRevisionId r, pe_key r)) (plan_entitlements c))
     \<and> distinct (map ov_id (overrides c))
     \<and> distinct (map (\<lambda>r. (ov_accountId r, ov_key r, ov_revision r)) (overrides c))
     \<and> distinct (map pc_id (prices c)) \<and> distinct (map pc_code (prices c))
     \<and> distinct (map pv_id (price_revisions c))
     \<and> distinct (map (\<lambda>r. (pv_priceId r, pv_revision r)) (price_revisions c))
     \<and> distinct (map as_id (assignments c))
     \<and> distinct (map (\<lambda>r. (as_priceId r, as_revision r)) (assignments c))"

text \<open>What refers to a row of another table, and how the values agree with it.\<close>

definition entitlement_typed :: "catalog \<Rightarrow> plan_entitlement \<Rightarrow> bool" where
  "entitlement_typed c r \<longleftrightarrow>
     revision_of c (pe_planRevisionId r) \<noteq> None
     \<and> (case definition_of c (pe_key r) of
          None \<Rightarrow> False
        | Some d \<Rightarrow> typed_columns (ed_valueType d) (pe_boolean r) (pe_integer r))"

definition catalog_rows :: "catalog \<Rightarrow> bool" where
  "catalog_rows c \<longleftrightarrow>
     (\<forall>r \<in> set (plan_revisions c). plan_revision_checks r \<and> plan_of c (pr_planId r) \<noteq> None)
     \<and> (\<forall>r \<in> set (definitions c). definition_checks r)
     \<and> (\<forall>r \<in> set (plan_entitlements c). entitlement_typed c r)
     \<and> (\<forall>r \<in> set (overrides c). override_checks r \<and> override_guard c r)
     \<and> (\<forall>r \<in> set (prices c). price_checks r \<and> plan_of c (pc_planId r) \<noteq> None)
     \<and> (\<forall>r \<in> set (price_revisions c). price_revision_checks r \<and> price_revision_guard c r)
     \<and> (\<forall>r \<in> set (assignments c). assignment_checks r \<and> assignment_guard c r)"

text \<open>No trigger has this one: what is offered has something published to offer.\<close>

definition has_published :: "catalog \<Rightarrow> uuid \<Rightarrow> bool" where
  "has_published c i \<longleftrightarrow> list_ex (\<lambda>r. pr_planId r = i \<and> pr_state r = PUBLISHED) (plan_revisions c)"

definition price_has_published :: "catalog \<Rightarrow> uuid \<Rightarrow> bool" where
  "price_has_published c i \<longleftrightarrow> list_ex (\<lambda>r. pv_priceId r = i \<and> pv_state r = PUBLISHED) (price_revisions c)"

definition offered :: "catalog_status \<Rightarrow> bool" where
  "offered st \<longleftrightarrow> st = ACTIVE_STATUS \<or> st = HIDDEN_STATUS"

definition catalog_offers :: "catalog \<Rightarrow> bool" where
  "catalog_offers c \<longleftrightarrow>
     (\<forall>p \<in> set (plans c). offered (pl_status p) \<longrightarrow> has_published c (pl_id p))
     \<and> (\<forall>p \<in> set (prices c). offered (pc_status p) \<longrightarrow> price_has_published c (pc_id p))"

definition catalog_inv :: "catalog \<Rightarrow> bool" where
  "catalog_inv c \<longleftrightarrow> catalog_keys c \<and> catalog_rows c \<and> catalog_offers c"

section \<open>History\<close>

text \<open>\<open>kept f g P\<close>: every row that \<open>f\<close> finds is found by \<open>g\<close> under its key, related to it by \<open>P\<close>.\<close>

definition kept :: "('k \<Rightarrow> 'r option) \<Rightarrow> ('k \<Rightarrow> 'r option) \<Rightarrow> ('r \<Rightarrow> 'r \<Rightarrow> bool) \<Rightarrow> bool" where
  "kept f g P \<longleftrightarrow> (\<forall>i r. f i = Some r \<longrightarrow> (\<exists>r'. g i = Some r' \<and> P r r'))"

definition revision_kept :: "plan_revision \<Rightarrow> plan_revision \<Rightarrow> bool" where
  "revision_kept r r' \<longleftrightarrow> r' = r \<or> plan_revision_update_guard r r'"

definition terms_kept :: "price_revision \<Rightarrow> price_revision \<Rightarrow> bool" where
  "terms_kept r r' \<longleftrightarrow> r' = r \<or> price_revision_update_guard r r'"

text \<open>What a catalog keeps of an earlier one: identities, archived and deprecated for good, what is published as it
  was published, and the overrides, assignments and audit entries in the order of their insertion.\<close>

definition history :: "catalog \<Rightarrow> catalog \<Rightarrow> bool" where
  "history c c' \<longleftrightarrow>
     kept (plan_of c) (plan_of c') plan_identity_guard
     \<and> kept (revision_of c) (revision_of c') revision_kept
     \<and> (\<forall>i r. revision_of c i = Some r \<longrightarrow> pr_state r = PUBLISHED \<longrightarrow> entitlements_of c' i = entitlements_of c i)
     \<and> kept (definition_of c) (definition_of c') definition_update_guard
     \<and> kept (price_of c) (price_of c') price_identity_guard
     \<and> kept (terms_of c) (terms_of c') terms_kept
     \<and> prefix (overrides c) (overrides c') \<and> prefix (assignments c) (assignments c')
     \<and> prefix (catalog_audits c) (catalog_audits c') \<and> prefix (customers c) (customers c')"

lemma kept_refl: "(\<And>r. P r r) \<Longrightarrow> kept f f P"
  by (simp add: kept_def)

lemma kept_trans:
  "kept f g P \<Longrightarrow> kept g h P \<Longrightarrow> (\<And>r r' r''. P r r' \<Longrightarrow> P r' r'' \<Longrightarrow> P r r'') \<Longrightarrow> kept f h P"
  by (simp add: kept_def) meson

lemma keptD: "kept f g P \<Longrightarrow> f i = Some r \<Longrightarrow> \<exists>r'. g i = Some r' \<and> P r r'"
  by (simp add: kept_def)

lemma guards_refl [simp]:
  "plan_identity_guard p p" "revision_kept v v" "definition_update_guard d d" "price_identity_guard q q"
  "terms_kept w w"
  by (simp_all add: plan_identity_guard_def revision_kept_def definition_update_guard_def
      price_identity_guard_def terms_kept_def)

lemma guards_trans:
  "plan_identity_guard p p' \<Longrightarrow> plan_identity_guard p' p'' \<Longrightarrow> plan_identity_guard p p''"
  "revision_kept v v' \<Longrightarrow> revision_kept v' v'' \<Longrightarrow> revision_kept v v''"
  "definition_update_guard d d' \<Longrightarrow> definition_update_guard d' d'' \<Longrightarrow> definition_update_guard d d''"
  "price_identity_guard q q' \<Longrightarrow> price_identity_guard q' q'' \<Longrightarrow> price_identity_guard q q''"
  "terms_kept w w' \<Longrightarrow> terms_kept w' w'' \<Longrightarrow> terms_kept w w''"
  by (auto simp: plan_identity_guard_def revision_kept_def plan_revision_update_guard_def
      definition_update_guard_def price_identity_guard_def terms_kept_def price_revision_update_guard_def)

lemma history_refl [simp]: "history c c"
  by (simp add: history_def kept_refl)

lemma history_trans: "history c c' \<Longrightarrow> history c' c'' \<Longrightarrow> history c c''"
  unfolding history_def
  apply (elim conjE)
  apply (intro conjI)
           apply (erule (1) kept_trans, erule (1) guards_trans)
          apply (erule (1) kept_trans, erule (1) guards_trans)
  subgoal by (metis keptD plan_revision_update_guard_def revision_kept_def)
        apply (erule (1) kept_trans, erule (1) guards_trans)
       apply (erule (1) kept_trans, erule (1) guards_trans)
      apply (erule (1) kept_trans, erule (1) guards_trans)
  by (simp_all add: prefix_order.order_trans)

lemma history_path: "history\<^sup>*\<^sup>* c c' \<Longrightarrow> history c c'"
  by (induction rule: rtranclp_induct) (auto intro: history_trans)

lemma kept_appended: "(\<And>r. P r r) \<Longrightarrow> kept (\<lambda>i. List.find (\<lambda>r. k r = i) t) (\<lambda>i. List.find (\<lambda>r. k r = i) (t @ u)) P"
  by (simp add: kept_def find_append)

lemma kept_updated:
  assumes "distinct (map k t)" and "List.find (\<lambda>x. k x = i) t = Some r" and "k (f r) = i" and "P r (f r)"
    and "\<And>r. P r r"
  shows "kept (\<lambda>j. List.find (\<lambda>r. k r = j) t)
    (\<lambda>j. List.find (\<lambda>r. k r = j) (update_where (\<lambda>x. k x = i) f t)) P"
  using assms by (auto simp: kept_def find_update_row)

lemma catalog_frames [simp]:
  "plan_of (plan_revisions_update fb c) = plan_of c"
  "plan_of (definitions_update fc c) = plan_of c"
  "plan_of (plan_entitlements_update fd c) = plan_of c"
  "plan_of (overrides_update fe c) = plan_of c"
  "plan_of (prices_update fg c) = plan_of c"
  "plan_of (price_revisions_update fh c) = plan_of c"
  "plan_of (assignments_update fi c) = plan_of c"
  "plan_of (catalog_audits_update fj c) = plan_of c"
  "plan_of (cat_drawn_update fk c) = plan_of c"
  "revision_of (plans_update fa c) = revision_of c"
  "revision_of (definitions_update fc c) = revision_of c"
  "revision_of (plan_entitlements_update fd c) = revision_of c"
  "revision_of (overrides_update fe c) = revision_of c"
  "revision_of (prices_update fg c) = revision_of c"
  "revision_of (price_revisions_update fh c) = revision_of c"
  "revision_of (assignments_update fi c) = revision_of c"
  "revision_of (catalog_audits_update fj c) = revision_of c"
  "revision_of (cat_drawn_update fk c) = revision_of c"
  "definition_of (plans_update fa c) = definition_of c"
  "definition_of (plan_revisions_update fb c) = definition_of c"
  "definition_of (plan_entitlements_update fd c) = definition_of c"
  "definition_of (overrides_update fe c) = definition_of c"
  "definition_of (prices_update fg c) = definition_of c"
  "definition_of (price_revisions_update fh c) = definition_of c"
  "definition_of (assignments_update fi c) = definition_of c"
  "definition_of (catalog_audits_update fj c) = definition_of c"
  "definition_of (cat_drawn_update fk c) = definition_of c"
  "price_of (plans_update fa c) = price_of c"
  "price_of (plan_revisions_update fb c) = price_of c"
  "price_of (definitions_update fc c) = price_of c"
  "price_of (plan_entitlements_update fd c) = price_of c"
  "price_of (overrides_update fe c) = price_of c"
  "price_of (price_revisions_update fh c) = price_of c"
  "price_of (assignments_update fi c) = price_of c"
  "price_of (catalog_audits_update fj c) = price_of c"
  "price_of (cat_drawn_update fk c) = price_of c"
  "terms_of (plans_update fa c) = terms_of c"
  "terms_of (plan_revisions_update fb c) = terms_of c"
  "terms_of (definitions_update fc c) = terms_of c"
  "terms_of (plan_entitlements_update fd c) = terms_of c"
  "terms_of (overrides_update fe c) = terms_of c"
  "terms_of (prices_update fg c) = terms_of c"
  "terms_of (assignments_update fi c) = terms_of c"
  "terms_of (catalog_audits_update fj c) = terms_of c"
  "terms_of (cat_drawn_update fk c) = terms_of c"
  "entitlements_of (plans_update fa c) = entitlements_of c"
  "entitlements_of (plan_revisions_update fb c) = entitlements_of c"
  "entitlements_of (definitions_update fc c) = entitlements_of c"
  "entitlements_of (overrides_update fe c) = entitlements_of c"
  "entitlements_of (prices_update fg c) = entitlements_of c"
  "entitlements_of (price_revisions_update fh c) = entitlements_of c"
  "entitlements_of (assignments_update fi c) = entitlements_of c"
  "entitlements_of (catalog_audits_update fj c) = entitlements_of c"
  "entitlements_of (cat_drawn_update fk c) = entitlements_of c"
  "has_published (plans_update fa c) = has_published c"
  "has_published (definitions_update fc c) = has_published c"
  "has_published (plan_entitlements_update fd c) = has_published c"
  "has_published (overrides_update fe c) = has_published c"
  "has_published (prices_update fg c) = has_published c"
  "has_published (price_revisions_update fh c) = has_published c"
  "has_published (assignments_update fi c) = has_published c"
  "has_published (catalog_audits_update fj c) = has_published c"
  "has_published (cat_drawn_update fk c) = has_published c"
  "price_has_published (plans_update fa c) = price_has_published c"
  "price_has_published (plan_revisions_update fb c) = price_has_published c"
  "price_has_published (definitions_update fc c) = price_has_published c"
  "price_has_published (plan_entitlements_update fd c) = price_has_published c"
  "price_has_published (overrides_update fe c) = price_has_published c"
  "price_has_published (prices_update fg c) = price_has_published c"
  "price_has_published (assignments_update fi c) = price_has_published c"
  "price_has_published (catalog_audits_update fj c) = price_has_published c"
  "price_has_published (cat_drawn_update fk c) = price_has_published c"
  by (simp_all add: fun_eq_iff plan_of_def revision_of_def definition_of_def price_of_def terms_of_def
      entitlements_of_def has_published_def price_has_published_def)

text \<open>The guards only look at what is kept.\<close>

lemma history_plan: "history c c' \<Longrightarrow> plan_of c i \<noteq> None \<Longrightarrow> plan_of c' i \<noteq> None"
  by (cases "plan_of c i") (auto simp: history_def dest: keptD)

lemma history_revision:
  "history c c' \<Longrightarrow> revision_of c i = Some r \<Longrightarrow>
   \<exists>r'. revision_of c' i = Some r' \<and> pr_planId r' = pr_planId r \<and> (pr_state r = PUBLISHED \<longrightarrow> r' = r)"
  unfolding history_def
  by (elim conjE, drule (1) keptD [of "revision_of c"])
    (auto simp: revision_kept_def plan_revision_update_guard_def)

lemma history_definition:
  "history c c' \<Longrightarrow> definition_of c i = Some d \<Longrightarrow> \<exists>d'. definition_of c' i = Some d' \<and> ed_valueType d' = ed_valueType d"
  unfolding history_def
  by (elim conjE, drule (1) keptD [of "definition_of c"]) (auto simp: definition_update_guard_def)

lemma history_price:
  "history c c' \<Longrightarrow> price_of c i = Some p \<Longrightarrow> \<exists>p'. price_of c' i = Some p' \<and> pc_planId p' = pc_planId p"
  unfolding history_def
  by (elim conjE, drule (1) keptD [of "price_of c"]) (auto simp: price_identity_guard_def)

lemma history_terms:
  "history c c' \<Longrightarrow> terms_of c i = Some r \<Longrightarrow> pv_state r = PUBLISHED \<Longrightarrow> terms_of c' i = Some r"
  unfolding history_def
  by (elim conjE, drule (1) keptD [of "terms_of c"])
    (auto simp: terms_kept_def price_revision_update_guard_def)

lemma history_typed:
  assumes "history c c'" and "entitlement_typed c r"
  shows "entitlement_typed c' r"
  using assms(2) history_revision [OF assms(1), of "pe_planRevisionId r"]
    history_definition [OF assms(1), of "pe_key r"]
  by (auto simp: entitlement_typed_def split: option.splits)

lemma history_override:
  assumes "history c c'" and "override_guard c r"
  shows "override_guard c' r"
proof -
  have "set (customers c) \<subseteq> set (customers c')"
    using assms(1) by (auto simp: history_def dest: set_mono_prefix)
  then show ?thesis
    using assms(2) history_definition [OF assms(1), of "ov_key r"]
    by (auto simp: override_guard_def split: option.splits)
qed

lemma history_price_revision:
  assumes "history c c'" and "price_revision_guard c r"
  shows "price_revision_guard c' r"
  using assms(2) history_price [OF assms(1), of "pv_priceId r"] history_revision [OF assms(1), of "pv_planRevisionId r"]
  by (fastforce simp: price_revision_guard_def split: option.splits)

lemma history_assignment:
  assumes "history c c'" and "assignment_guard c a"
  shows "assignment_guard c' a"
  using assms(2) history_price [OF assms(1), of "as_priceId a"] history_terms [OF assms(1)]
  by (fastforce simp: assignment_guard_def split: option.splits)

lemmas history_guards = history_plan history_typed history_override history_price_revision history_assignment

section \<open>Every write keeps the invariant and the history\<close>

lemma catalog_rows_step:
  assumes "catalog_rows c" and "history c c'"
    and "\<And>r. r \<in> set (plan_revisions c') \<Longrightarrow> r \<notin> set (plan_revisions c) \<Longrightarrow>
      plan_revision_checks r \<and> plan_of c' (pr_planId r) \<noteq> None"
    and "\<And>r. r \<in> set (definitions c') \<Longrightarrow> r \<notin> set (definitions c) \<Longrightarrow> definition_checks r"
    and "\<And>r. r \<in> set (plan_entitlements c') \<Longrightarrow> r \<notin> set (plan_entitlements c) \<Longrightarrow> entitlement_typed c' r"
    and "\<And>r. r \<in> set (overrides c') \<Longrightarrow> r \<notin> set (overrides c) \<Longrightarrow> override_checks r \<and> override_guard c' r"
    and "\<And>r. r \<in> set (prices c') \<Longrightarrow> r \<notin> set (prices c) \<Longrightarrow> price_checks r \<and> plan_of c' (pc_planId r) \<noteq> None"
    and "\<And>r. r \<in> set (price_revisions c') \<Longrightarrow> r \<notin> set (price_revisions c) \<Longrightarrow>
      price_revision_checks r \<and> price_revision_guard c' r"
    and "\<And>r. r \<in> set (assignments c') \<Longrightarrow> r \<notin> set (assignments c) \<Longrightarrow> assignment_checks r \<and> assignment_guard c' r"
  shows "catalog_rows c'"
  unfolding catalog_rows_def
  using assms(1) unfolding catalog_rows_def
  by (elim conjE) (intro conjI ballI; meson assms(3-9) history_guards [OF assms(2)])

lemma published_kept:
  assumes "catalog_keys c" and "history c c'" and "has_published c i"
  shows "has_published c' i"
proof -
  obtain r where r: "r \<in> set (plan_revisions c)" "pr_planId r = i" "pr_state r = PUBLISHED"
    using assms(3) by (auto simp: has_published_def list_ex_iff)
  have "revision_of c (pr_id r) = Some r"
    using assms(1) r(1) by (simp add: revision_of_def catalog_keys_def find_unique)
  then have "revision_of c' (pr_id r) = Some r"
    using history_revision [OF assms(2)] r(3) by blast
  then have "r \<in> set (plan_revisions c')"
    by (auto simp: revision_of_def dest!: find_Some_mem)
  then show ?thesis using r by (auto simp: has_published_def list_ex_iff)
qed

lemma price_published_kept:
  assumes "catalog_keys c" and "history c c'" and "price_has_published c i"
  shows "price_has_published c' i"
proof -
  obtain r where r: "r \<in> set (price_revisions c)" "pv_priceId r = i" "pv_state r = PUBLISHED"
    using assms(3) by (auto simp: price_has_published_def list_ex_iff)
  have "terms_of c (pv_id r) = Some r"
    using assms(1) r(1) by (simp add: terms_of_def catalog_keys_def find_unique)
  then have "terms_of c' (pv_id r) = Some r"
    using history_terms [OF assms(2)] r(3) by blast
  then have "r \<in> set (price_revisions c')"
    by (auto simp: terms_of_def dest!: find_Some_mem)
  then show ?thesis using r by (auto simp: price_has_published_def list_ex_iff)
qed

lemma catalog_offers_step:
  assumes "catalog_offers c" and "catalog_keys c" and "history c c'"
    and "\<And>p. p \<in> set (plans c') \<Longrightarrow> p \<notin> set (plans c) \<Longrightarrow> offered (pl_status p) \<Longrightarrow> has_published c' (pl_id p)"
    and "\<And>p. p \<in> set (prices c') \<Longrightarrow> p \<notin> set (prices c) \<Longrightarrow> offered (pc_status p) \<Longrightarrow> price_has_published c' (pc_id p)"
  shows "catalog_offers c'"
  using assms(1) published_kept [OF assms(2,3)] price_published_kept [OF assms(2,3)] assms(4,5)
  unfolding catalog_offers_def by blast

lemma catalog_drawn [simp]: "catalog_inv (cat_drawn_update f c) = catalog_inv c" "history c (cat_drawn_update f c)"
  by (simp_all add: catalog_inv_def catalog_keys_def catalog_rows_def catalog_offers_def entitlement_typed_def
      override_guard_def price_revision_guard_def assignment_guard_def history_def kept_refl cong: option.case_cong)

lemma insert_row_moves:
  assumes "\<And>c r. catalog_inv c \<Longrightarrow> accepted c r \<Longrightarrow> P r \<Longrightarrow>
      catalog_inv (put (\<lambda>t. t @ [r]) c) \<and> history c (put (\<lambda>t. t @ [r]) c)"
    and "\<And>i at. P (mk i at)"
  shows "moves_at catalog_inv history (insert_row table accepted put mk) c"
proof -
  have "history c s \<and> catalog_inv s" if run: "insert_row table accepted put mk c = Inr (x, s)" and "catalog_inv c" for x s
  proof -
    define d where "d = c\<lparr>cat_drawn := Suc (cat_drawn c)\<rparr>"
    obtain r where "accepted d r" "P r" "s = put (\<lambda>t. t @ [r]) d"
      using run assms(2) by (auto simp: insert_row_def catalog_uuid_def andThen_Inr_iff d_def)
    moreover have "catalog_inv d" "history c d"
      using that(2) by (simp_all add: d_def)
    ultimately show ?thesis using assms(1) history_trans by blast
  qed
  then show ?thesis by (auto simp: moves_at_def)
qed

lemma update_row_moves:
  assumes "\<And>r. catalog_inv c \<Longrightarrow> List.find (\<lambda>r. key r = i) (rows c) = Some r \<Longrightarrow> accepted c r (f r) \<Longrightarrow>
      catalog_inv (put (update_where (\<lambda>x. key x = i) f) c) \<and> history c (put (update_where (\<lambda>x. key x = i) f) c)"
  shows "moves_at catalog_inv history (update_row table rows key accepted put i f) c"
  using assms by (auto simp: moves_at_def update_row_def andThen_Inr_iff split: option.splits)

lemmas look_ups_abs = plan_of_def [abs_def] revision_of_def [abs_def] definition_of_def [abs_def]
  price_of_def [abs_def] terms_of_def [abs_def] kept_appended

lemma catalog_invI: "catalog_keys c \<Longrightarrow> catalog_rows c \<Longrightarrow> catalog_offers c \<Longrightarrow> catalog_inv c"
  by (simp add: catalog_inv_def)

lemma catalog_invD: "catalog_inv c \<Longrightarrow> catalog_keys c" "catalog_inv c \<Longrightarrow> catalog_rows c" "catalog_inv c \<Longrightarrow> catalog_offers c"
  by (simp_all add: catalog_inv_def)

lemma moves_insert_plan [tx_rules]:
  assumes "\<And>i at. pl_status (mk i at) = DRAFT_STATUS"
  shows "moves_at catalog_inv history (insert_plan mk) c"
  unfolding insert_plan_def
proof (rule insert_row_moves [where P = "\<lambda>r. pl_status r = DRAFT_STATUS"])
  fix c r
  assume inv: "catalog_inv c" and ok: "plan_accepted c r" and P: "(\<lambda>r. pl_status r = DRAFT_STATUS) r"
  let ?c = "plans_update (\<lambda>t. t @ [r]) c"
  have h: "history c ?c"
    by (simp add: history_def kept_refl look_ups_abs)
  have "catalog_keys ?c"
    using catalog_invD(1) [OF inv] ok by (simp add: catalog_keys_def plan_accepted_def)
  moreover have "catalog_rows ?c"
    using ok by (intro catalog_rows_step [OF catalog_invD(2) [OF inv] h]) (auto simp: plan_accepted_def )
  moreover have "catalog_offers ?c"
    using P by (intro catalog_offers_step [OF catalog_invD(3) [OF inv] catalog_invD(1) [OF inv] h]) (auto simp: offered_def)
  ultimately show "catalog_inv ?c \<and> history c ?c"
    using h by (simp add: catalog_inv_def)
qed (use assms in simp_all)

lemma moves_insert_plan_revision [tx_rules]:
  shows "moves_at catalog_inv history (insert_plan_revision mk) c"
  unfolding insert_plan_revision_def
proof (rule insert_row_moves [where P = "\<lambda>_. True"])
  fix c r
  assume inv: "catalog_inv c" and ok: "plan_revision_accepted c r" and P: "(\<lambda>_. True) r"
  let ?c = "plan_revisions_update (\<lambda>t. t @ [r]) c"
  have h: "history c ?c"
    by (simp add: history_def kept_refl look_ups_abs)
  have "catalog_keys ?c"
    using catalog_invD(1) [OF inv] ok by (simp add: catalog_keys_def plan_revision_accepted_def)
  moreover have "catalog_rows ?c"
    using ok by (intro catalog_rows_step [OF catalog_invD(2) [OF inv] h]) (auto simp: plan_revision_accepted_def )
  moreover have "catalog_offers ?c"
    using P by (intro catalog_offers_step [OF catalog_invD(3) [OF inv] catalog_invD(1) [OF inv] h]) (auto simp: offered_def)
  ultimately show "catalog_inv ?c \<and> history c ?c"
    using h by (simp add: catalog_inv_def)
qed simp

lemma moves_insert_override [tx_rules]:
  shows "moves_at catalog_inv history (insert_override mk) c"
  unfolding insert_override_def
proof (rule insert_row_moves [where P = "\<lambda>_. True"])
  fix c r
  assume inv: "catalog_inv c" and ok: "override_accepted c r" and P: "(\<lambda>_. True) r"
  let ?c = "overrides_update (\<lambda>t. t @ [r]) c"
  have h: "history c ?c"
    by (simp add: history_def kept_refl look_ups_abs)
  have "catalog_keys ?c"
    using catalog_invD(1) [OF inv] ok by (simp add: catalog_keys_def override_accepted_def)
  moreover have "catalog_rows ?c"
    using ok by (intro catalog_rows_step [OF catalog_invD(2) [OF inv] h]) (auto simp: override_accepted_def override_guard_def cong: option.case_cong)
  moreover have "catalog_offers ?c"
    using P by (intro catalog_offers_step [OF catalog_invD(3) [OF inv] catalog_invD(1) [OF inv] h]) (auto simp: offered_def)
  ultimately show "catalog_inv ?c \<and> history c ?c"
    using h by (simp add: catalog_inv_def)
qed simp

lemma moves_insert_price [tx_rules]:
  assumes "\<And>i at. pc_status (mk i at) = DRAFT_STATUS"
  shows "moves_at catalog_inv history (insert_price mk) c"
  unfolding insert_price_def
proof (rule insert_row_moves [where P = "\<lambda>r. pc_status r = DRAFT_STATUS"])
  fix c r
  assume inv: "catalog_inv c" and ok: "price_accepted c r" and P: "(\<lambda>r. pc_status r = DRAFT_STATUS) r"
  let ?c = "prices_update (\<lambda>t. t @ [r]) c"
  have h: "history c ?c"
    by (simp add: history_def kept_refl look_ups_abs)
  have "catalog_keys ?c"
    using catalog_invD(1) [OF inv] ok by (simp add: catalog_keys_def price_accepted_def)
  moreover have "catalog_rows ?c"
    using ok by (intro catalog_rows_step [OF catalog_invD(2) [OF inv] h]) (auto simp: price_accepted_def )
  moreover have "catalog_offers ?c"
    using P by (intro catalog_offers_step [OF catalog_invD(3) [OF inv] catalog_invD(1) [OF inv] h]) (auto simp: offered_def)
  ultimately show "catalog_inv ?c \<and> history c ?c"
    using h by (simp add: catalog_inv_def)
qed (use assms in simp_all)

lemma moves_insert_price_revision [tx_rules]:
  shows "moves_at catalog_inv history (insert_price_revision mk) c"
  unfolding insert_price_revision_def
proof (rule insert_row_moves [where P = "\<lambda>_. True"])
  fix c r
  assume inv: "catalog_inv c" and ok: "price_revision_accepted c r" and P: "(\<lambda>_. True) r"
  let ?c = "price_revisions_update (\<lambda>t. t @ [r]) c"
  have h: "history c ?c"
    by (simp add: history_def kept_refl look_ups_abs)
  have "catalog_keys ?c"
    using catalog_invD(1) [OF inv] ok by (simp add: catalog_keys_def price_revision_accepted_def)
  moreover have "catalog_rows ?c"
    using ok by (intro catalog_rows_step [OF catalog_invD(2) [OF inv] h]) (auto simp: price_revision_accepted_def price_revision_guard_def cong: option.case_cong)
  moreover have "catalog_offers ?c"
    using P by (intro catalog_offers_step [OF catalog_invD(3) [OF inv] catalog_invD(1) [OF inv] h]) (auto simp: offered_def)
  ultimately show "catalog_inv ?c \<and> history c ?c"
    using h by (simp add: catalog_inv_def)
qed simp

lemma moves_insert_assignment [tx_rules]:
  shows "moves_at catalog_inv history (insert_assignment mk) c"
  unfolding insert_assignment_def
proof (rule insert_row_moves [where P = "\<lambda>_. True"])
  fix c r
  assume inv: "catalog_inv c" and ok: "assignment_accepted c r" and P: "(\<lambda>_. True) r"
  let ?c = "assignments_update (\<lambda>t. t @ [r]) c"
  have h: "history c ?c"
    by (simp add: history_def kept_refl look_ups_abs)
  have "catalog_keys ?c"
    using catalog_invD(1) [OF inv] ok by (simp add: catalog_keys_def assignment_accepted_def)
  moreover have "catalog_rows ?c"
    using ok by (intro catalog_rows_step [OF catalog_invD(2) [OF inv] h]) (auto simp: assignment_accepted_def assignment_guard_def cong: option.case_cong)
  moreover have "catalog_offers ?c"
    using P by (intro catalog_offers_step [OF catalog_invD(3) [OF inv] catalog_invD(1) [OF inv] h]) (auto simp: offered_def)
  ultimately show "catalog_inv ?c \<and> history c ?c"
    using h by (simp add: catalog_inv_def)
qed simp

text \<open>The tables after writing the row with one key.\<close>

lemma updated_row_mem:
  assumes "distinct (map k t)" and "List.find (\<lambda>x. k x = i) t = Some r"
    and "x \<in> set (update_where (\<lambda>x. k x = i) f t)" and "x \<notin> set t"
  shows "x = f r"
  using assms(3,4) by (simp add: set_update_row [OF assms(1,2)])

lemma moves_update_plan [tx_rules]:
  assumes "\<And>r. plan_of c i = Some r \<Longrightarrow> offered (pl_status (f r)) \<Longrightarrow> has_published c i"
  shows "moves_at catalog_inv history (update_plan i f) c"
  unfolding update_plan_def
proof (rule update_row_moves)
  fix r
  let ?c = "plans_update (update_where (\<lambda>x. pl_id x = i) f) c"
  assume inv: "catalog_inv c" and r: "List.find (\<lambda>r. pl_id r = i) (plans c) = Some r"
    and ok: "plan_identity_guard r (f r) \<and> plan_checks (f r)"
  have key: "distinct (map pl_id (plans c))"
    using catalog_invD(1) [OF inv] by (simp add: catalog_keys_def)
  have id: "pl_id r = i"
    using r by (auto dest!: find_Some_mem)
  have h: "history c ?c"
    using kept_updated [OF key r, of f plan_identity_guard] ok id
    by (simp add: history_def kept_refl look_ups_abs plan_identity_guard_def)
  have "catalog_keys ?c"
    using catalog_invD(1) [OF inv] ok by (simp add: catalog_keys_def plan_identity_guard_def map_update_row [OF key r])
  moreover have "catalog_rows ?c"
    using catalog_rows_step [OF catalog_invD(2) [OF inv] h] history_plan [OF h] catalog_invD(2) [OF inv]
    by simp
  moreover have "catalog_offers ?c"
  proof (rule catalog_offers_step [OF catalog_invD(3) [OF inv] catalog_invD(1) [OF inv] h])
    fix p assume p: "p \<in> set (plans ?c)" "p \<notin> set (plans c)" "offered (pl_status p)"
    have "p = f r"
      using updated_row_mem [OF key r] p(1,2) by simp
    then show "has_published ?c (pl_id p)"
      using assms [of r] r p(3) ok id by (simp add: plan_of_def plan_identity_guard_def)
  qed simp_all
  ultimately show "catalog_inv ?c \<and> history c ?c"
    using h by (simp add: catalog_inv_def)
qed

lemma moves_update_price [tx_rules]:
  assumes "\<And>r. price_of c i = Some r \<Longrightarrow> offered (pc_status (f r)) \<Longrightarrow> price_has_published c i"
  shows "moves_at catalog_inv history (update_price i f) c"
  unfolding update_price_def
proof (rule update_row_moves)
  fix r
  let ?c = "prices_update (update_where (\<lambda>x. pc_id x = i) f) c"
  assume inv: "catalog_inv c" and r: "List.find (\<lambda>r. pc_id r = i) (prices c) = Some r"
    and ok: "price_identity_guard r (f r) \<and> price_checks (f r)"
  have key: "distinct (map pc_id (prices c))"
    using catalog_invD(1) [OF inv] by (simp add: catalog_keys_def)
  have id: "pc_id r = i" "r \<in> set (prices c)"
    using r by (auto dest!: find_Some_mem)
  have h: "history c ?c"
    using kept_updated [OF key r, of f price_identity_guard] ok id
    by (simp add: history_def kept_refl look_ups_abs price_identity_guard_def)
  have "catalog_keys ?c"
    using catalog_invD(1) [OF inv] ok by (simp add: catalog_keys_def price_identity_guard_def map_update_row [OF key r])
  moreover have "catalog_rows ?c"
  proof (rule catalog_rows_step [OF catalog_invD(2) [OF inv] h])
    fix p assume p: "p \<in> set (prices ?c)" "p \<notin> set (prices c)"
    have "p = f r"
      using updated_row_mem [OF key r] p by simp
    then show "price_checks p \<and> plan_of ?c (pc_planId p) \<noteq> None"
      using ok catalog_invD(2) [OF inv] id(2) by (auto simp: catalog_rows_def price_identity_guard_def)
  qed simp_all
  moreover have "catalog_offers ?c"
  proof (rule catalog_offers_step [OF catalog_invD(3) [OF inv] catalog_invD(1) [OF inv] h])
    fix p assume p: "p \<in> set (prices ?c)" "p \<notin> set (prices c)" "offered (pc_status p)"
    have "p = f r"
      using updated_row_mem [OF key r] p(1,2) by simp
    then show "price_has_published ?c (pc_id p)"
      using assms [of r] r p(3) ok id by (simp add: price_of_def price_identity_guard_def)
  qed simp_all
  ultimately show "catalog_inv ?c \<and> history c ?c"
    using h by (simp add: catalog_inv_def)
qed

lemma moves_update_plan_revision [tx_rules]: "moves_at catalog_inv history (update_plan_revision i f) c"
  unfolding update_plan_revision_def
proof (rule update_row_moves)
  fix r
  let ?c = "plan_revisions_update (update_where (\<lambda>x. pr_id x = i) f) c"
  assume inv: "catalog_inv c" and r: "List.find (\<lambda>r. pr_id r = i) (plan_revisions c) = Some r"
    and ok: "plan_revision_update_guard r (f r) \<and> plan_revision_checks (f r)"
  have key: "distinct (map pr_id (plan_revisions c))"
    using catalog_invD(1) [OF inv] by (simp add: catalog_keys_def)
  have id: "pr_id r = i" "r \<in> set (plan_revisions c)"
    using r by (auto dest!: find_Some_mem)
  have h: "history c ?c"
    using kept_updated [OF key r, of f revision_kept] ok id
    by (simp add: history_def kept_refl look_ups_abs revision_kept_def plan_revision_update_guard_def)
  have "catalog_keys ?c"
    using catalog_invD(1) [OF inv] ok
    by (simp add: catalog_keys_def plan_revision_update_guard_def map_update_row [OF key r])
  moreover have "catalog_rows ?c"
  proof (rule catalog_rows_step [OF catalog_invD(2) [OF inv] h])
    fix p assume p: "p \<in> set (plan_revisions ?c)" "p \<notin> set (plan_revisions c)"
    have "p = f r"
      using updated_row_mem [OF key r] p by simp
    then show "plan_revision_checks p \<and> plan_of ?c (pr_planId p) \<noteq> None"
      using ok catalog_invD(2) [OF inv] id(2) by (auto simp: catalog_rows_def plan_revision_update_guard_def)
  qed simp_all
  moreover have "catalog_offers ?c"
    by (rule catalog_offers_step [OF catalog_invD(3) [OF inv] catalog_invD(1) [OF inv] h]) simp_all
  ultimately show "catalog_inv ?c \<and> history c ?c"
    using h by (simp add: catalog_inv_def)
qed

lemma moves_update_price_revision [tx_rules]: "moves_at catalog_inv history (update_price_revision i f) c"
  unfolding update_price_revision_def
proof (rule update_row_moves)
  fix r
  let ?c = "price_revisions_update (update_where (\<lambda>x. pv_id x = i) f) c"
  assume inv: "catalog_inv c" and r: "List.find (\<lambda>r. pv_id r = i) (price_revisions c) = Some r"
    and ok: "price_revision_update_guard r (f r) \<and> price_revision_checks (f r) \<and> price_revision_guard c (f r)"
  have key: "distinct (map pv_id (price_revisions c))"
    using catalog_invD(1) [OF inv] by (simp add: catalog_keys_def)
  have id: "pv_id r = i"
    using r by (auto dest!: find_Some_mem)
  have h: "history c ?c"
    using kept_updated [OF key r, of f terms_kept] ok id
    by (simp add: history_def kept_refl look_ups_abs terms_kept_def price_revision_update_guard_def)
  have "catalog_keys ?c"
    using catalog_invD(1) [OF inv] ok
    by (simp add: catalog_keys_def price_revision_update_guard_def map_update_row [OF key r])
  moreover have "catalog_rows ?c"
  proof (rule catalog_rows_step [OF catalog_invD(2) [OF inv] h])
    fix p assume p: "p \<in> set (price_revisions ?c)" "p \<notin> set (price_revisions c)"
    have "p = f r"
      using updated_row_mem [OF key r] p by simp
    then show "price_revision_checks p \<and> price_revision_guard ?c p"
      using ok history_price_revision [OF h] by blast
  qed simp_all
  moreover have "catalog_offers ?c"
    by (rule catalog_offers_step [OF catalog_invD(3) [OF inv] catalog_invD(1) [OF inv] h]) simp_all
  ultimately show "catalog_inv ?c \<and> history c ?c"
    using h by (simp add: catalog_inv_def)
qed

lemma moves_update_definition [tx_rules]: "moves_at catalog_inv history (update_definition i f) c"
  unfolding update_definition_def
proof (rule update_row_moves)
  fix r
  let ?c = "definitions_update (update_where (\<lambda>x. ed_key x = i) f) c"
  assume inv: "catalog_inv c" and r: "List.find (\<lambda>r. ed_key r = i) (definitions c) = Some r"
    and ok: "definition_update_guard r (f r) \<and> definition_checks (f r)"
  have key: "distinct (map ed_key (definitions c))"
    using catalog_invD(1) [OF inv] by (simp add: catalog_keys_def)
  have id: "ed_key r = i"
    using r by (auto dest!: find_Some_mem)
  have h: "history c ?c"
    using kept_updated [OF key r, of f definition_update_guard] ok id
    by (simp add: history_def kept_refl look_ups_abs definition_update_guard_def)
  have "catalog_keys ?c"
    using catalog_invD(1) [OF inv] ok
    by (simp add: catalog_keys_def definition_update_guard_def map_update_row [OF key r])
  moreover have "catalog_rows ?c"
  proof (rule catalog_rows_step [OF catalog_invD(2) [OF inv] h])
    fix p assume p: "p \<in> set (definitions ?c)" "p \<notin> set (definitions c)"
    have "p = f r"
      using updated_row_mem [OF key r] p by simp
    then show "definition_checks p"
      using ok by blast
  qed simp_all
  moreover have "catalog_offers ?c"
    by (rule catalog_offers_step [OF catalog_invD(3) [OF inv] catalog_invD(1) [OF inv] h]) simp_all
  ultimately show "catalog_inv ?c \<and> history c ?c"
    using h by (simp add: catalog_inv_def)
qed

lemma moves_insert_definition [tx_rules]: "moves_at catalog_inv history (insert_definition mk) c"
proof -
  have step: "catalog_inv c' \<and> history c c'"
    if inv: "catalog_inv c" and ok: "definition_checks r \<and> ed_key r \<notin> ed_key ` set (definitions c)"
      and c: "c' = definitions_update (\<lambda>t. t @ [r]) c" for r c'
  proof -
    have h: "history c c'"
      by (simp add: c history_def kept_refl look_ups_abs)
    have "catalog_keys c'"
      using catalog_invD(1) [OF inv] ok by (simp add: c catalog_keys_def)
    moreover have "catalog_rows c'"
      using ok by (intro catalog_rows_step [OF catalog_invD(2) [OF inv] h]) (auto simp: c)
    moreover have "catalog_offers c'"
      by (rule catalog_offers_step [OF catalog_invD(3) [OF inv] catalog_invD(1) [OF inv] h]) (simp_all add: c)
    ultimately show ?thesis
      using h by (simp add: catalog_inv_def)
  qed
  show ?thesis
    using step by (fastforce simp: moves_at_def insert_definition_def andThen_Inr_iff)
qed

lemma moves_catalog_audit [tx_rules]: "moves_at catalog_inv history (insert_catalog_audit r) c"
proof -
  have "catalog_inv c' \<and> history c c'" if "catalog_inv c" and "c' = catalog_audits_update (\<lambda>t. t @ [r]) c" for c'
  proof -
    have h: "history c c'"
      by (simp add: that(2) history_def kept_refl)
    show ?thesis
      using catalog_rows_step [OF catalog_invD(2) [OF that(1)] h]
        catalog_offers_step [OF catalog_invD(3) [OF that(1)] catalog_invD(1) [OF that(1)] h]
        catalog_invD(1) [OF that(1)] h
      by (simp add: that(2) catalog_inv_def catalog_keys_def)
  qed
  then show ?thesis
    by (fastforce simp: moves_at_def insert_catalog_audit_def andThen_Inr_iff)
qed

text \<open>The entitlements of a draft are free to change, those of a published revision are not touched.\<close>

lemma entitlements_written:
  assumes inv: "catalog_inv c" and c: "c' = c\<lparr>plan_entitlements := t\<rparr>"
    and keys: "distinct (map (\<lambda>r. (pe_planRevisionId r, pe_key r)) t)"
    and rows: "\<And>e. e \<in> set t \<Longrightarrow> e \<in> set (plan_entitlements c) \<or> entitlement_typed c e"
    and other: "\<And>j r. revision_of c j = Some r \<Longrightarrow> pr_state r = PUBLISHED \<Longrightarrow>
      filter (\<lambda>e. pe_planRevisionId e = j) t = entitlements_of c j"
  shows "catalog_inv c' \<and> history c c'"
proof -
  have c': "c' = plan_entitlements_update (\<lambda>_. t) c"
    by (simp add: c)
  have h: "history c c'"
    using other by (auto simp: c' history_def kept_refl entitlements_of_def)
  have "catalog_keys c'"
    using catalog_invD(1) [OF inv] keys by (simp add: c' catalog_keys_def)
  moreover have "catalog_rows c'"
    using rows history_typed [OF h]
    by (intro catalog_rows_step [OF catalog_invD(2) [OF inv] h]) (auto simp: c')
  moreover have "catalog_offers c'"
    by (rule catalog_offers_step [OF catalog_invD(3) [OF inv] catalog_invD(1) [OF inv] h]) (simp_all add: c')
  ultimately show ?thesis
    using h by (simp add: catalog_inv_def)
qed

lemma upserted_keys:
  assumes "distinct (map (\<lambda>r. (pe_planRevisionId r, pe_key r)) t)"
  shows "distinct (map (\<lambda>r. (pe_planRevisionId r, pe_key r))
    (if list_ex (same_entitlement r) t then update_where (same_entitlement r) (\<lambda>_. r) t else t @ [r]))"
proof (cases "list_ex (same_entitlement r) t")
  case True
  have "map (\<lambda>r. (pe_planRevisionId r, pe_key r)) (update_where (same_entitlement r) (\<lambda>_. r) t)
      = map (\<lambda>r. (pe_planRevisionId r, pe_key r)) t"
    by (rule update_where_keeps_keys) (simp add: same_entitlement_def)
  then show ?thesis
    using assms True by simp
next
  case False
  then show ?thesis
    using assms by (auto simp: list_ex_iff same_entitlement_def)
qed

lemma upserted_other:
  assumes "pe_planRevisionId r \<noteq> j"
  shows "filter (\<lambda>e. pe_planRevisionId e = j)
    (if list_ex (same_entitlement r) t then update_where (same_entitlement r) (\<lambda>_. r) t else t @ [r])
   = filter (\<lambda>e. pe_planRevisionId e = j) t"
proof -
  have "filter (\<lambda>e. pe_planRevisionId e = j) (update_where (same_entitlement r) (\<lambda>_. r) t)
      = filter (\<lambda>e. pe_planRevisionId e = j) t"
    using assms by (induction t) (auto simp: same_entitlement_def)
  then show ?thesis using assms by simp
qed

lemma moves_upsert [tx_rules]: "moves_at catalog_inv history (upsert_plan_entitlement r) c"
proof -
  let ?t = "if list_ex (same_entitlement r) (plan_entitlements c)
    then update_where (same_entitlement r) (\<lambda>_. r) (plan_entitlements c) else plan_entitlements c @ [r]"
  have "catalog_inv (c\<lparr>plan_entitlements := ?t\<rparr>) \<and> history c (c\<lparr>plan_entitlements := ?t\<rparr>)"
    if inv: "catalog_inv c" and ok: "plan_entitlement_guard c r"
  proof (rule entitlements_written [OF inv refl])
    show "distinct (map (\<lambda>r. (pe_planRevisionId r, pe_key r)) ?t)"
      using catalog_invD(1) [OF inv] by (intro upserted_keys) (simp add: catalog_keys_def)
    show "e \<in> set (plan_entitlements c) \<or> entitlement_typed c e" if "e \<in> set ?t" for e
      using that ok
      by (auto simp: set_update_where plan_entitlement_guard_def entitlement_typed_def split: if_splits option.splits)
    show "filter (\<lambda>e. pe_planRevisionId e = j) ?t = entitlements_of c j"
      if "revision_of c j = Some r'" "pr_state r' = PUBLISHED" for j r'
      using upserted_other [of r j "plan_entitlements c"] that ok
      by (auto simp: entitlements_of_def plan_entitlement_guard_def split: option.splits)
  qed
  then show ?thesis
    by (auto simp: moves_at_def upsert_plan_entitlement_def andThen_Inr_iff)
qed

lemma moves_delete [tx_rules]: "moves_at catalog_inv history (delete_plan_entitlement i k) c"
proof -
  let ?t = "filter (\<lambda>e. \<not> (pe_planRevisionId e = i \<and> pe_key e = k)) (plan_entitlements c)"
  have "catalog_inv (c\<lparr>plan_entitlements := ?t\<rparr>) \<and> history c (c\<lparr>plan_entitlements := ?t\<rparr>)"
    if inv: "catalog_inv c" and ok: "case revision_of c i of None \<Rightarrow> True | Some r \<Rightarrow> pr_state r \<noteq> PUBLISHED"
  proof (rule entitlements_written [OF inv refl])
    show "distinct (map (\<lambda>r. (pe_planRevisionId r, pe_key r)) ?t)"
      using catalog_invD(1) [OF inv] by (simp add: catalog_keys_def distinct_map_filter)
    show "filter (\<lambda>e. pe_planRevisionId e = j) ?t = entitlements_of c j"
      if "revision_of c j = Some r'" "pr_state r' = PUBLISHED" for j r'
      using that ok by (auto simp: entitlements_of_def intro!: filter_cong)
  qed auto
  then show ?thesis
    by (auto simp: moves_at_def delete_plan_entitlement_def andThen_Inr_iff)
qed

end
