(* ===== verification/Plan_Commands.thy ===== *)
theory Plan_Commands
  imports Catalog_Db
begin

text \<open>
  packages/server/db/src/p4-plan-command-repository.ts with packages/server/plans/src/index.ts: plans,
  the drafts of their revisions, publication, and the entitlement definitions. Each command is one
  transaction; a command that changes a draft names the content it was decided on by its fingerprint.
  \<open>before\<close> is the optional \<open>beforeMutation\<close> hook, \<open>sanitize\<close> the redaction of audit reasons, \<open>H\<close> the
  SHA-256 digest and \<open>now\<close> the reading of the injected clock. Commands are the values the schemas of the
  package return.
\<close>

section \<open>Results and values\<close>

datatype plan_failure =
    PLAN_NOT_FOUND
  | PLAN_CODE_CONFLICT
  | PLAN_ARCHIVED
  | PLAN_STATUS_STALE
  | PLAN_STATUS_TRANSITION_INVALID
  | PLAN_PUBLISHED_REVISION_REQUIRED
  | PLAN_REVISION_NOT_FOUND
  | PLAN_REVISION_NOT_DRAFT
  | PLAN_DRAFT_STALE
  | ENTITLEMENT_DEFINITION_NOT_FOUND
  | ENTITLEMENT_DEFINITION_CONFLICT
  | ENTITLEMENT_DEFINITION_STALE
  | ENTITLEMENT_DEPRECATED
  | ENTITLEMENT_TYPE_MISMATCH

datatype 'a plan_result = PlanOK bool 'a | PlanREJECTED plan_failure

type_synonym plan_value = "string \<times> typed_value"

record plan_draft =
  dr_id :: uuid
  dr_planId :: uuid
  dr_revision :: int
  dr_displayName :: string
  dr_description :: string
  dr_entitlements :: "plan_value list"
  dr_fingerprint :: string

record published_plan =
  pp_id :: uuid
  pp_planId :: uuid
  pp_revision :: int
  pp_publishedAt :: time
  pp_fingerprint :: string
  pp_entitlementCount :: nat

text \<open>\<open>computeP4PlanRevisionContentFingerprintV1\<close>\<close>

fun value_json :: "typed_value \<Rightarrow> json" where
  "value_json (BOOLEAN b) = JObj [(''kind'', JStr ''BOOLEAN''), (''value'', JBool b)]"
| "value_json (INTEGER i) = JObj [(''kind'', JStr ''INTEGER''), (''value'', JInt i)]"

definition entitlement_json :: "plan_value \<Rightarrow> json" where
  "entitlement_json kv = JObj [(''entitlementKey'', JStr (fst kv)), (''value'', value_json (snd kv))]"

definition plan_content :: "plan_revision \<Rightarrow> plan_value list \<Rightarrow> json" where
  "plan_content r entitlements =
     JObj [(''domain'', JStr ''product-control-plane/plan-revision-content/v1''),
       (''planRevisionId'', JStr (pr_id r)), (''planId'', JStr (pr_planId r)),
       (''revision'', JInt (pr_revision r)), (''displayName'', JStr (pr_displayName r)),
       (''description'', JStr (pr_description r)),
       (''entitlements'', JArr (map entitlement_json (sort_key fst entitlements)))]"

definition plan_fingerprint :: "(string \<Rightarrow> string) \<Rightarrow> plan_revision \<Rightarrow> plan_value list \<Rightarrow> string" where
  "plan_fingerprint H r entitlements = H (json_text (plan_content r entitlements))"

definition validateEntitlementValueType :: "value_type \<Rightarrow> typed_value \<Rightarrow> bool" where
  "validateEntitlementValueType t v \<longleftrightarrow> t = kind_of_value v"

definition validatePlanStatusTransition ::
  "catalog_status \<Rightarrow> catalog_status \<Rightarrow> bool \<Rightarrow> plan_failure option" where
  "validatePlanStatusTransition current target hasPublished =
     (if current = target then None
      else if current = ARCHIVED_STATUS then Some PLAN_STATUS_TRANSITION_INVALID
      else if (target = ACTIVE_STATUS \<or> target = HIDDEN_STATUS) \<and> \<not> hasPublished
      then Some PLAN_PUBLISHED_REVISION_REQUIRED
      else if current = DRAFT_STATUS \<and> (target = ACTIVE_STATUS \<or> target = HIDDEN_STATUS \<or> target = ARCHIVED_STATUS)
           \<or> current = ACTIVE_STATUS \<and> (target = HIDDEN_STATUS \<or> target = ARCHIVED_STATUS)
           \<or> current = HIDDEN_STATUS \<and> (target = ACTIVE_STATUS \<or> target = ARCHIVED_STATUS)
      then None else Some PLAN_STATUS_TRANSITION_INVALID)"

section \<open>Reading a revision\<close>

definition mapValue :: "plan_entitlement \<Rightarrow> typed_value cattx" where
  "mapValue row =
     (case pe_boolean row of
        Some b \<Rightarrow> ret (BOOLEAN b)
      | None \<Rightarrow>
          (case pe_integer row of
             Some n \<Rightarrow> if safe_integer n then ret (INTEGER n) else throw (Thrown ''P4_INTEGER_VALUE_UNSAFE'')
           | None \<Rightarrow> throw (Thrown ''P4_PLAN_ENTITLEMENT_VALUE_MISSING'')))"

fun map_values :: "plan_entitlement list \<Rightarrow> plan_value list cattx" where
  "map_values [] = ret []"
| "map_values (row # rows) =
     andThen (mapValue row) (\<lambda>v. andThen (map_values rows) (\<lambda>vs. ret ((pe_key row, v) # vs)))"

definition loadEntitlements :: "uuid \<Rightarrow> plan_value list cattx" where
  "loadEntitlements i = andThen (gets (\<lambda>c. sort_key pe_key (entitlements_of c i))) map_values"

definition joined_revision :: "catalog \<Rightarrow> uuid \<Rightarrow> (plan \<times> plan_revision) option" where
  "joined_revision c i =
     (case revision_of c i of
        None \<Rightarrow> None
      | Some r \<Rightarrow> (case plan_of c (pr_planId r) of None \<Rightarrow> None | Some p \<Rightarrow> Some (p, r)))"

definition loadRevision :: "uuid \<Rightarrow> (plan \<times> plan_revision \<times> plan_value list) option cattx" where
  "loadRevision i =
     andThen (gets (\<lambda>c. joined_revision c i)) (\<lambda>row.
       case row of
         None \<Rightarrow> ret None
       | Some (p, r) \<Rightarrow> andThen (loadEntitlements (pr_id r)) (\<lambda>vs. ret (Some (p, r, vs))))"

definition draftValue :: "(string \<Rightarrow> string) \<Rightarrow> plan_revision \<Rightarrow> plan_value list \<Rightarrow> plan_draft" where
  "draftValue H r vs =
     \<lparr>dr_id = pr_id r, dr_planId = pr_planId r, dr_revision = pr_revision r,
      dr_displayName = pr_displayName r, dr_description = pr_description r,
      dr_entitlements = sort_key fst vs, dr_fingerprint = plan_fingerprint H r vs\<rparr>"

definition publishedValue :: "(string \<Rightarrow> string) \<Rightarrow> plan_revision \<Rightarrow> plan_value list \<Rightarrow> published_plan cattx" where
  "publishedValue H r vs =
     (case pr_publishedAt r of
        None \<Rightarrow> throw (Thrown ''P4_PUBLISHED_TIMESTAMP_MISSING'')
      | Some at \<Rightarrow> ret
          \<lparr>pp_id = pr_id r, pp_planId = pr_planId r, pp_revision = pr_revision r, pp_publishedAt = at,
           pp_fingerprint = plan_fingerprint H r vs, pp_entitlementCount = length vs\<rparr>)"

text \<open>\<open>getPlanRevisionDraft\<close> runs its two queries outside a transaction: the second may see a later
  catalog.\<close>

definition getPlanRevisionDraft ::
  "(string \<Rightarrow> string) \<Rightarrow> uuid \<Rightarrow> catalog \<Rightarrow> catalog \<Rightarrow> failure + plan_draft option" where
  "getPlanRevisionDraft H i c c' =
     (case joined_revision c i of
        None \<Rightarrow> Inr None
      | Some (p, r) \<Rightarrow>
          if pr_state r \<noteq> DRAFT then Inr None
          else case loadEntitlements (pr_id r) c' of
                 Inl e \<Rightarrow> Inl e
               | Inr (vs, _) \<Rightarrow> Inr (Some (draftValue H r vs)))"

section \<open>Audit\<close>

definition audit_catalog ::
  "(string \<Rightarrow> string) \<Rightarrow> mutation_context \<Rightarrow> string \<Rightarrow> string \<Rightarrow> uuid option \<Rightarrow> (string \<times> json) list
    \<Rightarrow> unit cattx" where
  "audit_catalog sanitize context action targetType targetId metadata =
     insert_catalog_audit
       \<lparr>ca_actorType = actor_text (ctx_actorType context), ca_actorId = ctx_actorId context,
        ca_action = action, ca_targetType = targetType, ca_targetId = targetId,
        ca_correlationId = ctx_correlationId context,
        ca_reason = safeAuditReason sanitize (ctx_reason context), ca_metadata = metadata\<rparr>"

fun status_text_of :: "catalog_status \<Rightarrow> string" where
  "status_text_of DRAFT_STATUS = ''DRAFT''"
| "status_text_of ACTIVE_STATUS = ''ACTIVE''"
| "status_text_of HIDDEN_STATUS = ''HIDDEN''"
| "status_text_of ARCHIVED_STATUS = ''ARCHIVED''"

fun value_type_text :: "value_type \<Rightarrow> string" where
  "value_type_text BOOLEAN_TYPE = ''BOOLEAN''"
| "value_type_text INTEGER_TYPE = ''INTEGER''"

fun classification_text :: "classification \<Rightarrow> string" where
  "classification_text CAPABILITY = ''CAPABILITY''"
| "classification_text LIMIT = ''LIMIT''"

section \<open>Plans\<close>

definition createPlan ::
  "unit cattx \<Rightarrow> (string \<Rightarrow> string) \<Rightarrow> string \<Rightarrow> mutation_context \<Rightarrow> catalog
    \<Rightarrow> (failure + plan plan_result) \<times> catalog" where
  "createPlan before sanitize code context =
     transaction (andThen before (\<lambda>_.
       andThen (gets (\<lambda>c. List.find (\<lambda>p. pl_code p = code) (plans c))) (\<lambda>existing.
       if existing \<noteq> None then ret (PlanREJECTED PLAN_CODE_CONFLICT)
       else
         andThen (insert_plan (\<lambda>i at. \<lparr>pl_id = i, pl_code = code, pl_status = DRAFT_STATUS,
             pl_createdAt = at, pl_updatedAt = at\<rparr>)) (\<lambda>value.
         andThen (audit_catalog sanitize context ''PLAN_CREATED'' ''PLAN'' (Some (pl_id value))
           [(''planCode'', JStr (pl_code value)), (''status'', JStr (status_text_of (pl_status value)))]) (\<lambda>_.
         ret (PlanOK True value))))))"

definition next_revision :: "int list \<Rightarrow> int" where
  "next_revision revisions = fold max revisions 0 + 1"

definition createDraftPlanRevision ::
  "unit cattx \<Rightarrow> (string \<Rightarrow> string) \<Rightarrow> (string \<Rightarrow> string) \<Rightarrow> uuid \<Rightarrow> string \<Rightarrow> string \<Rightarrow> mutation_context \<Rightarrow> catalog
    \<Rightarrow> (failure + plan_draft plan_result) \<times> catalog" where
  "createDraftPlanRevision before sanitize H planId displayName description context =
     transaction (andThen before (\<lambda>_.
       andThen (gets (\<lambda>c. plan_of c planId)) (\<lambda>found.
       case found of
         None \<Rightarrow> ret (PlanREJECTED PLAN_NOT_FOUND)
       | Some p \<Rightarrow>
           if pl_status p = ARCHIVED_STATUS then ret (PlanREJECTED PLAN_ARCHIVED)
           else
             andThen (gets (\<lambda>c. next_revision (map pr_revision
               (filter (\<lambda>r. pr_planId r = planId) (plan_revisions c))))) (\<lambda>next.
             andThen (insert_plan_revision (\<lambda>i at. \<lparr>pr_id = i, pr_planId = planId, pr_revision = next,
                 pr_state = DRAFT, pr_displayName = displayName, pr_description = description,
                 pr_createdAt = at, pr_publishedAt = None\<rparr>)) (\<lambda>r.
             andThen (audit_catalog sanitize context ''PLAN_REVISION_DRAFT_CREATED'' ''PLAN_REVISION''
               (Some (pr_id r))
               [(''planId'', JStr (pl_id p)), (''revision'', JInt (pr_revision r)),
                (''contentFingerprintSha256'', JStr (dr_fingerprint (draftValue H r [])))]) (\<lambda>_.
             ret (PlanOK True (draftValue H r []))))))))"

section \<open>Drafts\<close>

text \<open>The opening of the commands on a draft: the revision is loaded, locked and loaded again; it must be a
  draft of a plan that is not archived, with the content the caller has seen.\<close>

definition on_draft ::
  "(string \<Rightarrow> string) \<Rightarrow> uuid \<Rightarrow> string \<Rightarrow> (plan_revision \<Rightarrow> plan_value list \<Rightarrow> plan_draft plan_result cattx)
    \<Rightarrow> plan_draft plan_result cattx" where
  "on_draft H i expected body =
     andThen (loadRevision i) (\<lambda>initial.
     if initial = None then ret (PlanREJECTED PLAN_REVISION_NOT_FOUND)
     else andThen (loadRevision i) (\<lambda>loaded.
       case loaded of
         None \<Rightarrow> ret (PlanREJECTED PLAN_REVISION_NOT_FOUND)
       | Some (p, r, vs) \<Rightarrow>
           if pl_status p = ARCHIVED_STATUS then ret (PlanREJECTED PLAN_ARCHIVED)
           else if pr_state r \<noteq> DRAFT then ret (PlanREJECTED PLAN_REVISION_NOT_DRAFT)
           else if dr_fingerprint (draftValue H r vs) \<noteq> expected then ret (PlanREJECTED PLAN_DRAFT_STALE)
           else body r vs))"

text \<open>The closing: the revision is read again, audited with the fingerprints before and after, and returned.\<close>

definition changed_draft ::
  "(string \<Rightarrow> string) \<Rightarrow> (string \<Rightarrow> string) \<Rightarrow> mutation_context \<Rightarrow> string \<Rightarrow> (string \<times> json) list \<Rightarrow> plan_draft
    \<Rightarrow> plan_draft plan_result cattx" where
  "changed_draft sanitize H context action metadata current =
     andThen (loadRevision (dr_id current)) (\<lambda>updated.
       case updated of
         None \<Rightarrow> throw (Thrown ''P4_REVISION_DISAPPEARED'')
       | Some (_, r, vs) \<Rightarrow>
           andThen (audit_catalog sanitize context action ''PLAN_REVISION'' (Some (dr_id current))
             (metadata @ [(''beforeFingerprint'', JStr (dr_fingerprint current)),
               (''afterFingerprint'', JStr (dr_fingerprint (draftValue H r vs)))])) (\<lambda>_.
           ret (PlanOK True (draftValue H r vs))))"

definition updateDraftPlanRevision ::
  "unit cattx \<Rightarrow> (string \<Rightarrow> string) \<Rightarrow> (string \<Rightarrow> string) \<Rightarrow> uuid \<Rightarrow> string \<Rightarrow> string option \<Rightarrow> string option
    \<Rightarrow> mutation_context \<Rightarrow> catalog \<Rightarrow> (failure + plan_draft plan_result) \<times> catalog" where
  "updateDraftPlanRevision before sanitize H i expected displayName description context =
     transaction (andThen before (\<lambda>_. on_draft H i expected (\<lambda>r vs.
       let current = draftValue H r vs;
           nextDisplayName = (case displayName of None \<Rightarrow> dr_displayName current | Some t \<Rightarrow> t);
           nextDescription = (case description of None \<Rightarrow> dr_description current | Some t \<Rightarrow> t);
           changedFields = (if nextDisplayName \<noteq> dr_displayName current then [''displayName''] else [])
             @ (if nextDescription \<noteq> dr_description current then [''description''] else [])
       in if changedFields = [] then ret (PlanOK False current)
          else
            andThen (update_plan_revision (dr_id current)
              (\<lambda>r. r\<lparr>pr_displayName := nextDisplayName, pr_description := nextDescription\<rparr>)) (\<lambda>_.
            changed_draft sanitize H context ''PLAN_REVISION_DRAFT_UPDATED''
              [(''planId'', JStr (dr_planId current)), (''revision'', JInt (dr_revision current)),
               (''changedFields'', JArr (map JStr changedFields))] current))))"

definition setDraftPlanEntitlement ::
  "unit cattx \<Rightarrow> (string \<Rightarrow> string) \<Rightarrow> (string \<Rightarrow> string) \<Rightarrow> uuid \<Rightarrow> string \<Rightarrow> string \<Rightarrow> typed_value
    \<Rightarrow> mutation_context \<Rightarrow> catalog \<Rightarrow> (failure + plan_draft plan_result) \<times> catalog" where
  "setDraftPlanEntitlement before sanitize H i expected key v context =
     transaction (andThen before (\<lambda>_. on_draft H i expected (\<lambda>r vs.
       andThen (gets (\<lambda>c. definition_of c key)) (\<lambda>found.
       case found of
         None \<Rightarrow> ret (PlanREJECTED ENTITLEMENT_DEFINITION_NOT_FOUND)
       | Some d \<Rightarrow>
           if ed_deprecatedAt d \<noteq> None then ret (PlanREJECTED ENTITLEMENT_DEPRECATED)
           else if \<not> validateEntitlementValueType (ed_valueType d) v
           then ret (PlanREJECTED ENTITLEMENT_TYPE_MISMATCH)
           else if map_of vs key = Some v then ret (PlanOK False (draftValue H r vs))
           else
             andThen (upsert_plan_entitlement \<lparr>pe_planRevisionId = pr_id r, pe_key = key,
                 pe_boolean = boolean_column v, pe_integer = integer_column v\<rparr>) (\<lambda>_.
             changed_draft sanitize H context ''PLAN_ENTITLEMENT_SET''
               [(''entitlementKey'', JStr key), (''valueType'', JStr (value_type_text (kind_of_value v)))]
               (draftValue H r vs))))))"

definition removeDraftPlanEntitlement ::
  "unit cattx \<Rightarrow> (string \<Rightarrow> string) \<Rightarrow> (string \<Rightarrow> string) \<Rightarrow> uuid \<Rightarrow> string \<Rightarrow> string
    \<Rightarrow> mutation_context \<Rightarrow> catalog \<Rightarrow> (failure + plan_draft plan_result) \<times> catalog" where
  "removeDraftPlanEntitlement before sanitize H i expected key context =
     transaction (andThen before (\<lambda>_. on_draft H i expected (\<lambda>r vs.
       if map_of vs key = None then ret (PlanOK False (draftValue H r vs))
       else
         andThen (delete_plan_entitlement (pr_id r) key) (\<lambda>_.
         changed_draft sanitize H context ''PLAN_ENTITLEMENT_REMOVED''
           [(''entitlementKey'', JStr key)] (draftValue H r vs)))))"

section \<open>Publication\<close>

text \<open>The loop over the entitlements: each has a definition that is not deprecated and has its type.\<close>

definition lockDefinitions :: "catalog \<Rightarrow> string list \<Rightarrow> definition_row list" where
  "lockDefinitions c keys = sort_key ed_key (filter (\<lambda>d. ed_key d \<in> set keys) (definitions c))"

fun check_entitlements :: "definition_row list \<Rightarrow> plan_value list \<Rightarrow> plan_failure option cattx" where
  "check_entitlements ds [] = ret None"
| "check_entitlements ds ((key, v) # rest) =
     (case List.find (\<lambda>d. ed_key d = key) ds of
        None \<Rightarrow> throw (Thrown ''TypeError'')
      | Some d \<Rightarrow>
          if ed_deprecatedAt d \<noteq> None then ret (Some ENTITLEMENT_DEPRECATED)
          else if \<not> validateEntitlementValueType (ed_valueType d) v then ret (Some ENTITLEMENT_TYPE_MISMATCH)
          else check_entitlements ds rest)"

definition publish_draft ::
  "(string \<Rightarrow> string) \<Rightarrow> (string \<Rightarrow> string) \<Rightarrow> time \<Rightarrow> mutation_context \<Rightarrow> plan_revision \<Rightarrow> plan_value list
    \<Rightarrow> published_plan plan_result cattx" where
  "publish_draft sanitize H now context r vs =
     andThen (update_plan_revision (pr_id r)
       (\<lambda>x. x\<lparr>pr_state := PUBLISHED, pr_publishedAt := Some now\<rparr>)) (\<lambda>_.
     andThen (publishedValue H (r\<lparr>pr_state := PUBLISHED, pr_publishedAt := Some now\<rparr>) vs) (\<lambda>value.
     andThen (audit_catalog sanitize context ''PLAN_REVISION_PUBLISHED'' ''PLAN_REVISION'' (Some (pr_id r))
       [(''planId'', JStr (pp_planId value)), (''revision'', JInt (pp_revision value)),
        (''contentFingerprintSha256'', JStr (pp_fingerprint value)),
        (''entitlementCount'', JInt (int (pp_entitlementCount value)))]) (\<lambda>_.
     ret (PlanOK True value))))"

definition publish_loaded ::
  "(string \<Rightarrow> string) \<Rightarrow> (string \<Rightarrow> string) \<Rightarrow> string \<Rightarrow> time \<Rightarrow> mutation_context \<Rightarrow> plan \<Rightarrow> plan_revision
    \<Rightarrow> plan_value list \<Rightarrow> published_plan plan_result cattx" where
  "publish_loaded sanitize H expected now context p r vs =
     (if pr_state r = PUBLISHED then
        andThen (publishedValue H r vs) (\<lambda>value. ret (PlanOK False value))
      else if pl_status p = ARCHIVED_STATUS then ret (PlanREJECTED PLAN_ARCHIVED)
      else if dr_fingerprint (draftValue H r vs) \<noteq> expected then ret (PlanREJECTED PLAN_DRAFT_STALE)
      else
        andThen (gets (\<lambda>c. lockDefinitions c (map fst vs))) (\<lambda>ds.
        if length ds \<noteq> length vs then ret (PlanREJECTED ENTITLEMENT_DEFINITION_NOT_FOUND)
        else andThen (check_entitlements ds vs) (\<lambda>refused.
          case refused of
            Some code \<Rightarrow> ret (PlanREJECTED code)
          | None \<Rightarrow> publish_draft sanitize H now context r vs)))"

definition publish_transaction ::
  "(string \<Rightarrow> string) \<Rightarrow> (string \<Rightarrow> string) \<Rightarrow> uuid \<Rightarrow> string \<Rightarrow> time \<Rightarrow> mutation_context
    \<Rightarrow> published_plan plan_result cattx" where
  "publish_transaction sanitize H i expected now context =
     andThen (loadRevision i) (\<lambda>initial.
     if initial = None then ret (PlanREJECTED PLAN_REVISION_NOT_FOUND)
     else andThen (loadRevision i) (\<lambda>loaded.
       case loaded of
         None \<Rightarrow> ret (PlanREJECTED PLAN_REVISION_NOT_FOUND)
       | Some (p, r, vs) \<Rightarrow> publish_loaded sanitize H expected now context p r vs))"

definition publishPlanRevision ::
  "unit cattx \<Rightarrow> (string \<Rightarrow> string) \<Rightarrow> (string \<Rightarrow> string) \<Rightarrow> uuid \<Rightarrow> string \<Rightarrow> time \<Rightarrow> mutation_context \<Rightarrow> catalog
    \<Rightarrow> (failure + published_plan plan_result) \<times> catalog" where
  "publishPlanRevision before sanitize H i expected now context =
     transaction (andThen before (\<lambda>_. publish_transaction sanitize H i expected now context))"

section \<open>The status of a plan\<close>

definition changePlanStatus ::
  "unit cattx \<Rightarrow> (string \<Rightarrow> string) \<Rightarrow> uuid \<Rightarrow> catalog_status \<Rightarrow> catalog_status \<Rightarrow> time \<Rightarrow> mutation_context \<Rightarrow> catalog
    \<Rightarrow> (failure + plan plan_result) \<times> catalog" where
  "changePlanStatus before sanitize planId expected target now context =
     transaction (andThen before (\<lambda>_.
       andThen (gets (\<lambda>c. plan_of c planId)) (\<lambda>found.
       case found of
         None \<Rightarrow> ret (PlanREJECTED PLAN_NOT_FOUND)
       | Some p \<Rightarrow>
           if pl_status p = target then ret (PlanOK False p)
           else if pl_status p \<noteq> expected then ret (PlanREJECTED PLAN_STATUS_STALE)
           else andThen (gets (\<lambda>c. has_published c (pl_id p))) (\<lambda>published.
             case validatePlanStatusTransition (pl_status p) target published of
               Some code \<Rightarrow> ret (PlanREJECTED code)
             | None \<Rightarrow>
                 andThen (update_plan (pl_id p) (\<lambda>x. x\<lparr>pl_status := target, pl_updatedAt := now\<rparr>)) (\<lambda>updated.
                   case updated of
                     None \<Rightarrow> throw (Thrown ''TypeError'')
                   | Some value \<Rightarrow>
                       andThen (audit_catalog sanitize context ''PLAN_STATUS_CHANGED'' ''PLAN'' (Some (pl_id p))
                         [(''planCode'', JStr (pl_code p)), (''fromStatus'', JStr (status_text_of (pl_status p))),
                          (''toStatus'', JStr (status_text_of (pl_status value)))]) (\<lambda>_.
                       ret (PlanOK True value)))))))"

section \<open>Entitlement definitions\<close>

definition createEntitlementDefinition ::
  "unit cattx \<Rightarrow> (string \<Rightarrow> string) \<Rightarrow> string \<Rightarrow> value_type \<Rightarrow> classification \<Rightarrow> string \<Rightarrow> mutation_context
    \<Rightarrow> catalog \<Rightarrow> (failure + definition_row plan_result) \<times> catalog" where
  "createEntitlementDefinition before sanitize key t cl description context =
     transaction (andThen before (\<lambda>_.
       andThen (gets (\<lambda>c. definition_of c key)) (\<lambda>existing.
       if existing \<noteq> None then ret (PlanREJECTED ENTITLEMENT_DEFINITION_CONFLICT)
       else
         andThen (insert_definition (\<lambda>at. \<lparr>ed_key = key, ed_valueType = t, ed_classification = cl,
             ed_description = description, ed_deprecatedAt = None, ed_createdAt = at\<rparr>)) (\<lambda>value.
         andThen (audit_catalog sanitize context ''ENTITLEMENT_DEFINITION_CREATED'' ''ENTITLEMENT_DEFINITION'' None
           [(''entitlementKey'', JStr (ed_key value)),
            (''valueType'', JStr (value_type_text (ed_valueType value))),
            (''securityClassification'', JStr (classification_text (ed_classification value)))]) (\<lambda>_.
         ret (PlanOK True value))))))"

definition updateEntitlementDefinitionDescription ::
  "unit cattx \<Rightarrow> (string \<Rightarrow> string) \<Rightarrow> string \<Rightarrow> string \<Rightarrow> string \<Rightarrow> mutation_context \<Rightarrow> catalog
    \<Rightarrow> (failure + definition_row plan_result) \<times> catalog" where
  "updateEntitlementDefinitionDescription before sanitize key expected new context =
     transaction (andThen before (\<lambda>_.
       andThen (gets (\<lambda>c. definition_of c key)) (\<lambda>found.
       case found of
         None \<Rightarrow> ret (PlanREJECTED ENTITLEMENT_DEFINITION_NOT_FOUND)
       | Some d \<Rightarrow>
           if ed_description d = new then ret (PlanOK False d)
           else if ed_description d \<noteq> expected then ret (PlanREJECTED ENTITLEMENT_DEFINITION_STALE)
           else andThen (update_definition key (\<lambda>x. x\<lparr>ed_description := new\<rparr>)) (\<lambda>updated.
             case updated of
               None \<Rightarrow> throw (Thrown ''TypeError'')
             | Some value \<Rightarrow>
                 andThen (audit_catalog sanitize context ''ENTITLEMENT_DEFINITION_DESCRIPTION_UPDATED''
                   ''ENTITLEMENT_DEFINITION'' None
                   [(''entitlementKey'', JStr (ed_key value)),
                    (''changedFields'', JArr [JStr ''description''])]) (\<lambda>_.
                 ret (PlanOK True value))))))"

definition deprecateEntitlementDefinition ::
  "unit cattx \<Rightarrow> (string \<Rightarrow> string) \<Rightarrow> string \<Rightarrow> time \<Rightarrow> mutation_context \<Rightarrow> catalog
    \<Rightarrow> (failure + definition_row plan_result) \<times> catalog" where
  "deprecateEntitlementDefinition before sanitize key now context =
     transaction (andThen before (\<lambda>_.
       andThen (gets (\<lambda>c. definition_of c key)) (\<lambda>found.
       case found of
         None \<Rightarrow> ret (PlanREJECTED ENTITLEMENT_DEFINITION_NOT_FOUND)
       | Some d \<Rightarrow>
           if ed_deprecatedAt d \<noteq> None then ret (PlanOK False d)
           else andThen (update_definition key (\<lambda>x. x\<lparr>ed_deprecatedAt := Some now\<rparr>)) (\<lambda>updated.
             case updated of
               None \<Rightarrow> throw (Thrown ''TypeError'')
             | Some value \<Rightarrow>
                 andThen (audit_catalog sanitize context ''ENTITLEMENT_DEFINITION_DEPRECATED''
                   ''ENTITLEMENT_DEFINITION'' None
                   [(''entitlementKey'', JStr (ed_key value)),
                    (''deprecatedAt'', opt_json (\<lambda>t. JStr (toISOString t)) (ed_deprecatedAt value))]) (\<lambda>_.
                 ret (PlanOK True value))))))"

section \<open>Every command keeps the invariant and the history\<close>

definition hook_ok :: "unit cattx \<Rightarrow> bool" where
  "hook_ok before \<longleftrightarrow> (\<forall>c. moves_at catalog_inv history before c)"

lemma hook_okD [tx_rules]: "hook_ok before \<Longrightarrow> moves_at catalog_inv history before c"
  by (simp add: hook_ok_def)

lemma no_hook_ok [simp]: "hook_ok (ret ())"
  by (simp add: hook_ok_def moves_at_ret)

lemma moves_audit_catalog [tx_rules]: "moves_at catalog_inv history (audit_catalog sa ctx a t i m) c"
  unfolding audit_catalog_def by (rule moves_catalog_audit)

lemma mapValue_state: "mapValue r c = Inr (x, c') \<Longrightarrow> c' = c"
  by (auto simp: mapValue_def split: option.splits if_splits)

lemma map_values_state: "map_values rs c = Inr (x, c') \<Longrightarrow> c' = c"
  by (induction rs arbitrary: x c') (auto simp: andThen_Inr_iff dest: mapValue_state)

lemma loadEntitlements_state: "loadEntitlements i c = Inr (x, c') \<Longrightarrow> c' = c"
  by (auto simp: loadEntitlements_def dest: map_values_state)

lemma loadRevision_Inr:
  assumes "loadRevision i c = Inr (x, c')"
  shows "c' = c \<and> (case x of
      None \<Rightarrow> joined_revision c i = None
    | Some (p, r, vs) \<Rightarrow> joined_revision c i = Some (p, r) \<and> loadEntitlements (pr_id r) c = Inr (vs, c))"
  using assms
  by (auto simp: loadRevision_def andThen_Inr_iff dest: loadEntitlements_state split: option.splits prod.splits)

lemma reads_move: "(\<And>x c'. m c = Inr (x, c') \<Longrightarrow> c' = c) \<Longrightarrow> moves_at catalog_inv history m c"
  by (auto simp: moves_at_def)

lemma check_entitlements_state: "check_entitlements ds vs c = Inr (x, c') \<Longrightarrow> c' = c"
  by (induction ds vs rule: check_entitlements.induct) (auto split: option.splits if_splits)

lemma moves_reads [tx_rules]:
  "moves_at catalog_inv history (loadRevision i) c"
  "moves_at catalog_inv history (check_entitlements ds vs) c"
  "moves_at catalog_inv history (publishedValue H r vs) c"
  by (rule reads_move; use loadRevision_Inr check_entitlements_state in
      \<open>fastforce simp: publishedValue_def split: option.splits\<close>)+

lemma moves_changed_draft [tx_rules]: "moves_at catalog_inv history (changed_draft sa H ctx a m d) c"
  unfolding changed_draft_def by (intro tx_rules)

lemma moves_on_draft [tx_rules]:
  assumes "\<And>r vs c. moves_at catalog_inv history (body r vs) c"
  shows "moves_at catalog_inv history (on_draft H i e body) c"
  unfolding on_draft_def by (intro tx_rules assms)

lemma moves_insert_plan_row [tx_rules]:
  "moves_at catalog_inv history (insert_plan (\<lambda>i at. \<lparr>pl_id = i, pl_code = code, pl_status = DRAFT_STATUS,
     pl_createdAt = at, pl_updatedAt = at\<rparr>)) c"
  by (rule moves_insert_plan) simp

lemma plan_transition_published:
  "validatePlanStatusTransition st target p = None \<Longrightarrow> st \<noteq> target \<Longrightarrow> offered target \<Longrightarrow> p"
  by (auto simp: validatePlanStatusTransition_def offered_def split: if_splits)

lemma plan_of_id: "plan_of c i = Some p \<Longrightarrow> pl_id p = i"
  by (auto simp: plan_of_def dest!: find_Some_mem)

lemma command_moves:
  assumes "hook_ok before"
    and "\<And>c. moves_at catalog_inv history m c"
  shows "catalog_inv c \<Longrightarrow> history c (snd (transaction (andThen before (\<lambda>_. m)) c))
    \<and> catalog_inv (snd (transaction (andThen before (\<lambda>_. m)) c))"
  using moves_at_transaction [of catalog_inv history "andThen before (\<lambda>_. m)" c]
    moves_at_andThen [OF hook_okD [OF assms(1)], of c "\<lambda>_. m"] assms(2) history_path by blast

lemma plan_commands_keep:
  assumes "catalog_inv c" and "hook_ok before"
  shows "history c (snd (createPlan before sa code ctx c)) \<and> catalog_inv (snd (createPlan before sa code ctx c))"
    and "history c (snd (createDraftPlanRevision before sa H i dn de ctx c))
      \<and> catalog_inv (snd (createDraftPlanRevision before sa H i dn de ctx c))"
    and "history c (snd (updateDraftPlanRevision before sa H i fp odn ode ctx c))
      \<and> catalog_inv (snd (updateDraftPlanRevision before sa H i fp odn ode ctx c))"
    and "history c (snd (setDraftPlanEntitlement before sa H i fp k v ctx c))
      \<and> catalog_inv (snd (setDraftPlanEntitlement before sa H i fp k v ctx c))"
    and "history c (snd (removeDraftPlanEntitlement before sa H i fp k ctx c))
      \<and> catalog_inv (snd (removeDraftPlanEntitlement before sa H i fp k ctx c))"
    and "history c (snd (publishPlanRevision before sa H i fp now ctx c))
      \<and> catalog_inv (snd (publishPlanRevision before sa H i fp now ctx c))"
    and "history c (snd (createEntitlementDefinition before sa k t cl de ctx c))
      \<and> catalog_inv (snd (createEntitlementDefinition before sa k t cl de ctx c))"
    and "history c (snd (updateEntitlementDefinitionDescription before sa k de de' ctx c))
      \<and> catalog_inv (snd (updateEntitlementDefinitionDescription before sa k de de' ctx c))"
    and "history c (snd (deprecateEntitlementDefinition before sa k now ctx c))
      \<and> catalog_inv (snd (deprecateEntitlementDefinition before sa k now ctx c))"
  unfolding createPlan_def createDraftPlanRevision_def updateDraftPlanRevision_def setDraftPlanEntitlement_def
    removeDraftPlanEntitlement_def publishPlanRevision_def publish_transaction_def publish_loaded_def
    publish_draft_def createEntitlementDefinition_def
    updateEntitlementDefinitionDescription_def deprecateEntitlementDefinition_def Let_def
  by (rule command_moves [OF assms(2) _ assms(1)]; intro tx_rules)+

lemma changePlanStatus_keeps:
  assumes "catalog_inv c" and "hook_ok before"
  shows "history c (snd (changePlanStatus before sa i expected target now ctx c))
    \<and> catalog_inv (snd (changePlanStatus before sa i expected target now ctx c))"
  unfolding changePlanStatus_def
  by (rule command_moves [OF assms(2) _ assms(1)]; intro tx_rules)
    (auto dest: plan_transition_published plan_of_id)

section \<open>The fingerprint of a draft\<close>

lemma value_json_inject: "value_json v = value_json w \<longleftrightarrow> v = w"
  by (cases v; cases w) auto

lemma entitlement_json_inject: "entitlement_json x = entitlement_json y \<longleftrightarrow> x = y"
  by (auto simp: entitlement_json_def value_json_inject prod_eq_iff)

lemma plan_fingerprint_inject:
  assumes "inj H" and "plan_fingerprint H r vs = plan_fingerprint H r' vs'"
  shows "pr_id r = pr_id r' \<and> pr_displayName r = pr_displayName r' \<and> pr_description r = pr_description r'
    \<and> sort_key fst vs = sort_key fst vs'"
proof -
  have "plan_content r vs = plan_content r' vs'"
    using assms by (simp add: plan_fingerprint_def json_text_inject inj_eq)
  moreover have "inj entitlement_json"
    by (simp add: inj_def entitlement_json_inject)
  ultimately show ?thesis
    by (simp add: plan_content_def inj_map_eq_map)
qed

lemma map_values_keys: "map_values rows c = Inr (vs, c') \<Longrightarrow> map fst vs = map pe_key rows"
  by (induction rows arbitrary: vs c') (auto simp: andThen_Inr_iff dest!: mapValue_state)

lemma loadEntitlements_sorted:
  assumes "loadEntitlements i c = Inr (vs, c')"
  shows "sort_key fst vs = vs"
proof -
  have "map fst vs = map pe_key (sort_key pe_key (entitlements_of c i))"
    using assms by (auto simp: loadEntitlements_def dest: map_values_keys)
  then have "sorted (map fst vs)" by simp
  then show ?thesis by (rule sort_key_id_if_sorted)
qed

text \<open>Reading values looks at the rows only.\<close>

lemma mapValue_any: "mapValue r c = Inr (x, c) \<Longrightarrow> mapValue r d = Inr (x, d)"
  by (auto simp: mapValue_def split: option.splits if_splits)

lemma map_values_any: "map_values rs c = Inr (x, c) \<Longrightarrow> map_values rs d = Inr (x, d)"
proof (induction rs arbitrary: x)
  case (Cons r rs)
  obtain v vs where "mapValue r c = Inr (v, c)" "map_values rs c = Inr (vs, c)" "x = (pe_key r, v) # vs"
    using Cons.prems by (auto simp: andThen_Inr_iff dest: mapValue_state map_values_state)
  then have "mapValue r d = Inr (v, d)" "map_values rs d = Inr (vs, d)" "x = (pe_key r, v) # vs"
    using Cons.IH mapValue_any by blast+
  then show ?case by (simp add: andThen_def ret_def)
qed (simp add: ret_def)

lemma loadEntitlements_same:
  assumes "loadEntitlements i c = Inr (vs, c)" and "entitlements_of d i = entitlements_of c i"
  shows "loadEntitlements i d = Inr (vs, d)"
  using assms by (auto simp: loadEntitlements_def intro: map_values_any)

lemma joined_revision_id: "joined_revision c i = Some (p, r) \<Longrightarrow> revision_of c i = Some r \<and> pr_id r = i"
  by (auto simp: joined_revision_def revision_of_def split: option.splits dest!: find_Some_mem)

lemma publishedValue_Inr:
  "publishedValue H r vs c = Inr (v, c') \<Longrightarrow> c' = c \<and> pr_publishedAt r = Some (pp_publishedAt v)
    \<and> pp_fingerprint v = plan_fingerprint H r vs"
  by (auto simp: publishedValue_def split: option.splits)

text \<open>What a publication that changes something has done.\<close>

lemma publish_effect:
  assumes "catalog_inv c" and "publish_transaction sa H i expected now ctx c = Inr (PlanOK True v, c')"
  shows "\<exists>r vs. revision_of c i = Some r \<and> pr_state r = DRAFT \<and> loadEntitlements i c = Inr (vs, c)
    \<and> plan_fingerprint H r vs = expected
    \<and> revision_of c' i = Some (r\<lparr>pr_state := PUBLISHED, pr_publishedAt := Some now\<rparr>)
    \<and> entitlements_of c' i = entitlements_of c i"
proof -
  obtain p r vs where load: "joined_revision c i = Some (p, r)" "loadEntitlements (pr_id r) c = Inr (vs, c)"
    and run: "publish_loaded sa H expected now ctx p r vs c = Inr (PlanOK True v, c')"
    using assms(2)
    by (auto simp: publish_transaction_def andThen_Inr_iff dest!: loadRevision_Inr split: option.splits if_splits)
  have draft: "pr_state r \<noteq> PUBLISHED" and seen: "plan_fingerprint H r vs = expected"
    and pub: "publish_draft sa H now ctx r vs c = Inr (PlanOK True v, c')"
    using run
    by (auto simp: publish_loaded_def andThen_Inr_iff draftValue_def dest!: check_entitlements_state
        split: option.splits if_splits)
  have r: "revision_of c i = Some r" "pr_id r = i"
    using joined_revision_id [OF load(1)] by simp_all
  obtain m where c': "c' = catalog_audits_update m (plan_revisions_update (update_where (\<lambda>x. pr_id x = i)
      (\<lambda>x. x\<lparr>pr_state := PUBLISHED, pr_publishedAt := Some now\<rparr>)) c)"
    using pub r
    by (auto simp: publish_draft_def andThen_Inr_iff update_plan_revision_def update_row_def revision_of_def
        audit_catalog_def insert_catalog_audit_def dest!: publishedValue_Inr)
  have "distinct (map pr_id (plan_revisions c))"
    using catalog_invD(1) [OF assms(1)] by (simp add: catalog_keys_def)
  then have "revision_of c' i = Some (r\<lparr>pr_state := PUBLISHED, pr_publishedAt := Some now\<rparr>)"
    using r by (simp add: c' revision_of_def find_update_row)
  moreover have "pr_state r = DRAFT"
    using draft by (cases "pr_state r") simp_all
  ultimately show ?thesis
    using r load(2) seen by (simp add: c' entitlements_of_def)
qed

lemma draft_read:
  assumes "getPlanRevisionDraft H i c c' = Inr (Some d)"
  shows "\<exists>r vs. d = draftValue H r vs"
  using assms by (auto simp: getPlanRevisionDraft_def split: option.splits prod.splits sum.splits if_splits)


end
