(* ===== verification/Entitlements.thy ===== *)
theory Entitlements
  imports Plan_Commands
begin

text \<open>
  packages/server/db/src/p4-entitlement-repository.ts with packages/server/entitlements/src/index.ts: the
  overrides of the entitlements of an account, and what an account is entitled to at an instant. The
  conventions are those of \<open>Plan_Commands\<close>.
\<close>

section \<open>Results and values\<close>

datatype override_failure =
    NO_ACCOUNT
  | NO_DEFINITION
  | DEFINITION_DEPRECATED
  | VALUE_TYPE_MISMATCH
  | OVERRIDE_STALE
  | NO_PLAN_REVISION
  | PLAN_REVISION_IS_DRAFT

datatype 'a override_result = OverrideOK bool 'a | OverrideREJECTED override_failure

record override_command =
  oc_accountId :: uuid
  oc_key :: string
  oc_expected :: "int option"
  oc_effectiveFrom :: time
  oc_expiresAt :: "time option"

record entitlement_override =
  eo_id :: uuid
  eo_accountId :: uuid
  eo_key :: string
  eo_revision :: int
  eo_operation :: override_operation
  eo_value :: "typed_value option"
  eo_effectiveFrom :: time
  eo_expiresAt :: "time option"
  eo_reason :: string
  eo_createdAt :: time

definition overrideValue :: "override_row \<Rightarrow> typed_value option cattx" where
  "overrideValue row =
     (if ov_operation row = CLEAR_VALUE then
        if ov_boolean row \<noteq> None \<or> ov_integer row \<noteq> None
        then throw (Thrown ''P4_OVERRIDE_CLEAR_VALUE_CORRUPTION'') else ret None
      else case (ov_boolean row, ov_integer row) of
             (Some b, None) \<Rightarrow> ret (Some (BOOLEAN b))
           | (None, Some n) \<Rightarrow>
               if safe_integer n then ret (Some (INTEGER n)) else throw (Thrown ''P4_OVERRIDE_INTEGER_UNSAFE'')
           | _ \<Rightarrow> throw (Thrown ''P4_OVERRIDE_VALUE_CORRUPTION''))"

definition typedValue :: "value_type \<Rightarrow> bool option \<Rightarrow> int option \<Rightarrow> string \<Rightarrow> typed_value cattx" where
  "typedValue t b i source =
     (case t of
        BOOLEAN_TYPE \<Rightarrow>
          (case (b, i) of
             (Some x, None) \<Rightarrow> ret (BOOLEAN x)
           | _ \<Rightarrow> throw (Thrown (source @ ''_BOOLEAN_VALUE_CORRUPTION'')))
      | INTEGER_TYPE \<Rightarrow>
          (case (b, i) of
             (None, Some n) \<Rightarrow>
               if safe_integer n then ret (INTEGER n) else throw (Thrown (source @ ''_INTEGER_UNSAFE''))
           | _ \<Rightarrow> throw (Thrown (source @ ''_INTEGER_VALUE_CORRUPTION''))))"

definition mapOverride :: "override_row \<Rightarrow> entitlement_override cattx" where
  "mapOverride row =
     (if \<not> safe_integer (ov_revision row) then throw (Thrown ''P4_OVERRIDE_REVISION_UNSAFE'')
      else if ov_revision row < 1 then throw (Thrown ''P4_OVERRIDE_REVISION_INVALID'')
      else andThen (overrideValue row) (\<lambda>v. ret
        \<lparr>eo_id = ov_id row, eo_accountId = ov_accountId row, eo_key = ov_key row, eo_revision = ov_revision row,
         eo_operation = ov_operation row, eo_value = v, eo_effectiveFrom = ov_effectiveFrom row,
         eo_expiresAt = ov_expiresAt row, eo_reason = ov_reason row, eo_createdAt = ov_createdAt row\<rparr>))"

section \<open>Overrides\<close>

definition latestOverride :: "catalog \<Rightarrow> uuid \<Rightarrow> string \<Rightarrow> override_row option" where
  "latestOverride c accountId key =
     newest ov_revision (filter (\<lambda>r. ov_accountId r = accountId \<and> ov_key r = key) (overrides c))"

definition sameSemanticOverride ::
  "entitlement_override \<Rightarrow> override_operation \<Rightarrow> typed_value option \<Rightarrow> time \<Rightarrow> time option \<Rightarrow> bool" where
  "sameSemanticOverride current operation v effectiveFrom expiresAt \<longleftrightarrow>
     eo_operation current = operation \<and> eo_value current = v
     \<and> eo_effectiveFrom current = effectiveFrom \<and> eo_expiresAt current = expiresAt"

definition operation_text :: "override_operation \<Rightarrow> string" where
  "operation_text op = (case op of SET_VALUE \<Rightarrow> ''SET'' | CLEAR_VALUE \<Rightarrow> ''CLEAR'')"

definition write_override ::
  "(string \<Rightarrow> string) \<Rightarrow> mutation_context \<Rightarrow> override_operation \<Rightarrow> typed_value option \<Rightarrow> override_command
    \<Rightarrow> int \<Rightarrow> value_type \<Rightarrow> entitlement_override override_result cattx" where
  "write_override sanitize context operation v cmd number t =
     andThen (insert_override (\<lambda>i at. \<lparr>ov_id = i, ov_accountId = oc_accountId cmd, ov_key = oc_key cmd,
         ov_revision = number, ov_operation = operation,
         ov_boolean = (case v of None \<Rightarrow> None | Some x \<Rightarrow> boolean_column x),
         ov_integer = (case v of None \<Rightarrow> None | Some x \<Rightarrow> integer_column x),
         ov_effectiveFrom = oc_effectiveFrom cmd, ov_expiresAt = oc_expiresAt cmd,
         ov_reason = ctx_reason context, ov_createdAt = at\<rparr>)) (\<lambda>row.
     andThen (mapOverride row) (\<lambda>o'.
     andThen (audit_catalog sanitize context
       (case operation of SET_VALUE \<Rightarrow> ''ACCOUNT_ENTITLEMENT_OVERRIDE_SET''
          | CLEAR_VALUE \<Rightarrow> ''ACCOUNT_ENTITLEMENT_OVERRIDE_CLEARED'')
       ''ACCOUNT'' (Some (oc_accountId cmd))
       [(''entitlementKey'', JStr (oc_key cmd)), (''overrideRevision'', JInt number),
        (''operation'', JStr (operation_text operation)),
        (''valueType'', JStr (value_type_text (case v of None \<Rightarrow> t | Some x \<Rightarrow> kind_of_value x))),
        (''effectiveFrom'', JStr (toISOString (oc_effectiveFrom cmd))),
        (''expiresAt'', opt_json (\<lambda>x. JStr (toISOString x)) (oc_expiresAt cmd))]) (\<lambda>_.
     ret (OverrideOK True o'))))"

text \<open>The body of \<open>mutate\<close> once the latest override has been read: \<open>v\<close> is the value of a SET, None for a
  CLEAR.\<close>

definition override_decided ::
  "(string \<Rightarrow> string) \<Rightarrow> mutation_context \<Rightarrow> override_operation \<Rightarrow> typed_value option \<Rightarrow> override_command
    \<Rightarrow> override_row option \<Rightarrow> entitlement_override override_result cattx" where
  "override_decided sanitize context operation v cmd current =
     andThen (gets (\<lambda>c. definition_of c (oc_key cmd))) (\<lambda>found.
       case found of
         None \<Rightarrow> ret (OverrideREJECTED NO_DEFINITION)
       | Some d \<Rightarrow>
           if operation = SET_VALUE \<and> ed_deprecatedAt d \<noteq> None then ret (OverrideREJECTED DEFINITION_DEPRECATED)
           else if operation = SET_VALUE \<and> map_option kind_of_value v \<noteq> Some (ed_valueType d)
           then ret (OverrideREJECTED VALUE_TYPE_MISMATCH)
           else (case current of
               None \<Rightarrow> write_override sanitize context operation v cmd 1 (ed_valueType d)
             | Some row \<Rightarrow>
                 andThen (mapOverride row) (\<lambda>o'.
                 if sameSemanticOverride o' operation v (oc_effectiveFrom cmd) (oc_expiresAt cmd)
                 then ret (OverrideOK False o')
                 else write_override sanitize context operation v cmd (ov_revision row + 1) (ed_valueType d))))"

definition mutate_override ::
  "unit cattx \<Rightarrow> (string \<Rightarrow> string) \<Rightarrow> override_operation \<Rightarrow> typed_value option \<Rightarrow> override_command
    \<Rightarrow> mutation_context \<Rightarrow> catalog \<Rightarrow> (failure + entitlement_override override_result) \<times> catalog" where
  "mutate_override before sanitize operation v cmd context =
     transaction (andThen before (\<lambda>_.
       andThen (gets customers) (\<lambda>accounts.
       if oc_accountId cmd \<notin> set accounts then ret (OverrideREJECTED NO_ACCOUNT)
       else
         andThen (gets (\<lambda>c. latestOverride c (oc_accountId cmd) (oc_key cmd))) (\<lambda>current.
         if (case current of None \<Rightarrow> False | Some row \<Rightarrow> \<not> safe_integer (ov_revision row))
         then throw (Thrown ''P4_OVERRIDE_REVISION_UNSAFE'')
         else if map_option ov_revision current \<noteq> oc_expected cmd then ret (OverrideREJECTED OVERRIDE_STALE)
         else override_decided sanitize context operation v cmd current))))"

definition setAccountEntitlementOverride ::
  "unit cattx \<Rightarrow> (string \<Rightarrow> string) \<Rightarrow> typed_value \<Rightarrow> override_command
    \<Rightarrow> mutation_context \<Rightarrow> catalog \<Rightarrow> (failure + entitlement_override override_result) \<times> catalog" where
  "setAccountEntitlementOverride before sanitize v = mutate_override before sanitize SET_VALUE (Some v)"

definition clearAccountEntitlementOverride ::
  "unit cattx \<Rightarrow> (string \<Rightarrow> string) \<Rightarrow> override_command
    \<Rightarrow> mutation_context \<Rightarrow> catalog \<Rightarrow> (failure + entitlement_override override_result) \<times> catalog" where
  "clearAccountEntitlementOverride before sanitize = mutate_override before sanitize CLEAR_VALUE None"

section \<open>What an account is entitled to\<close>

datatype entitlement_source = FROM_OVERRIDE | FROM_PLAN_REVISION | FROM_NOTHING

datatype entitlement_reason =
    OVERRIDE_SET
  | OVERRIDE_CLEAR_TO_PLAN
  | OVERRIDE_EXPIRED_TO_PLAN
  | PLAN_VALUE
  | UNSET

datatype override_state = ACTIVE_SET | ACTIVE_CLEAR | OVERRIDE_EXPIRED

record selected_override =
  so_overrideId :: uuid
  so_overrideRevision :: int
  so_operation :: override_operation
  so_effectiveFrom :: time
  so_expiresAt :: "time option"
  so_state :: override_state

text \<open>\<open>planCode\<close> is not a column of the query that reads the plan, which selects it as \<open>code\<close>: the field is
  undefined in every resolution.\<close>

record entitlement_resolution =
  er_key :: string
  er_valueType :: value_type
  er_classification :: classification
  er_deprecatedAt :: "time option"
  er_planId :: uuid
  er_planCode :: "string option"
  er_planRevisionId :: uuid
  er_planRevisionNumber :: int
  er_baseValue :: "typed_value option"
  er_selectedOverride :: "selected_override option"
  er_effectiveValue :: "typed_value option"
  er_source :: entitlement_source
  er_reason :: entitlement_reason

definition loadPlanRevision :: "uuid \<Rightarrow> uuid \<Rightarrow> catalog \<Rightarrow> override_failure + plan \<times> plan_revision" where
  "loadPlanRevision accountId i c =
     (if accountId \<notin> set (customers c) then Inl NO_ACCOUNT
      else case joined_revision c i of
             None \<Rightarrow> Inl NO_PLAN_REVISION
           | Some (p, r) \<Rightarrow> if pr_state r \<noteq> PUBLISHED then Inl PLAN_REVISION_IS_DRAFT else Inr (p, r))"

text \<open>\<open>resolutionRows\<close>: the definition with the value of the plan revision and the newest of the overrides
  that have become effective.\<close>

definition effective_override :: "catalog \<Rightarrow> uuid \<Rightarrow> string \<Rightarrow> time \<Rightarrow> override_row option" where
  "effective_override c accountId key at =
     newest ov_revision (filter (\<lambda>r. ov_accountId r = accountId \<and> ov_key r = key \<and> ov_effectiveFrom r \<le> at)
       (overrides c))"

definition plan_value_of :: "catalog \<Rightarrow> uuid \<Rightarrow> string \<Rightarrow> plan_entitlement option" where
  "plan_value_of c i key =
     List.find (\<lambda>e. pe_planRevisionId e = i \<and> pe_key e = key) (plan_entitlements c)"

definition base_value :: "value_type \<Rightarrow> plan_entitlement option \<Rightarrow> typed_value option cattx" where
  "base_value t e =
     (case e of
        None \<Rightarrow> ret None
      | Some x \<Rightarrow> andThen (typedValue t (pe_boolean x) (pe_integer x) ''P4_PLAN'') (\<lambda>v. ret (Some v)))"

definition select_override :: "override_row \<Rightarrow> time \<Rightarrow> selected_override" where
  "select_override row at =
     \<lparr>so_overrideId = ov_id row, so_overrideRevision = ov_revision row, so_operation = ov_operation row,
      so_effectiveFrom = ov_effectiveFrom row, so_expiresAt = ov_expiresAt row,
      so_state = (if (case ov_expiresAt row of None \<Rightarrow> False | Some t \<Rightarrow> t \<le> at) then OVERRIDE_EXPIRED
        else case ov_operation row of SET_VALUE \<Rightarrow> ACTIVE_SET | CLEAR_VALUE \<Rightarrow> ACTIVE_CLEAR)\<rparr>"

definition effective_value ::
  "value_type \<Rightarrow> typed_value option \<Rightarrow> override_row option \<Rightarrow> time
    \<Rightarrow> (typed_value option \<times> entitlement_source \<times> entitlement_reason) cattx" where
  "effective_value t base selected at =
     (let from_plan = (if base = None then FROM_NOTHING else FROM_PLAN_REVISION) in
      case selected of
        None \<Rightarrow> ret (base, from_plan, if base = None then UNSET else PLAN_VALUE)
      | Some row \<Rightarrow>
          if \<not> safe_integer (ov_revision row) then throw (Thrown ''P4_OVERRIDE_REVISION_UNSAFE'')
          else case so_state (select_override row at) of
                 OVERRIDE_EXPIRED \<Rightarrow> ret (base, from_plan, OVERRIDE_EXPIRED_TO_PLAN)
               | ACTIVE_CLEAR \<Rightarrow> ret (base, from_plan, OVERRIDE_CLEAR_TO_PLAN)
               | ACTIVE_SET \<Rightarrow>
                   andThen (typedValue t (ov_boolean row) (ov_integer row) ''P4_OVERRIDE'') (\<lambda>v.
                   ret (Some v, FROM_OVERRIDE, OVERRIDE_SET)))"

definition resolveRow ::
  "definition_row \<Rightarrow> plan_entitlement option \<Rightarrow> override_row option \<Rightarrow> plan \<times> plan_revision \<Rightarrow> time
    \<Rightarrow> entitlement_resolution cattx" where
  "resolveRow d e selected plan at =
     andThen (base_value (ed_valueType d) e) (\<lambda>base.
     andThen (effective_value (ed_valueType d) base selected at) (\<lambda>(v, source, reason).
     if \<not> safe_integer (pr_revision (snd plan)) then throw (Thrown ''P4_PLAN_REVISION_UNSAFE'')
     else ret
       \<lparr>er_key = ed_key d, er_valueType = ed_valueType d, er_classification = ed_classification d,
        er_deprecatedAt = ed_deprecatedAt d, er_planId = pl_id (fst plan), er_planCode = None,
        er_planRevisionId = pr_id (snd plan), er_planRevisionNumber = pr_revision (snd plan),
        er_baseValue = base, er_selectedOverride = map_option (\<lambda>row. select_override row at) selected,
        er_effectiveValue = v, er_source = source, er_reason = reason\<rparr>))"

definition resolve_definition ::
  "uuid \<Rightarrow> plan \<times> plan_revision \<Rightarrow> time \<Rightarrow> definition_row \<Rightarrow> entitlement_resolution cattx" where
  "resolve_definition accountId plan at d =
     andThen (gets (\<lambda>c. plan_value_of c (pr_id (snd plan)) (ed_key d))) (\<lambda>e.
     andThen (gets (\<lambda>c. effective_override c accountId (ed_key d) at)) (\<lambda>row.
     resolveRow d e row plan at))"

fun resolve_definitions ::
  "uuid \<Rightarrow> plan \<times> plan_revision \<Rightarrow> time \<Rightarrow> definition_row list \<Rightarrow> entitlement_resolution list cattx" where
  "resolve_definitions accountId plan at [] = ret []"
| "resolve_definitions accountId plan at (d # ds) =
     andThen (resolve_definition accountId plan at d) (\<lambda>r.
     andThen (resolve_definitions accountId plan at ds) (\<lambda>rs. ret (r # rs)))"

definition resolveCommercialEntitlement ::
  "uuid \<Rightarrow> uuid \<Rightarrow> string \<Rightarrow> time \<Rightarrow> (override_failure + entitlement_resolution) cattx" where
  "resolveCommercialEntitlement accountId planRevisionId key at =
     andThen (gets (loadPlanRevision accountId planRevisionId)) (\<lambda>loaded.
       case loaded of
         Inl code \<Rightarrow> ret (Inl code)
       | Inr plan \<Rightarrow>
           andThen (gets (\<lambda>c. definition_of c key)) (\<lambda>found.
             case found of
               None \<Rightarrow> ret (Inl NO_DEFINITION)
             | Some d \<Rightarrow> andThen (resolve_definition accountId plan at d) (\<lambda>r. ret (Inr r))))"

definition resolveCommercialEntitlements ::
  "uuid \<Rightarrow> uuid \<Rightarrow> time \<Rightarrow> (override_failure + entitlement_resolution list) cattx" where
  "resolveCommercialEntitlements accountId planRevisionId at =
     andThen (gets (loadPlanRevision accountId planRevisionId)) (\<lambda>loaded.
       case loaded of
         Inl code \<Rightarrow> ret (Inl code)
       | Inr plan \<Rightarrow>
           andThen (gets (\<lambda>c. sort_key ed_key (definitions c))) (\<lambda>ds.
           andThen (resolve_definitions accountId plan at ds) (\<lambda>rs. ret (Inr rs))))"


section \<open>The commands keep the invariant and the history\<close>

lemma overrideValue_state: "overrideValue row c = Inr (x, c') \<Longrightarrow> c' = c"
  by (auto simp: overrideValue_def split: option.splits if_splits)

lemma mapOverride_state: "mapOverride row c = Inr (x, c') \<Longrightarrow> c' = c"
  by (auto simp: mapOverride_def andThen_Inr_iff dest: overrideValue_state split: if_splits)

lemma moves_mapOverride [tx_rules]: "moves_at catalog_inv history (mapOverride row) c"
  by (rule reads_move) (rule mapOverride_state)

lemma mutate_override_keeps:
  assumes "catalog_inv c" and "hook_ok before"
  shows "history c (snd (mutate_override before sa operation v cmd ctx c))
    \<and> catalog_inv (snd (mutate_override before sa operation v cmd ctx c))"
  unfolding mutate_override_def override_decided_def write_override_def
  by (rule command_moves [OF assms(2) _ assms(1)]; intro tx_rules)

section \<open>Resolution reads values of the right type\<close>

lemma typedValue_total:
  assumes "typed_columns t b i"
  shows "\<exists>v. typedValue t b i source c = Inr (v, c) \<and> kind_of_value v = t
    \<and> b = boolean_column v \<and> i = integer_column v"
  using assms
  by (cases t; cases b; cases i) (auto simp: typed_columns_def typedValue_def)

lemma typed_columns_of_value:
  "typed_columns t (boolean_column v) (integer_column v) \<Longrightarrow> typedValue t (boolean_column v) (integer_column v) source c = Inr (v, c)"
  by (cases t; cases v) (auto simp: typed_columns_def typedValue_def)

lemma definition_of_mem:
  assumes "catalog_inv c" and "d \<in> set (definitions c)"
  shows "definition_of c (ed_key d) = Some d"
  using catalog_invD(1) [OF assms(1)] assms(2) by (simp add: definition_of_def catalog_keys_def find_unique)

lemma plan_value_typed:
  assumes "catalog_inv c" and "d \<in> set (definitions c)" and "plan_value_of c i (ed_key d) = Some e"
  shows "typed_columns (ed_valueType d) (pe_boolean e) (pe_integer e)"
proof -
  have "e \<in> set (plan_entitlements c)" "pe_key e = ed_key d"
    using assms(3) by (auto simp: plan_value_of_def dest!: find_Some_mem)
  then show ?thesis
    using catalog_invD(2) [OF assms(1)] definition_of_mem [OF assms(1,2)]
    by (auto simp: catalog_rows_def entitlement_typed_def)
qed

lemma base_value_total:
  assumes "catalog_inv c" and "d \<in> set (definitions c)"
  shows "\<exists>b. base_value (ed_valueType d) (plan_value_of c i (ed_key d)) c = Inr (b, c)
    \<and> pred_option (\<lambda>v. kind_of_value v = ed_valueType d) b"
proof (cases "plan_value_of c i (ed_key d)")
  case (Some e)
  then show ?thesis
    using typedValue_total [OF plan_value_typed [OF assms Some], of "''P4_PLAN''" c]
    by (auto simp: base_value_def andThen_Inr_iff)
qed (simp add: base_value_def ret_def)

lemma effective_override_row:
  assumes "catalog_inv c" and "effective_override c a k at = Some row"
  shows "row \<in> set (overrides c) \<and> ov_accountId row = a \<and> ov_key row = k \<and> ov_effectiveFrom row \<le> at
    \<and> override_checks row \<and> override_guard c row"
  using newest_Some [OF assms(2) [unfolded effective_override_def]] catalog_invD(2) [OF assms(1)]
  by (auto simp: catalog_rows_def)

lemma int4_safe: "int4 n \<Longrightarrow> safe_integer n"
  by (simp add: int4_def safe_integer_def)

lemma override_value_typed:
  assumes "catalog_inv c" and "d \<in> set (definitions c)" and "row \<in> set (overrides c)" and "ov_key row = ed_key d"
  shows "safe_integer (ov_revision row)
    \<and> (ov_operation row = SET_VALUE \<longrightarrow> typed_columns (ed_valueType d) (ov_boolean row) (ov_integer row))"
  using catalog_invD(2) [OF assms(1)] assms(3,4) definition_of_mem [OF assms(1,2)]
  by (auto simp: catalog_rows_def override_checks_def override_guard_def intro: int4_safe)

lemma effective_value_total:
  assumes "catalog_inv c" and "d \<in> set (definitions c)"
    and "pred_option (\<lambda>v. kind_of_value v = ed_valueType d) b"
  shows "\<exists>v source reason. effective_value (ed_valueType d) b (effective_override c a (ed_key d) at) at c
      = Inr ((v, source, reason), c) \<and> pred_option (\<lambda>v. kind_of_value v = ed_valueType d) v"
proof (cases "effective_override c a (ed_key d) at")
  case (Some row)
  then have row: "row \<in> set (overrides c)" "ov_key row = ed_key d"
    using effective_override_row [OF assms(1) Some] by auto
  show ?thesis
  proof (cases "so_state (select_override row at)")
    case ACTIVE_SET
    then have "ov_operation row = SET_VALUE"
      by (auto simp: select_override_def split: if_splits override_operation.splits)
    then obtain v where v: "typedValue (ed_valueType d) (ov_boolean row) (ov_integer row) ''P4_OVERRIDE'' c = Inr (v, c)"
      "kind_of_value v = ed_valueType d"
      using override_value_typed [OF assms(1,2) row] typedValue_total by blast
    then show ?thesis
      using Some ACTIVE_SET override_value_typed [OF assms(1,2) row]
      by (simp add: effective_value_def andThen_Inr_iff)
  qed (use Some override_value_typed [OF assms(1,2) row] assms(3) in \<open>simp_all add: effective_value_def\<close>)
qed (use assms(3) in \<open>simp add: effective_value_def Let_def\<close>)

text \<open>What a resolution is: total, typed, and with the parts it is made of.\<close>

lemma resolve_definition_total:
  assumes "catalog_inv c" and "d \<in> set (definitions c)" and "int4 (pr_revision (snd plan))"
  shows "\<exists>r. resolve_definition a plan at d c = Inr (r, c)
    \<and> er_key r = ed_key d \<and> er_valueType r = ed_valueType d \<and> er_classification r = ed_classification d
    \<and> base_value (ed_valueType d) (plan_value_of c (pr_id (snd plan)) (ed_key d)) c = Inr (er_baseValue r, c)
    \<and> effective_value (ed_valueType d) (er_baseValue r) (effective_override c a (ed_key d) at) at c
        = Inr ((er_effectiveValue r, er_source r, er_reason r), c)
    \<and> pred_option (\<lambda>v. kind_of_value v = ed_valueType d) (er_baseValue r)
    \<and> pred_option (\<lambda>v. kind_of_value v = ed_valueType d) (er_effectiveValue r)"
proof -
  obtain b where b: "base_value (ed_valueType d) (plan_value_of c (pr_id (snd plan)) (ed_key d)) c = Inr (b, c)"
      "pred_option (\<lambda>v. kind_of_value v = ed_valueType d) b"
    using base_value_total [OF assms(1,2)] by blast
  obtain v source reason where v: "effective_value (ed_valueType d) b (effective_override c a (ed_key d) at) at c
      = Inr ((v, source, reason), c)" "pred_option (\<lambda>v. kind_of_value v = ed_valueType d) v"
    using effective_value_total [OF assms(1,2) b(2)] by blast
  show ?thesis
    using b v int4_safe [OF assms(3)]
    by (auto simp: resolve_definition_def resolveRow_def andThen_Inr_iff intro!: exI)
qed

text \<open>A resolution that agrees with its definition.\<close>

definition well_typed :: "entitlement_resolution \<Rightarrow> bool" where
  "well_typed r \<longleftrightarrow>
     pred_option (\<lambda>v. kind_of_value v = er_valueType r) (er_baseValue r)
     \<and> pred_option (\<lambda>v. kind_of_value v = er_valueType r) (er_effectiveValue r)
     \<and> er_valueType r = (case er_classification r of CAPABILITY \<Rightarrow> BOOLEAN_TYPE | LIMIT \<Rightarrow> INTEGER_TYPE)"

lemma definition_row_checks:
  "catalog_inv c \<Longrightarrow> d \<in> set (definitions c) \<Longrightarrow>
   ed_valueType d = (case ed_classification d of CAPABILITY \<Rightarrow> BOOLEAN_TYPE | LIMIT \<Rightarrow> INTEGER_TYPE)"
  by (auto simp: catalog_inv_def catalog_rows_def definition_checks_def)

lemma resolve_definitions_total:
  assumes "catalog_inv c" and "int4 (pr_revision (snd plan))" and "set ds \<subseteq> set (definitions c)"
  shows "\<exists>rs. resolve_definitions a plan at ds c = Inr (rs, c) \<and> map er_key rs = map ed_key ds \<and> list_all well_typed rs"
  using assms(3)
proof (induction ds)
  case (Cons d ds)
  obtain r where "resolve_definition a plan at d c = Inr (r, c)" "er_key r = ed_key d" "well_typed r"
    using resolve_definition_total [OF assms(1) _ assms(2), of d a at] Cons.prems
      definition_row_checks [OF assms(1), of d]
    by (auto simp: well_typed_def)
  moreover obtain rs where "resolve_definitions a plan at ds c = Inr (rs, c)" "map er_key rs = map ed_key ds"
      "list_all well_typed rs"
    using Cons.IH Cons.prems by auto
  ultimately have "resolve_definitions a plan at (d # ds) c = Inr (r # rs, c)"
      "map er_key (r # rs) = map ed_key (d # ds)" "list_all well_typed (r # rs)"
    by (simp_all add: tx_simps)
  then show ?case by blast
qed (simp add: ret_def)

lemma loadPlanRevision_Inr:
  assumes "catalog_inv c" and "loadPlanRevision a i c = Inr (p, r)"
  shows "a \<in> set (customers c) \<and> revision_of c i = Some r \<and> plan_of c (pr_planId r) = Some p \<and> pr_id r = i
    \<and> pr_state r = PUBLISHED \<and> int4 (pr_revision r)"
proof -
  have r: "a \<in> set (customers c)" "joined_revision c i = Some (p, r)" "pr_state r = PUBLISHED"
    using assms(2) by (auto simp: loadPlanRevision_def split: if_splits option.splits)
  then have "revision_of c i = Some r" "plan_of c (pr_planId r) = Some p" "pr_id r = i"
    using joined_revision_id [OF r(2)] by (auto simp: joined_revision_def split: option.splits)
  moreover from this have "r \<in> set (plan_revisions c)"
    by (auto simp: revision_of_def dest!: find_Some_mem)
  ultimately show ?thesis
    using r catalog_invD(2) [OF assms(1)] by (simp add: catalog_rows_def plan_revision_checks_def)
qed

lemma resolve_all_total:
  assumes "catalog_inv c" and "loadPlanRevision a i c = Inr plan"
  shows "\<exists>rs. resolveCommercialEntitlements a i at c = Inr (Inr rs, c)
    \<and> map er_key rs = map ed_key (sort_key ed_key (definitions c)) \<and> list_all well_typed rs"
proof -
  obtain p r where plan: "plan = (p, r)" by fastforce
  have "int4 (pr_revision (snd plan))"
    using loadPlanRevision_Inr [OF assms(1) assms(2) [unfolded plan]] by (simp add: plan)
  then obtain rs where rs: "resolve_definitions a plan at (sort_key ed_key (definitions c)) c = Inr (rs, c)"
      "map er_key rs = map ed_key (sort_key ed_key (definitions c))" "list_all well_typed rs"
    using resolve_definitions_total [OF assms(1), of plan "sort_key ed_key (definitions c)" a at] by auto
  have "resolveCommercialEntitlements a i at c = Inr (Inr rs, c)"
    using assms(2) rs(1) by (simp add: resolveCommercialEntitlements_def tx_simps)
  then show ?thesis
    using rs by blast
qed

text \<open>C17. On a catalog with the invariant the resolution of the entitlements of an account never throws (none of the
  corruption errors of the readers can occur), answers with one resolution for every definition
  in the order of the keys, and every value in it, of the plan or in effect, has the type of its definition: a
  capability is a boolean, a limit an integer.\<close>

theorem resolutions_well_typed:
  assumes "catalog_inv c"
  shows "\<exists>x. resolveCommercialEntitlements a i at c = Inr (x, c)
    \<and> (case x of
         Inl code \<Rightarrow> code = NO_ACCOUNT \<or> code = NO_PLAN_REVISION \<or> code = PLAN_REVISION_IS_DRAFT
       | Inr rs \<Rightarrow> map er_key rs = map ed_key (sort_key ed_key (definitions c)) \<and> list_all well_typed rs)"
proof (cases "loadPlanRevision a i c")
  case (Inl code)
  then have "code = NO_ACCOUNT \<or> code = NO_PLAN_REVISION \<or> code = PLAN_REVISION_IS_DRAFT"
    by (auto simp: loadPlanRevision_def split: if_splits option.splits)
  then show ?thesis
    using Inl by (simp add: resolveCommercialEntitlements_def ret_def)
next
  case (Inr plan)
  then show ?thesis
    using resolve_all_total [OF assms Inr, of at] by auto
qed

section \<open>Overrides replace one another\<close>

text \<open>What a command that is accepted leaves behind: the newest override of the account and the key.\<close>

lemma insert_row_Inr:
  assumes "insert_row table accepted put mk c = Inr (r, c')"
  shows "\<exists>i at. r = mk i at \<and> c' = put (\<lambda>t. t @ [r]) (c\<lparr>cat_drawn := Suc (cat_drawn c)\<rparr>)"
  using assms by (auto simp: insert_row_def catalog_uuid_def andThen_Inr_iff)

lemma audit_catalog_Inr:
  "audit_catalog sa ctx a t i m c = Inr (x, c') \<Longrightarrow> \<exists>f. c' = catalog_audits_update f c"
  by (auto simp: audit_catalog_def insert_catalog_audit_def andThen_Inr_iff)

lemma mapOverride_fields:
  "mapOverride row c = Inr (r, c') \<Longrightarrow> c' = c \<and> eo_revision r = ov_revision row \<and> eo_operation r = ov_operation row
    \<and> eo_effectiveFrom r = ov_effectiveFrom row \<and> eo_expiresAt r = ov_expiresAt row
    \<and> overrideValue row c = Inr (eo_value r, c)"
  using mapOverride_state [of row c r c']
  by (auto simp: mapOverride_def andThen_Inr_iff dest: overrideValue_state split: if_splits)

definition override_row_of ::
  "override_command \<Rightarrow> override_operation \<Rightarrow> typed_value option \<Rightarrow> int \<Rightarrow> override_row \<Rightarrow> bool" where
  "override_row_of cmd op v n row \<longleftrightarrow>
     ov_accountId row = oc_accountId cmd \<and> ov_key row = oc_key cmd \<and> ov_revision row = n
     \<and> ov_operation row = op \<and> ov_boolean row = Option.bind v boolean_column
     \<and> ov_integer row = Option.bind v integer_column
     \<and> ov_effectiveFrom row = oc_effectiveFrom cmd \<and> ov_expiresAt row = oc_expiresAt cmd"

lemma write_override_effect:
  assumes "write_override sa ctx op v cmd n t c = Inr (x, c')"
  shows "\<exists>row r f. x = OverrideOK True r \<and> c' = catalog_audits_update f (overrides_update (\<lambda>t. t @ [row])
      (c\<lparr>cat_drawn := Suc (cat_drawn c)\<rparr>)) \<and> override_row_of cmd op v n row \<and> eo_revision r = n"
proof -
  obtain row c1 r c2 where ins: "insert_override (\<lambda>i at. \<lparr>ov_id = i, ov_accountId = oc_accountId cmd, ov_key = oc_key cmd,
         ov_revision = n, ov_operation = op,
         ov_boolean = (case v of None \<Rightarrow> None | Some x \<Rightarrow> boolean_column x),
         ov_integer = (case v of None \<Rightarrow> None | Some x \<Rightarrow> integer_column x),
         ov_effectiveFrom = oc_effectiveFrom cmd, ov_expiresAt = oc_expiresAt cmd,
         ov_reason = ctx_reason ctx, ov_createdAt = at\<rparr>) c = Inr (row, c1)"
      and r: "mapOverride row c1 = Inr (r, c2)" and x: "x = OverrideOK True r"
      and audit: "\<exists>a m. audit_catalog sa ctx a ''ACCOUNT'' (Some (oc_accountId cmd)) m c2 = Inr ((), c')"
    using assms unfolding write_override_def andThen_Inr_iff by (elim exE conjE) (simp, blast)
  obtain f where "c' = catalog_audits_update f c2"
    using audit audit_catalog_Inr by blast
  moreover have "c2 = c1" "eo_revision r = ov_revision row"
    using mapOverride_fields [OF r] by simp_all
  moreover have "c1 = overrides_update (\<lambda>t. t @ [row]) (c\<lparr>cat_drawn := Suc (cat_drawn c)\<rparr>)"
      "override_row_of cmd op v n row"
    using insert_row_Inr [OF ins [unfolded insert_override_def]]
    by (auto simp: override_row_of_def split: option.split)
  ultimately show ?thesis
    using x by (auto simp: override_row_of_def intro!: exI)
qed

lemma latestOverride_mem:
  assumes "latestOverride c a k = Some row"
  shows "row \<in> set (overrides c) \<and> ov_accountId row = a \<and> ov_key row = k
    \<and> (\<forall>x \<in> set (overrides c). ov_accountId x = a \<longrightarrow> ov_key x = k \<longrightarrow> ov_revision x \<le> ov_revision row)"
  using newest_Some [OF assms [unfolded latestOverride_def]] by auto

lemma latest_appended:
  assumes "overrides d = overrides c @ [row]" and "ov_accountId row = a" and "ov_key row = k"
    and "\<And>x. latestOverride c a k = Some x \<Longrightarrow> ov_revision x < ov_revision row"
  shows "latestOverride d a k = Some row"
  using assms by (auto simp: latestOverride_def newest_snoc split: option.split)

lemma override_columns:
  assumes "overrideValue row c = Inr (v, c)"
  shows "ov_boolean row = Option.bind v boolean_column \<and> ov_integer row = Option.bind v integer_column"
  using assms by (auto simp: overrideValue_def split: if_splits option.splits)

lemma mapOverride_andThen:
  "andThen (mapOverride row) f c = Inr y \<longleftrightarrow> (\<exists>x. mapOverride row c = Inr (x, c) \<and> f x c = Inr y)"
  by (auto simp: andThen_Inr_iff dest: mapOverride_state)

lemma override_decided_effect:
  assumes "override_decided sa ctx op v cmd (latestOverride c (oc_accountId cmd) (oc_key cmd)) c = Inr (OverrideOK ch r, c')"
    and "map_option ov_revision (latestOverride c (oc_accountId cmd) (oc_key cmd)) = oc_expected cmd"
  shows "\<exists>row. latestOverride c' (oc_accountId cmd) (oc_key cmd) = Some row
    \<and> override_row_of cmd op v (eo_revision r) row
    \<and> (ch \<longrightarrow> eo_revision r = (case oc_expected cmd of None \<Rightarrow> 1 | Some n \<Rightarrow> n + 1))"
proof -
  let ?n = "case oc_expected cmd of None \<Rightarrow> 1 | Some n \<Rightarrow> n + 1"
  have new: "write_override sa ctx op v cmd n t c = Inr (OverrideOK ch r, c') \<Longrightarrow> ch" for n t
    using write_override_effect by blast
  consider (same) row where "latestOverride c (oc_accountId cmd) (oc_key cmd) = Some row" "c' = c" "\<not> ch"
      "mapOverride row c = Inr (r, c)" "sameSemanticOverride r op v (oc_effectiveFrom cmd) (oc_expiresAt cmd)"
    | (written) t where "write_override sa ctx op v cmd ?n t c = Inr (OverrideOK ch r, c')"
  proof (cases "latestOverride c (oc_accountId cmd) (oc_key cmd)")
    case None
    then show ?thesis
      using assms that(2) by (auto simp: override_decided_def split: option.splits if_splits)
  next
    case (Some row)
    then have "?n = ov_revision row + 1"
      using assms(2) [symmetric] by simp
    then show ?thesis
      using assms(1) that Some new
      by (auto simp: override_decided_def mapOverride_andThen split: option.splits if_splits)
  qed
  then show ?thesis
  proof cases
    case same
    then show ?thesis
      using mapOverride_fields [OF same(4)] override_columns [of row c "eo_value r"] latestOverride_mem [OF same(1)]
      by (auto simp: override_row_of_def sameSemanticOverride_def)
  next
    case written
    obtain row f where c': "c' = catalog_audits_update f (overrides_update (\<lambda>t. t @ [row])
        (c\<lparr>cat_drawn := Suc (cat_drawn c)\<rparr>))" and row: "override_row_of cmd op v ?n row" "eo_revision r = ?n"
      using write_override_effect [OF written] by blast
    have "latestOverride c' (oc_accountId cmd) (oc_key cmd) = Some row"
      using row(1) assms(2)
      by (intro latest_appended [of _ c]) (auto simp: c' override_row_of_def split: option.split)
    then show ?thesis using row by simp
  qed
qed

lemma mutate_override_effect:
  assumes "catalog_inv c" and "hook_ok before"
    and "mutate_override before sa op v cmd ctx c = (Inr (OverrideOK ch r), c')"
  shows "\<exists>row. latestOverride c' (oc_accountId cmd) (oc_key cmd) = Some row
    \<and> override_row_of cmd op v (eo_revision r) row \<and> oc_accountId cmd \<in> set (customers c') \<and> catalog_inv c'
    \<and> (ch \<longrightarrow> eo_revision r = (case oc_expected cmd of None \<Rightarrow> 1 | Some n \<Rightarrow> n + 1))"
proof -
  have inv: "catalog_inv c'"
    using mutate_override_keeps [OF assms(1,2), of sa op v cmd ctx] assms(3) by simp
  obtain b where b: "oc_accountId cmd \<in> set (customers b)"
      "map_option ov_revision (latestOverride b (oc_accountId cmd) (oc_key cmd)) = oc_expected cmd"
      "override_decided sa ctx op v cmd (latestOverride b (oc_accountId cmd) (oc_key cmd)) b = Inr (OverrideOK ch r, c')"
    using assms(3)
    by (auto simp: mutate_override_def transaction_def andThen_def gets_def ret_def throw_def
        split: sum.splits prod.splits if_splits)
  obtain row where row: "latestOverride c' (oc_accountId cmd) (oc_key cmd) = Some row"
      "override_row_of cmd op v (eo_revision r) row"
      "ch \<longrightarrow> eo_revision r = (case oc_expected cmd of None \<Rightarrow> 1 | Some n \<Rightarrow> n + 1)"
    using override_decided_effect [OF b(3,2)] by blast
  moreover have "row \<in> set (overrides c')" "ov_accountId row = oc_accountId cmd"
    using latestOverride_mem [OF row(1)] by simp_all
  then have "oc_accountId cmd \<in> set (customers c')"
    using catalog_invD(2) [OF inv] by (auto simp: catalog_rows_def override_guard_def)
  ultimately show ?thesis using inv by blast
qed

lemma latest_is_effective:
  assumes "catalog_inv c" and "latestOverride c a k = Some row" and "ov_effectiveFrom row \<le> at"
  shows "effective_override c a k at = Some row"
proof -
  have row: "row \<in> set (overrides c)" "ov_accountId row = a" "ov_key row = k"
    using latestOverride_mem [OF assms(2)] by simp_all
  then have "effective_override c a k at \<noteq> None"
    using assms(3) by (auto simp: effective_override_def filter_empty_conv)
  then obtain x where x: "effective_override c a k at = Some x" by blast
  have "x \<in> set (overrides c)" "ov_accountId x = a" "ov_key x = k" "ov_revision row \<le> ov_revision x"
    using newest_Some [OF x [unfolded effective_override_def]] row assms(3) by auto
  moreover from this have "ov_revision x \<le> ov_revision row"
    using latestOverride_mem [OF assms(2)] by blast
  moreover have "distinct (map (\<lambda>r. (ov_accountId r, ov_key r, ov_revision r)) (overrides c))"
    using catalog_invD(1) [OF assms(1)] by (simp add: catalog_keys_def)
  ultimately have "x = row"
    using row distinct_map_unique [of "\<lambda>r. (ov_accountId r, ov_key r, ov_revision r)" "overrides c" x row] by auto
  then show ?thesis using x by simp
qed

lemma effective_value_latest:
  assumes "effective_value t b (Some row) at c = Inr ((v, s, e), c)" and "override_row_of cmd op w n row"
    and "w = None \<longleftrightarrow> op = CLEAR_VALUE"
  shows "v = (if (case oc_expiresAt cmd of None \<Rightarrow> True | Some u \<Rightarrow> at < u) \<and> w \<noteq> None then w else b)"
  using assms
  by (cases w; cases "the w")
    (auto simp: effective_value_def select_override_def override_row_of_def andThen_Inr_iff typedValue_def Let_def
      split: option.splits if_splits value_type.splits override_operation.splits)

lemma resolve_one_total:
  assumes "catalog_inv c" and "loadPlanRevision a i c = Inr plan" and "definition_of c k = Some d"
  shows "\<exists>r. resolveCommercialEntitlement a i k at c = Inr (Inr r, c)
    \<and> effective_value (ed_valueType d) (er_baseValue r) (effective_override c a k at) at c
        = Inr ((er_effectiveValue r, er_source r, er_reason r), c)"
proof -
  obtain p r where plan: "plan = (p, r)" by fastforce
  have "int4 (pr_revision (snd plan))"
    using loadPlanRevision_Inr [OF assms(1) assms(2) [unfolded plan]] by (simp add: plan)
  moreover have d: "d \<in> set (definitions c)" "ed_key d = k"
    using assms(3) by (auto simp: definition_of_def dest!: find_Some_mem)
  ultimately obtain r where r: "resolve_definition a plan at d c = Inr (r, c)"
      "effective_value (ed_valueType d) (er_baseValue r) (effective_override c a (ed_key d) at) at c
        = Inr ((er_effectiveValue r, er_source r, er_reason r), c)"
    using resolve_definition_total [OF assms(1)] by blast
  have "resolveCommercialEntitlement a i k at c = Inr (Inr r, c)"
    using assms(2,3) r(1) by (simp add: resolveCommercialEntitlement_def tx_simps)
  then show ?thesis using r(2) d(2) by blast
qed

text \<open>C18. An override is in force until the next one of the same account and key: once SET or CLEAR has been accepted,
  every later resolution at an instant from its start returns, for whatever published plan revision, the value that
  was set while it has not expired, and the value of the plan when it was a CLEAR or has expired; the resolution
  does not throw.\<close>

theorem override_takes_effect:
  assumes "catalog_inv c" and "hook_ok before" and "v = None \<longleftrightarrow> op = CLEAR_VALUE"
    and "mutate_override before sa op v cmd ctx c = (Inr (OverrideOK ch o'), c')"
    and "catalog_inv c''" and "latestOverride c'' (oc_accountId cmd) (oc_key cmd) = latestOverride c' (oc_accountId cmd) (oc_key cmd)"
    and "loadPlanRevision (oc_accountId cmd) i c'' = Inr plan" and "oc_effectiveFrom cmd \<le> at"
  shows "\<exists>r. resolveCommercialEntitlement (oc_accountId cmd) i (oc_key cmd) at c'' = Inr (Inr r, c'')
    \<and> er_effectiveValue r =
        (if (case oc_expiresAt cmd of None \<Rightarrow> True | Some u \<Rightarrow> at < u) \<and> v \<noteq> None then v else er_baseValue r)"
proof -
  obtain row where row: "latestOverride c'' (oc_accountId cmd) (oc_key cmd) = Some row"
      "override_row_of cmd op v (eo_revision o') row"
    using mutate_override_effect [OF assms(1,2,4)] assms(6) by auto
  have eff: "effective_override c'' (oc_accountId cmd) (oc_key cmd) at = Some row"
    using latest_is_effective [OF assms(5) row(1)] row(2) assms(8) by (simp add: override_row_of_def)
  have "row \<in> set (overrides c'')" "ov_key row = oc_key cmd"
    using latestOverride_mem [OF row(1)] by simp_all
  then obtain d where "definition_of c'' (oc_key cmd) = Some d"
    using catalog_invD(2) [OF assms(5)] by (auto simp: catalog_rows_def override_guard_def split: option.splits)
  then show ?thesis
    using resolve_one_total [OF assms(5,7), of "oc_key cmd" d at] effective_value_latest [OF _ row(2) assms(3)] eff
    by fastforce
qed

text \<open>C19. No override is lost: of two commands for one account and key that name the same latest revision, the second,
  whenever it comes, is refused as stale and changes nothing.\<close>

theorem lost_override_refused:
  assumes "catalog_inv c" and "hook_ok before"
    and "mutate_override before sa op v cmd ctx c = (Inr (OverrideOK True o'), c')"
    and "catalog_inv c''" and "history c' c''"
    and "oc_accountId cmd' = oc_accountId cmd" and "oc_key cmd' = oc_key cmd" and "oc_expected cmd' = oc_expected cmd"
  shows "mutate_override (ret ()) sa' op' v' cmd' ctx' c'' = (Inr (OverrideREJECTED OVERRIDE_STALE), c'')"
proof -
  let ?a = "oc_accountId cmd" and ?k = "oc_key cmd"
  obtain row where row: "latestOverride c' ?a ?k = Some row" "override_row_of cmd op v (eo_revision o') row"
      "?a \<in> set (customers c')" "eo_revision o' = (case oc_expected cmd of None \<Rightarrow> 1 | Some n \<Rightarrow> n + 1)"
    using mutate_override_effect [OF assms(1-3)] by auto
  have "row \<in> set (overrides c'')" and account: "?a \<in> set (customers c'')"
    using latestOverride_mem [OF row(1)] row(3) assms(5) by (auto simp: history_def dest: set_mono_prefix)
  moreover have "ov_accountId row = ?a" "ov_key row = ?k" "ov_revision row = eo_revision o'"
    using row(2) by (simp_all add: override_row_of_def)
  moreover from calculation have "latestOverride c'' ?a ?k \<noteq> None"
    by (auto simp: latestOverride_def filter_empty_conv)
  ultimately obtain x where x: "latestOverride c'' ?a ?k = Some x" "eo_revision o' \<le> ov_revision x"
    using latestOverride_mem by fastforce
  have "safe_integer (ov_revision x)"
    using latestOverride_mem [OF x(1)] catalog_invD(2) [OF assms(4)]
    by (auto simp: catalog_rows_def override_checks_def intro: int4_safe)
  moreover have "Some (ov_revision x) \<noteq> oc_expected cmd"
    using x(2) row(4) by (cases "oc_expected cmd") auto
  ultimately show ?thesis
    using x(1) account by (simp add: mutate_override_def assms(6-8) transaction_def tx_simps)
qed

end
