(* ===== verification/Commercial_Access.thy ===== *)
theory Commercial_Access
  imports Entitlements
begin

text \<open>
  packages/server/commercial-access/src/index.ts: what an account may use, from its subscription and its
  entitlements. \<open>CommercialAccessService\<close> asks three ports, one of them twice, in separate statements of
  the database; a definition takes the answer of each call as an argument of its own, so that the
  tables may change between two calls. The laws under which the service never reports corruption
  are the locale \<open>access_ports\<close>. The device limit is
  \<open>BoundCommercialDeviceLimitResolver\<close> of packages/server/entitlements/src/index.ts.
\<close>

section \<open>Access\<close>

type_synonym entitlement_map = "string \<rightharpoonup> typed_value"

type_synonym all_entitlements = "failure + override_failure + entitlement_resolution list"

type_synonym one_entitlement = "failure + override_failure + entitlement_resolution"

record access_snapshot =
  cs_accountId :: uuid
  cs_currentSubscription :: "subscription_snapshot option"
  cs_access :: access_result
  cs_planRevisionId :: "uuid option"
  cs_entitlements :: entitlement_map
  cs_accessUntil :: "time option"

datatype access_resolution =
    AccessOK access_snapshot
  | AccessNO_ACCOUNT
  | AccessCORRUPTED

text \<open>In the state GRACE \<open>graceUntil!.getTime()\<close> of null is a TypeError.\<close>

definition accessUntil :: "eligible_access \<Rightarrow> failure + time" where
  "accessUntil access =
     (if acc_state access = GRACE then
        (case acc_graceUntil access of None \<Rightarrow> Inl (Thrown ''TypeError'') | Some t \<Rightarrow> Inr t)
      else Inr (acc_currentPeriodEnd access))"

fun primitive_values :: "entitlement_resolution list \<Rightarrow> entitlement_map \<Rightarrow> entitlement_map option" where
  "primitive_values [] m = Some m"
| "primitive_values (r # rs) m =
     (case er_effectiveValue r of
        None \<Rightarrow> primitive_values rs m
      | Some (BOOLEAN b) \<Rightarrow> primitive_values rs (m(er_key r \<mapsto> BOOLEAN b))
      | Some (INTEGER n) \<Rightarrow>
          if \<not> safe_integer n then None else primitive_values rs (m(er_key r \<mapsto> INTEGER n)))"

definition primitiveEntitlements :: "override_failure + entitlement_resolution list \<Rightarrow> entitlement_map option" where
  "primitiveEntitlements values =
     (case values of Inl _ \<Rightarrow> None | Inr rs \<Rightarrow> primitive_values rs Map.empty)"

text \<open>The subscription that was read is the one whose access was resolved.\<close>

definition describes :: "subscription_snapshot \<Rightarrow> eligible_access \<Rightarrow> bool" where
  "describes s access \<longleftrightarrow>
     sub_id s = acc_subscriptionId access \<and> sub_state s = acc_state access
     \<and> sub_stateRevision s = acc_stateRevision access
     \<and> sub_currentPlanRevisionId s = acc_planRevisionId access
     \<and> sub_boundPriceRevisionId s = acc_boundPriceRevisionId access
     \<and> sub_currentPeriodEnd s = acc_currentPeriodEnd access \<and> sub_graceUntil s = acc_graceUntil access"

definition without_access :: "uuid \<Rightarrow> subscription_snapshot option \<Rightarrow> access_result \<Rightarrow> access_snapshot" where
  "without_access accountId current access =
     \<lparr>cs_accountId = accountId, cs_currentSubscription = current, cs_access = access,
      cs_planRevisionId = None, cs_entitlements = Map.empty, cs_accessUntil = None\<rparr>"

text \<open>The part of \<open>resolve\<close> for an eligible account, from the binding on.\<close>

definition with_entitlements ::
  "(uuid \<Rightarrow> time \<Rightarrow> access_result) \<Rightarrow> (uuid \<Rightarrow> uuid \<Rightarrow> time \<Rightarrow> all_entitlements) \<Rightarrow> uuid \<Rightarrow> time
    \<Rightarrow> subscription_snapshot option \<Rightarrow> eligible_access \<Rightarrow> failure + access_resolution" where
  "with_entitlements again entitlements accountId at current access =
     (case resolve_plan_binding again at accountId of
        None \<Rightarrow> Inr AccessCORRUPTED
      | Some (bound, _) \<Rightarrow>
          if bound \<noteq> acc_planRevisionId access then Inr AccessCORRUPTED
          else case entitlements accountId (acc_planRevisionId access) at of
            Inl e \<Rightarrow> Inl e
          | Inr resolved \<Rightarrow>
              (case primitiveEntitlements resolved of
                 None \<Rightarrow> Inr AccessCORRUPTED
               | Some m \<Rightarrow>
                   (case accessUntil access of
                      Inl e \<Rightarrow> Inl e
                    | Inr until \<Rightarrow> Inr (AccessOK
                        \<lparr>cs_accountId = accountId, cs_currentSubscription = current, cs_access = ELIGIBLE access,
                         cs_planRevisionId = Some (acc_planRevisionId access), cs_entitlements = m,
                         cs_accessUntil = Some until\<rparr>))))"

definition resolve_commercial ::
  "(uuid \<Rightarrow> time \<Rightarrow> access_result) \<Rightarrow> (uuid \<Rightarrow> subscription_snapshot option) \<Rightarrow> (uuid \<Rightarrow> time \<Rightarrow> access_result)
    \<Rightarrow> (uuid \<Rightarrow> uuid \<Rightarrow> time \<Rightarrow> all_entitlements) \<Rightarrow> uuid \<Rightarrow> time \<Rightarrow> failure + access_resolution" where
  "resolve_commercial accessResolver currentReader again entitlements accountId at =
     (case accessResolver accountId at of
        AccessACCOUNT_NOT_FOUND \<Rightarrow> Inr AccessNO_ACCOUNT
      | access \<Rightarrow>
          (let current = currentReader accountId in
           if (case current of None \<Rightarrow> False | Some s \<Rightarrow> sub_accountId s \<noteq> accountId) then Inr AccessCORRUPTED
           else case access of
             ELIGIBLE e \<Rightarrow>
               if (case current of None \<Rightarrow> True | Some s \<Rightarrow> \<not> describes s e) then Inr AccessCORRUPTED
               else with_entitlements again entitlements accountId at current e
           | _ \<Rightarrow> Inr (AccessOK (without_access accountId current access))))"

section \<open>The device limit\<close>

datatype device_limit_error =
    PLAN_BINDING_UNAVAILABLE
  | DEVICE_MAX_ACTIVE_UNSET
  | DEVICE_MAX_ACTIVE_TYPE_INVALID
  | DEVICE_MAX_ACTIVE_VALUE_INVALID
  | LimitThrew failure

definition device_max_active :: string where
  "device_max_active = ''device.max_active''"

definition bound_device_limit ::
  "(uuid \<Rightarrow> (uuid \<times> string) option) \<Rightarrow> (uuid \<Rightarrow> uuid \<Rightarrow> string \<Rightarrow> time \<Rightarrow> one_entitlement) \<Rightarrow> time \<Rightarrow> uuid
    \<Rightarrow> device_limit_error + int" where
  "bound_device_limit binding entitlement at accountId =
     (case binding accountId of
        None \<Rightarrow> Inl PLAN_BINDING_UNAVAILABLE
      | Some (planRevisionId, _) \<Rightarrow>
          (case entitlement accountId planRevisionId device_max_active at of
             Inl e \<Rightarrow> Inl (LimitThrew e)
           | Inr (Inl code) \<Rightarrow> Inl DEVICE_MAX_ACTIVE_UNSET
           | Inr (Inr r) \<Rightarrow>
               (case er_effectiveValue r of
                  None \<Rightarrow> Inl DEVICE_MAX_ACTIVE_UNSET
                | Some (BOOLEAN b) \<Rightarrow> Inl DEVICE_MAX_ACTIVE_TYPE_INVALID
                | Some (INTEGER n) \<Rightarrow>
                    if \<not> safe_integer n \<or> n < 0 then Inl DEVICE_MAX_ACTIVE_VALUE_INVALID else Inr n)))"

datatype device_admission =
    AdmissionELIGIBLE int
  | AdmissionINELIGIBLE access_reason
  | AdmissionNO_ACCOUNT
  | AdmissionCORRUPTED

text \<open>The access resolver is asked three times: for the decision, for the binding of the limit and for its
  parity with the decision.\<close>

definition resolveDeviceAdmission ::
  "(uuid \<Rightarrow> time \<Rightarrow> access_result) \<Rightarrow> (uuid \<Rightarrow> time \<Rightarrow> access_result) \<Rightarrow> (uuid \<Rightarrow> time \<Rightarrow> access_result)
    \<Rightarrow> (uuid \<Rightarrow> uuid \<Rightarrow> string \<Rightarrow> time \<Rightarrow> one_entitlement) \<Rightarrow> uuid \<Rightarrow> time \<Rightarrow> device_admission" where
  "resolveDeviceAdmission accessResolver again parity entitlement accountId at =
     (case accessResolver accountId at of
        AccessACCOUNT_NOT_FOUND \<Rightarrow> AdmissionNO_ACCOUNT
      | INELIGIBLE reason \<Rightarrow> AdmissionINELIGIBLE reason
      | ELIGIBLE access \<Rightarrow>
          (case bound_device_limit (resolve_plan_binding again at) entitlement at accountId of
             Inl _ \<Rightarrow> AdmissionCORRUPTED
           | Inr maxActive \<Rightarrow>
               if maxActive < 0 \<or> \<not> safe_integer maxActive then AdmissionCORRUPTED
               else case resolve_plan_binding parity at accountId of
                 None \<Rightarrow> AdmissionCORRUPTED
               | Some (planRevisionId, _) \<Rightarrow>
                   if planRevisionId \<noteq> acc_planRevisionId access then AdmissionCORRUPTED
                   else AdmissionELIGIBLE maxActive))"

section \<open>What the service relies on\<close>

definition safe_value :: "typed_value \<Rightarrow> bool" where
  "safe_value v = (case v of BOOLEAN _ \<Rightarrow> True | INTEGER n \<Rightarrow> safe_integer n)"

definition usable :: "entitlement_resolution \<Rightarrow> bool" where
  "usable r \<longleftrightarrow> pred_option safe_value (er_effectiveValue r)"

lemma typedValue_safe: "typedValue t b i source c = Inr (v, c') \<Longrightarrow> safe_value v"
  by (auto simp: typedValue_def safe_value_def split: value_type.splits option.splits if_splits)

lemma base_value_safe: "base_value t e c = Inr (v, c') \<Longrightarrow> pred_option safe_value v"
  by (auto simp: base_value_def andThen_Inr_iff dest: typedValue_safe split: option.splits)

lemma effective_value_safe:
  "effective_value t b row at c = Inr ((v, s, e), c') \<Longrightarrow> pred_option safe_value b \<Longrightarrow> pred_option safe_value v"
  by (auto simp: effective_value_def andThen_Inr_iff Let_def dest: typedValue_safe
      split: option.splits if_splits override_state.splits)

lemma resolve_definition_usable:
  "resolve_definition a plan at d c = Inr (r, c') \<Longrightarrow> usable r"
  by (auto simp: resolve_definition_def resolveRow_def andThen_Inr_iff usable_def split: if_splits
      dest!: base_value_safe effective_value_safe)

lemma resolve_definitions_usable: "resolve_definitions a plan at ds c = Inr (rs, c') \<Longrightarrow> list_all usable rs"
  by (induction ds arbitrary: c rs) (auto simp: andThen_Inr_iff dest: resolve_definition_usable)

text \<open>The map of the values in effect.\<close>

definition values_in_effect :: "entitlement_resolution list \<Rightarrow> entitlement_map" where
  "values_in_effect rs = (\<lambda>k. Option.bind (List.find (\<lambda>r. er_key r = k) rs) er_effectiveValue)"

lemma primitive_values_map:
  assumes "list_all usable rs" and "distinct (map er_key rs)"
  shows "primitive_values rs m = Some (m ++ values_in_effect rs)"
  using assms
proof (induction rs arbitrary: m)
  case Nil
  have "values_in_effect [] = Map.empty"
    by (simp add: values_in_effect_def fun_eq_iff)
  then show ?case by simp
next
  case (Cons r rs)
  have fresh: "values_in_effect rs (er_key r) = None"
  proof -
    have "List.find (\<lambda>x. er_key x = er_key r) rs = None"
      using Cons.prems(2) unfolding find_None_mem by (metis distinct.simps(2) image_eqI list.simps(9) set_map)
    then show ?thesis by (simp add: values_in_effect_def)
  qed
  have step: "m ++ values_in_effect (r # rs) =
      (case er_effectiveValue r of None \<Rightarrow> m | Some v \<Rightarrow> m(er_key r \<mapsto> v)) ++ values_in_effect rs"
  proof (rule ext)
    fix k
    have head: "values_in_effect (r # rs) k = (if er_key r = k then er_effectiveValue r else values_in_effect rs k)"
      by (simp add: values_in_effect_def)
    show "(m ++ values_in_effect (r # rs)) k =
      ((case er_effectiveValue r of None \<Rightarrow> m | Some v \<Rightarrow> m(er_key r \<mapsto> v)) ++ values_in_effect rs) k"
      unfolding map_add_def head using fresh by (auto split: option.splits)
  qed
  have ok: "pred_option safe_value (er_effectiveValue r)" and IH: "\<And>m. primitive_values rs m = Some (m ++ values_in_effect rs)"
    using Cons by (auto simp: usable_def)
  show ?case
    using ok by (auto simp: step IH safe_value_def split: option.splits typed_value.splits)
qed

locale access_ports =
  fixes accessResolver :: "'s \<Rightarrow> uuid \<Rightarrow> time \<Rightarrow> access_result"
    and currentReader :: "'s \<Rightarrow> uuid \<Rightarrow> subscription_snapshot option"
    and entitlements :: "'s \<Rightarrow> uuid \<Rightarrow> uuid \<Rightarrow> time \<Rightarrow> all_entitlements"
    and entitlement :: "'s \<Rightarrow> uuid \<Rightarrow> uuid \<Rightarrow> string \<Rightarrow> time \<Rightarrow> one_entitlement"
    and ok :: "'s \<Rightarrow> bool"
  assumes current_owned: "ok s \<Longrightarrow> currentReader s a = Some v \<Longrightarrow> sub_accountId v = a"
    and eligible_current: "ok s \<Longrightarrow> accessResolver s a at = ELIGIBLE e \<Longrightarrow> \<exists>v. currentReader s a = Some v \<and> describes v e"
    and eligible_until: "ok s \<Longrightarrow> accessResolver s a at = ELIGIBLE e \<Longrightarrow> \<exists>t. accessUntil e = Inr t \<and> at < t"
    and eligible_entitled: "ok s \<Longrightarrow> accessResolver s a at = ELIGIBLE e \<Longrightarrow>
      \<exists>rs. entitlements s a (acc_planRevisionId e) at = Inr (Inr rs) \<and> list_all usable rs \<and> distinct (map er_key rs)"
    and eligible_limit: "ok s \<Longrightarrow> accessResolver s a at = ELIGIBLE e \<Longrightarrow>
      entitlements s a (acc_planRevisionId e) at = Inr (Inr rs) \<Longrightarrow>
      entitlement s a (acc_planRevisionId e) k at = Inr (Inr r) \<Longrightarrow> er_effectiveValue r = values_in_effect rs k"
    and eligible_unset: "ok s \<Longrightarrow> accessResolver s a at = ELIGIBLE e \<Longrightarrow>
      entitlements s a (acc_planRevisionId e) at = Inr (Inr rs) \<Longrightarrow>
      (\<forall>r. entitlement s a (acc_planRevisionId e) k at \<noteq> Inr (Inr r)) \<Longrightarrow> values_in_effect rs k = None"
begin

text \<open>Nothing is written between the calls: the service answers what the access resolver answered.\<close>

lemma service_ineligible:
  assumes "ok s" and "accessResolver s a at = INELIGIBLE reason"
  shows "resolve_commercial (accessResolver s) (currentReader s) (accessResolver s) (entitlements s) a at = Inr (AccessOK (without_access a (currentReader s a) (INELIGIBLE reason)))"
  using assms current_owned [OF assms(1), of a]
  by (auto simp: resolve_commercial_def Let_def split: option.split)

lemma service_stranger:
  "accessResolver s a at = AccessACCOUNT_NOT_FOUND \<Longrightarrow>
   resolve_commercial (accessResolver s) (currentReader s) (accessResolver s) (entitlements s) a at = Inr AccessNO_ACCOUNT"
  by (simp add: resolve_commercial_def)

lemma service_eligible:
  assumes "ok s" and e: "accessResolver s a at = ELIGIBLE e"
  obtains v rs t where "currentReader s a = Some v" "describes v e" "at < t" "accessUntil e = Inr t"
    "entitlements s a (acc_planRevisionId e) at = Inr (Inr rs)"
    "resolve_commercial (accessResolver s) (currentReader s) (accessResolver s) (entitlements s) a at = Inr (AccessOK \<lparr>cs_accountId = a, cs_currentSubscription = Some v, cs_access = ELIGIBLE e,
       cs_planRevisionId = Some (acc_planRevisionId e), cs_entitlements = values_in_effect rs,
       cs_accessUntil = Some t\<rparr>)"
proof -
  obtain v where v: "currentReader s a = Some v" "describes v e"
    using eligible_current [OF assms] by blast
  obtain t where t: "accessUntil e = Inr t" "at < t"
    using eligible_until [OF assms] by blast
  obtain rs where rs: "entitlements s a (acc_planRevisionId e) at = Inr (Inr rs)" "list_all usable rs"
      "distinct (map er_key rs)"
    using eligible_entitled [OF assms] by blast
  have "primitiveEntitlements (Inr rs) = Some (values_in_effect rs)"
    using primitive_values_map [OF rs(2,3), of Map.empty] by (simp add: primitiveEntitlements_def)
  then have "resolve_commercial (accessResolver s) (currentReader s) (accessResolver s) (entitlements s) a at = Inr (AccessOK \<lparr>cs_accountId = a, cs_currentSubscription = Some v, cs_access = ELIGIBLE e,
       cs_planRevisionId = Some (acc_planRevisionId e), cs_entitlements = values_in_effect rs,
       cs_accessUntil = Some t\<rparr>)"
    using e v t(1) rs(1) current_owned [OF assms(1) v(1)]
    by (simp add: resolve_commercial_def with_entitlements_def resolve_plan_binding_def Let_def)
  then show thesis
    using that v t rs(1) by blast
qed

lemma admission_eligible:
  assumes "ok s" and e: "accessResolver s a at = ELIGIBLE e"
    and rs: "entitlements s a (acc_planRevisionId e) at = Inr (Inr rs)"
  shows "resolveDeviceAdmission (accessResolver s) (accessResolver s) (accessResolver s) (entitlement s) a at =
    (case values_in_effect rs device_max_active of
       Some (INTEGER n) \<Rightarrow> if 0 \<le> n then AdmissionELIGIBLE n else AdmissionCORRUPTED
     | _ \<Rightarrow> AdmissionCORRUPTED)"
proof -
  have safe: "safe_integer n" if "values_in_effect rs device_max_active = Some (INTEGER n)" for n
  proof -
    have "list_all usable rs"
      using eligible_entitled [OF assms(1,2)] rs by auto
    then show ?thesis
      using that by (auto simp: values_in_effect_def bind_eq_Some_conv usable_def list_all_iff safe_value_def
          dest!: find_Some_mem)
  qed
  show ?thesis
  proof (cases "\<exists>r. entitlement s a (acc_planRevisionId e) device_max_active at = Inr (Inr r)")
    case True
    then obtain r where r: "entitlement s a (acc_planRevisionId e) device_max_active at = Inr (Inr r)" by blast
    have "er_effectiveValue r = values_in_effect rs device_max_active"
      by (rule eligible_limit [OF assms r])
    then show ?thesis
      using e r safe
      by (auto simp: resolveDeviceAdmission_def bound_device_limit_def resolve_plan_binding_def
          split: option.splits typed_value.splits)
  next
    case False
    then have "values_in_effect rs device_max_active = None"
      using eligible_unset [OF assms] by blast
    then show ?thesis
      using e False
      by (auto simp: resolveDeviceAdmission_def bound_device_limit_def resolve_plan_binding_def
          split: sum.split)
  qed
qed

end

end
