(* ===== verification/Price_Commands.thy ===== *)
theory Price_Commands
  imports Plan_Commands
begin

text \<open>
  packages/server/db/src/p4-price-command-repository.ts with packages/server/pricing/src/index.ts:
  prices, the drafts of their revisions, publication, the assignments that put a revision on sale,
  and \<open>resolvePriceForNewSale\<close>. The conventions are those of \<open>Plan_Commands\<close>.
\<close>

section \<open>Results and values\<close>

datatype price_failure =
    PRICE_NOT_FOUND
  | PRICE_CODE_CONFLICT
  | PRICE_ARCHIVED
  | PRICE_PLAN_NOT_FOUND
  | PRICE_PLAN_ARCHIVED
  | PRICE_STATUS_STALE
  | PRICE_STATUS_TRANSITION_INVALID
  | PRICE_PUBLISHED_REVISION_REQUIRED
  | NO_PRICE_REVISION
  | PRICE_REVISION_NOT_DRAFT
  | PRICE_DRAFT_STALE
  | PRICE_PLAN_REVISION_NOT_FOUND
  | PRICE_PLAN_REVISION_PLAN_MISMATCH
  | PRICE_PLAN_REVISION_NOT_PUBLISHED
  | PRICE_ASSIGNMENT_STALE
  | PRICE_ASSIGNMENT_OUTSIDE_REVISION_WINDOW
  | PRICE_ASSIGNMENT_REVISION_NOT_PUBLISHED
  | PRICE_SALE_ASSIGNMENT_NOT_FOUND
  | PRICE_SALE_CLOSED
  | PRICE_REVISION_EXPIRED
  | PRICE_IS_NOT_ACTIVE
  | PRICE_PLAN_NOT_ACTIVE

datatype 'a price_result = PriceOK bool 'a | PriceREJECTED price_failure

record price_terms =
  pt_planRevisionId :: uuid
  pt_amountMinor :: int
  pt_currency :: string
  pt_unit :: interval_unit
  pt_count :: int
  pt_effectiveFrom :: time
  pt_effectiveTo :: "time option"

record price_draft =
  pd_id :: uuid
  pd_priceId :: uuid
  pd_revision :: int
  pd_terms :: price_terms
  pd_createdAt :: time
  pd_fingerprint :: string

record published_price = price_draft +
  pd_publishedAt :: time

definition unit_name :: "interval_unit \<Rightarrow> string" where
  "unit_name u = (case u of DAY \<Rightarrow> ''DAY'' | MONTH \<Rightarrow> ''MONTH'' | YEAR \<Rightarrow> ''YEAR'')"

definition terms_in :: "price_revision \<Rightarrow> price_terms" where
  "terms_in r =
     \<lparr>pt_planRevisionId = pv_planRevisionId r, pt_amountMinor = pv_amountMinor r,
      pt_currency = pv_currency r, pt_unit = pv_unit r, pt_count = pv_count r,
      pt_effectiveFrom = pv_effectiveFrom r, pt_effectiveTo = pv_effectiveTo r\<rparr>"

text \<open>\<open>computeP4PriceRevisionContentFingerprintV1\<close>\<close>

definition price_content :: "price_revision \<Rightarrow> json" where
  "price_content r =
     JObj [(''domain'', JStr ''product-control-plane/price-revision-content/v1''),
       (''id'', JStr (pv_id r)), (''priceId'', JStr (pv_priceId r)),
       (''planRevisionId'', JStr (pv_planRevisionId r)), (''revision'', JInt (pv_revision r)),
       (''amountMinor'', JInt (pv_amountMinor r)), (''currency'', JStr (pv_currency r)),
       (''billingIntervalUnit'', JStr (unit_name (pv_unit r))),
       (''billingIntervalCount'', JInt (pv_count r)),
       (''effectiveFrom'', JStr (toISOString (pv_effectiveFrom r))),
       (''effectiveTo'', opt_json (\<lambda>t. JStr (toISOString t)) (pv_effectiveTo r))]"

definition price_fingerprint :: "(string \<Rightarrow> string) \<Rightarrow> price_revision \<Rightarrow> string" where
  "price_fingerprint H r = H (json_text (price_content r))"

definition validatePriceStatusTransition ::
  "catalog_status \<Rightarrow> catalog_status \<Rightarrow> bool \<Rightarrow> price_failure option" where
  "validatePriceStatusTransition current target hasPublished =
     (if current = target then None
      else if current = ARCHIVED_STATUS then Some PRICE_STATUS_TRANSITION_INVALID
      else if (target = ACTIVE_STATUS \<or> target = HIDDEN_STATUS) \<and> \<not> hasPublished
      then Some PRICE_PUBLISHED_REVISION_REQUIRED
      else if current = DRAFT_STATUS \<and> (target = ACTIVE_STATUS \<or> target = HIDDEN_STATUS \<or> target = ARCHIVED_STATUS)
           \<or> current = ACTIVE_STATUS \<and> (target = HIDDEN_STATUS \<or> target = ARCHIVED_STATUS)
           \<or> current = HIDDEN_STATUS \<and> (target = ACTIVE_STATUS \<or> target = ARCHIVED_STATUS)
      then None else Some PRICE_STATUS_TRANSITION_INVALID)"

text \<open>\<open>safeInteger\<close> and the dates of \<open>normalizedRevision\<close>: a row whose amount is not safe throws; a
  timestamp column is always a date.\<close>

definition price_draft_value :: "(string \<Rightarrow> string) \<Rightarrow> price_revision \<Rightarrow> price_draft cattx" where
  "price_draft_value H r =
     (if safe_integer (pv_amountMinor r) then ret
        \<lparr>pd_id = pv_id r, pd_priceId = pv_priceId r, pd_revision = pv_revision r, pd_terms = terms_in r,
         pd_createdAt = pv_createdAt r, pd_fingerprint = price_fingerprint H r\<rparr>
      else throw (Thrown ''P4_PRICE_AMOUNT_UNSAFE''))"

definition price_published_value :: "(string \<Rightarrow> string) \<Rightarrow> price_revision \<Rightarrow> published_price cattx" where
  "price_published_value H r =
     andThen (price_draft_value H r) (\<lambda>d.
       case pv_publishedAt r of
         None \<Rightarrow> throw (Thrown ''P4_PUBLISHED_PRICE_TIMESTAMP_MISSING'')
       | Some at \<Rightarrow> ret (price_draft.extend d \<lparr>pd_publishedAt = at\<rparr>))"

text \<open>The joins of \<open>loadRevision\<close> and \<open>loadRevisionForPlan\<close>.\<close>

definition joined_terms :: "catalog \<Rightarrow> uuid \<Rightarrow> (price_revision \<times> price \<times> plan) option" where
  "joined_terms c i =
     (case terms_of c i of
        None \<Rightarrow> None
      | Some r \<Rightarrow>
          (case price_of c (pv_priceId r) of
             None \<Rightarrow> None
           | Some p \<Rightarrow> (case plan_of c (pc_planId p) of None \<Rightarrow> None | Some pl \<Rightarrow> Some (r, p, pl))))"

definition getPriceRevisionDraft ::
  "(string \<Rightarrow> string) \<Rightarrow> uuid \<Rightarrow> catalog \<Rightarrow> failure + price_draft option" where
  "getPriceRevisionDraft H i c =
     (case terms_of c i of
        None \<Rightarrow> Inr None
      | Some r \<Rightarrow>
          if price_of c (pv_priceId r) = None \<or> pv_state r \<noteq> DRAFT then Inr None
          else map_sum id (\<lambda>(d, _). Some d) (price_draft_value H r c))"

definition getPublishedPriceRevision ::
  "(string \<Rightarrow> string) \<Rightarrow> uuid \<Rightarrow> catalog \<Rightarrow> failure + published_price option" where
  "getPublishedPriceRevision H i c =
     (case terms_of c i of
        None \<Rightarrow> Inr None
      | Some r \<Rightarrow>
          if price_of c (pv_priceId r) = None \<or> pv_state r \<noteq> PUBLISHED then Inr None
          else map_sum id (\<lambda>(d, _). Some d) (price_published_value H r c))"

section \<open>Prices\<close>

definition createPrice ::
  "unit cattx \<Rightarrow> (string \<Rightarrow> string) \<Rightarrow> uuid \<Rightarrow> string \<Rightarrow> string \<Rightarrow> string \<Rightarrow> mutation_context \<Rightarrow> catalog
    \<Rightarrow> (failure + price price_result) \<times> catalog" where
  "createPrice before sanitize planId code marketKey channelKey context =
     transaction (andThen before (\<lambda>_.
       andThen (gets (\<lambda>c. plan_of c planId)) (\<lambda>found.
       case found of
         None \<Rightarrow> ret (PriceREJECTED PRICE_PLAN_NOT_FOUND)
       | Some p \<Rightarrow>
           if pl_status p = ARCHIVED_STATUS then ret (PriceREJECTED PRICE_PLAN_ARCHIVED)
           else
             andThen (gets (\<lambda>c. List.find (\<lambda>q. pc_code q = code) (prices c))) (\<lambda>existing.
             if existing \<noteq> None then ret (PriceREJECTED PRICE_CODE_CONFLICT)
             else
               andThen (insert_price (\<lambda>i at. \<lparr>pc_id = i, pc_planId = planId, pc_code = code,
                   pc_marketKey = marketKey, pc_channelKey = channelKey, pc_status = DRAFT_STATUS,
                   pc_createdAt = at, pc_updatedAt = at\<rparr>)) (\<lambda>value.
               andThen (audit_catalog sanitize context ''PRICE_CREATED'' ''PRICE'' (Some (pc_id value))
                 [(''planId'', JStr (pc_planId value)), (''priceCode'', JStr (pc_code value)),
                  (''marketKey'', JStr (pc_marketKey value)), (''channelKey'', JStr (pc_channelKey value))]) (\<lambda>_.
               ret (PriceOK True value)))))))"

text \<open>\<open>lockPriceAggregate\<close>, \<open>loadPrice\<close> and the reading of the plan of the price: a price that is
  archived, or of an archived plan, takes no new revision and no assignment.\<close>

definition on_price ::
  "uuid \<Rightarrow> (price \<Rightarrow> plan option \<Rightarrow> 'a price_result cattx) \<Rightarrow> 'a price_result cattx" where
  "on_price priceId body =
     andThen (gets (\<lambda>c. map_option pc_planId (price_of c priceId))) (\<lambda>planId.
       case planId of
         None \<Rightarrow> ret (PriceREJECTED PRICE_NOT_FOUND)
       | Some i \<Rightarrow>
           andThen (gets (\<lambda>c. price_of c priceId)) (\<lambda>found.
             case found of
               None \<Rightarrow> ret (PriceREJECTED PRICE_NOT_FOUND)
             | Some p \<Rightarrow> andThen (gets (\<lambda>c. plan_of c i)) (body p)))"

definition archived_plan :: "plan option \<Rightarrow> bool" where
  "archived_plan p = (case p of None \<Rightarrow> False | Some x \<Rightarrow> pl_status x = ARCHIVED_STATUS)"

definition open_price ::
  "uuid \<Rightarrow> (price \<Rightarrow> 'a price_result cattx) \<Rightarrow> 'a price_result cattx" where
  "open_price priceId body =
     on_price priceId (\<lambda>p pl.
       if pc_status p = ARCHIVED_STATUS then ret (PriceREJECTED PRICE_ARCHIVED)
       else if archived_plan pl then ret (PriceREJECTED PRICE_PLAN_ARCHIVED)
       else body p)"

text \<open>\<open>planRevisionBelongsToPlan\<close>: None is its undefined, Some None its MISMATCH.\<close>

definition planRevisionBelongsToPlan :: "catalog \<Rightarrow> uuid \<Rightarrow> uuid \<Rightarrow> revision_state option option" where
  "planRevisionBelongsToPlan c i planId =
     (case revision_of c i of
        None \<Rightarrow> None
      | Some r \<Rightarrow> Some (if pr_planId r \<noteq> planId then None else Some (pr_state r)))"

definition of_plan ::
  "uuid \<Rightarrow> uuid \<Rightarrow> (revision_state \<Rightarrow> 'a price_result cattx) \<Rightarrow> 'a price_result cattx" where
  "of_plan i planId body =
     andThen (gets (\<lambda>c. planRevisionBelongsToPlan c i planId)) (\<lambda>relation.
       case relation of
         None \<Rightarrow> ret (PriceREJECTED PRICE_PLAN_REVISION_NOT_FOUND)
       | Some None \<Rightarrow> ret (PriceREJECTED PRICE_PLAN_REVISION_PLAN_MISMATCH)
       | Some (Some st) \<Rightarrow> body st)"

definition createDraftPriceRevision ::
  "unit cattx \<Rightarrow> (string \<Rightarrow> string) \<Rightarrow> (string \<Rightarrow> string) \<Rightarrow> uuid \<Rightarrow> price_terms \<Rightarrow> mutation_context \<Rightarrow> catalog
    \<Rightarrow> (failure + price_draft price_result) \<times> catalog" where
  "createDraftPriceRevision before sanitize H priceId t context =
     transaction (andThen before (\<lambda>_. open_price priceId (\<lambda>p. of_plan (pt_planRevisionId t) (pc_planId p) (\<lambda>_.
       andThen (gets (\<lambda>c. next_revision (map pv_revision
         (filter (\<lambda>r. pv_priceId r = priceId) (price_revisions c))))) (\<lambda>next.
       andThen (insert_price_revision (\<lambda>i at. \<lparr>pv_id = i, pv_priceId = priceId,
           pv_planRevisionId = pt_planRevisionId t, pv_revision = next, pv_state = DRAFT,
           pv_amountMinor = pt_amountMinor t, pv_currency = pt_currency t, pv_unit = pt_unit t,
           pv_count = pt_count t, pv_effectiveFrom = pt_effectiveFrom t, pv_effectiveTo = pt_effectiveTo t,
           pv_createdAt = at, pv_publishedAt = None\<rparr>)) (\<lambda>r.
       andThen (price_draft_value H r) (\<lambda>value.
       andThen (audit_catalog sanitize context ''PRICE_REVISION_DRAFT_CREATED'' ''PRICE_REVISION''
         (Some (pd_id value))
         [(''priceId'', JStr (pd_priceId value)),
          (''planRevisionId'', JStr (pt_planRevisionId (pd_terms value))),
          (''revision'', JInt (pd_revision value)),
          (''contentFingerprintSha256'', JStr (pd_fingerprint value))]) (\<lambda>_.
       ret (PriceOK True value)))))))))"

section \<open>Drafts\<close>

record terms_change =
  ch_planRevisionId :: "uuid option"
  ch_amountMinor :: "int option"
  ch_currency :: "string option"
  ch_unit :: "interval_unit option"
  ch_count :: "int option"
  ch_effectiveFrom :: "time option"
  ch_effectiveTo :: "time option option"

definition or_else :: "'a option \<Rightarrow> 'a \<Rightarrow> 'a" where
  "or_else x d = (case x of None \<Rightarrow> d | Some y \<Rightarrow> y)"

definition changed_terms :: "terms_change \<Rightarrow> price_terms \<Rightarrow> price_terms" where
  "changed_terms ch t =
     \<lparr>pt_planRevisionId = or_else (ch_planRevisionId ch) (pt_planRevisionId t),
      pt_amountMinor = or_else (ch_amountMinor ch) (pt_amountMinor t),
      pt_currency = or_else (ch_currency ch) (pt_currency t), pt_unit = or_else (ch_unit ch) (pt_unit t),
      pt_count = or_else (ch_count ch) (pt_count t),
      pt_effectiveFrom = or_else (ch_effectiveFrom ch) (pt_effectiveFrom t),
      pt_effectiveTo = or_else (ch_effectiveTo ch) (pt_effectiveTo t)\<rparr>"

definition changed_fields :: "price_terms \<Rightarrow> price_terms \<Rightarrow> string list" where
  "changed_fields t t' =
     (if pt_planRevisionId t' \<noteq> pt_planRevisionId t then [''planRevisionId''] else [])
     @ (if pt_amountMinor t' \<noteq> pt_amountMinor t then [''amountMinor''] else [])
     @ (if pt_currency t' \<noteq> pt_currency t then [''currency''] else [])
     @ (if pt_unit t' \<noteq> pt_unit t then [''billingIntervalUnit''] else [])
     @ (if pt_count t' \<noteq> pt_count t then [''billingIntervalCount''] else [])
     @ (if pt_effectiveFrom t' \<noteq> pt_effectiveFrom t then [''effectiveFrom''] else [])
     @ (if pt_effectiveTo t' \<noteq> pt_effectiveTo t then [''effectiveTo''] else [])"

definition with_terms :: "price_terms \<Rightarrow> price_revision \<Rightarrow> price_revision" where
  "with_terms t r =
     r\<lparr>pv_planRevisionId := pt_planRevisionId t, pv_amountMinor := pt_amountMinor t,
       pv_currency := pt_currency t, pv_unit := pt_unit t, pv_count := pt_count t,
       pv_effectiveFrom := pt_effectiveFrom t, pv_effectiveTo := pt_effectiveTo t\<rparr>"

text \<open>The opening shared by the commands on a revision: it is read with its price and plan, the price is
  locked, and it is read again.\<close>

definition on_terms ::
  "uuid \<Rightarrow> (price_revision \<Rightarrow> price \<Rightarrow> plan \<Rightarrow> 'a price_result cattx) \<Rightarrow> 'a price_result cattx" where
  "on_terms i body =
     andThen (gets (\<lambda>c. joined_terms c i)) (\<lambda>initial.
       case initial of
         None \<Rightarrow> ret (PriceREJECTED NO_PRICE_REVISION)
       | Some (r0, _, _) \<Rightarrow>
           andThen (gets (\<lambda>c. price_of c (pv_priceId r0))) (\<lambda>locked.
           if locked = None then ret (PriceREJECTED PRICE_NOT_FOUND)
           else andThen (gets (\<lambda>c. joined_terms c i)) (\<lambda>loaded.
             case loaded of
               None \<Rightarrow> ret (PriceREJECTED NO_PRICE_REVISION)
             | Some (r, p, pl) \<Rightarrow> body r p pl)))"

definition fresh_draft ::
  "(string \<Rightarrow> string) \<Rightarrow> string \<Rightarrow> price_revision \<Rightarrow> price \<Rightarrow> plan \<Rightarrow> (price_draft \<Rightarrow> 'a price_result cattx)
    \<Rightarrow> 'a price_result cattx" where
  "fresh_draft H expected r p pl body =
     (if pc_status p = ARCHIVED_STATUS then ret (PriceREJECTED PRICE_ARCHIVED)
      else if pl_status pl = ARCHIVED_STATUS then ret (PriceREJECTED PRICE_PLAN_ARCHIVED)
      else andThen (price_draft_value H r) (\<lambda>current.
        if pd_fingerprint current \<noteq> expected then ret (PriceREJECTED PRICE_DRAFT_STALE) else body current))"

definition write_terms ::
  "(string \<Rightarrow> string) \<Rightarrow> (string \<Rightarrow> string) \<Rightarrow> mutation_context \<Rightarrow> price_terms \<Rightarrow> price_draft
    \<Rightarrow> price_draft price_result cattx" where
  "write_terms sanitize H context t current =
     andThen (update_price_revision (pd_id current) (with_terms t)) (\<lambda>updated.
       case updated of
         None \<Rightarrow> throw (Thrown ''TypeError'')
       | Some r \<Rightarrow>
           andThen (price_draft_value H r) (\<lambda>value.
           andThen (audit_catalog sanitize context ''PRICE_REVISION_DRAFT_UPDATED'' ''PRICE_REVISION''
             (Some (pd_id current))
             [(''priceId'', JStr (pd_priceId current)), (''revision'', JInt (pd_revision current)),
              (''changedFields'', JArr (map JStr (changed_fields (pd_terms current) t))),
              (''beforeFingerprint'', JStr (pd_fingerprint current)),
              (''afterFingerprint'', JStr (pd_fingerprint value))]) (\<lambda>_.
           ret (PriceOK True value))))"

definition updateDraftPriceRevision ::
  "unit cattx \<Rightarrow> (string \<Rightarrow> string) \<Rightarrow> (string \<Rightarrow> string) \<Rightarrow> uuid \<Rightarrow> string \<Rightarrow> terms_change \<Rightarrow> mutation_context
    \<Rightarrow> catalog \<Rightarrow> (failure + price_draft price_result) \<times> catalog" where
  "updateDraftPriceRevision before sanitize H i expected change context =
     transaction (andThen before (\<lambda>_. on_terms i (\<lambda>r p pl.
       if pv_state r \<noteq> DRAFT then ret (PriceREJECTED PRICE_REVISION_NOT_DRAFT)
       else fresh_draft H expected r p pl (\<lambda>current.
         let t = changed_terms change (pd_terms current) in
         if (case pt_effectiveTo t of None \<Rightarrow> False | Some e \<Rightarrow> e \<le> pt_effectiveFrom t)
         then throw (Thrown ''P4_PRICE_EFFECTIVE_WINDOW_INVALID'')
         else of_plan (pt_planRevisionId t) (pc_planId p) (\<lambda>_.
           if changed_fields (pd_terms current) t = [] then ret (PriceOK False current)
           else write_terms sanitize H context t current)))))"

section \<open>Publication\<close>

definition publish_terms ::
  "(string \<Rightarrow> string) \<Rightarrow> (string \<Rightarrow> string) \<Rightarrow> time \<Rightarrow> mutation_context \<Rightarrow> price_draft
    \<Rightarrow> published_price price_result cattx" where
  "publish_terms sanitize H now context current =
     andThen (update_price_revision (pd_id current)
       (\<lambda>x. x\<lparr>pv_state := PUBLISHED, pv_publishedAt := Some now\<rparr>)) (\<lambda>updated.
       case updated of
         None \<Rightarrow> throw (Thrown ''TypeError'')
       | Some r \<Rightarrow>
           andThen (price_published_value H r) (\<lambda>value.
           andThen (audit_catalog sanitize context ''PRICE_REVISION_PUBLISHED'' ''PRICE_REVISION''
             (Some (pd_id current))
             [(''priceId'', JStr (pd_priceId value)),
              (''planRevisionId'', JStr (pt_planRevisionId (pd_terms value))),
              (''revision'', JInt (pd_revision value)),
              (''contentFingerprintSha256'', JStr (pd_fingerprint value))]) (\<lambda>_.
           ret (PriceOK True value))))"

definition publishPriceRevision ::
  "unit cattx \<Rightarrow> (string \<Rightarrow> string) \<Rightarrow> (string \<Rightarrow> string) \<Rightarrow> uuid \<Rightarrow> string \<Rightarrow> time \<Rightarrow> mutation_context
    \<Rightarrow> catalog \<Rightarrow> (failure + published_price price_result) \<times> catalog" where
  "publishPriceRevision before sanitize H i expected now context =
     transaction (andThen before (\<lambda>_. on_terms i (\<lambda>r p pl.
       if pv_state r = PUBLISHED then andThen (price_published_value H r) (\<lambda>value. ret (PriceOK False value))
       else fresh_draft H expected r p pl (\<lambda>current.
         of_plan (pt_planRevisionId (pd_terms current)) (pc_planId p) (\<lambda>st.
           if st \<noteq> PUBLISHED then ret (PriceREJECTED PRICE_PLAN_REVISION_NOT_PUBLISHED)
           else publish_terms sanitize H now context current)))))"

section \<open>The status of a price\<close>

definition changePriceStatus ::
  "unit cattx \<Rightarrow> (string \<Rightarrow> string) \<Rightarrow> uuid \<Rightarrow> catalog_status \<Rightarrow> catalog_status \<Rightarrow> time \<Rightarrow> mutation_context
    \<Rightarrow> catalog \<Rightarrow> (failure + price price_result) \<times> catalog" where
  "changePriceStatus before sanitize priceId expected target now context =
     transaction (andThen before (\<lambda>_. on_price priceId (\<lambda>p pl.
       if archived_plan pl \<and> (target = ACTIVE_STATUS \<or> target = HIDDEN_STATUS)
       then ret (PriceREJECTED PRICE_PLAN_ARCHIVED)
       else if pc_status p = target then ret (PriceOK False p)
       else if pc_status p \<noteq> expected then ret (PriceREJECTED PRICE_STATUS_STALE)
       else andThen (gets (\<lambda>c. price_has_published c (pc_id p))) (\<lambda>published.
         case validatePriceStatusTransition (pc_status p) target published of
           Some code \<Rightarrow> ret (PriceREJECTED code)
         | None \<Rightarrow>
             andThen (update_price (pc_id p) (\<lambda>x. x\<lparr>pc_status := target, pc_updatedAt := now\<rparr>)) (\<lambda>updated.
               case updated of
                 None \<Rightarrow> throw (Thrown ''TypeError'')
               | Some value \<Rightarrow>
                   andThen (audit_catalog sanitize context ''PRICE_STATUS_CHANGED'' ''PRICE'' (Some (pc_id p))
                     [(''planId'', JStr (pc_planId value)), (''priceCode'', JStr (pc_code value)),
                      (''fromStatus'', JStr (status_text_of (pc_status p))),
                      (''toStatus'', JStr (status_text_of (pc_status value)))]) (\<lambda>_.
                   ret (PriceOK True value)))))))"

section \<open>Sale assignments\<close>

definition latest_assignment :: "catalog \<Rightarrow> uuid \<Rightarrow> int option" where
  "latest_assignment c i =
     map_option as_revision (newest as_revision (filter (\<lambda>a. as_priceId a = i) (assignments c)))"

definition selectable ::
  "uuid \<Rightarrow> time \<Rightarrow> uuid option \<Rightarrow> catalog \<Rightarrow> price_failure option" where
  "selectable priceId at selected c =
     (case selected of
        None \<Rightarrow> None
      | Some i \<Rightarrow>
          if i = '''' then None
          else case terms_of c i of
                 None \<Rightarrow> Some NO_PRICE_REVISION
               | Some r \<Rightarrow>
                   if pv_priceId r \<noteq> priceId then Some NO_PRICE_REVISION
                   else if pv_state r \<noteq> PUBLISHED then Some PRICE_ASSIGNMENT_REVISION_NOT_PUBLISHED
                   else if \<not> in_window r at then Some PRICE_ASSIGNMENT_OUTSIDE_REVISION_WINDOW
                   else None)"

definition write_assignment ::
  "(string \<Rightarrow> string) \<Rightarrow> mutation_context \<Rightarrow> price \<Rightarrow> int option \<Rightarrow> uuid option \<Rightarrow> time \<Rightarrow> string
    \<Rightarrow> assignment price_result cattx" where
  "write_assignment sanitize context p actual selected effectiveFrom reason =
     andThen (insert_assignment (\<lambda>i at. \<lparr>as_id = i, as_priceId = pc_id p,
         as_revision = or_else actual 0 + 1, as_selected = selected, as_effectiveFrom = effectiveFrom,
         as_reason = reason, as_createdAt = at\<rparr>)) (\<lambda>value.
     andThen (audit_catalog sanitize context ''PRICE_SALE_ASSIGNMENT_SCHEDULED'' ''PRICE'' (Some (pc_id p))
       [(''planId'', JStr (pc_planId p)), (''assignmentRevision'', JInt (as_revision value)),
        (''selectedPriceRevisionId'', opt_json JStr (as_selected value))]) (\<lambda>_.
     ret (PriceOK True value)))"

definition schedule_new ::
  "(string \<Rightarrow> string) \<Rightarrow> mutation_context \<Rightarrow> price \<Rightarrow> int option \<Rightarrow> uuid option \<Rightarrow> time \<Rightarrow> string
    \<Rightarrow> assignment price_result cattx" where
  "schedule_new sanitize context p actual selected effectiveFrom reason =
     andThen (gets (selectable (pc_id p) effectiveFrom selected)) (\<lambda>refused.
       case refused of
         Some code \<Rightarrow> ret (PriceREJECTED code)
       | None \<Rightarrow> write_assignment sanitize context p actual selected effectiveFrom reason)"

definition same_assignment :: "uuid option \<Rightarrow> time \<Rightarrow> string \<Rightarrow> assignment \<Rightarrow> bool" where
  "same_assignment selected effectiveFrom reason a \<longleftrightarrow>
     as_selected a = selected \<and> as_effectiveFrom a = effectiveFrom \<and> as_reason a = reason"

definition schedulePriceSaleAssignment ::
  "unit cattx \<Rightarrow> (string \<Rightarrow> string) \<Rightarrow> uuid \<Rightarrow> int option \<Rightarrow> uuid option \<Rightarrow> time \<Rightarrow> string \<Rightarrow> mutation_context
    \<Rightarrow> catalog \<Rightarrow> (failure + assignment price_result) \<times> catalog" where
  "schedulePriceSaleAssignment before sanitize priceId expected selected effectiveFrom reason context =
     transaction (andThen before (\<lambda>_. open_price priceId (\<lambda>p.
       andThen (gets (\<lambda>c. latest_assignment c (pc_id p))) (\<lambda>actual.
       if actual \<noteq> (if expected = Some 0 then None else expected)
       then ret (PriceREJECTED PRICE_ASSIGNMENT_STALE)
       else
         andThen (gets (\<lambda>c. List.find (\<lambda>a. as_priceId a = pc_id p \<and> Some (as_revision a) = actual)
           (assignments c))) (\<lambda>latest.
         case latest of
           None \<Rightarrow> schedule_new sanitize context p actual selected effectiveFrom reason
         | Some a \<Rightarrow>
             if same_assignment selected effectiveFrom reason a then ret (PriceOK False a)
             else schedule_new sanitize context p actual selected effectiveFrom reason)))))"

section \<open>Every command keeps the invariant and the history\<close>

lemma moves_price_reads [tx_rules]:
  "moves_at catalog_inv history (price_draft_value H r) c"
  "moves_at catalog_inv history (price_published_value H r) c"
  by (rule reads_move; auto simp: price_published_value_def price_draft_value_def andThen_Inr_iff
      split: if_splits option.splits)+

lemma moves_on_price [tx_rules]:
  assumes "\<And>p pl c. price_of c i = Some p \<Longrightarrow> moves_at catalog_inv history (body p pl) c"
  shows "moves_at catalog_inv history (on_price i body) c"
  unfolding on_price_def
  by (rule tx_rules)+ (auto split: option.split intro!: tx_rules assms)

lemma moves_open_price [tx_rules]:
  assumes "\<And>p c. price_of c i = Some p \<Longrightarrow> moves_at catalog_inv history (body p) c"
  shows "moves_at catalog_inv history (open_price i body) c"
  unfolding open_price_def by (intro tx_rules assms)

lemma moves_of_plan [tx_rules]:
  assumes "\<And>st. moves_at catalog_inv history (body st) c"
  shows "moves_at catalog_inv history (of_plan i pl body) c"
  unfolding of_plan_def by (intro tx_rules) (auto split: option.split intro: tx_rules assms)

lemma moves_on_terms [tx_rules]:
  assumes "\<And>r p pl c. moves_at catalog_inv history (body r p pl) c"
  shows "moves_at catalog_inv history (on_terms i body) c"
  unfolding on_terms_def by (intro tx_rules assms)

lemma moves_fresh_draft [tx_rules]:
  assumes "\<And>d c. moves_at catalog_inv history (body d) c"
  shows "moves_at catalog_inv history (fresh_draft H e r p pl body) c"
  unfolding fresh_draft_def by (intro tx_rules assms)

lemma moves_insert_price_row [tx_rules]:
  "moves_at catalog_inv history (insert_price (\<lambda>i at. \<lparr>pc_id = i, pc_planId = pl, pc_code = code,
     pc_marketKey = m, pc_channelKey = ch, pc_status = DRAFT_STATUS, pc_createdAt = at, pc_updatedAt = at\<rparr>)) c"
  by (rule moves_insert_price) simp

lemma price_transition_published:
  "validatePriceStatusTransition st target p = None \<Longrightarrow> st \<noteq> target \<Longrightarrow> offered target \<Longrightarrow> p"
  by (auto simp: validatePriceStatusTransition_def offered_def split: if_splits)

lemma price_of_id: "price_of c i = Some p \<Longrightarrow> pc_id p = i"
  by (auto simp: price_of_def dest!: find_Some_mem)

lemma price_commands_keep:
  assumes "catalog_inv c" and "hook_ok before"
  shows "history c (snd (createPrice before sa pl code m ch ctx c))
      \<and> catalog_inv (snd (createPrice before sa pl code m ch ctx c))"
    and "history c (snd (createDraftPriceRevision before sa H i t ctx c))
      \<and> catalog_inv (snd (createDraftPriceRevision before sa H i t ctx c))"
    and "history c (snd (updateDraftPriceRevision before sa H i fp change ctx c))
      \<and> catalog_inv (snd (updateDraftPriceRevision before sa H i fp change ctx c))"
    and "history c (snd (publishPriceRevision before sa H i fp now ctx c))
      \<and> catalog_inv (snd (publishPriceRevision before sa H i fp now ctx c))"
    and "history c (snd (schedulePriceSaleAssignment before sa i expected sel at reason ctx c))
      \<and> catalog_inv (snd (schedulePriceSaleAssignment before sa i expected sel at reason ctx c))"
  unfolding createPrice_def createDraftPriceRevision_def updateDraftPriceRevision_def publishPriceRevision_def
    schedulePriceSaleAssignment_def schedule_new_def write_assignment_def write_terms_def publish_terms_def Let_def
  by (rule command_moves [OF assms(2) _ assms(1)]; intro tx_rules)+

lemma changePriceStatus_keeps:
  assumes "catalog_inv c" and "hook_ok before"
  shows "history c (snd (changePriceStatus before sa i expected target now ctx c))
    \<and> catalog_inv (snd (changePriceStatus before sa i expected target now ctx c))"
  unfolding changePriceStatus_def
  by (rule command_moves [OF assms(2) _ assms(1)]; intro tx_rules)
    (auto dest: price_transition_published price_of_id)

end
