(* ===== verification/Offers.thy ===== *)
theory Offers
  imports Price_Commands Checkout
begin

text \<open>
  What is on sale: \<open>resolvePriceForNewSale\<close> of packages/server/db/src/p4-price-command-repository.ts and
  the public reader and the offer resolver of packages/server/db/src/p4-commercial-catalog-repository.ts.
  The three readers ask the same question in three ways, and the checkout relies on the answer: an offer
  that the resolver gives passes the guards of the order that is made of it.
\<close>

section \<open>Resolving a price for a new sale\<close>

text \<open>The newest of the assignments of a price that have become effective.\<close>

definition effective_assignment :: "catalog \<Rightarrow> uuid \<Rightarrow> time \<Rightarrow> assignment option" where
  "effective_assignment c priceId at =
     newest as_revision (filter (\<lambda>a. as_priceId a = priceId \<and> as_effectiveFrom a \<le> at) (assignments c))"

datatype price_resolution =
    RESOLVED price published_price assignment
  | SALE_REJECTED price_failure

definition resolve_selected ::
  "(string \<Rightarrow> string) \<Rightarrow> time \<Rightarrow> price \<Rightarrow> assignment \<Rightarrow> uuid \<Rightarrow> price_resolution cattx" where
  "resolve_selected H at p a i =
     andThen (gets (\<lambda>c. terms_of c i)) (\<lambda>found.
       case found of
         None \<Rightarrow> ret (SALE_REJECTED NO_PRICE_REVISION)
       | Some r \<Rightarrow>
           if pv_priceId r \<noteq> pc_id p \<or> pv_state r \<noteq> PUBLISHED then ret (SALE_REJECTED NO_PRICE_REVISION)
           else if \<not> in_window r at then ret (SALE_REJECTED PRICE_REVISION_EXPIRED)
           else andThen (gets (\<lambda>c. revision_of c (pv_planRevisionId r))) (\<lambda>v.
             if (case v of None \<Rightarrow> True | Some x \<Rightarrow> pr_state x \<noteq> PUBLISHED)
             then ret (SALE_REJECTED PRICE_PLAN_REVISION_NOT_PUBLISHED)
             else andThen (price_published_value H r) (\<lambda>value. ret (RESOLVED p value a))))"

definition resolvePriceForNewSale ::
  "(string \<Rightarrow> string) \<Rightarrow> uuid \<Rightarrow> time \<Rightarrow> price_resolution cattx" where
  "resolvePriceForNewSale H priceId at =
     andThen (gets (\<lambda>c. price_of c priceId)) (\<lambda>found.
       case found of
         None \<Rightarrow> ret (SALE_REJECTED PRICE_NOT_FOUND)
       | Some p \<Rightarrow>
           andThen (gets (\<lambda>c. plan_of c (pc_planId p))) (\<lambda>pl.
             case pl of
               None \<Rightarrow> ret (SALE_REJECTED PRICE_NOT_FOUND)
             | Some x \<Rightarrow>
                 if pl_status x \<noteq> ACTIVE_STATUS then ret (SALE_REJECTED PRICE_PLAN_NOT_ACTIVE)
                 else if pc_status p \<noteq> ACTIVE_STATUS then ret (SALE_REJECTED PRICE_IS_NOT_ACTIVE)
                 else andThen (gets (\<lambda>c. effective_assignment c (pc_id p) at)) (\<lambda>assigned.
                   case assigned of
                     None \<Rightarrow> ret (SALE_REJECTED PRICE_SALE_ASSIGNMENT_NOT_FOUND)
                   | Some a \<Rightarrow>
                       (case as_selected a of
                          None \<Rightarrow> ret (SALE_REJECTED PRICE_SALE_CLOSED)
                        | Some i \<Rightarrow> resolve_selected H at p a i))))"

section \<open>The public catalog\<close>

record public_offer =
  of_planId :: uuid
  of_planCode :: string
  of_planRevisionId :: uuid
  of_planRevision :: int
  of_priceId :: uuid
  of_priceCode :: string
  of_priceRevisionId :: uuid
  of_priceRevision :: int
  of_amountMinor :: int
  of_currency :: string
  of_unit :: interval_unit
  of_count :: int
  of_effectiveFrom :: time
  of_effectiveTo :: "time option"

record listed_offer = public_offer +
  of_displayName :: string
  of_description :: string

record resolved_offer = public_offer +
  of_marketKey :: string
  of_channelKey :: string

definition offer_of :: "price \<Rightarrow> plan \<Rightarrow> price_revision \<Rightarrow> plan_revision \<Rightarrow> public_offer" where
  "offer_of p pl r v =
     \<lparr>of_planId = pc_planId p, of_planCode = pl_code pl, of_planRevisionId = pr_id v,
      of_planRevision = pr_revision v, of_priceId = pc_id p, of_priceCode = pc_code p,
      of_priceRevisionId = pv_id r, of_priceRevision = pv_revision r, of_amountMinor = pv_amountMinor r,
      of_currency = pv_currency r, of_unit = pv_unit r, of_count = pv_count r,
      of_effectiveFrom = pv_effectiveFrom r, of_effectiveTo = pv_effectiveTo r\<rparr>"

definition positive_integer :: "int \<Rightarrow> bool" where
  "positive_integer n \<longleftrightarrow> safe_integer n \<and> 1 \<le> n"

text \<open>\<open>positiveInteger\<close> and \<open>safeInteger\<close> of the numbers of an offer.\<close>

definition checked_offer :: "price_revision \<Rightarrow> plan_revision \<Rightarrow> unit cattx" where
  "checked_offer r v =
     (if \<not> positive_integer (pr_revision v) then throw (Thrown ''P4_CATALOG_PLAN_REVISION_UNSAFE'')
      else if \<not> positive_integer (pv_revision r) then throw (Thrown ''P4_CATALOG_PRICE_REVISION_UNSAFE'')
      else if \<not> safe_integer (pv_amountMinor r) \<or> pv_amountMinor r < 0
      then throw (Thrown ''P4_CATALOG_AMOUNT_UNSAFE'')
      else ret ())"

definition mapOffer ::
  "price \<Rightarrow> plan \<Rightarrow> price_revision option \<Rightarrow> plan_revision option \<Rightarrow> listed_offer cattx" where
  "mapOffer p pl selected planRevision =
     (case (selected, planRevision) of
        (Some r, Some v) \<Rightarrow>
          if pv_priceId r \<noteq> pc_id p then throw (Thrown ''P4_CATALOG_PRICE_REVISION_PRICE_MISMATCH'')
          else if pv_state r \<noteq> PUBLISHED then throw (Thrown ''P4_CATALOG_SELECTED_REVISION_NOT_PUBLISHED'')
          else if pr_planId v \<noteq> pc_planId p then throw (Thrown ''P4_CATALOG_PLAN_REVISION_PLAN_MISMATCH'')
          else if pr_state v \<noteq> PUBLISHED then throw (Thrown ''P4_CATALOG_PLAN_REVISION_NOT_PUBLISHED'')
          else andThen (checked_offer r v) (\<lambda>_. ret (public_offer.extend (offer_of p pl r v)
            \<lparr>of_displayName = pr_displayName v, of_description = pr_description v\<rparr>))
      | _ \<Rightarrow> throw (Thrown ''P4_CATALOG_SELECTED_REVISION_MISSING''))"

text \<open>The query of \<open>listPublicOffers\<close> and the loop over its rows.\<close>

definition public_rows :: "catalog \<Rightarrow> string \<Rightarrow> string \<Rightarrow> (price \<times> plan) list" where
  "public_rows c marketKey channelKey =
     concat (map (\<lambda>p. case plan_of c (pc_planId p) of
         None \<Rightarrow> []
       | Some pl \<Rightarrow>
           if pc_marketKey p = marketKey \<and> pc_channelKey p = channelKey \<and> pc_status p = ACTIVE_STATUS
              \<and> pl_status pl = ACTIVE_STATUS
           then [(p, pl)] else []) (prices c))"

fun public_offers :: "time \<Rightarrow> (price \<times> plan) list \<Rightarrow> listed_offer list cattx" where
  "public_offers at [] = ret []"
| "public_offers at ((p, pl) # rows) =
     andThen (gets (\<lambda>c. effective_assignment c (pc_id p) at)) (\<lambda>assigned.
       case (case assigned of None \<Rightarrow> None | Some a \<Rightarrow> as_selected a) of
         None \<Rightarrow> public_offers at rows
       | Some i \<Rightarrow>
           andThen (gets (\<lambda>c. terms_of c i)) (\<lambda>r.
           andThen (gets (\<lambda>c. case r of None \<Rightarrow> None | Some x \<Rightarrow> revision_of c (pv_planRevisionId x))) (\<lambda>v.
           andThen (mapOffer p pl r v) (\<lambda>offer.
           andThen (public_offers at rows) (\<lambda>rest.
           ret (if at < of_effectiveFrom offer
                   \<or> (case of_effectiveTo offer of None \<Rightarrow> False | Some t \<Rightarrow> t \<le> at)
                then rest else offer # rest))))))"

definition offer_key :: "('a public_offer_scheme) \<Rightarrow> string list" where
  "offer_key o' = [of_planCode o', of_priceCode o', of_planRevisionId o', of_priceRevisionId o']"

definition catalog_identifier :: "string \<Rightarrow> bool" where
  "catalog_identifier t \<longleftrightarrow> machine_key t \<and> length t \<le> 64"

definition listPublicOffers :: "string \<Rightarrow> string \<Rightarrow> time \<Rightarrow> listed_offer list cattx" where
  "listPublicOffers marketKey channelKey at =
     (if \<not> catalog_identifier marketKey then throw (Thrown ''P4_CATALOG_MARKET_KEY_INVALID'')
      else if \<not> catalog_identifier channelKey then throw (Thrown ''P4_CATALOG_CHANNEL_KEY_INVALID'')
      else
        andThen (gets (\<lambda>c. public_rows c marketKey channelKey)) (\<lambda>rows.
        andThen (public_offers at rows) (\<lambda>offers. ret (sort_key offer_key offers))))"

section \<open>The offer resolver of the checkout\<close>

definition mapExactOffer ::
  "price \<Rightarrow> plan \<Rightarrow> price_revision \<Rightarrow> plan_revision \<Rightarrow> resolved_offer cattx" where
  "mapExactOffer p pl r v =
     (if pr_planId v \<noteq> pc_planId p then throw (Thrown ''P4_CATALOG_PLAN_REVISION_PLAN_MISMATCH'')
      else if \<not> safe_integer (pv_amountMinor r) \<or> pv_amountMinor r < 0
      then throw (Thrown ''P4_CATALOG_AMOUNT_UNSAFE'')
      else andThen (checked_offer r v) (\<lambda>_. ret (public_offer.extend (offer_of p pl r v)
        \<lparr>of_marketKey = pc_marketKey p, of_channelKey = pc_channelKey p\<rparr>)))"

definition resolve_exact ::
  "uuid \<Rightarrow> time \<Rightarrow> price_revision \<Rightarrow> price \<Rightarrow> plan \<Rightarrow> (offer_failure + resolved_offer) cattx" where
  "resolve_exact i at r p pl =
     (if pl_status pl \<noteq> ACTIVE_STATUS then ret (Inl PLAN_NOT_ACTIVE)
      else if pc_status p \<noteq> ACTIVE_STATUS then ret (Inl PRICE_NOT_ACTIVE)
      else if pv_state r \<noteq> PUBLISHED then ret (Inl PRICE_REVISION_NOT_PUBLISHED)
      else andThen (gets (\<lambda>c. effective_assignment c (pc_id p) at)) (\<lambda>assigned.
        case assigned of
          None \<Rightarrow> ret (Inl NO_EFFECTIVE_ASSIGNMENT)
        | Some a \<Rightarrow>
            if as_selected a = None then ret (Inl EXPLICITLY_CLOSED)
            else if as_selected a \<noteq> Some (pv_id r) then ret (Inl PRICE_REVISION_NOT_SELECTED)
            else if \<not> in_window r at then ret (Inl REVISION_OUTSIDE_EFFECTIVE_WINDOW)
            else andThen (gets (\<lambda>c. revision_of c (pv_planRevisionId r))) (\<lambda>v.
              case v of
                None \<Rightarrow> throw (Thrown ''P5_PLAN_REVISION_MISSING'')
              | Some x \<Rightarrow>
                  if pr_planId x \<noteq> pc_planId p then ret (Inl PLAN_REVISION_PLAN_MISMATCH)
                  else if pr_state x \<noteq> PUBLISHED then ret (Inl PLAN_REVISION_NOT_PUBLISHED)
                  else andThen (mapExactOffer p pl r x) (\<lambda>value. ret (Inr value)))))"

definition resolvePurchasableOffer :: "uuid \<Rightarrow> time \<Rightarrow> (offer_failure + resolved_offer) cattx" where
  "resolvePurchasableOffer i at =
     andThen (gets (\<lambda>c. joined_terms c i)) (\<lambda>exact.
       case exact of
         None \<Rightarrow> ret (Inl PRICE_REVISION_NOT_FOUND)
       | Some (r, p, pl) \<Rightarrow> resolve_exact i at r p pl)"

section \<open>What is on sale\<close>

definition on_sale ::
  "catalog \<Rightarrow> time \<Rightarrow> uuid \<Rightarrow> price \<Rightarrow> plan \<Rightarrow> price_revision \<Rightarrow> plan_revision \<Rightarrow> bool" where
  "on_sale c at i p pl r v \<longleftrightarrow>
     joined_terms c i = Some (r, p, pl) \<and> pl_status pl = ACTIVE_STATUS \<and> pc_status p = ACTIVE_STATUS
     \<and> pv_state r = PUBLISHED \<and> in_window r at
     \<and> (case effective_assignment c (pc_id p) at of None \<Rightarrow> False | Some a \<Rightarrow> as_selected a = Some i)
     \<and> revision_of c (pv_planRevisionId r) = Some v"

lemma terms_row: "terms_of c i = Some r \<Longrightarrow> r \<in> set (price_revisions c) \<and> pv_id r = i"
  by (auto simp: terms_of_def dest!: find_Some_mem)

lemma price_row: "price_of c i = Some p \<Longrightarrow> p \<in> set (prices c) \<and> pc_id p = i"
  by (auto simp: price_of_def dest!: find_Some_mem)

lemma plan_row: "plan_of c i = Some p \<Longrightarrow> p \<in> set (plans c) \<and> pl_id p = i"
  by (auto simp: plan_of_def dest!: find_Some_mem)

lemma revision_row: "revision_of c i = Some v \<Longrightarrow> v \<in> set (plan_revisions c) \<and> pr_id v = i"
  by (auto simp: revision_of_def dest!: find_Some_mem)

lemma row_price: "catalog_inv c \<Longrightarrow> p \<in> set (prices c) \<Longrightarrow> price_of c (pc_id p) = Some p"
  by (simp add: price_of_def find_unique catalog_inv_def catalog_keys_def)

lemma joined_terms_rows:
  "joined_terms c i = Some (r, p, pl) \<longleftrightarrow>
     terms_of c i = Some r \<and> price_of c (pv_priceId r) = Some p \<and> plan_of c (pc_planId p) = Some pl"
  by (auto simp: joined_terms_def split: option.splits)

text \<open>The guards of the tables leave nothing for the readers to find wrong.\<close>

lemma revision_coherent:
  assumes "catalog_inv c" and "terms_of c i = Some r" and "price_of c (pv_priceId r) = Some p"
    and "pv_state r = PUBLISHED"
  shows "\<exists>v. revision_of c (pv_planRevisionId r) = Some v \<and> pr_planId v = pc_planId p \<and> pr_state v = PUBLISHED
    \<and> checked_offer r v = ret () \<and> safe_integer (pv_amountMinor r) \<and> \<not> pv_amountMinor r < 0"
proof -
  have r: "r \<in> set (price_revisions c)"
    using terms_row [OF assms(2)] by simp
  have "price_revision_checks r" "price_revision_guard c r"
    using catalog_invD(2) [OF assms(1)] r by (simp_all add: catalog_rows_def)
  moreover obtain v where v: "revision_of c (pv_planRevisionId r) = Some v" "pr_planId v = pc_planId p" "pr_state v = PUBLISHED"
    using calculation(2) assms(3,4) by (auto simp: price_revision_guard_def split: option.splits)
  moreover have "plan_revision_checks v"
    using catalog_invD(2) [OF assms(1)] revision_row [OF v(1)] by (simp add: catalog_rows_def)
  ultimately show ?thesis
    by (auto simp: checked_offer_def price_revision_checks_def plan_revision_checks_def positive_integer_def
        safe_integer_def int4_def max_amount_def)
qed

lemma assigned_terms:
  assumes "catalog_inv c" and "effective_assignment c k at = Some a" and "as_selected a = Some i"
  shows "\<exists>r. terms_of c i = Some r \<and> pv_priceId r = k \<and> pv_state r = PUBLISHED"
proof -
  have "a \<in> set (assignments c)" "as_priceId a = k"
    using newest_Some [OF assms(2) [unfolded effective_assignment_def]] by auto
  moreover from this have "assignment_guard c a"
    using catalog_invD(2) [OF assms(1)] by (simp add: catalog_rows_def)
  ultimately show ?thesis
    using assms(3) by (auto simp: assignment_guard_def split: option.splits)
qed

definition resolved :: "price \<Rightarrow> plan \<Rightarrow> price_revision \<Rightarrow> plan_revision \<Rightarrow> resolved_offer" where
  "resolved p pl r v = public_offer.extend (offer_of p pl r v)
     \<lparr>of_marketKey = pc_marketKey p, of_channelKey = pc_channelKey p\<rparr>"

lemma resolved_fields [simp]:
  "public_offer.truncate (resolved p pl r v) = offer_of p pl r v" "of_marketKey (resolved p pl r v) = pc_marketKey p"
  "of_channelKey (resolved p pl r v) = pc_channelKey p" "of_priceId (resolved p pl r v) = pc_id p"
  by (simp_all add: resolved_def public_offer.defs offer_of_def)

lemma resolve_run:
  assumes "catalog_inv c"
  shows "resolvePurchasableOffer i at c = Inr (Inr x, c') \<longleftrightarrow>
    c' = c \<and> (\<exists>p pl r v. on_sale c at i p pl r v \<and> x = resolved p pl r v)"
proof (cases "joined_terms c i")
  case None
  then show ?thesis
    by (simp add: resolvePurchasableOffer_def on_sale_def)
next
  case (Some y)
  obtain r p pl where y: "y = (r, p, pl)"
    by (cases y)
  have row: "terms_of c i = Some r" "price_of c (pv_priceId r) = Some p" "plan_of c (pc_planId p) = Some pl" "pv_id r = i"
    using Some terms_row [of c i r] by (auto simp: y joined_terms_rows)
  show ?thesis
  proof (cases "pv_state r = PUBLISHED")
    case True
    obtain v where v: "revision_of c (pv_planRevisionId r) = Some v" "pr_planId v = pc_planId p"
      "pr_state v = PUBLISHED" "checked_offer r v = ret ()" "safe_integer (pv_amountMinor r)" "\<not> pv_amountMinor r < 0"
      using revision_coherent [OF assms row(1,2) True] by blast
    show ?thesis
      using True row(4)
      by (auto simp: resolvePurchasableOffer_def resolve_exact_def on_sale_def Some y v mapExactOffer_def
          resolved_def split: option.splits)
  next
    case False
    then show ?thesis
      by (simp add: resolvePurchasableOffer_def resolve_exact_def on_sale_def Some y)
  qed
qed

lemma mapOffer_run:
  assumes "catalog_inv c" and "p \<in> set (prices c)" and "effective_assignment c (pc_id p) at = Some a"
    and "as_selected a = Some i"
  shows "\<exists>r v. terms_of c i = Some r \<and> pv_priceId r = pc_id p \<and> pv_state r = PUBLISHED
    \<and> revision_of c (pv_planRevisionId r) = Some v
    \<and> mapOffer p pl (Some r) (Some v) = ret (public_offer.extend (offer_of p pl r v)
        \<lparr>of_displayName = pr_displayName v, of_description = pr_description v\<rparr>)"
proof -
  obtain r where r: "terms_of c i = Some r" "pv_priceId r = pc_id p" "pv_state r = PUBLISHED"
    using assigned_terms [OF assms(1,3,4)] by blast
  have "price_of c (pv_priceId r) = Some p"
    using row_price [OF assms(1,2)] r(2) by simp
  from revision_coherent [OF assms(1) r(1) this r(3)]
  obtain v where "revision_of c (pv_planRevisionId r) = Some v" "pr_planId v = pc_planId p"
    "pr_state v = PUBLISHED" "checked_offer r v = ret ()"
    by blast
  then have "mapOffer p pl (Some r) (Some v) = ret (public_offer.extend (offer_of p pl r v)
      \<lparr>of_displayName = pr_displayName v, of_description = pr_description v\<rparr>)"
    using r by (simp add: mapOffer_def)
  then show ?thesis
    using r \<open>revision_of c (pv_planRevisionId r) = Some v\<close> by blast
qed

definition listed_as :: "price \<Rightarrow> plan \<Rightarrow> price_revision \<Rightarrow> plan_revision \<Rightarrow> listed_offer" where
  "listed_as p pl r v = public_offer.extend (offer_of p pl r v)
     \<lparr>of_displayName = pr_displayName v, of_description = pr_description v\<rparr>"

lemma listed_as_fields [simp]:
  "public_offer.truncate (listed_as p pl r v) = offer_of p pl r v"
  "of_effectiveFrom (listed_as p pl r v) = pv_effectiveFrom r" "of_effectiveTo (listed_as p pl r v) = pv_effectiveTo r"
  by (simp_all add: listed_as_def offer_of_def public_offer.defs)

definition listings :: "catalog \<Rightarrow> time \<Rightarrow> (price \<times> plan) list \<Rightarrow> listed_offer set" where
  "listings c at rows = (\<Union>(p, pl) \<in> set rows. {listed_as p pl r v |r v. \<exists>i. on_sale c at i p pl r v})"

lemma public_offers_run:
  assumes "catalog_inv c" and "\<And>p pl. (p, pl) \<in> set rows \<Longrightarrow> p \<in> set (prices c) \<and> plan_of c (pc_planId p) = Some pl
      \<and> pl_status pl = ACTIVE_STATUS \<and> pc_status p = ACTIVE_STATUS"
  shows "\<exists>offers. public_offers at rows c = Inr (offers, c)
    \<and> set offers = listings c at rows"
  using assms(2)
proof (induction rows)
  case (Cons row rows)
  obtain p pl where row: "row = (p, pl)" by fastforce
  have here: "p \<in> set (prices c)" "plan_of c (pc_planId p) = Some pl" "pl_status pl = ACTIVE_STATUS"
    "pc_status p = ACTIVE_STATUS"
    using Cons.prems [of p pl] by (simp_all add: row)
  obtain rest where rest: "public_offers at rows c = Inr (rest, c)"
    "set rest = listings c at rows"
    using Cons.IH Cons.prems by fastforce
  have joined: "joined_terms c i = Some (r, p, pl) \<longleftrightarrow> terms_of c i = Some r \<and> pv_priceId r = pc_id p" for i r
    using here row_price [OF assms(1) here(1)] by (auto simp: joined_terms_rows dest: price_row)
  show ?case
  proof (cases "case effective_assignment c (pc_id p) at of None \<Rightarrow> None | Some a \<Rightarrow> as_selected a")
    case None
    then have "\<not> on_sale c at i p pl r v" for i r v
      by (auto simp: on_sale_def split: option.splits)
    then show ?thesis
      using rest None by (simp add: row listings_def)
  next
    case (Some i)
    obtain a where a: "effective_assignment c (pc_id p) at = Some a" "as_selected a = Some i"
      using Some by (auto split: option.splits)
    obtain r v where r: "terms_of c i = Some r" "pv_priceId r = pc_id p" "pv_state r = PUBLISHED"
      "revision_of c (pv_planRevisionId r) = Some v" "mapOffer p pl (Some r) (Some v) = ret (listed_as p pl r v)"
      using mapOffer_run [OF assms(1) here(1) a, of pl] by (auto simp: listed_as_def)
    have sale: "on_sale c at j p pl r' v' \<longleftrightarrow> j = i \<and> r' = r \<and> v' = v \<and> in_window r at" for j r' v'
      using here r a by (auto simp: on_sale_def joined)
    have run: "public_offers at (row # rows) c = Inr (if in_window r at then listed_as p pl r v # rest else rest, c)"
      using r a by (auto simp: row in_window_def andThen_Inr_iff rest(1) not_le split: option.splits)
    have "set (if in_window r at then listed_as p pl r v # rest else rest) = listings c at (row # rows)"
      using rest(2) sale by (auto simp: row listings_def)
    then show ?thesis
      using run by blast
  qed
qed (simp add: ret_def listings_def)

lemma set_public_rows:
  "set (public_rows c m ch) = {(p, pl). p \<in> set (prices c) \<and> plan_of c (pc_planId p) = Some pl
     \<and> pc_marketKey p = m \<and> pc_channelKey p = ch \<and> pc_status p = ACTIVE_STATUS \<and> pl_status pl = ACTIVE_STATUS}"
  by (auto simp: public_rows_def split: option.splits if_splits)

text \<open>C14. The public catalog and the offer resolver agree: in every catalog with the invariant the list of
  public offers of a market and channel can be computed, and it has exactly the revisions that the
  resolver accepts at that instant for the market and channel, with the same plan, price and terms.\<close>

theorem listed_is_purchasable:
  assumes "catalog_inv c" and "catalog_identifier m" and "catalog_identifier ch"
  shows "\<exists>offers. listPublicOffers m ch at c = Inr (offers, c)
    \<and> public_offer.truncate ` set offers
      = {public_offer.truncate x |x i. resolvePurchasableOffer i at c = Inr (Inr x, c)
          \<and> of_marketKey x = m \<and> of_channelKey x = ch}"
proof -
  obtain offers where run: "public_offers at (public_rows c m ch) c = Inr (offers, c)"
    and set: "set offers = listings c at (public_rows c m ch)"
    using public_offers_run [OF assms(1), of "public_rows c m ch" at] by (auto simp: set_public_rows)
  have "listPublicOffers m ch at c = Inr (sort_key offer_key offers, c)"
    using assms(2,3) run by (simp add: listPublicOffers_def andThen_Inr_iff)
  moreover have "public_offer.truncate ` listings c at (public_rows c m ch)
      = {public_offer.truncate x |x i. resolvePurchasableOffer i at c = Inr (Inr x, c)
          \<and> of_marketKey x = m \<and> of_channelKey x = ch}" (is "?l = ?r")
  proof (rule set_eqI, rule iffI)
    fix o' assume "o' \<in> ?l"
    then obtain p pl r v i where sale: "(p, pl) \<in> set (public_rows c m ch)" "on_sale c at i p pl r v"
      and o': "o' = offer_of p pl r v"
      by (auto simp: listings_def)
    then have "resolvePurchasableOffer i at c = Inr (Inr (resolved p pl r v), c)"
      by (auto simp: resolve_run [OF assms(1)])
    then show "o' \<in> ?r"
      using sale(1) o' by (force simp: set_public_rows)
  next
    fix o' assume "o' \<in> ?r"
    then obtain p pl r v i where sale: "on_sale c at i p pl r v" "pc_marketKey p = m" "pc_channelKey p = ch"
      and o': "o' = offer_of p pl r v"
      by (auto simp: resolve_run [OF assms(1)])
    then have "(p, pl) \<in> set (public_rows c m ch)"
      by (auto simp: set_public_rows on_sale_def joined_terms_rows dest: price_row)
    then show "o' \<in> ?l"
      using sale(1) by (force simp: o' listings_def)
  qed
  ultimately show ?thesis
    using set by auto
qed

lemma published_value_run:
  assumes "catalog_inv c" and "terms_of c i = Some r" and "pv_state r = PUBLISHED"
  shows "\<exists>value. price_published_value H r c = Inr (value, c) \<and> pd_id value = i"
proof -
  have "price_revision_checks r" "pv_id r = i"
    using catalog_invD(2) [OF assms(1)] terms_row [OF assms(2)] by (simp_all add: catalog_rows_def)
  then show ?thesis
    using assms(3)
    by (auto simp: price_published_value_def price_draft_value_def price_revision_checks_def publication_time_def
        safe_integer_def max_amount_def price_draft.defs)
qed

text \<open>C15. Resolving a price for a new sale and resolving a revision for an order agree: a price resolves to a
  revision exactly when an order of that revision is accepted with that price.\<close>

theorem sale_is_purchasable:
  assumes "catalog_inv c"
  shows "(\<exists>p value a. resolvePriceForNewSale H priceId at c = Inr (RESOLVED p value a, c) \<and> pd_id value = i)
    \<longleftrightarrow> (\<exists>x. resolvePurchasableOffer i at c = Inr (Inr x, c) \<and> of_priceId x = priceId)" (is "?l \<longleftrightarrow> ?r")
proof -
  have sale: "?r \<longleftrightarrow> (\<exists>p pl r v. on_sale c at i p pl r v \<and> pc_id p = priceId)"
  proof
    assume ?r
    then show "\<exists>p pl r v. on_sale c at i p pl r v \<and> pc_id p = priceId"
      by (auto simp: resolve_run [OF assms]) blast
  next
    assume "\<exists>p pl r v. on_sale c at i p pl r v \<and> pc_id p = priceId"
    then obtain p pl r v where on: "on_sale c at i p pl r v" "pc_id p = priceId" by blast
    show ?r
      by (rule exI [of _ "resolved p pl r v"]) (use on in \<open>auto simp: resolve_run [OF assms]\<close>)
  qed
  show ?thesis
  proof
    assume ?l
    then obtain p pl a j r v w where row: "price_of c priceId = Some p" "plan_of c (pc_planId p) = Some pl"
      "pl_status pl = ACTIVE_STATUS" "pc_status p = ACTIVE_STATUS"
      "effective_assignment c (pc_id p) at = Some a" "as_selected a = Some j" "terms_of c j = Some r"
      "pv_priceId r = pc_id p" "pv_state r = PUBLISHED" "in_window r at"
      "revision_of c (pv_planRevisionId r) = Some v" "price_published_value H r c = Inr (w, c)" "pd_id w = i"
      by (auto simp: resolvePriceForNewSale_def resolve_selected_def andThen_Inr_iff split: option.splits if_splits)
    have "j = i"
      using published_value_run [OF assms row(7,9), of H] row(12,13) by auto
    then have "on_sale c at i p pl r v"
      using row price_row [OF row(1)] by (simp add: on_sale_def joined_terms_rows)
    then show ?r
      using sale price_row [OF row(1)] by blast
  next
    assume ?r
    then obtain p pl r v where on: "on_sale c at i p pl r v" and p: "pc_id p = priceId"
      using sale by blast
    obtain a where row: "terms_of c i = Some r" "price_of c (pv_priceId r) = Some p" "plan_of c (pc_planId p) = Some pl"
      "effective_assignment c (pc_id p) at = Some a" "as_selected a = Some i"
      using on by (auto simp: on_sale_def joined_terms_rows split: option.splits)
    have st: "pv_state r = PUBLISHED" "pv_priceId r = pc_id p" "pl_status pl = ACTIVE_STATUS" "pc_status p = ACTIVE_STATUS"
      "in_window r at" "revision_of c (pv_planRevisionId r) = Some v"
      using on price_row [OF row(2)] by (simp_all add: on_sale_def)
    have "pr_state v = PUBLISHED"
      using revision_coherent [OF assms row(1,2) st(1)] st(6) by auto
    moreover obtain w where "price_published_value H r c = Inr (w, c)" "pd_id w = i"
      using published_value_run [OF assms row(1) st(1)] by blast
    ultimately show ?l
      using row st p by (auto simp: resolvePriceForNewSale_def resolve_selected_def andThen_Inr_iff)
  qed
qed

section \<open>The offer of an order\<close>

text \<open>The catalog as the resolver port of the checkout service: what it throws is None.\<close>

definition offer_answer :: "catalog \<Rightarrow> uuid \<Rightarrow> time \<Rightarrow> (offer_failure + purchasable_offer) option" where
  "offer_answer c i at =
     (case resolvePurchasableOffer i at c of
        Inl _ \<Rightarrow> None
      | Inr (Inl code, _) \<Rightarrow> Some (Inl code)
      | Inr (Inr x, _) \<Rightarrow> Some (Inr
          \<lparr>po_priceRevisionId = of_priceRevisionId x, po_planRevisionId = of_planRevisionId x,
           po_amountMinor = of_amountMinor x, po_currency = of_currency x,
           po_billingIntervalUnit = of_unit x, po_billingIntervalCount = of_count x\<rparr>))"

text \<open>The plan and price revisions of the commerce are those of the catalog.\<close>

definition price_view :: "catalog \<Rightarrow> price_revision \<Rightarrow> price_revision_row" where
  "price_view c r =
     \<lparr>prr_id = pv_id r, prr_planId = (case price_of c (pv_priceId r) of None \<Rightarrow> '''' | Some p \<Rightarrow> pc_planId p),
      prr_planRevisionId = pv_planRevisionId r, prr_state = pv_state r, prr_amountMinor = pv_amountMinor r,
      prr_currency = pv_currency r, prr_billingIntervalUnit = pv_unit r, prr_billingIntervalCount = pv_count r,
      prr_effectiveFrom = pv_effectiveFrom r, prr_effectiveTo = pv_effectiveTo r\<rparr>"

definition plan_view :: "plan_revision \<Rightarrow> plan_revision_row" where
  "plan_view r = \<lparr>plr_id = pr_id r, plr_planId = pr_planId r, plr_state = pr_state r\<rparr>"

definition sells :: "db \<Rightarrow> catalog \<Rightarrow> bool" where
  "sells s c \<longleftrightarrow>
     planRevisions s = map plan_view (plan_revisions c) \<and> priceRevisions s = map (price_view c) (price_revisions c)"

lemma find_map: "List.find p (map f xs) = map_option f (List.find (\<lambda>x. p (f x)) xs)"
  by (induction xs) auto

lemma sells_look_up:
  assumes "sells s c"
  shows "price_revision_of s i = map_option (price_view c) (terms_of c i)"
    and "plan_revision_of s i = map_option plan_view (revision_of c i)"
  using assms
  by (simp_all add: sells_def price_revision_of_def plan_revision_of_def terms_of_def revision_of_def find_map
      price_view_def plan_view_def)

text \<open>C13. What the resolver offers can be ordered: the row of an order with the terms of the offer, admitted at the
  instant of the offer, passes the guard of the checkout table, also when the catalog has changed since the
  offer was made.\<close>

theorem offer_can_be_ordered:
  assumes "catalog_inv c" and "offer_answer c i at = Some (Inr (pi_offer input))"
    and "history c c'" and "sells s c'" and "account_of s (pi_accountId input) \<noteq> None"
    and "pi_admittedAt input = at"
  shows "checkout_terms_guard s (created_row input now k)"
proof -
  obtain x where run: "resolvePurchasableOffer i at c = Inr (Inr x, c)"
    and offer: "pi_offer input = \<lparr>po_priceRevisionId = of_priceRevisionId x, po_planRevisionId = of_planRevisionId x,
      po_amountMinor = of_amountMinor x, po_currency = of_currency x, po_billingIntervalUnit = of_unit x,
      po_billingIntervalCount = of_count x\<rparr>"
    using assms(2) resolve_run [OF assms(1)]
    by (fastforce simp: offer_answer_def split: sum.splits prod.splits)
  obtain p pl r v where on: "on_sale c at i p pl r v" and x: "x = resolved p pl r v"
    using run resolve_run [OF assms(1)] by blast
  have row: "terms_of c i = Some r" "price_of c (pv_priceId r) = Some p" "pv_state r = PUBLISHED" "in_window r at"
    "revision_of c (pv_planRevisionId r) = Some v"
    using on by (simp_all add: on_sale_def joined_terms_rows)
  have v: "pr_state v = PUBLISHED"
    using revision_coherent [OF assms(1) row(1,2,3)] row(5) by auto
  have later: "terms_of c' i = Some r" "revision_of c' (pv_planRevisionId r) = Some v"
    using history_terms [OF assms(3) row(1,3)] history_revision [OF assms(3) row(5)] v by auto
  have ids: "pv_id r = i" "pr_id v = pv_planRevisionId r"
    using terms_row [OF row(1)] revision_row [OF row(5)] by simp_all
  show ?thesis
    using later row(3,4) v ids assms(5,6)
    by (simp add: checkout_terms_guard_def created_row_def offer x resolved_def offer_of_def public_offer.defs
        sells_look_up [OF assms(4)] price_view_def plan_view_def in_window_def split: option.splits)
qed

end
