(* ===== verification/Portal.thy ===== *)
theory Portal
  imports Commercial_Access Offers
begin

text \<open>
  \<open>CommercialPortalService\<close> of packages/server/commercial-access/src/index.ts and its repository,
  packages/server/db/src/p5-commercial-portal-repository.ts: what a customer sees of the subscription, the device
  allowance and the payments. Devices and the beta programme are not modelled: the number of active
  devices and whether the account is in the beta are arguments, the answers of their calls.
\<close>

section \<open>The repository\<close>

record portal_plan =
  pn_planRevisionId :: uuid
  pn_planCode :: string
  pn_planRevision :: int
  pn_displayName :: string

record portal_price =
  pq_priceRevisionId :: uuid
  pq_amountMinor :: int
  pq_currency :: string
  pq_unit :: interval_unit
  pq_count :: int

record portal_subscription =
  ps_id :: uuid
  ps_accountId :: uuid
  ps_state :: subscription_state
  ps_stateRevision :: int
  ps_currentPeriodStart :: time
  ps_currentPeriodEnd :: time
  ps_graceUntil :: "time option"
  ps_cancelAtPeriodEnd :: bool
  ps_plan :: portal_plan
  ps_price :: "portal_price option"

record portal_payment =
  py_id :: uuid
  py_state :: payment_state
  py_amountMinor :: int
  py_currency :: string
  py_priceRevisionId :: uuid
  py_plan :: "(string \<times> int \<times> string) option"
  py_interval :: "(interval_unit \<times> int) option"
  py_createdAt :: time
  py_confirmedAt :: "time option"
  py_subscriptionLinked :: bool

definition isOwner :: "db \<Rightarrow> uuid \<Rightarrow> uuid \<Rightarrow> bool" where
  "isOwner s userId accountId \<longleftrightarrow>
     (accountId, userId) \<in> set (memberships s) \<and> account_of s accountId \<noteq> None"

definition safe_number :: "int \<Rightarrow> failure + int" where
  "safe_number n = (if safe_integer n then Inr n else Inl (Thrown ''COMMERCIAL_READ_CORRUPTED''))"

text \<open>The rows of the query of \<open>readSubscription\<close>, and \<open>ORDER BY updated_at DESC, id DESC LIMIT 1\<close>.\<close>

definition portal_rows :: "db \<Rightarrow> catalog \<Rightarrow> uuid \<Rightarrow> (subscription_row \<times> plan \<times> plan_revision) list" where
  "portal_rows s c accountId =
     concat (map (\<lambda>r. case joined_revision c (sub_currentPlanRevisionId r) of
         None \<Rightarrow> [] | Some (p, v) \<Rightarrow> [(r, p, v)])
       (filter (is_current accountId) (subscriptions s)))"

definition updated_later :: "subscription_row \<Rightarrow> subscription_row \<Rightarrow> bool" where
  "updated_later r b \<longleftrightarrow>
     sub_updatedAt b < sub_updatedAt r \<or> sub_updatedAt b = sub_updatedAt r \<and> sub_id b < sub_id r"

definition portal_row :: "(subscription_row \<times> 'a) list \<Rightarrow> (subscription_row \<times> 'a) option" where
  "portal_row rows =
     fold (\<lambda>x best. case best of None \<Rightarrow> Some x
       | Some b \<Rightarrow> if updated_later (fst x) (fst b) then Some x else best) rows None"

definition portal_price_of :: "price_revision \<Rightarrow> failure + portal_price" where
  "portal_price_of r =
     (case safe_number (pv_amountMinor r) of
        Inl e \<Rightarrow> Inl e
      | Inr amount \<Rightarrow>
          (case safe_number (pv_count r) of
             Inl e \<Rightarrow> Inl e
           | Inr n \<Rightarrow> Inr \<lparr>pq_priceRevisionId = pv_id r, pq_amountMinor = amount, pq_currency = pv_currency r,
               pq_unit = pv_unit r, pq_count = n\<rparr>))"

definition portal_subscription_of ::
  "catalog \<Rightarrow> subscription_row \<Rightarrow> plan \<Rightarrow> plan_revision \<Rightarrow> failure + portal_subscription" where
  "portal_subscription_of c r p v =
     (let price = Option.bind (sub_boundPriceRevisionId r) (terms_of c) in
      if sub_boundPriceRevisionId r \<noteq> None \<and> price = None then Inl (Thrown ''COMMERCIAL_READ_CORRUPTED'')
      else case safe_number (sub_stateRevision r) of
        Inl e \<Rightarrow> Inl e
      | Inr stateRevision \<Rightarrow>
          (case safe_number (pr_revision v) of
             Inl e \<Rightarrow> Inl e
           | Inr planRevision \<Rightarrow>
               (case (case price of None \<Rightarrow> Inr None | Some x \<Rightarrow> map_sum id Some (portal_price_of x)) of
                  Inl e \<Rightarrow> Inl e
                | Inr pq \<Rightarrow> Inr
                    \<lparr>ps_id = sub_id r, ps_accountId = sub_accountId r, ps_state = sub_state r,
                     ps_stateRevision = stateRevision, ps_currentPeriodStart = sub_currentPeriodStart r,
                     ps_currentPeriodEnd = sub_currentPeriodEnd r, ps_graceUntil = sub_graceUntil r,
                     ps_cancelAtPeriodEnd = sub_cancelAtPeriodEnd r,
                     ps_plan = \<lparr>pn_planRevisionId = pr_id v, pn_planCode = pl_code p,
                       pn_planRevision = planRevision, pn_displayName = pr_displayName v\<rparr>,
                     ps_price = pq\<rparr>)))"

definition readSubscription :: "db \<Rightarrow> catalog \<Rightarrow> uuid \<Rightarrow> failure + portal_subscription option" where
  "readSubscription s c accountId =
     (case portal_row (portal_rows s c accountId) of
        None \<Rightarrow> Inr None
      | Some (r, p, v) \<Rightarrow> map_sum id Some (portal_subscription_of c r p v))"

section \<open>Payments by page\<close>

text \<open>\<open>ORDER BY created_at DESC, id DESC\<close>, and the rows after the one of the cursor.\<close>

definition newest_first :: "payment_row list \<Rightarrow> payment_row list" where
  "newest_first rows = rev (sort_key pay_createdAt (sort_key pay_id rows))"

definition after_cursor :: "payment_row \<Rightarrow> payment_row \<Rightarrow> bool" where
  "after_cursor b r \<longleftrightarrow>
     pay_createdAt r < pay_createdAt b \<or> pay_createdAt r = pay_createdAt b \<and> pay_id r < pay_id b"

definition payment_plan :: "catalog \<Rightarrow> payment_row \<Rightarrow> (plan \<times> plan_revision) option" where
  "payment_plan c r =
     Option.bind (terms_of c (pay_priceRevisionId r)) (\<lambda>t. joined_revision c (pv_planRevisionId t))"

definition portal_payment_of :: "catalog \<Rightarrow> payment_row \<Rightarrow> failure + portal_payment" where
  "portal_payment_of c r =
     (case safe_number (pay_amountMinor r) of
        Inl e \<Rightarrow> Inl e
      | Inr amount \<Rightarrow>
          (case (case payment_plan c r of
                   None \<Rightarrow> Inr None
                 | Some (p, v) \<Rightarrow>
                     map_sum id (\<lambda>n. Some (pl_code p, n, pr_displayName v)) (safe_number (pr_revision v))) of
             Inl e \<Rightarrow> Inl e
           | Inr shown \<Rightarrow>
               (case (case terms_of c (pay_priceRevisionId r) of
                        None \<Rightarrow> Inr None
                      | Some t \<Rightarrow> map_sum id (\<lambda>n. Some (pv_unit t, n)) (safe_number (pv_count t))) of
                  Inl e \<Rightarrow> Inl e
                | Inr period \<Rightarrow> Inr
                    \<lparr>py_id = pay_id r, py_state = pay_state r, py_amountMinor = amount,
                     py_currency = pay_currency r, py_priceRevisionId = pay_priceRevisionId r,
                     py_plan = shown, py_interval = period, py_createdAt = pay_createdAt r,
                     py_confirmedAt = pay_confirmedAt r,
                     py_subscriptionLinked = (pay_subscriptionId r \<noteq> None)\<rparr>)))"

fun portal_payments :: "catalog \<Rightarrow> payment_row list \<Rightarrow> failure + portal_payment list" where
  "portal_payments c [] = Inr []"
| "portal_payments c (r # rs) =
     (case portal_payment_of c r of
        Inl e \<Rightarrow> Inl e
      | Inr p \<Rightarrow> map_sum id (\<lambda>ps. p # ps) (portal_payments c rs))"

datatype payment_page =
    PAGE "portal_payment list" "uuid option"
  | INVALID_CURSOR

text \<open>The empty cursor is falsy: it asks for the first page.\<close>

definition given_cursor :: "uuid option \<Rightarrow> uuid option" where
  "given_cursor cursor = (case cursor of None \<Rightarrow> None | Some i \<Rightarrow> if i = '''' then None else Some i)"

definition page_of ::
  "catalog \<Rightarrow> nat \<Rightarrow> payment_row list \<Rightarrow> failure + payment_page" where
  "page_of c limit matching =
     (let rows = take (limit + 1) (newest_first matching);
          page = take limit rows in
      map_sum id (\<lambda>ps. PAGE ps
          (if limit < length rows \<and> page \<noteq> [] then Some (pay_id (last page)) else None))
        (portal_payments c page))"

definition listPayments ::
  "db \<Rightarrow> catalog \<Rightarrow> uuid \<Rightarrow> nat \<Rightarrow> uuid option \<Rightarrow> failure + payment_page" where
  "listPayments s c accountId limit cursor =
     (let own = filter (\<lambda>r. pay_accountId r = accountId) (payments s) in
      case given_cursor cursor of
        None \<Rightarrow> page_of c limit own
      | Some i \<Rightarrow>
          (case List.find (\<lambda>r. pay_id r = i \<and> pay_accountId r = accountId) (payments s) of
             None \<Rightarrow> Inr INVALID_CURSOR
           | Some b \<Rightarrow> page_of c limit (filter (after_cursor b) own)))"

section \<open>The service\<close>

datatype access_basis = BASIS_BETA | BASIS_COMMERCIAL | BASIS_NONE

record device_allowance =
  da_maxActive :: "int option"
  da_activeCount :: int
  da_remaining :: "int option"
  da_overLimit :: bool

record portal_read =
  rd_accountId :: uuid
  rd_basis :: access_basis
  rd_eligible :: bool
  rd_reason :: "access_reason option"
  rd_subscription :: "portal_subscription option"
  rd_allowance :: device_allowance

datatype portal_answer =
    PortalOK portal_read
  | PortalFORBIDDEN
  | PortalNO_ACCOUNT
  | PortalUNAVAILABLE

definition same_record :: "portal_subscription \<Rightarrow> subscription_snapshot \<Rightarrow> bool" where
  "same_record r s \<longleftrightarrow>
     ps_id r = sub_id s \<and> ps_state r = sub_state s \<and> ps_stateRevision r = sub_stateRevision s
     \<and> pn_planRevisionId (ps_plan r) = sub_currentPlanRevisionId s"

definition records_agree :: "portal_subscription option \<Rightarrow> subscription_snapshot option \<Rightarrow> bool" where
  "records_agree record current \<longleftrightarrow>
     (case (record, current) of
        (Some r, Some s) \<Rightarrow> same_record r s
      | (None, None) \<Rightarrow> True
      | _ \<Rightarrow> False)"

definition allowance_of :: "int option \<Rightarrow> int \<Rightarrow> device_allowance" where
  "allowance_of maxActive activeCount =
     \<lparr>da_maxActive = maxActive, da_activeCount = activeCount,
      da_remaining = map_option (\<lambda>m. max 0 (m - activeCount)) maxActive,
      da_overLimit = (case maxActive of None \<Rightarrow> False | Some m \<Rightarrow> m < activeCount)\<rparr>"

definition beta_read :: "uuid \<Rightarrow> portal_subscription option \<Rightarrow> int \<Rightarrow> portal_read" where
  "beta_read accountId record activeCount =
     \<lparr>rd_accountId = accountId, rd_basis = BASIS_BETA, rd_eligible = True, rd_reason = None,
      rd_subscription = record, rd_allowance = allowance_of None activeCount\<rparr>"

text \<open>\<open>readAccountSubscription\<close>, of the answers of its calls in their order.\<close>

definition readAccountSubscription ::
  "failure + access_resolution \<Rightarrow> failure + portal_subscription option \<Rightarrow> bool \<Rightarrow> int \<Rightarrow> device_admission \<Rightarrow> uuid
    \<Rightarrow> failure + portal_answer" where
  "readAccountSubscription access record beta activeCount admission accountId =
     (case access of
        Inl e \<Rightarrow> Inl e
      | Inr AccessNO_ACCOUNT \<Rightarrow> Inr PortalNO_ACCOUNT
      | Inr AccessCORRUPTED \<Rightarrow> Inr PortalUNAVAILABLE
      | Inr (AccessOK value) \<Rightarrow>
          (case record of
             Inl e \<Rightarrow> Inl e
           | Inr found \<Rightarrow>
               if \<not> records_agree found (cs_currentSubscription value) then Inr PortalUNAVAILABLE
               else if beta then Inr (PortalOK (beta_read accountId found activeCount))
               else case cs_access value of
                 ELIGIBLE _ \<Rightarrow>
                   (case admission of
                      AdmissionELIGIBLE maxActive \<Rightarrow> Inr (PortalOK
                        \<lparr>rd_accountId = accountId, rd_basis = BASIS_COMMERCIAL, rd_eligible = True,
                         rd_reason = None, rd_subscription = found,
                         rd_allowance = allowance_of (Some maxActive) activeCount\<rparr>)
                    | _ \<Rightarrow> Inr PortalUNAVAILABLE)
               | other \<Rightarrow> Inr (PortalOK
                   \<lparr>rd_accountId = accountId, rd_basis = BASIS_NONE, rd_eligible = False,
                    rd_reason = (case other of INELIGIBLE reason \<Rightarrow> Some reason | _ \<Rightarrow> None),
                    rd_subscription = found, rd_allowance = allowance_of None activeCount\<rparr>)))"

text \<open>\<open>readSubscription\<close> and \<open>listPayments\<close> of the service: the owner first.\<close>

definition portal_subscription_for :: "bool \<Rightarrow> failure + portal_answer \<Rightarrow> failure + portal_answer" where
  "portal_subscription_for owner answer = (if \<not> owner then Inr PortalFORBIDDEN else answer)"

definition portal_payments_for :: "bool \<Rightarrow> failure + payment_page \<Rightarrow> failure + payment_page option" where
  "portal_payments_for owner answer = (if \<not> owner then Inr None else map_sum id Some answer)"

section \<open>Following the cursors\<close>

text \<open>A client that asks for page after page: the payments it has seen when a page has no next cursor,
  None when it has not come to an end within \<open>n\<close> requests.\<close>

fun follow_pages :: "nat \<Rightarrow> db \<Rightarrow> catalog \<Rightarrow> uuid \<Rightarrow> nat \<Rightarrow> uuid option \<Rightarrow> portal_payment list option" where
  "follow_pages 0 s c a limit cursor = None"
| "follow_pages (Suc n) s c a limit cursor =
     (case listPayments s c a limit cursor of
        Inr (PAGE ps None) \<Rightarrow> Some ps
      | Inr (PAGE ps (Some i)) \<Rightarrow> map_option (\<lambda>qs. ps @ qs) (follow_pages n s c a limit (Some i))
      | _ \<Rightarrow> None)"

lemma newest_first_set [simp]: "set (newest_first rows) = set rows"
  by (simp add: newest_first_def)

lemma newest_first_length [simp]: "length (newest_first rows) = length rows"
  by (simp add: newest_first_def)

lemma newest_first_filter: "newest_first (filter P rows) = filter P (newest_first rows)"
  by (simp add: newest_first_def filter_sort [symmetric] rev_filter)

lemma newest_first_distinct: "distinct (map pay_id rows) \<Longrightarrow> distinct (map pay_id (newest_first rows))"
  by (simp add: newest_first_def rev_map [symmetric] distinct_map)

text \<open>Sorting by a second key within a list sorted by the first keeps that order among equals.\<close>

lemma sort_key_stable_sorted:
  fixes f :: "'a \<Rightarrow> 'b::linorder" and g :: "'a \<Rightarrow> 'c::linorder"
  assumes "sorted (map g xs)"
  shows "sorted_wrt (\<lambda>x y. f x < f y \<or> f x = f y \<and> g x \<le> g y) (sort_key f xs)"
  using assms
proof (induction xs)
  case (Cons x xs)
  have ind: "sorted_wrt (\<lambda>x y. f x < f y \<or> f x = f y \<and> g x \<le> g y) (sort_key f xs)"
    using Cons by simp
  have "sorted_wrt (\<lambda>x y. f x < f y \<or> f x = f y \<and> g x \<le> g y) (insort_key f x ys)"
    if "sorted_wrt (\<lambda>x y. f x < f y \<or> f x = f y \<and> g x \<le> g y) ys" "\<forall>y \<in> set ys. g x \<le> g y" for ys
    using that by (induction ys) (auto simp: set_insort_key)
  then show ?case using ind Cons.prems by simp
qed simp

lemma newest_first_sorted:
  assumes "distinct (map pay_id rows)"
  shows "sorted_wrt after_cursor (newest_first rows)"
proof -
  let ?l = "sort_key pay_createdAt (sort_key pay_id rows)"
  have "sorted_wrt (\<lambda>x y. pay_createdAt x < pay_createdAt y \<or> pay_createdAt x = pay_createdAt y \<and> pay_id x \<le> pay_id y) ?l"
    by (rule sort_key_stable_sorted) simp
  moreover have "sorted_wrt (\<lambda>x y. pay_id x \<noteq> pay_id y) ?l"
  proof -
    have "distinct (map pay_id ?l)"
      using assms by (simp add: distinct_map)
    then show ?thesis
      by (simp add: distinct_conv_nth sorted_wrt_iff_nth_less)
  qed
  ultimately have "sorted_wrt (\<lambda>x y. after_cursor y x) ?l"
    by (auto simp: sorted_wrt_iff_nth_less after_cursor_def less_le)
  then show ?thesis
    by (simp add: newest_first_def sorted_wrt_rev)
qed

lemma after_cursor_asym: "after_cursor b r \<Longrightarrow> \<not> after_cursor r b"
  by (auto simp: after_cursor_def)

lemma after_cursor_irrefl: "\<not> after_cursor b b"
  by (auto simp: after_cursor_def)

text \<open>The rows after the cursor are the rest of the list.\<close>

lemma rest_of_list:
  assumes "sorted_wrt after_cursor (pre @ b # tail)"
  shows "filter (after_cursor b) (pre @ b # tail) = tail"
proof -
  have "\<not> after_cursor b x" if "x \<in> set pre" for x
    using assms that after_cursor_asym [of x b] by (auto simp: sorted_wrt_append)
  moreover have "after_cursor b x" if "x \<in> set tail" for x
    using assms that by (simp add: sorted_wrt_append)
  ultimately show ?thesis
    using after_cursor_irrefl by (simp add: filter_empty_conv filter_id_conv)
qed

lemma portal_payments_append:
  "portal_payments c xs = Inr ps \<Longrightarrow> portal_payments c ys = Inr qs \<Longrightarrow> portal_payments c (xs @ ys) = Inr (ps @ qs)"
proof (induction xs arbitrary: ps)
  case (Cons x xs)
  then show ?case
    by (cases "portal_payments c xs") (auto split: sum.splits)
qed simp

lemma safe_number_Inr [simp]: "safe_integer n \<Longrightarrow> safe_number n = Inr n"
  by (simp add: safe_number_def)

lemma joined_revision_safe:
  assumes "catalog_inv c" and "joined_revision c i = Some (p, v)"
  shows "safe_integer (pr_revision v)"
proof -
  have "v \<in> set (plan_revisions c)"
    using joined_revision_id [OF assms(2)] by (auto simp: revision_of_def dest!: find_Some_mem)
  then show ?thesis
    using catalog_invD(2) [OF assms(1)] by (auto simp: catalog_rows_def plan_revision_checks_def intro: int4_safe)
qed

lemma terms_safe:
  assumes "catalog_inv c" and "terms_of c i = Some t"
  shows "safe_integer (pv_count t)" and "safe_integer (pv_amountMinor t)"
proof -
  have "t \<in> set (price_revisions c)"
    using assms(2) by (auto simp: terms_of_def dest!: find_Some_mem)
  then have "price_revision_checks t"
    using catalog_invD(2) [OF assms(1)] by (simp add: catalog_rows_def)
  then show "safe_integer (pv_count t)" and "safe_integer (pv_amountMinor t)"
    by (simp_all add: price_revision_checks_def safe_integer_def max_amount_def)
qed

lemma portal_payment_total:
  assumes "catalog_inv c" and "safe_integer (pay_amountMinor r)"
  shows "\<exists>p. portal_payment_of c r = Inr p \<and> py_id p = pay_id r"
proof -
  have plan: "safe_integer (pr_revision v)" if "payment_plan c r = Some (p, v)" for p v
    using that joined_revision_safe [OF assms(1)] by (auto simp: payment_plan_def split: bind_splits)
  show ?thesis
    using assms(2) plan terms_safe(1) [OF assms(1)]
    by (cases "payment_plan c r"; cases "terms_of c (pay_priceRevisionId r)") (auto simp: portal_payment_of_def)
qed

lemma portal_payments_total:
  assumes "catalog_inv c" and "\<And>r. r \<in> set rows \<Longrightarrow> safe_integer (pay_amountMinor r)"
  shows "\<exists>ps. portal_payments c rows = Inr ps \<and> map py_id ps = map pay_id rows"
  using assms(2)
proof (induction rows)
  case (Cons r rows)
  obtain p where "portal_payment_of c r = Inr p" "py_id p = pay_id r"
    using portal_payment_total [OF assms(1)] Cons.prems by auto
  then show ?case
    using Cons by auto
qed simp

text \<open>What is left after the pages that have been read, and the cursor that stands for it.\<close>

lemma page_of_tail:
  assumes "newest_first matching = tail" and "0 < limit" and "portal_payments c tail = Inr ps"
    and "\<And>r. r \<in> set tail \<Longrightarrow> safe_integer (pay_amountMinor r)" and "catalog_inv c"
  shows "if length tail \<le> limit then page_of c limit matching = Inr (PAGE ps None)
    else \<exists>qs rs. page_of c limit matching = Inr (PAGE qs (Some (pay_id (tail ! (limit - 1)))))
      \<and> portal_payments c (drop limit tail) = Inr rs \<and> ps = qs @ rs"
proof (cases "length tail \<le> limit")
  case True
  then show ?thesis
    using assms(1,3) by (simp add: page_of_def Let_def)
next
  case False
  obtain qs where qs: "portal_payments c (take limit tail) = Inr qs"
    using portal_payments_total [OF assms(5), of "take limit tail"] assms(4) by (meson in_set_takeD)
  obtain rs where rs: "portal_payments c (drop limit tail) = Inr rs"
    using portal_payments_total [OF assms(5), of "drop limit tail"] assms(4) by (meson in_set_dropD)
  have "ps = qs @ rs"
    using portal_payments_append [OF qs rs] assms(3) by simp
  moreover have "take limit tail \<noteq> []"
    using False assms(2) by auto
  moreover from this have "last (take limit tail) = tail ! (limit - 1)"
    using False assms(2) by (simp add: last_conv_nth)
  moreover have "take limit (take (limit + 1) tail) = take limit tail"
    by (simp add: min_def)
  ultimately show ?thesis
    using False assms(1) qs rs by (simp add: page_of_def Let_def)
qed

lemma find_cursor:
  assumes "b \<in> set t" and "pay_accountId b = a" and "distinct (map pay_id t)"
  shows "List.find (\<lambda>r. pay_id r = pay_id b \<and> pay_accountId r = a) t = Some b"
  using assms by (induction t) (auto simp: rev_image_eqI)

lemma follow_tail:
  assumes "catalog_inv c" and "0 < limit" and "distinct (map pay_id (payments s))"
    and safe: "\<And>r. r \<in> set (payments s) \<Longrightarrow> safe_integer (pay_amountMinor r) \<and> pay_id r \<noteq> ''''"
    and "newest_first (filter (\<lambda>r. pay_accountId r = a) (payments s)) = pre @ tail"
    and "portal_payments c tail = Inr ps"
  shows "follow_pages (length tail div limit + 1) s c a limit
    (if pre = [] then None else Some (pay_id (last pre))) = Some ps"
  using assms(5,6)
proof (induction "length tail" arbitrary: pre tail ps rule: less_induct)
  case less
  let ?own = "filter (\<lambda>r. pay_accountId r = a) (payments s)"
  let ?matching = "if pre = [] then ?own else filter (after_cursor (last pre)) ?own"
  have all: "distinct (map pay_id ?own)"
    using assms(3) by (rule distinct_map_filter)
  have rows: "set (pre @ tail) = set ?own"
    using less.prems(1) newest_first_set by metis
  have rest: "newest_first ?matching = tail"
  proof (cases "pre = []")
    case False
    then have split: "newest_first ?own = butlast pre @ last pre # tail"
      using less.prems(1) by simp
    then have "filter (after_cursor (last pre)) (newest_first ?own) = tail"
      using rest_of_list [of "butlast pre" "last pre" tail] newest_first_sorted [OF all] by metis
    then show ?thesis
      using False newest_first_filter [of "after_cursor (last pre)" ?own] by simp
  qed (use less.prems(1) in simp)
  have list: "listPayments s c a limit (if pre = [] then None else Some (pay_id (last pre))) = page_of c limit ?matching"
  proof (cases "pre = []")
    case False
    have "last pre \<in> set (pre @ tail)"
      using False by simp
    then have mem: "last pre \<in> set (payments s)" "pay_accountId (last pre) = a"
      unfolding rows by simp_all
    then have "List.find (\<lambda>r. pay_id r = pay_id (last pre) \<and> pay_accountId r = a) (payments s) = Some (last pre)"
      by (intro find_cursor assms(3))
    moreover have "pay_id (last pre) \<noteq> ''''"
      using mem safe by blast
    ultimately show ?thesis
      using False by (simp add: listPayments_def given_cursor_def Let_def)
  qed (simp add: listPayments_def given_cursor_def Let_def)
  have safe': "\<And>r. r \<in> set tail \<Longrightarrow> safe_integer (pay_amountMinor r)"
    using rows safe by auto
  note page = page_of_tail [OF rest assms(2) less.prems(2) safe' assms(1)]
  show ?case
  proof (cases "length tail \<le> limit")
    case True
    then show ?thesis
      using page list by simp
  next
    case False
    then obtain qs rs where next_page: "page_of c limit ?matching = Inr (PAGE qs (Some (pay_id (tail ! (limit - 1)))))"
        "portal_payments c (drop limit tail) = Inr rs" "ps = qs @ rs"
      using page by auto
    have shorter: "length (drop limit tail) < length tail"
      and split: "newest_first ?own = (pre @ take limit tail) @ drop limit tail"
      using False assms(2) less.prems(1) by simp_all
    have "take limit tail \<noteq> []"
      using False assms(2) by auto
    then have "(pre @ take limit tail = []) = False" "last (pre @ take limit tail) = tail ! (limit - 1)"
      using False assms(2) by (simp_all add: last_conv_nth [of "take limit tail"])
    then have "follow_pages (length (drop limit tail) div limit + 1) s c a limit (Some (pay_id (tail ! (limit - 1)))) = Some rs"
      using less.hyps [OF shorter split next_page(2)] by (simp only: if_False)
    moreover have "length tail div limit = length (drop limit tail) div limit + 1"
      using False assms(2) by (simp add: div_if)
    ultimately show ?thesis
      using list next_page(1,3) by (simp add: option.map_comp)
  qed
qed


end
