(* ===== verification/Catalog_System.thy ===== *)
theory Catalog_System
  imports Entitlements Price_Commands
begin

text \<open>
  The catalog as a system: any of its commands may run next, with any arguments, on behalf of any operator.
  Each is one transaction of the packages/server/db/src/p4-*.ts repositories; the rest of the server opens accounts and
  moves the clock. What is reached from the empty catalog is proved through the invariant and
  the history of \<open>Catalog_Db\<close>.
\<close>

inductive catalog_step :: "catalog \<Rightarrow> catalog \<Rightarrow> bool" where
  create_plan: "hook_ok before \<Longrightarrow> catalog_step c (snd (createPlan before sa code ctx c))"
| create_draft: "hook_ok before \<Longrightarrow> catalog_step c (snd (createDraftPlanRevision before sa H i name text' ctx c))"
| update_draft: "hook_ok before \<Longrightarrow> catalog_step c (snd (updateDraftPlanRevision before sa H i fp name' text'' ctx c))"
| set_entitlement: "hook_ok before \<Longrightarrow> catalog_step c (snd (setDraftPlanEntitlement before sa H i fp k v ctx c))"
| remove_entitlement: "hook_ok before \<Longrightarrow> catalog_step c (snd (removeDraftPlanEntitlement before sa H i fp k ctx c))"
| publish_plan: "hook_ok before \<Longrightarrow> catalog_step c (snd (publishPlanRevision before sa H i fp now ctx c))"
| plan_status: "hook_ok before \<Longrightarrow> catalog_step c (snd (changePlanStatus before sa i expected target now ctx c))"
| define_entitlement: "hook_ok before \<Longrightarrow> catalog_step c (snd (createEntitlementDefinition before sa k ty cl de ctx c))"
| describe_entitlement:
    "hook_ok before \<Longrightarrow> catalog_step c (snd (updateEntitlementDefinitionDescription before sa k de de' ctx c))"
| deprecate_entitlement: "hook_ok before \<Longrightarrow> catalog_step c (snd (deprecateEntitlementDefinition before sa k now ctx c))"
| create_price: "hook_ok before \<Longrightarrow> catalog_step c (snd (createPrice before sa pl code m ch ctx c))"
| create_terms: "hook_ok before \<Longrightarrow> catalog_step c (snd (createDraftPriceRevision before sa H i t ctx c))"
| update_terms: "hook_ok before \<Longrightarrow> catalog_step c (snd (updateDraftPriceRevision before sa H i fp change ctx c))"
| publish_terms: "hook_ok before \<Longrightarrow> catalog_step c (snd (publishPriceRevision before sa H i fp now ctx c))"
| price_status: "hook_ok before \<Longrightarrow> catalog_step c (snd (changePriceStatus before sa i expected target' now ctx c))"
| assign_sale: "hook_ok before \<Longrightarrow> catalog_step c (snd (schedulePriceSaleAssignment before sa i exp' sel at reason ctx c))"
| override_entitlement: "hook_ok before \<Longrightarrow> catalog_step c (snd (mutate_override before sa op ov cmd ctx c))"
| open_account: "catalog_step c (c\<lparr>customers := customers c @ [a]\<rparr>)"
| clock: "catalog_step c (c\<lparr>cat_now := t\<rparr>)"

definition empty_catalog :: "catalog \<Rightarrow> bool" where
  "empty_catalog c \<longleftrightarrow>
     plans c = [] \<and> plan_revisions c = [] \<and> definitions c = [] \<and> plan_entitlements c = [] \<and> overrides c = []
     \<and> prices c = [] \<and> price_revisions c = [] \<and> assignments c = []"

lemma empty_catalog_inv: "empty_catalog c \<Longrightarrow> catalog_inv c"
  by (simp add: empty_catalog_def catalog_inv_def catalog_keys_def catalog_rows_def catalog_offers_def)

lemma outside_frames [simp]:
  "plan_of (c\<lparr>customers := x\<rparr>) = plan_of c" "plan_of (c\<lparr>cat_now := t\<rparr>) = plan_of c"
  "revision_of (c\<lparr>customers := x\<rparr>) = revision_of c" "revision_of (c\<lparr>cat_now := t\<rparr>) = revision_of c"
  "definition_of (c\<lparr>customers := x\<rparr>) = definition_of c" "definition_of (c\<lparr>cat_now := t\<rparr>) = definition_of c"
  "price_of (c\<lparr>customers := x\<rparr>) = price_of c" "price_of (c\<lparr>cat_now := t\<rparr>) = price_of c"
  "terms_of (c\<lparr>customers := x\<rparr>) = terms_of c" "terms_of (c\<lparr>cat_now := t\<rparr>) = terms_of c"
  "entitlements_of (c\<lparr>customers := x\<rparr>) = entitlements_of c" "entitlements_of (c\<lparr>cat_now := t\<rparr>) = entitlements_of c"
  "has_published (c\<lparr>customers := x\<rparr>) = has_published c" "has_published (c\<lparr>cat_now := t\<rparr>) = has_published c"
  "price_has_published (c\<lparr>customers := x\<rparr>) = price_has_published c"
  "price_has_published (c\<lparr>cat_now := t\<rparr>) = price_has_published c"
  by (simp_all add: fun_eq_iff plan_of_def revision_of_def definition_of_def price_of_def terms_of_def
      entitlements_of_def has_published_def price_has_published_def)

lemma outside_moves:
  assumes "catalog_inv c" and "c' = c\<lparr>customers := customers c @ xs\<rparr> \<or> c' = c\<lparr>cat_now := t\<rparr>"
  shows "history c c' \<and> catalog_inv c'"
proof -
  have h: "history c c'"
    using assms(2) by (auto simp: history_def kept_refl)
  have tables: "plans c' = plans c" "plan_revisions c' = plan_revisions c" "definitions c' = definitions c"
    "plan_entitlements c' = plan_entitlements c" "overrides c' = overrides c" "prices c' = prices c"
    "price_revisions c' = price_revisions c" "assignments c' = assignments c"
    using assms(2) by auto
  have "catalog_rows c'"
    by (rule catalog_rows_step [OF catalog_invD(2) [OF assms(1)] h]) (simp_all add: tables)
  moreover have "catalog_offers c'"
    by (rule catalog_offers_step [OF catalog_invD(3) [OF assms(1)] catalog_invD(1) [OF assms(1)] h]) (simp_all add: tables)
  moreover have "catalog_keys c'"
    using catalog_invD(1) [OF assms(1)] by (simp add: catalog_keys_def tables)
  ultimately show ?thesis
    using h by (simp add: catalog_inv_def)
qed

lemma catalog_step_keeps:
  assumes "catalog_step c c'" and "catalog_inv c"
  shows "history c c' \<and> catalog_inv c'"
  using assms(1)
proof cases
  case (open_account a)
  then show ?thesis using outside_moves [OF assms(2)] by blast
next
  case (clock t)
  then show ?thesis using outside_moves [OF assms(2)] by blast
qed (use plan_commands_keep [OF assms(2)] changePlanStatus_keeps [OF assms(2)] price_commands_keep [OF assms(2)]
    changePriceStatus_keeps [OF assms(2)] mutate_override_keeps [OF assms(2)] in simp_all)

lemma catalog_run_keeps:
  assumes "catalog_step\<^sup>*\<^sup>* c c'" and "catalog_inv c"
  shows "history c c' \<and> catalog_inv c'"
  using assms
proof (induction rule: rtranclp_induct)
  case (step y z)
  then show ?case
    using catalog_step_keeps [of y z] history_trans by blast
qed simp

section \<open>What every run guarantees\<close>

text \<open>C11. Whatever the operators do from the empty catalog: plan and price codes are unique, every value of a plan or an
  override has the type of its definition, every price revision belongs to the plan of its plan revision and, when
  it is published, sells a published one, every assignment selects a published revision of its own price inside
  its window, and every plan or price that is active or hidden has something published.\<close>

theorem reachable_catalog:
  assumes "empty_catalog c0" and "catalog_step\<^sup>*\<^sup>* c0 c"
  shows "distinct (map pl_code (plans c)) \<and> distinct (map pc_code (prices c))
    \<and> list_all (entitlement_typed c) (plan_entitlements c) \<and> list_all (override_guard c) (overrides c)
    \<and> list_all (price_revision_guard c) (price_revisions c) \<and> list_all (assignment_guard c) (assignments c)
    \<and> catalog_offers c \<and> catalog_inv c"
proof -
  have inv: "catalog_inv c"
    using catalog_run_keeps [OF assms(2) empty_catalog_inv [OF assms(1)]] by simp
  show ?thesis
    using inv catalog_invD [OF inv] by (simp add: catalog_keys_def catalog_rows_def list_all_iff)
qed

text \<open>C12. What is published is final: in every later state of the catalog a published plan revision has the same terms
  and the same entitlements and a published price revision the same terms; plans and prices keep their codes and
  stay archived once they are, definitions keep their types, and overrides, sale assignments and the audit
  only grow.\<close>

theorem published_is_final:
  assumes "empty_catalog c0" and "catalog_step\<^sup>*\<^sup>* c0 c" and "catalog_step\<^sup>*\<^sup>* c c'"
  shows "(\<forall>i r. revision_of c i = Some r \<longrightarrow> pr_state r = PUBLISHED \<longrightarrow>
        revision_of c' i = Some r \<and> entitlements_of c' i = entitlements_of c i)
    \<and> (\<forall>i r. terms_of c i = Some r \<longrightarrow> pv_state r = PUBLISHED \<longrightarrow> terms_of c' i = Some r)
    \<and> (\<forall>i p. plan_of c i = Some p \<longrightarrow> (\<exists>p'. plan_of c' i = Some p' \<and> plan_identity_guard p p'))
    \<and> (\<forall>i p. price_of c i = Some p \<longrightarrow> (\<exists>p'. price_of c' i = Some p' \<and> price_identity_guard p p'))
    \<and> (\<forall>k d. definition_of c k = Some d \<longrightarrow> (\<exists>d'. definition_of c' k = Some d' \<and> definition_update_guard d d'))
    \<and> prefix (overrides c) (overrides c') \<and> prefix (assignments c) (assignments c')
    \<and> prefix (catalog_audits c) (catalog_audits c')"
proof -
  have "catalog_inv c"
    using catalog_run_keeps [OF assms(2) empty_catalog_inv [OF assms(1)]] by simp
  then have h: "history c c'"
    using catalog_run_keeps [OF assms(3)] by simp
  have "revision_of c' i = Some r" if "revision_of c i = Some r" "pr_state r = PUBLISHED" for i r
    using history_revision [OF h that(1)] that(2) by auto
  then show ?thesis
    using h history_terms [OF h] by (auto simp: history_def dest: keptD)
qed

end
