(* ===== verification/Platform.thy ===== *)
theory Platform
  imports Commerce_System Portal Catalog_System
begin

text \<open>
  The two stores together: the commerce sells what the catalog has published, on behalf of the same accounts.
  Their operations are interleaved as whole transactions; what a customer is told about access,
  entitlements and devices reads both.
\<close>

section \<open>Runs of the two stores\<close>

text \<open>The plan and price revisions that the commerce sees are the tables of the catalog.\<close>

definition listed :: "db \<Rightarrow> catalog \<Rightarrow> db" where
  "listed s c = s\<lparr>planRevisions := map plan_view (plan_revisions c),
     priceRevisions := map (price_view c) (price_revisions c)\<rparr>"

inductive platform_step :: "db \<times> catalog \<Rightarrow> db \<times> catalog \<Rightarrow> bool" where
  commerce: "system_step s s' \<Longrightarrow> planRevisions s' = planRevisions s \<Longrightarrow> priceRevisions s' = priceRevisions s \<Longrightarrow>
    map acct_id (accounts s') = map acct_id (accounts s) \<Longrightarrow> platform_step (s, c) (s', c)"
| sales: "catalog_step c c' \<Longrightarrow> customers c' = customers c \<Longrightarrow> platform_step (s, c) (listed s c', c')"
| account: "platform_step (s, c) (s\<lparr>accounts := accounts s @ [a]\<rparr>, c\<lparr>customers := customers c @ [acct_id a]\<rparr>)"

definition plans_published :: "db \<Rightarrow> bool" where
  "plans_published s \<longleftrightarrow> list_all (\<lambda>r. subscription_checks r \<and> subscription_guard s r) (subscriptions s)"

definition platform_inv :: "db \<times> catalog \<Rightarrow> bool" where
  "platform_inv = (\<lambda>(s, c). shop_inv s \<and> catalog_inv c \<and> sells s c \<and> map acct_id (accounts s) = customers c
     \<and> plans_published s)"

definition new_platform :: "db \<times> catalog \<Rightarrow> bool" where
  "new_platform = (\<lambda>(s, c). no_commerce s \<and> empty_catalog c \<and> planRevisions s = [] \<and> priceRevisions s = []
     \<and> map acct_id (accounts s) = customers c)"

lemma new_platform_inv: "new_platform x \<Longrightarrow> platform_inv x"
  by (cases x) (simp add: new_platform_def platform_inv_def no_commerce_inv empty_catalog_inv sells_def
      plans_published_def no_commerce_def empty_catalog_def)

subsection \<open>The guard of a subscription stays true\<close>

lemma account_of_ids: "account_of s i \<noteq> None \<longleftrightarrow> i \<in> set (map acct_id (accounts s))"
  by (auto simp: account_of_def find_None_mem)

lemma subscription_guard_same:
  assumes "planRevisions s' = planRevisions s" and "priceRevisions s' = priceRevisions s"
    and "set (map acct_id (accounts s)) \<subseteq> set (map acct_id (accounts s'))" and "subscription_guard s r"
  shows "subscription_guard s' r"
proof -
  have "plan_revision_of s' = plan_revision_of s" "price_revision_of s' = price_revision_of s"
    using assms(1,2) by (simp_all add: fun_eq_iff plan_revision_of_def price_revision_of_def)
  moreover have "account_of s' (sub_accountId r) \<noteq> None"
    using assms(3,4) account_of_ids [of s] account_of_ids [of s'] by (auto simp: subscription_guard_def)
  ultimately show ?thesis
    using assms(4) by (simp add: subscription_guard_def cong: option.case_cong)
qed

lemma step_frames:
  "step s s' \<Longrightarrow> planRevisions s' = planRevisions s \<and> priceRevisions s' = priceRevisions s \<and> accounts s' = accounts s"
  by (induction rule: step.induct) simp_all

lemma step_subscriptions:
  assumes "step s s'" and "keys_distinct s" and "r \<in> set (subscriptions s')" and "r \<notin> set (subscriptions s)"
  shows "subscription_checks r \<and> subscription_guard s r"
  using assms
proof (induction rule: step.induct)
  case (change_state s i x f t)
  then show ?case
    using subscription_rows [OF change_state(4,1), of f] by (auto simp: subscription_accepted_def)
next
  case (extend s i x f)
  then show ?case
    using subscription_rows [OF extend(7,1), of f] by (auto simp: subscription_accepted_def)
qed (auto simp: opens_def subscription_accepted_def)

lemma step_published:
  assumes "step s s'" and "keys_distinct s" and "plans_published s"
  shows "plans_published s'"
  unfolding plans_published_def list_all_iff
proof
  fix r assume "r \<in> set (subscriptions s')"
  then have "subscription_checks r \<and> subscription_guard s r"
    using step_subscriptions [OF assms(1,2)] assms(3) by (auto simp: plans_published_def list_all_iff)
  then show "subscription_checks r \<and> subscription_guard s' r"
    using step_frames [OF assms(1)] subscription_guard_same [of s' s r] by simp
qed

lemma path_published:
  assumes "step\<^sup>*\<^sup>* s s'" and "keys_distinct s" and "plans_published s"
  shows "plans_published s'"
proof -
  from assms have "plans_published s' \<and> keys_distinct s'"
    by (induction rule: rtranclp_induct) (auto intro: step_published step_keys_distinct)
  then show ?thesis ..
qed

lemma system_published:
  assumes "system_step s s'" and "shop_inv s" and "plans_published s"
    and "planRevisions s' = planRevisions s" and "priceRevisions s' = priceRevisions s"
    and "map acct_id (accounts s') = map acct_id (accounts s)"
  shows "plans_published s'"
  using assms(1,2)
proof (cases rule: system_step_path)
  case path
  then show ?thesis
    using path_published assms(2,3) by (simp add: shop_inv_def commercial_inv_def)
next
  case outside
  then have "subscriptions s' = subscriptions s" by (simp add: same_commerce_def)
  then show ?thesis
    using assms(3) subscription_guard_same [OF assms(4,5)] assms(6)
    by (simp add: plans_published_def list_all_iff)
qed

text \<open>A later catalog serves the subscriptions of an earlier one.\<close>

lemma listed_fields [simp]:
  "subscriptions (listed s c) = subscriptions s" "accounts (listed s c) = accounts s"
  "planRevisions (listed s c) = map plan_view (plan_revisions c)"
  "priceRevisions (listed s c) = map (price_view c) (price_revisions c)"
  "payments (listed s c) = payments s"
  by (simp_all add: listed_def)

lemma listed_sells: "sells (listed s c) c"
  by (simp add: sells_def)

lemma listed_guard:
  assumes "sells s c" and "catalog_inv c" and "history c c'" and "subscription_guard s r"
  shows "subscription_guard (listed s c') r"
proof -
  obtain v where v: "revision_of c (sub_currentPlanRevisionId r) = Some v" "pr_state v = PUBLISHED"
    using assms(4) by (auto simp: subscription_guard_def sells_look_up [OF assms(1)] plan_view_def split: option.splits)
  have v': "revision_of c' (sub_currentPlanRevisionId r) = Some v"
    using history_revision [OF assms(3) v(1)] v(2) by auto
  have price: "(case price_revision_of (listed s c') p of None \<Rightarrow> False
      | Some price \<Rightarrow> prr_state price = PUBLISHED \<and> prr_planId price = pr_planId v)"
    if bound: "sub_boundPriceRevisionId r = Some p" for p
  proof -
    obtain t where t: "terms_of c p = Some t" "pv_state t = PUBLISHED" "prr_planId (price_view c t) = pr_planId v"
      using assms(4) bound v
      by (auto simp: subscription_guard_def sells_look_up [OF assms(1)] plan_view_def price_view_def split: option.splits)
    have "t \<in> set (price_revisions c)"
      using t(1) by (auto simp: terms_of_def dest!: find_Some_mem)
    then obtain q where q: "price_of c (pv_priceId t) = Some q"
      using catalog_invD(2) [OF assms(2)] by (auto simp: catalog_rows_def price_revision_guard_def split: option.splits)
    obtain q' where "price_of c' (pv_priceId t) = Some q'" "pc_planId q' = pc_planId q"
      using history_price [OF assms(3) q] by blast
    moreover have "terms_of c' p = Some t"
      by (rule history_terms [OF assms(3) t(1,2)])
    ultimately show ?thesis
      using t q by (simp add: sells_look_up [OF listed_sells] price_view_def)
  qed
  have "account_of (listed s c') (sub_accountId r) = account_of s (sub_accountId r)"
    by (simp add: account_of_def)
  then show ?thesis
    using assms(4) v v' price
    by (auto simp: subscription_guard_def sells_look_up [OF listed_sells] plan_view_def split: option.split)
qed

lemma sells_outside: "sells (s\<lparr>accounts := x\<rparr>) (c\<lparr>customers := y\<rparr>) = sells s c"
  by (simp add: sells_def price_view_def [abs_def] cong: option.case_cong)

lemma platform_step_inv:
  assumes "platform_step x y" and "platform_inv x"
  shows "platform_inv y"
  using assms
proof (induction rule: platform_step.induct)
  case (commerce s s' c)
  then show ?case
    using system_step_inv system_published by (simp add: platform_inv_def sells_def)
next
  case (sales c c' s)
  have c: "history c c'" "catalog_inv c'"
    using catalog_step_keeps [OF sales(1)] sales(3) by (simp_all add: platform_inv_def)
  have "shop_inv (listed s c')"
    using rest_of_server_inv [of s "listed s c'"] sales(3) by (simp add: platform_inv_def same_commerce_def listed_def)
  moreover have "plans_published (listed s c')"
    using sales(3) listed_guard [OF _ _ c(1)] by (simp add: platform_inv_def plans_published_def list_all_iff)
  ultimately show ?case
    using c(2) sales by (simp add: platform_inv_def listed_sells)
next
  case (account s c a)
  let ?s = "s\<lparr>accounts := accounts s @ [a]\<rparr>" and ?c = "c\<lparr>customers := customers c @ [acct_id a]\<rparr>"
  have "shop_inv ?s"
    using rest_of_server_inv [of s ?s] account by (simp add: platform_inv_def same_commerce_def)
  moreover have "catalog_inv ?c"
    using outside_moves [of c ?c] account by (auto simp: platform_inv_def)
  moreover have "plans_published ?s"
    using account subscription_guard_same [of ?s s] by (auto simp: platform_inv_def plans_published_def list_all_iff)
  ultimately show ?case
    using account by (simp add: platform_inv_def sells_outside)
qed

lemma platform_run_inv:
  assumes "platform_step\<^sup>*\<^sup>* x y" and "platform_inv x"
  shows "platform_inv y"
  using assms by (induction rule: rtranclp_induct) (auto intro: platform_step_inv)

section \<open>The access service on the two stores\<close>

definition platform_access :: "db \<times> catalog \<Rightarrow> uuid \<Rightarrow> time \<Rightarrow> access_result" where
  "platform_access x = resolve_access readSubscriptionAccessObservation (fst x)"

definition platform_current :: "db \<times> catalog \<Rightarrow> uuid \<Rightarrow> subscription_snapshot option" where
  "platform_current x = getCurrentSubscription (fst x)"

definition platform_entitlements :: "db \<times> catalog \<Rightarrow> uuid \<Rightarrow> uuid \<Rightarrow> time \<Rightarrow> all_entitlements" where
  "platform_entitlements x a i at = map_sum id fst (resolveCommercialEntitlements a i at (snd x))"

definition platform_entitlement :: "db \<times> catalog \<Rightarrow> uuid \<Rightarrow> uuid \<Rightarrow> string \<Rightarrow> time \<Rightarrow> one_entitlement" where
  "platform_entitlement x a i k at = map_sum id fst (resolveCommercialEntitlement a i k at (snd x))"

lemma platform_invD:
  assumes "platform_inv x"
  shows "shop_inv (fst x)" "commercial_inv (fst x)" "catalog_inv (snd x)" "sells (fst x) (snd x)"
    "plans_published (fst x)" "set (customers (snd x)) = acct_id ` set (accounts (fst x))"
  using assms by (cases x; simp add: platform_inv_def shop_inv_def; metis set_map)+

text \<open>The plan revision of a subscription can be resolved.\<close>

lemma current_plan_resolves:
  assumes "platform_inv x" and "r \<in> set (subscriptions (fst x))"
  shows "\<exists>plan. loadPlanRevision (sub_accountId r) (sub_currentPlanRevisionId r) (snd x) = Inr plan"
proof -
  have guard: "subscription_guard (fst x) r"
    using platform_invD(5) [OF assms(1)] assms(2) by (simp add: plans_published_def list_all_iff)
  then obtain v where v: "revision_of (snd x) (sub_currentPlanRevisionId r) = Some v" "pr_state v = PUBLISHED"
    by (auto simp: subscription_guard_def sells_look_up [OF platform_invD(4) [OF assms(1)]] plan_view_def
        split: option.splits)
  have "v \<in> set (plan_revisions (snd x))"
    using v(1) by (auto simp: revision_of_def dest!: find_Some_mem)
  then obtain p where "plan_of (snd x) (pr_planId v) = Some p"
    using catalog_invD(2) [OF platform_invD(3) [OF assms(1)]] by (auto simp: catalog_rows_def)
  moreover have "account_of (fst x) (sub_accountId r) \<noteq> None"
    using guard by (simp add: subscription_guard_def)
  then have "sub_accountId r \<in> set (customers (snd x))"
    using platform_invD(6) [OF assms(1)] account_of_ids [of "fst x"] by simp
  ultimately show ?thesis
    using v by (simp add: loadPlanRevision_def joined_revision_def)
qed

lemma resolve_definitions_find:
  "resolve_definitions a plan at ds c = Inr (rs, c') \<Longrightarrow> catalog_inv c \<Longrightarrow> set ds \<subseteq> set (definitions c) \<Longrightarrow>
   int4 (pr_revision (snd plan)) \<Longrightarrow>
   (case List.find (\<lambda>d. ed_key d = k) ds of
      None \<Rightarrow> List.find (\<lambda>r. er_key r = k) rs = None
    | Some d \<Rightarrow> \<exists>r. List.find (\<lambda>r. er_key r = k) rs = Some r \<and> resolve_definition a plan at d c = Inr (r, c))"
proof (induction ds arbitrary: rs)
  case (Cons d ds)
  have "d \<in> set (definitions c)" using Cons.prems(3) by simp
  from resolve_definition_total [OF Cons.prems(2) this Cons.prems(4), of a at]
  obtain r where r: "resolve_definition a plan at d c = Inr (r, c)" "er_key r = ed_key d"
    by auto
  obtain rs' where rs': "resolve_definitions a plan at ds c = Inr (rs', c')" "rs = r # rs'"
    using Cons.prems(1) r(1) by (auto simp: andThen_Inr_iff)
  show ?case
    using Cons.IH [OF rs'(1) Cons.prems(2) _ Cons.prems(4)] Cons.prems(3) r rs'(2) by (auto split: option.splits)
qed simp

lemma find_sorted:
  assumes "distinct (map f xs)"
  shows "List.find (\<lambda>x. f x = k) (sort_key f xs) = List.find (\<lambda>x. f x = k) xs"
proof (cases "List.find (\<lambda>x. f x = k) xs")
  case None
  then have "List.find (\<lambda>x. f x = k) (sort_key f xs) = None"
    unfolding find_None_mem by simp
  then show ?thesis using None by simp
next
  case (Some x)
  then have x: "x \<in> set (sort_key f xs)" "f x = k"
    by (auto dest!: find_Some_mem)
  have "distinct (map f (sort_key f xs))"
    using assms by (simp add: distinct_map)
  from find_unique [OF this x(1)] show ?thesis
    using Some x(2) by simp
qed

lemma platform_entitled:
  assumes "platform_inv x" and "r \<in> set (subscriptions (fst x))"
  defines "a \<equiv> sub_accountId r" and "i \<equiv> sub_currentPlanRevisionId r"
  obtains rs where "platform_entitlements x a i at = Inr (Inr rs)" "list_all usable rs" "distinct (map er_key rs)"
    "map er_key rs = map ed_key (sort_key ed_key (definitions (snd x)))"
    "\<forall>k. (case definition_of (snd x) k of
       None \<Rightarrow> values_in_effect rs k = None \<and> platform_entitlement x a i k at = Inr (Inl NO_DEFINITION)
     | Some d \<Rightarrow> \<exists>e. platform_entitlement x a i k at = Inr (Inr e) \<and> er_effectiveValue e = values_in_effect rs k)"
proof -
  let ?c = "snd x" and ?ds = "sort_key ed_key (definitions (snd x))"
  have inv: "catalog_inv ?c" by (rule platform_invD(3) [OF assms(1)])
  obtain plan where plan: "loadPlanRevision a i ?c = Inr plan"
    using current_plan_resolves [OF assms(1,2)] by (auto simp: a_def i_def)
  obtain rs where run: "resolveCommercialEntitlements a i at ?c = Inr (Inr rs, ?c)"
      and keys: "map er_key rs = map ed_key ?ds"
    using resolve_all_total [OF inv plan] by blast
  then have all: "resolve_definitions a plan at ?ds ?c = Inr (rs, ?c)"
    using plan by (auto simp: resolveCommercialEntitlements_def andThen_Inr_iff)
  have int4: "int4 (pr_revision (snd plan))"
    using loadPlanRevision_Inr [OF inv, of a i "fst plan" "snd plan"] plan by simp
  have distinct: "distinct (map ed_key (definitions ?c))"
    using catalog_invD(1) [OF inv] by (simp add: catalog_keys_def)
  have one: "case definition_of ?c k of
       None \<Rightarrow> values_in_effect rs k = None \<and> platform_entitlement x a i k at = Inr (Inl NO_DEFINITION)
     | Some d \<Rightarrow> \<exists>e. platform_entitlement x a i k at = Inr (Inr e) \<and> er_effectiveValue e = values_in_effect rs k" for k
    using resolve_definitions_find [OF all inv _ int4, of k] plan
    by (auto simp: find_sorted [OF distinct] definition_of_def [symmetric] values_in_effect_def
        platform_entitlement_def resolveCommercialEntitlement_def tx_simps split: option.splits)
  have "distinct (map ed_key ?ds)"
    using distinct by (simp add: distinct_map)
  then show thesis
    using that [of rs] run keys one resolve_definitions_usable [OF all] by (simp add: platform_entitlements_def)
qed

lemma platform_eligible:
  assumes "platform_inv x" and "platform_access x a at = ELIGIBLE e"
  obtains r where "r \<in> set (subscriptions (fst x))" "current_subscription (fst x) a = Some r"
    "platform_current x a = Some (subscription_snapshot.truncate r)" "e = eligible_of (subscription_snapshot.truncate r)"
    "a = sub_accountId r" "acc_planRevisionId e = sub_currentPlanRevisionId r"
proof -
  obtain v where v: "getCurrentSubscription (fst x) a = Some v" "e = eligible_of v"
    using reader.eligible_is_current [OF platform_invD(2) [OF assms(1)], of a at e] assms(2)
    unfolding platform_access_def by blast
  then obtain r where r: "current_subscription (fst x) a = Some r" "v = subscription_snapshot.truncate r"
    by (auto simp: getCurrentSubscription_def)
  have row: "r \<in> set (subscriptions (fst x))" "sub_accountId r = a"
    using current_subscription_row [OF r(1)] by simp_all
  have "platform_current x a = Some (subscription_snapshot.truncate r)"
    by (simp add: platform_current_def getCurrentSubscription_def r(1))
  moreover have "acc_planRevisionId (eligible_of (subscription_snapshot.truncate r)) = sub_currentPlanRevisionId r"
    by (simp add: eligible_of_def)
  ultimately show thesis
    using that [OF row(1) r(1)] row(2) v(2) r(2) by blast
qed

interpretation platform: access_ports platform_access platform_current platform_entitlements platform_entitlement
  platform_inv
proof
  fix x a v
  assume "platform_current x a = Some v"
  then show "sub_accountId v = a"
    by (auto simp: platform_current_def getCurrentSubscription_def dest: current_subscription_row)
next
  fix x a at e
  assume ok: "platform_inv x" and e: "platform_access x a at = ELIGIBLE e"
  show "\<exists>v. platform_current x a = Some v \<and> describes v e"
    using platform_eligible [OF ok e] by (metis describes_def eligible_access.select_convs eligible_of_def)
  have "resolve_access readSubscriptionAccessObservation (fst x) a at = ELIGIBLE e"
    using e by (simp add: platform_access_def)
  then obtain st sub where "resolveSubscriptionAccess st sub at = ELIGIBLE e"
    by (auto simp: resolve_access_def split: option.splits)
  then show "\<exists>t. accessUntil e = Inr t \<and> at < t"
    by (auto simp: resolveSubscriptionAccess_def accessUntil_def eligible_of_def split: if_splits option.splits)
  obtain r where r: "r \<in> set (subscriptions (fst x))" "a = sub_accountId r" "acc_planRevisionId e = sub_currentPlanRevisionId r"
    using platform_eligible [OF ok e] by blast
  show "\<exists>rs. platform_entitlements x a (acc_planRevisionId e) at = Inr (Inr rs) \<and> list_all usable rs \<and> distinct (map er_key rs)"
    using platform_entitled [OF ok r(1)] r(2,3) by metis
  fix k rs
  assume rs: "platform_entitlements x a (acc_planRevisionId e) at = Inr (Inr rs)"
  have entry: "case definition_of (snd x) k of
       None \<Rightarrow> values_in_effect rs k = None \<and> platform_entitlement x a (acc_planRevisionId e) k at = Inr (Inl NO_DEFINITION)
     | Some d \<Rightarrow> \<exists>e'. platform_entitlement x a (acc_planRevisionId e) k at = Inr (Inr e') \<and> er_effectiveValue e' = values_in_effect rs k"
  proof -
    obtain rs' where found: "platform_entitlements x (sub_accountId r) (sub_currentPlanRevisionId r) at = Inr (Inr rs')"
      and entries: "\<forall>k. (case definition_of (snd x) k of
       None \<Rightarrow> values_in_effect rs' k = None
         \<and> platform_entitlement x (sub_accountId r) (sub_currentPlanRevisionId r) k at = Inr (Inl NO_DEFINITION)
     | Some d \<Rightarrow> \<exists>e. platform_entitlement x (sub_accountId r) (sub_currentPlanRevisionId r) k at = Inr (Inr e)
         \<and> er_effectiveValue e = values_in_effect rs' k)"
      using platform_entitled [OF ok r(1), of at] by blast
    have same: "rs' = rs"
      using rs unfolding r(2,3) found by simp
    show ?thesis
      unfolding r(2,3) by (rule entries [unfolded same, rule_format])
  qed
  show "er_effectiveValue r' = values_in_effect rs k"
    if "platform_entitlement x a (acc_planRevisionId e) k at = Inr (Inr r')" for r'
    using entry that by (auto split: option.splits)
  show "values_in_effect rs k = None"
    if "\<forall>r. platform_entitlement x a (acc_planRevisionId e) k at \<noteq> Inr (Inr r)"
    using entry that by (auto split: option.splits)
qed

section \<open>What a customer is told\<close>

definition commercial_service :: "db \<times> catalog \<Rightarrow> uuid \<Rightarrow> time \<Rightarrow> failure + access_resolution" where
  "commercial_service x =
     resolve_commercial (platform_access x) (platform_current x) (platform_access x) (platform_entitlements x)"

definition admission_service :: "db \<times> catalog \<Rightarrow> uuid \<Rightarrow> time \<Rightarrow> device_admission" where
  "admission_service x =
     resolveDeviceAdmission (platform_access x) (platform_access x) (platform_access x) (platform_entitlement x)"

definition portal_service :: "db \<times> catalog \<Rightarrow> bool \<Rightarrow> int \<Rightarrow> uuid \<Rightarrow> time \<Rightarrow> failure + portal_answer" where
  "portal_service x beta activeCount a at =
     readAccountSubscription (commercial_service x a at) (readSubscription (fst x) (snd x) a) beta activeCount
       (admission_service x a at) a"

text \<open>The record of the portal is the one of the current subscription.\<close>

lemma filter_single:
  assumes "distinct (map f xs)" and "\<And>x y. x \<in> set xs \<Longrightarrow> y \<in> set xs \<Longrightarrow> P x \<Longrightarrow> P y \<Longrightarrow> f x = f y"
  shows "filter P xs = (case List.find P xs of None \<Rightarrow> [] | Some x \<Rightarrow> [x])"
  using assms
proof (induction xs)
  case (Cons x xs)
  have "filter P xs = []" if "P x"
  proof -
    have "\<not> P y" if "y \<in> set xs" for y
      using Cons.prems(1) Cons.prems(2) [of x y] that \<open>P x\<close> by force
    then show ?thesis by simp
  qed
  then show ?case using Cons by auto
qed simp

lemma portal_record:
  assumes "platform_inv x"
  shows "\<exists>found. readSubscription (fst x) (snd x) a = Inr found \<and> records_agree found (platform_current x a)"
proof -
  let ?s = "fst x" and ?c = "snd x"
  have inv: "commercial_inv ?s" by (rule platform_invD(2) [OF assms])
  have "filter (is_current a) (subscriptions ?s) =
      (case current_subscription ?s a of None \<Rightarrow> [] | Some r \<Rightarrow> [r])"
    unfolding current_subscription_def
  proof (rule filter_single [where f = sub_id])
    show "distinct (map sub_id (subscriptions ?s))"
      using inv by (simp add: commercial_inv_def keys_distinct_def)
    show "sub_id r = sub_id r'"
      if "r \<in> set (subscriptions ?s)" "r' \<in> set (subscriptions ?s)" "is_current a r" "is_current a r'" for r r'
      using that inv by (auto simp: commercial_inv_def one_current_def at_most_one_current_def is_current_def)
  qed
  note rows = this
  show ?thesis
  proof (cases "current_subscription ?s a")
    case None
    then show ?thesis
      using rows by (simp add: readSubscription_def portal_rows_def portal_row_def platform_current_def
          getCurrentSubscription_def records_agree_def)
  next
    case (Some r)
    have r: "r \<in> set (subscriptions ?s)" "sub_accountId r = a"
      using current_subscription_row [OF Some] by simp_all
    have ok: "subscription_checks r" "subscription_guard ?s r"
      using platform_invD(5) [OF assms] r(1) by (simp_all add: plans_published_def list_all_iff)
    obtain p v where "loadPlanRevision a (sub_currentPlanRevisionId r) ?c = Inr (p, v)"
      using current_plan_resolves [OF assms r(1)] r(2) by auto
    note plan = loadPlanRevision_Inr [OF platform_invD(3) [OF assms] this]
    have joined: "joined_revision ?c (sub_currentPlanRevisionId r) = Some (p, v)"
      using plan by (simp add: joined_revision_def)
    have safe: "safe_number (sub_stateRevision r) = Inr (sub_stateRevision r)" "safe_number (pr_revision v) = Inr (pr_revision v)"
      using ok(1) plan int4_safe by (simp_all add: subscription_checks_def)
    have price: "\<exists>t. Option.bind (sub_boundPriceRevisionId r) (terms_of ?c) = Some t"
      if "sub_boundPriceRevisionId r \<noteq> None"
      using that ok(2) sells_look_up(1) [OF platform_invD(4) [OF assms]]
      by (auto simp: subscription_guard_def split: option.splits)
    have quote: "\<exists>q. portal_price_of t = Inr q" if "terms_of ?c i = Some t" for t i
      using terms_safe [OF platform_invD(3) [OF assms] that] by (simp add: portal_price_of_def)
    obtain found where found: "portal_subscription_of ?c r p v = Inr found" "ps_id found = sub_id r"
      "ps_state found = sub_state r" "ps_stateRevision found = sub_stateRevision r"
      "pn_planRevisionId (ps_plan found) = pr_id v"
    proof (cases "sub_boundPriceRevisionId r")
      case None
      then show thesis
        using that safe by (simp add: portal_subscription_of_def Let_def)
    next
      case (Some i)
      then obtain t where t: "terms_of ?c i = Some t"
        using price by auto
      obtain q where "portal_price_of t = Inr q"
        using quote [OF t] by blast
      then show thesis
        using that safe Some t by (simp add: portal_subscription_of_def Let_def)
    qed
    have "readSubscription ?s ?c a = Inr (Some found)"
      using rows Some joined found(1) by (simp add: readSubscription_def portal_rows_def portal_row_def)
    moreover have "platform_current x a = Some (subscription_snapshot.truncate r)"
      using Some by (simp add: platform_current_def getCurrentSubscription_def)
    ultimately show ?thesis
      using found(2-5) plan by (auto simp: records_agree_def same_record_def)
  qed
qed

text \<open>The answer of the access service, in the terms of the stores.\<close>

lemma platform_service:
  assumes "platform_inv x"
  shows "\<exists>v. commercial_service x a at = Inr v \<and>
    (case platform_access x a at of
       AccessACCOUNT_NOT_FOUND \<Rightarrow> v = AccessNO_ACCOUNT
     | INELIGIBLE reason \<Rightarrow> v = AccessOK (without_access a (platform_current x a) (INELIGIBLE reason))
     | ELIGIBLE e \<Rightarrow> (\<exists>r rs t. current_subscription (fst x) a = Some r \<and> at < t
         \<and> platform_entitlements x a (sub_currentPlanRevisionId r) at = Inr (Inr rs)
         \<and> v = AccessOK \<lparr>cs_accountId = a, cs_currentSubscription = platform_current x a, cs_access = ELIGIBLE e,
             cs_planRevisionId = Some (sub_currentPlanRevisionId r), cs_entitlements = values_in_effect rs,
             cs_accessUntil = Some t\<rparr>))"
proof (cases "platform_access x a at")
  case (ELIGIBLE e)
  obtain r where r: "current_subscription (fst x) a = Some r" "acc_planRevisionId e = sub_currentPlanRevisionId r"
    using platform_eligible [OF assms ELIGIBLE] by blast
  obtain v rs t where v: "platform_current x a = Some v" "at < t"
    "platform_entitlements x a (acc_planRevisionId e) at = Inr (Inr rs)"
    "commercial_service x a at = Inr (AccessOK \<lparr>cs_accountId = a, cs_currentSubscription = Some v,
       cs_access = ELIGIBLE e, cs_planRevisionId = Some (acc_planRevisionId e), cs_entitlements = values_in_effect rs,
       cs_accessUntil = Some t\<rparr>)"
    unfolding commercial_service_def using platform.service_eligible [OF assms ELIGIBLE] by metis
  then show ?thesis
    using ELIGIBLE r by auto
qed (use platform.service_stranger platform.service_ineligible [OF assms] in \<open>simp_all add: commercial_service_def\<close>)

lemma stranger_access:
  "platform_access x a at = AccessACCOUNT_NOT_FOUND \<longleftrightarrow> account_of (fst x) a = None"
  by (auto simp: platform_access_def resolve_access_def readSubscriptionAccessObservation_def
      resolveSubscriptionAccess_def Let_def split: option.splits if_splits)

text \<open>C4. In every state that the shop can reach, whatever the interleaving of purchases, payments, operators' commands,
  catalog changes and new accounts: the access service answers and never reports CORRUPTED; it knows exactly the
  accounts there are; an eligible account has its one current subscription, entitlements of the plan revision of
  that subscription and an end of access that is still ahead; anyone else has no entitlements and no end of access.\<close>

theorem access_never_corrupted:
  assumes "new_platform x0" and "platform_step\<^sup>*\<^sup>* x0 x"
  shows "\<exists>v. commercial_service x a at = Inr v \<and> v \<noteq> AccessCORRUPTED
    \<and> (v = AccessNO_ACCOUNT \<longleftrightarrow> account_of (fst x) a = None)
    \<and> (\<forall>snap. v = AccessOK snap \<longrightarrow>
        (case cs_access snap of
           ELIGIBLE e \<Rightarrow> (\<exists>r rs t. current_subscription (fst x) a = Some r
             \<and> cs_planRevisionId snap = Some (sub_currentPlanRevisionId r)
             \<and> resolveCommercialEntitlements a (sub_currentPlanRevisionId r) at (snd x) = Inr (Inr rs, snd x)
             \<and> cs_entitlements snap = values_in_effect rs \<and> cs_accessUntil snap = Some t \<and> at < t)
         | _ \<Rightarrow> cs_entitlements snap = Map.empty \<and> cs_accessUntil snap = None))"
proof -
  have inv: "platform_inv x"
    using platform_run_inv [OF assms(2) new_platform_inv [OF assms(1)]] .
  obtain v where v: "commercial_service x a at = Inr v"
    and cases: "case platform_access x a at of
       AccessACCOUNT_NOT_FOUND \<Rightarrow> v = AccessNO_ACCOUNT
     | INELIGIBLE reason \<Rightarrow> v = AccessOK (without_access a (platform_current x a) (INELIGIBLE reason))
     | ELIGIBLE e \<Rightarrow> (\<exists>r rs t. current_subscription (fst x) a = Some r \<and> at < t
         \<and> platform_entitlements x a (sub_currentPlanRevisionId r) at = Inr (Inr rs)
         \<and> v = AccessOK \<lparr>cs_accountId = a, cs_currentSubscription = platform_current x a, cs_access = ELIGIBLE e,
             cs_planRevisionId = Some (sub_currentPlanRevisionId r), cs_entitlements = values_in_effect rs,
             cs_accessUntil = Some t\<rparr>)"
    using platform_service [OF inv] by blast
  have read: "resolveCommercialEntitlements a i at (snd x) = Inr (Inr rs, snd x)"
    if "platform_entitlements x a i at = Inr (Inr rs)" for i rs
    using that resolve_all_total [OF platform_invD(3) [OF inv], of a i _ at]
    by (cases "loadPlanRevision a i (snd x)")
      (fastforce simp: platform_entitlements_def resolveCommercialEntitlements_def tx_simps)+
  show ?thesis
  proof (cases "platform_access x a at")
    case AccessACCOUNT_NOT_FOUND
    then show ?thesis using v cases stranger_access [of x a at] by simp
  next
    case (INELIGIBLE reason)
    then show ?thesis using v cases stranger_access [of x a at] by (simp add: without_access_def)
  next
    case (ELIGIBLE e)
    then obtain r rs t where e: "current_subscription (fst x) a = Some r" "at < t"
        "platform_entitlements x a (sub_currentPlanRevisionId r) at = Inr (Inr rs)"
        "v = AccessOK \<lparr>cs_accountId = a, cs_currentSubscription = platform_current x a, cs_access = ELIGIBLE e,
             cs_planRevisionId = Some (sub_currentPlanRevisionId r), cs_entitlements = values_in_effect rs,
             cs_accessUntil = Some t\<rparr>"
      using cases by auto
    have "account_of (fst x) a \<noteq> None"
      using stranger_access [of x a at] ELIGIBLE by simp
    then show ?thesis
      using v e(1,2,4) read [OF e(3)] by simp
  qed
qed

text \<open>The device allowance of an answer of the portal.\<close>

definition sound_allowance :: "int \<Rightarrow> device_allowance \<Rightarrow> bool" where
  "sound_allowance n d \<longleftrightarrow> da_activeCount d = n \<and>
     (case da_maxActive d of
        None \<Rightarrow> da_remaining d = None \<and> \<not> da_overLimit d
      | Some m \<Rightarrow> 0 \<le> m \<and> (da_overLimit d \<longleftrightarrow> m < n)
          \<and> (case da_remaining d of None \<Rightarrow> False
             | Some k \<Rightarrow> 0 \<le> k \<and> k \<le> m \<and> (if da_overLimit d then k = 0 else k + n = m)))"

lemma allowance_sound:
  assumes "0 \<le> n" and "pred_option (\<lambda>m. 0 \<le> m) limit"
  shows "sound_allowance n (allowance_of limit n)"
  using assms by (cases limit) (auto simp: sound_allowance_def allowance_of_def)

text \<open>C5. The portal tells every account of a reachable state what it may use: the answer is never an error, FORBIDDEN is
  not among the answers of the service to itself, and it is UNAVAILABLE only for an eligible account outside the
  beta whose plan and overrides leave the device limit without a value that is a non-negative number. In the device
  allowance the remaining devices are between zero and the limit, are zero when the limit is exceeded and
  otherwise add up to it with the active ones; there is no limit exactly for the beta and for those without access.\<close>

theorem portal_allowance:
  assumes "new_platform x0" and "platform_step\<^sup>*\<^sup>* x0 x" and "0 \<le> n"
  shows "\<exists>v. portal_service x beta n a at = Inr v \<and>
    (case v of
       PortalOK r \<Rightarrow> rd_accountId r = a \<and> sound_allowance n (rd_allowance r)
         \<and> records_agree (rd_subscription r) (platform_current x a)
         \<and> (da_maxActive (rd_allowance r) \<noteq> None \<longleftrightarrow> rd_basis r = BASIS_COMMERCIAL)
         \<and> (rd_basis r = BASIS_COMMERCIAL \<longleftrightarrow> \<not> beta \<and> (\<exists>e. platform_access x a at = ELIGIBLE e))
     | PortalNO_ACCOUNT \<Rightarrow> account_of (fst x) a = None
     | PortalUNAVAILABLE \<Rightarrow> \<not> beta \<and> (\<exists>snap. commercial_service x a at = Inr (AccessOK snap)
         \<and> (case cs_entitlements snap device_max_active of Some (INTEGER m) \<Rightarrow> m < 0 | _ \<Rightarrow> True))
     | PortalFORBIDDEN \<Rightarrow> False)"
proof -
  have inv: "platform_inv x"
    using platform_run_inv [OF assms(2) new_platform_inv [OF assms(1)]] .
  obtain found where found: "readSubscription (fst x) (snd x) a = Inr found" "records_agree found (platform_current x a)"
    using portal_record [OF inv] by blast
  obtain v where v: "commercial_service x a at = Inr v"
    and cases: "case platform_access x a at of
       AccessACCOUNT_NOT_FOUND \<Rightarrow> v = AccessNO_ACCOUNT
     | INELIGIBLE reason \<Rightarrow> v = AccessOK (without_access a (platform_current x a) (INELIGIBLE reason))
     | ELIGIBLE e \<Rightarrow> (\<exists>r rs t. current_subscription (fst x) a = Some r \<and> at < t
         \<and> platform_entitlements x a (sub_currentPlanRevisionId r) at = Inr (Inr rs)
         \<and> v = AccessOK \<lparr>cs_accountId = a, cs_currentSubscription = platform_current x a, cs_access = ELIGIBLE e,
             cs_planRevisionId = Some (sub_currentPlanRevisionId r), cs_entitlements = values_in_effect rs,
             cs_accessUntil = Some t\<rparr>)"
    using platform_service [OF inv] by blast
  note portal = portal_service_def readAccountSubscription_def v found
  note sound = allowance_sound [OF assms(3)]
  show ?thesis
  proof (cases "platform_access x a at")
    case AccessACCOUNT_NOT_FOUND
    then show ?thesis using cases stranger_access [of x a at] by (simp add: portal)
  next
    case (INELIGIBLE reason)
    then show ?thesis
      using cases sound [of None] by (simp add: portal without_access_def beta_read_def allowance_of_def)
  next
    case (ELIGIBLE e)
    then obtain r rs t where e: "platform_entitlements x a (sub_currentPlanRevisionId r) at = Inr (Inr rs)"
        "current_subscription (fst x) a = Some r"
        "v = AccessOK \<lparr>cs_accountId = a, cs_currentSubscription = platform_current x a, cs_access = ELIGIBLE e,
             cs_planRevisionId = Some (sub_currentPlanRevisionId r), cs_entitlements = values_in_effect rs,
             cs_accessUntil = Some t\<rparr>"
      using cases by auto
    have "acc_planRevisionId e = sub_currentPlanRevisionId r"
      using platform_eligible [OF inv ELIGIBLE] e(2) by (metis option.inject)
    then have admitted: "admission_service x a at =
      (case values_in_effect rs device_max_active of
         Some (INTEGER m) \<Rightarrow> if 0 \<le> m then AdmissionELIGIBLE m else AdmissionCORRUPTED
       | _ \<Rightarrow> AdmissionCORRUPTED)"
      unfolding admission_service_def using platform.admission_eligible [OF inv ELIGIBLE] e(1) by simp
    show ?thesis
    proof (cases beta)
      case True
      then show ?thesis
        using e(3) sound [of None] by (simp add: portal beta_read_def allowance_of_def)
    next
      case False
      show ?thesis
      proof (cases "\<exists>m. values_in_effect rs device_max_active = Some (INTEGER m) \<and> 0 \<le> m")
        case True
        then obtain m where "values_in_effect rs device_max_active = Some (INTEGER m)" "0 \<le> m" by blast
        then show ?thesis
          using False e(3) ELIGIBLE admitted sound [of "Some m"] by (simp add: portal allowance_of_def)
      next
        case unset: False
        then have "admission_service x a at = AdmissionCORRUPTED"
          using admitted by (auto split: option.split typed_value.split)
        moreover have "case values_in_effect rs device_max_active of Some (INTEGER m) \<Rightarrow> m < 0 | _ \<Rightarrow> True"
          using unset by (auto split: option.split typed_value.split)
        ultimately show ?thesis
          using False e(3) ELIGIBLE by (simp add: portal)
      qed
    qed
  qed
qed

end
