(* ===== verification/Catalog_Example.thy ===== *)
theory Catalog_Example
  imports Catalog_System Offers
begin

text \<open>
  A catalog that its own commands have built, from the empty one to a plan on sale with a device limit and an
  override of it: the input at which the properties of the catalog are instantiated.
\<close>

definition catalog0 :: catalog where
  "catalog0 = \<lparr>customers = [''acct''], plans = [], plan_revisions = [], definitions = [], plan_entitlements = [],
     overrides = [], prices = [], price_revisions = [], assignments = [], catalog_audits = [], cat_now = 1000,
     cat_uuids = (\<lambda>n. [''plan'', ''plan-r1'', ''price'', ''price-r1'', ''sale'', ''override''] ! n), cat_drawn = 0\<rparr>"

definition pro_plan :: "catalog_status \<Rightarrow> time \<Rightarrow> plan" where
  "pro_plan st t = \<lparr>pl_id = ''plan'', pl_code = ''pro'', pl_status = st, pl_createdAt = 1000, pl_updatedAt = t\<rparr>"

definition pro_revision :: plan_revision where
  "pro_revision = \<lparr>pr_id = ''plan-r1'', pr_planId = ''plan'', pr_revision = 1, pr_state = DRAFT,
     pr_displayName = ''Pro'', pr_description = '''', pr_createdAt = 1000, pr_publishedAt = None\<rparr>"

definition device_definition :: definition_row where
  "device_definition = \<lparr>ed_key = ''device.max_active'', ed_valueType = INTEGER_TYPE, ed_classification = LIMIT,
     ed_description = ''devices'', ed_deprecatedAt = None, ed_createdAt = 1000\<rparr>"

definition device_value :: plan_entitlement where
  "device_value = \<lparr>pe_planRevisionId = ''plan-r1'', pe_key = ''device.max_active'', pe_boolean = None,
     pe_integer = Some 3\<rparr>"

definition pro_price :: "catalog_status \<Rightarrow> time \<Rightarrow> price" where
  "pro_price st t = \<lparr>pc_id = ''price'', pc_planId = ''plan'', pc_code = ''pro-monthly'', pc_marketKey = ''eu'',
     pc_channelKey = ''web'', pc_status = st, pc_createdAt = 1000, pc_updatedAt = t\<rparr>"

definition pro_terms :: price_terms where
  "pro_terms = \<lparr>pt_planRevisionId = ''plan-r1'', pt_amountMinor = 990, pt_currency = ''EUR'', pt_unit = MONTH,
     pt_count = 1, pt_effectiveFrom = 0, pt_effectiveTo = None\<rparr>"

definition pro_price_revision :: price_revision where
  "pro_price_revision = \<lparr>pv_id = ''price-r1'', pv_priceId = ''price'', pv_planRevisionId = ''plan-r1'',
     pv_revision = 1, pv_state = DRAFT, pv_amountMinor = 990, pv_currency = ''EUR'', pv_unit = MONTH, pv_count = 1,
     pv_effectiveFrom = 0, pv_effectiveTo = None, pv_createdAt = 1000, pv_publishedAt = None\<rparr>"

definition published_revision :: plan_revision where
  "published_revision = pro_revision\<lparr>pr_state := PUBLISHED, pr_publishedAt := Some 1100\<rparr>"

definition published_price_revision :: price_revision where
  "published_price_revision = pro_price_revision\<lparr>pv_state := PUBLISHED, pv_publishedAt := Some 1300\<rparr>"

definition pro_sale :: assignment where
  "pro_sale = \<lparr>as_id = ''sale'', as_priceId = ''price'', as_revision = 1, as_selected = Some ''price-r1'',
     as_effectiveFrom = 1400, as_reason = ''launch'', as_createdAt = 1000\<rparr>"

definition devices_override :: override_row where
  "devices_override = \<lparr>ov_id = ''override'', ov_accountId = ''acct'', ov_key = ''device.max_active'', ov_revision = 1,
     ov_operation = SET_VALUE, ov_boolean = None, ov_integer = Some 5, ov_effectiveFrom = 2000,
     ov_expiresAt = Some 9000, ov_reason = ''support case'', ov_createdAt = 1000\<rparr>"

abbreviation devices :: string where
  "devices \<equiv> ''device.max_active''"

abbreviation draft_print :: "plan_value list \<Rightarrow> string" where
  "draft_print vs \<equiv> plan_fingerprint id pro_revision vs"

definition catalog1 :: catalog where
  "catalog1 = snd (createPlan (ret ()) id ''pro'' example_context catalog0)"

definition catalog2 :: catalog where
  "catalog2 = snd (createDraftPlanRevision (ret ()) id id ''plan'' ''Pro'' '''' example_context catalog1)"

definition catalog3 :: catalog where
  "catalog3 = snd (createEntitlementDefinition (ret ()) id devices INTEGER_TYPE LIMIT ''devices'' example_context catalog2)"

definition catalog4 :: catalog where
  "catalog4 = snd (setDraftPlanEntitlement (ret ()) id id ''plan-r1'' (draft_print []) devices (INTEGER 3)
     example_context catalog3)"

definition catalog5 :: catalog where
  "catalog5 = snd (publishPlanRevision (ret ()) id id ''plan-r1'' (draft_print [(devices, INTEGER 3)]) 1100
     example_context catalog4)"

definition catalog6 :: catalog where
  "catalog6 = snd (changePlanStatus (ret ()) id ''plan'' DRAFT_STATUS ACTIVE_STATUS 1200 example_context catalog5)"

definition catalog7 :: catalog where
  "catalog7 = snd (createPrice (ret ()) id ''plan'' ''pro-monthly'' ''eu'' ''web'' example_context catalog6)"

definition catalog8 :: catalog where
  "catalog8 = snd (createDraftPriceRevision (ret ()) id id ''price'' pro_terms example_context catalog7)"

definition catalog9 :: catalog where
  "catalog9 = snd (publishPriceRevision (ret ()) id id ''price-r1'' (price_fingerprint id pro_price_revision) 1300
     example_context catalog8)"

definition catalog10 :: catalog where
  "catalog10 = snd (schedulePriceSaleAssignment (ret ()) id ''price'' None (Some ''price-r1'') 1400 ''launch''
     example_context catalog9)"

definition shop_catalog :: catalog where
  "shop_catalog = snd (changePriceStatus (ret ()) id ''price'' DRAFT_STATUS ACTIVE_STATUS 1500 example_context catalog10)"

definition more_devices :: override_command where
  "more_devices = \<lparr>oc_accountId = ''acct'', oc_key = devices, oc_expected = None, oc_effectiveFrom = 2000,
     oc_expiresAt = Some 9000\<rparr>"

definition override_catalog :: catalog where
  "override_catalog = snd (mutate_override (ret ()) id SET_VALUE (Some (INTEGER 5)) more_devices example_context shop_catalog)"

section \<open>It is reachable\<close>

lemma catalog0_empty: "empty_catalog catalog0"
  by (simp add: empty_catalog_def catalog0_def)

lemma to_catalog4: "catalog_step catalog0 catalog1" "catalog_step catalog1 catalog2"
  "catalog_step catalog2 catalog3" "catalog_step catalog3 catalog4"
  unfolding catalog1_def catalog2_def catalog3_def catalog4_def
  by (rule catalog_step.intros, rule no_hook_ok)+

lemma to_shop: "catalog_step catalog4 catalog5" "catalog_step catalog5 catalog6" "catalog_step catalog6 catalog7"
  "catalog_step catalog7 catalog8" "catalog_step catalog8 catalog9" "catalog_step catalog9 catalog10"
  "catalog_step catalog10 shop_catalog"
  unfolding catalog5_def catalog6_def catalog7_def catalog8_def catalog9_def catalog10_def shop_catalog_def
  by (rule catalog_step.intros, rule no_hook_ok)+

lemma catalog4_reached: "catalog_step\<^sup>*\<^sup>* catalog0 catalog4"
  by ((rule converse_rtranclp_into_rtranclp, rule to_catalog4)+) (rule rtranclp.rtrancl_refl)

lemma shop_from_draft: "catalog_step\<^sup>*\<^sup>* catalog4 shop_catalog"
  by ((rule converse_rtranclp_into_rtranclp, rule to_shop)+) (rule rtranclp.rtrancl_refl)

lemma override_from_shop: "catalog_step shop_catalog override_catalog"
  unfolding override_catalog_def by (intro catalog_step.intros no_hook_ok)

lemma shop_reached: "catalog_step\<^sup>*\<^sup>* catalog0 shop_catalog"
  using catalog4_reached shop_from_draft by (rule rtranclp_trans)

lemma example_catalogs_inv: "catalog_inv catalog4" "catalog_inv shop_catalog" "catalog_inv override_catalog"
proof -
  show "catalog_inv catalog4"
    using catalog_run_keeps [OF catalog4_reached empty_catalog_inv [OF catalog0_empty]] by simp
  show shop: "catalog_inv shop_catalog"
    using catalog_run_keeps [OF shop_reached empty_catalog_inv [OF catalog0_empty]] by simp
  show "catalog_inv override_catalog"
    using catalog_step_keeps [OF override_from_shop shop] by simp
qed

section \<open>Evaluation\<close>

lemmas catalog_writes_eval [eval_simps] = catalog_uuid_def insert_row_def update_row_def insert_plan_def update_plan_def
  insert_plan_revision_def update_plan_revision_def insert_definition_def upsert_plan_entitlement_def
  insert_override_def insert_price_def update_price_def insert_price_revision_def update_price_revision_def
  insert_assignment_def insert_catalog_audit_def audit_catalog_def safeAuditReason_def

lemmas catalog_checks_eval [eval_simps] = plan_accepted_def plan_checks_def plan_revision_accepted_def
  plan_revision_checks_def publication_time_def definition_checks_def plan_entitlement_guard_def typed_columns_def
  safe_integer_def plan_identity_guard_def plan_revision_update_guard_def price_accepted_def price_checks_def
  price_revision_accepted_def price_revision_checks_def price_revision_guard_def price_revision_update_guard_def
  assignment_accepted_def assignment_checks_def assignment_guard_def in_window_def price_identity_guard_def
  override_accepted_def override_checks_def override_guard_def safe_reason_def catalog_audit_checks_def
  same_entitlement_def

lemmas catalog_reads_eval [eval_simps] = plan_of_def revision_of_def definition_of_def price_of_def terms_of_def
  entitlements_of_def joined_revision_def joined_terms_def loadRevision_def loadEntitlements_def mapValue_def
  draftValue_def publishedValue_def has_published_def price_has_published_def planRevisionBelongsToPlan_def
  price_draft_value_def price_published_value_def terms_in_def next_revision_def

lemmas catalog_commands_eval [eval_simps] = createPlan_def createDraftPlanRevision_def createEntitlementDefinition_def
  setDraftPlanEntitlement_def on_draft_def changed_draft_def validateEntitlementValueType_def publishPlanRevision_def
  publish_transaction_def publish_loaded_def publish_draft_def lockDefinitions_def changePlanStatus_def
  validatePlanStatusTransition_def createPrice_def open_price_def on_price_def archived_plan_def
  createDraftPriceRevision_def of_plan_def publishPriceRevision_def on_terms_def fresh_draft_def publish_terms_def
  changePriceStatus_def validatePriceStatusTransition_def schedulePriceSaleAssignment_def schedule_new_def
  write_assignment_def latest_assignment_def selectable_def or_else_def same_assignment_def
  mutate_override_def override_decided_def write_override_def latestOverride_def overrideValue_def mapOverride_def

lemmas catalog_example_rows = pro_plan_def pro_revision_def device_definition_def device_value_def pro_price_def
  pro_terms_def pro_price_revision_def published_revision_def published_price_revision_def pro_sale_def
  devices_override_def example_context_def more_devices_def

lemma catalog0_ids: "cat_uuids catalog0 0 = ''plan''" "cat_uuids catalog0 1 = ''plan-r1''"
  "cat_uuids catalog0 (Suc 0) = ''plan-r1''" "cat_uuids catalog0 2 = ''price''" "cat_uuids catalog0 3 = ''price-r1''"
  "cat_uuids catalog0 4 = ''sale''" "cat_uuids catalog0 5 = ''override''"
  by (simp_all add: catalog0_def)

lemma catalog1_fields [simp]: "plans catalog1 = [pro_plan DRAFT_STATUS 1000]" "plan_revisions catalog1 = []" "definitions catalog1 = []"
  "plan_entitlements catalog1 = []" "prices catalog1 = []" "price_revisions catalog1 = []"
  "assignments catalog1 = []" "overrides catalog1 = []" "cat_drawn catalog1 = 1"
  "cat_now catalog1 = 1000" "customers catalog1 = [''acct'']" "cat_uuids catalog1 = cat_uuids catalog0"
  by (simp_all add: catalog1_def catalog0_def catalog_example_rows eval_simps)

lemma catalog2_fields [simp]: "plans catalog2 = [pro_plan DRAFT_STATUS 1000]" "plan_revisions catalog2 = [pro_revision]" "definitions catalog2 = []"
  "plan_entitlements catalog2 = []" "prices catalog2 = []" "price_revisions catalog2 = []"
  "assignments catalog2 = []" "overrides catalog2 = []" "cat_drawn catalog2 = 2"
  "cat_now catalog2 = 1000" "customers catalog2 = [''acct'']" "cat_uuids catalog2 = cat_uuids catalog0"
  by (simp_all add: catalog2_def catalog0_ids catalog_example_rows eval_simps)

lemma catalog3_fields [simp]: "plans catalog3 = [pro_plan DRAFT_STATUS 1000]" "plan_revisions catalog3 = [pro_revision]" "definitions catalog3 = [device_definition]"
  "plan_entitlements catalog3 = []" "prices catalog3 = []" "price_revisions catalog3 = []"
  "assignments catalog3 = []" "overrides catalog3 = []" "cat_drawn catalog3 = 2"
  "cat_now catalog3 = 1000" "customers catalog3 = [''acct'']" "cat_uuids catalog3 = cat_uuids catalog0"
  by (simp_all add: catalog3_def catalog0_ids catalog_example_rows eval_simps)

lemma catalog4_fields [simp]: "plans catalog4 = [pro_plan DRAFT_STATUS 1000]" "plan_revisions catalog4 = [pro_revision]" "definitions catalog4 = [device_definition]"
  "plan_entitlements catalog4 = [device_value]" "prices catalog4 = []" "price_revisions catalog4 = []"
  "assignments catalog4 = []" "overrides catalog4 = []" "cat_drawn catalog4 = 2"
  "cat_now catalog4 = 1000" "customers catalog4 = [''acct'']" "cat_uuids catalog4 = cat_uuids catalog0"
  by (simp_all add: catalog4_def catalog0_ids catalog_example_rows eval_simps)

lemma catalog5_fields [simp]: "plans catalog5 = [pro_plan DRAFT_STATUS 1000]" "plan_revisions catalog5 = [published_revision]" "definitions catalog5 = [device_definition]"
  "plan_entitlements catalog5 = [device_value]" "prices catalog5 = []" "price_revisions catalog5 = []"
  "assignments catalog5 = []" "overrides catalog5 = []" "cat_drawn catalog5 = 2"
  "cat_now catalog5 = 1000" "customers catalog5 = [''acct'']" "cat_uuids catalog5 = cat_uuids catalog0"
  by (simp_all add: catalog5_def catalog0_ids catalog_example_rows eval_simps)

lemma catalog6_fields [simp]: "plans catalog6 = [pro_plan ACTIVE_STATUS 1200]" "plan_revisions catalog6 = [published_revision]" "definitions catalog6 = [device_definition]"
  "plan_entitlements catalog6 = [device_value]" "prices catalog6 = []" "price_revisions catalog6 = []"
  "assignments catalog6 = []" "overrides catalog6 = []" "cat_drawn catalog6 = 2"
  "cat_now catalog6 = 1000" "customers catalog6 = [''acct'']" "cat_uuids catalog6 = cat_uuids catalog0"
  by (simp_all add: catalog6_def catalog0_ids catalog_example_rows eval_simps)

lemma catalog7_fields [simp]: "plans catalog7 = [pro_plan ACTIVE_STATUS 1200]" "plan_revisions catalog7 = [published_revision]" "definitions catalog7 = [device_definition]"
  "plan_entitlements catalog7 = [device_value]" "prices catalog7 = [pro_price DRAFT_STATUS 1000]" "price_revisions catalog7 = []"
  "assignments catalog7 = []" "overrides catalog7 = []" "cat_drawn catalog7 = 3"
  "cat_now catalog7 = 1000" "customers catalog7 = [''acct'']" "cat_uuids catalog7 = cat_uuids catalog0"
  by (simp_all add: catalog7_def catalog0_ids catalog_example_rows eval_simps)

lemma catalog8_fields [simp]: "plans catalog8 = [pro_plan ACTIVE_STATUS 1200]" "plan_revisions catalog8 = [published_revision]" "definitions catalog8 = [device_definition]"
  "plan_entitlements catalog8 = [device_value]" "prices catalog8 = [pro_price DRAFT_STATUS 1000]" "price_revisions catalog8 = [pro_price_revision]"
  "assignments catalog8 = []" "overrides catalog8 = []" "cat_drawn catalog8 = 4"
  "cat_now catalog8 = 1000" "customers catalog8 = [''acct'']" "cat_uuids catalog8 = cat_uuids catalog0"
  by (simp_all add: catalog8_def catalog0_ids catalog_example_rows eval_simps)

lemma catalog9_fields [simp]: "plans catalog9 = [pro_plan ACTIVE_STATUS 1200]" "plan_revisions catalog9 = [published_revision]" "definitions catalog9 = [device_definition]"
  "plan_entitlements catalog9 = [device_value]" "prices catalog9 = [pro_price DRAFT_STATUS 1000]" "price_revisions catalog9 = [published_price_revision]"
  "assignments catalog9 = []" "overrides catalog9 = []" "cat_drawn catalog9 = 4"
  "cat_now catalog9 = 1000" "customers catalog9 = [''acct'']" "cat_uuids catalog9 = cat_uuids catalog0"
  by (simp_all add: catalog9_def catalog0_ids catalog_example_rows eval_simps)

lemma catalog10_fields [simp]: "plans catalog10 = [pro_plan ACTIVE_STATUS 1200]" "plan_revisions catalog10 = [published_revision]" "definitions catalog10 = [device_definition]"
  "plan_entitlements catalog10 = [device_value]" "prices catalog10 = [pro_price DRAFT_STATUS 1000]" "price_revisions catalog10 = [published_price_revision]"
  "assignments catalog10 = [pro_sale]" "overrides catalog10 = []" "cat_drawn catalog10 = 5"
  "cat_now catalog10 = 1000" "customers catalog10 = [''acct'']" "cat_uuids catalog10 = cat_uuids catalog0"
  by (simp_all add: catalog10_def catalog0_ids catalog_example_rows eval_simps)

lemma shop_catalog_fields [simp]: "plans shop_catalog = [pro_plan ACTIVE_STATUS 1200]" "plan_revisions shop_catalog = [published_revision]" "definitions shop_catalog = [device_definition]"
  "plan_entitlements shop_catalog = [device_value]" "prices shop_catalog = [pro_price ACTIVE_STATUS 1500]" "price_revisions shop_catalog = [published_price_revision]"
  "assignments shop_catalog = [pro_sale]" "overrides shop_catalog = []" "cat_drawn shop_catalog = 5"
  "cat_now shop_catalog = 1000" "customers shop_catalog = [''acct'']" "cat_uuids shop_catalog = cat_uuids catalog0"
  by (simp_all add: shop_catalog_def catalog0_ids catalog_example_rows eval_simps)

lemma override_catalog_fields [simp]: "plans override_catalog = [pro_plan ACTIVE_STATUS 1200]" "plan_revisions override_catalog = [published_revision]" "definitions override_catalog = [device_definition]"
  "plan_entitlements override_catalog = [device_value]" "prices override_catalog = [pro_price ACTIVE_STATUS 1500]" "price_revisions override_catalog = [published_price_revision]"
  "assignments override_catalog = [pro_sale]" "overrides override_catalog = [devices_override]" "cat_drawn override_catalog = 6"
  "cat_now override_catalog = 1000" "customers override_catalog = [''acct'']" "cat_uuids override_catalog = cat_uuids catalog0"
  by (simp_all add: override_catalog_def catalog0_ids catalog_example_rows eval_simps)

section \<open>The properties of the catalog at this input\<close>

lemmas resolution_eval [eval_simps] = loadPlanRevision_def resolveCommercialEntitlement_def resolve_definition_def
  plan_value_of_def effective_override_def resolveRow_def base_value_def effective_value_def typedValue_def
  select_override_def newest_def

lemma shop_history: "history catalog5 shop_catalog"
proof -
  have inv: "catalog_inv catalog5"
    using catalog_step_keeps [OF to_shop(1) example_catalogs_inv(1)] by simp
  have "catalog_step\<^sup>*\<^sup>* catalog5 shop_catalog"
    by ((rule converse_rtranclp_into_rtranclp, rule to_shop(2-7))+) (rule rtranclp.rtrancl_refl)
  then show ?thesis
    using catalog_run_keeps inv by blast
qed

lemma publish_run:
  "\<exists>v. publishPlanRevision (ret ()) id id ''plan-r1'' (draft_print [(devices, INTEGER 3)]) 1100 example_context catalog4
    = (Inr (PlanOK True v), catalog5)"
proof -
  have "\<exists>v. fst (publishPlanRevision (ret ()) id id ''plan-r1'' (draft_print [(devices, INTEGER 3)]) 1100
      example_context catalog4) = Inr (PlanOK True v)"
    by (simp add: catalog_example_rows eval_simps)
  then show ?thesis
    unfolding catalog5_def by (auto simp: prod_eq_iff)
qed


theorem listed_is_purchasable_witness:
  "\<exists>offers. listPublicOffers ''eu'' ''web'' 1450 shop_catalog = Inr (offers, shop_catalog)
    \<and> public_offer.truncate ` set offers
      = {public_offer.truncate x |x i. resolvePurchasableOffer i 1450 shop_catalog = Inr (Inr x, shop_catalog)
          \<and> of_marketKey x = ''eu'' \<and> of_channelKey x = ''web''}"
  by (rule listed_is_purchasable [OF example_catalogs_inv(2)]) (simp_all add: catalog_identifier_def eval_simps)

theorem sale_is_purchasable_witness:
  "(\<exists>p value a. resolvePriceForNewSale id ''price'' 1450 shop_catalog = Inr (RESOLVED p value a, shop_catalog)
      \<and> pd_id value = ''price-r1'')
    \<longleftrightarrow> (\<exists>x. resolvePurchasableOffer ''price-r1'' 1450 shop_catalog = Inr (Inr x, shop_catalog) \<and> of_priceId x = ''price'')"
  by (rule sale_is_purchasable [OF example_catalogs_inv(2)])

theorem resolutions_well_typed_witness:
  "\<exists>x. resolveCommercialEntitlements ''acct'' ''plan-r1'' 3000 override_catalog = Inr (x, override_catalog)
    \<and> (case x of
         Inl code \<Rightarrow> code = NO_ACCOUNT \<or> code = NO_PLAN_REVISION \<or> code = PLAN_REVISION_IS_DRAFT
       | Inr rs \<Rightarrow> map er_key rs = [devices] \<and> list_all well_typed rs)"
proof -
  have keys: "map ed_key (sort_key ed_key (definitions override_catalog)) = [devices]"
    by (simp add: device_definition_def)
  show ?thesis
    using resolutions_well_typed [OF example_catalogs_inv(3), of "''acct''" "''plan-r1''" 3000] unfolding keys .
qed

lemma override_run:
  "\<exists>v. mutate_override (ret ()) id SET_VALUE (Some (INTEGER 5)) more_devices example_context shop_catalog
    = (Inr (OverrideOK True v), override_catalog)"
proof -
  have "\<exists>v. fst (mutate_override (ret ()) id SET_VALUE (Some (INTEGER 5)) more_devices example_context shop_catalog)
      = Inr (OverrideOK True v)"
    by (simp add: catalog_example_rows catalog0_ids eval_simps)
  then show ?thesis
    unfolding override_catalog_def by (auto simp: prod_eq_iff)
qed

theorem override_takes_effect_witness:
  "\<exists>r. resolveCommercialEntitlement ''acct'' ''plan-r1'' devices 2500 override_catalog = Inr (Inr r, override_catalog)
    \<and> er_effectiveValue r = Some (INTEGER 5)"
proof -
  obtain v where run: "mutate_override (ret ()) id SET_VALUE (Some (INTEGER 5)) more_devices example_context shop_catalog
    = (Inr (OverrideOK True v), override_catalog)"
    using override_run by blast
  have cmd: "oc_accountId more_devices = ''acct''" "oc_key more_devices = devices" "oc_effectiveFrom more_devices = 2000"
    "oc_expiresAt more_devices = Some 9000"
    by (simp_all add: more_devices_def)
  have plan: "loadPlanRevision (oc_accountId more_devices) ''plan-r1'' override_catalog
      = Inr (pro_plan ACTIVE_STATUS 1200, published_revision)"
    by (simp add: catalog_example_rows eval_simps)
  show ?thesis
    using override_takes_effect [OF example_catalogs_inv(2) no_hook_ok _ run example_catalogs_inv(3) refl plan, of 2500]
    by (simp add: cmd)
qed

theorem lost_override_refused_witness:
  "mutate_override (ret ()) id CLEAR_VALUE None more_devices example_context override_catalog
    = (Inr (OverrideREJECTED OVERRIDE_STALE), override_catalog)"
proof -
  obtain v where run: "mutate_override (ret ()) id SET_VALUE (Some (INTEGER 5)) more_devices example_context shop_catalog
    = (Inr (OverrideOK True v), override_catalog)"
    using override_run by blast
  show ?thesis
    by (rule lost_override_refused [OF example_catalogs_inv(2) no_hook_ok run example_catalogs_inv(3) history_refl]) simp_all
qed

theorem reachable_catalog_witness:
  "distinct (map pl_code (plans override_catalog)) \<and> catalog_offers override_catalog \<and> catalog_inv override_catalog"
  using reachable_catalog [OF catalog0_empty rtranclp.rtrancl_into_rtrancl [OF shop_reached override_from_shop]] by simp

theorem published_is_final_witness:
  "revision_of override_catalog ''plan-r1'' = Some published_revision
    \<and> entitlements_of override_catalog ''plan-r1'' = [device_value]
    \<and> terms_of override_catalog ''price-r1'' = Some published_price_revision"
proof -
  have later: "catalog_step\<^sup>*\<^sup>* shop_catalog override_catalog"
    using override_from_shop by blast
  have shop: "revision_of shop_catalog ''plan-r1'' = Some published_revision" "pr_state published_revision = PUBLISHED"
    "entitlements_of shop_catalog ''plan-r1'' = [device_value]"
    "terms_of shop_catalog ''price-r1'' = Some published_price_revision" "pv_state published_price_revision = PUBLISHED"
    by (simp_all add: catalog_example_rows eval_simps)
  show ?thesis
    using published_is_final [OF catalog0_empty shop_reached later] shop by simp
qed

end
