(* ===== verification/Platform_Example.thy ===== *)
theory Platform_Example
  imports Platform Catalog_Example
begin

text \<open>
  The two stores at work: the catalog of \<open>Catalog_Example\<close> is built beside an empty commerce, and an operator grants
  its plan to the account. The properties of the platform are instantiated in the state reached.
\<close>

definition blank_db :: db where
  "blank_db = \<lparr>accounts = [\<lparr>acct_id = ''acct'', acct_status = ACCOUNT_ACTIVE\<rparr>], memberships = [(''acct'', ''user'')],
     planRevisions = [], priceRevisions = [], subscriptions = [], transitions = [], payments = [], billingEvents = [],
     checkoutIntents = [], jobs = [], auditEvents = [], db_now = 1000,
     db_uuids = (\<lambda>n. CHR ''u'' # replicate n (CHR ''1'')), db_drawn = 0\<rparr>"

definition selling_db :: db where
  "selling_db = listed blank_db override_catalog"

definition served_db :: db where
  "served_db = snd (grantSubscription no_hook id id 2000 2000 example_grant Subscription_Commands.example_context selling_db)"

lemma listed_listed: "listed (listed s c) c' = listed s c'"
  by (simp add: listed_def)

lemma sales_step: "catalog_step c c' \<Longrightarrow> customers c' = customers c \<Longrightarrow> platform_step (listed s c, c) (listed s c', c')"
  using platform_step.sales [of c c' "listed s c"] by (simp add: listed_listed)

lemma new_shop: "new_platform (listed blank_db catalog0, catalog0)"
  by (simp add: new_platform_def no_commerce_def catalog0_empty listed_def)
    (simp add: blank_db_def catalog0_def)

lemma catalog0_customers: "customers catalog0 = [''acct'']"
  by (simp add: catalog0_def)

lemma selling_reached: "platform_step\<^sup>*\<^sup>* (listed blank_db catalog0, catalog0) (selling_db, override_catalog)"
  unfolding selling_db_def
  by ((rule converse_rtranclp_into_rtranclp, rule sales_step, rule to_catalog4 to_shop override_from_shop,
        simp add: catalog0_customers)+)
    (rule rtranclp.rtrancl_refl)

lemma served_fields: "planRevisions served_db = planRevisions selling_db" "priceRevisions served_db = priceRevisions selling_db"
  "accounts served_db = accounts selling_db"
  by (simp_all add: served_db_def selling_db_def listed_def blank_db_def example_grant_def
      Subscription_Commands.example_context_def plan_view_def catalog_example_rows eval_simps del: set_filter)

lemma served_reached: "platform_step\<^sup>*\<^sup>* (listed blank_db catalog0, catalog0) (served_db, override_catalog)"
proof (rule rtranclp.rtrancl_into_rtrancl [OF selling_reached])
  have "system_step selling_db served_db"
    unfolding served_db_def by (rule system_step.grant)
  then show "platform_step (selling_db, override_catalog) (served_db, override_catalog)"
    by (rule platform_step.commerce) (simp_all add: served_fields)
qed

lemma served_access: "\<exists>e. platform_access (served_db, override_catalog) ''acct'' 3000 = ELIGIBLE e"
  by (simp add: platform_access_def served_db_def selling_db_def listed_def blank_db_def example_grant_def
      Subscription_Commands.example_context_def plan_view_def catalog_example_rows resolve_access_def
      readSubscriptionAccessObservation_def observed_subscription_def observed_before_def resolveSubscriptionAccess_def
      eval_simps del: set_filter)

theorem access_never_corrupted_witness:
  "\<exists>v. commercial_service (served_db, override_catalog) ''acct'' 3000 = Inr v \<and> v \<noteq> AccessCORRUPTED
    \<and> (\<exists>e. platform_access (served_db, override_catalog) ''acct'' 3000 = ELIGIBLE e)"
  using access_never_corrupted [OF new_shop served_reached, of "''acct''" 3000] served_access by blast

theorem portal_allowance_witness:
  "\<exists>v. portal_service (served_db, override_catalog) True 7 ''acct'' 3000 = Inr (PortalOK v)
    \<and> rd_basis v \<noteq> BASIS_COMMERCIAL \<and> sound_allowance 7 (rd_allowance v)"
proof -
  have account: "account_of served_db ''acct'' \<noteq> None"
    by (simp add: account_of_def served_fields selling_db_def blank_db_def)
  show ?thesis
    by (rule exE [OF portal_allowance [OF new_shop served_reached, of 7 True "''acct''" 3000]], simp,
        rename_tac v, case_tac v) (use account in auto)
qed


text \<open>The order of the offer that the catalog gives.\<close>

definition pro_offer :: purchasable_offer where
  "pro_offer = \<lparr>po_priceRevisionId = ''price-r1'', po_planRevisionId = ''plan-r1'', po_amountMinor = 990,
     po_currency = ''EUR'', po_billingIntervalUnit = MONTH, po_billingIntervalCount = 1\<rparr>"

lemma pro_offer_answer: "offer_answer shop_catalog ''price-r1'' 1450 = Some (Inr pro_offer)"
  by (simp add: offer_answer_def resolvePurchasableOffer_def resolve_exact_def effective_assignment_def newest_def
      mapExactOffer_def checked_offer_def positive_integer_def offer_of_def public_offer.defs pro_offer_def
      catalog_example_rows eval_simps)

theorem offer_can_be_ordered_witness:
  "checkout_terms_guard selling_db
    (created_row (example_input\<lparr>pi_offer := pro_offer, pi_accountId := ''acct'', pi_admittedAt := 1450\<rparr>) 1460 ''order'')"
proof (rule offer_can_be_ordered [OF example_catalogs_inv(2), where i = "''price-r1''" and at = 1450])
  show "history shop_catalog override_catalog"
    using catalog_step_keeps [OF override_from_shop example_catalogs_inv(2)] by simp
  show "sells selling_db override_catalog"
    unfolding selling_db_def by (rule listed_sells)
qed (simp_all add: pro_offer_answer, simp add: account_of_def selling_db_def blank_db_def)

end
