(* ===== verification/Sign_In_Db.thy ===== *)
theory Sign_In_Db
  imports Subscription_Commands
begin

text \<open>
  The tables of the sign-in and of the admission to the beta: users, identities, accounts, one-time codes, their
  mail jobs, portal sessions and rate limits (packages/server/db/src/schema/identity.ts, auth.ts, otp-delivery.ts),
  the admission state, invitations, admissions and mutations (schema/beta.ts), and the grants of the administrators
  that the mutations look at. As in \<open>Billing_Db\<close> a table is the list of its rows, a write checks the constraints of
  the row and a violation rolls the transaction back. Generated identifiers that nothing refers to are left out.
\<close>

section \<open>Rows\<close>

datatype user_status = USER_ACTIVE | USER_SUSPENDED

record user_row =
  us_id :: uuid
  us_status :: user_status

record identity_row =
  ui_userId :: uuid
  ui_identifier :: string
  ui_verifiedAt :: time

record home_account =
  ha_id :: uuid
  ha_status :: account_status
  ha_displayName :: "string option"
  ha_createdAt :: time

record otp_challenge =
  otp_id :: uuid
  otp_target :: string
  otp_hash :: string
  otp_attempts :: int
  otp_maxAttempts :: int
  otp_expiresAt :: time
  otp_consumedAt :: "time option"
  otp_invalidatedAt :: "time option"
  otp_createdAt :: time

datatype mail_status = MAIL_PENDING | MAIL_PROCESSING | MAIL_SENT | MAIL_DEAD

text \<open>The columns \<open>ciphertext\<close>, \<open>nonce\<close> and \<open>auth_tag\<close>, which are written and erased together.\<close>

type_synonym envelope = "string \<times> string \<times> string"

record mail_job =
  mj_id :: uuid
  mj_challengeId :: uuid
  mj_status :: mail_status
  mj_envelope :: "envelope option"
  mj_attempts :: int
  mj_maxAttempts :: int
  mj_availableAt :: time
  mj_leaseId :: "uuid option"
  mj_leasedUntil :: "time option"
  mj_lastError :: "string option"
  mj_messageId :: "string option"
  mj_correlationId :: string

record portal_session =
  ss_id :: uuid
  ss_userId :: uuid
  ss_tokenHash :: string
  ss_createdAt :: time
  ss_expiresAt :: time
  ss_revokedAt :: "time option"

record verify_replay =
  rp_challengeId :: uuid
  rp_idempotency :: string
  rp_userId :: uuid
  rp_sessionId :: uuid
  rp_expiresAt :: time

record rate_bucket =
  bk_action :: string
  bk_key :: string
  bk_windowStartedAt :: time
  bk_count :: int

datatype beta_mode = MODE_CLOSED | MODE_OPEN | MODE_PAUSED

record beta_state =
  bs_mode :: beta_mode
  bs_capacity :: int
  bs_admitted :: int
  bs_revision :: int
  bs_updatedAt :: time

record invitation_row =
  iv_id :: uuid
  iv_target :: string
  iv_createHash :: string
  iv_createPayload :: string
  iv_createdBy :: uuid
  iv_createdAt :: time
  iv_expiresAt :: time
  iv_consumedAt :: "time option"
  iv_consumedUser :: "uuid option"
  iv_revokedAt :: "time option"
  iv_revokedBy :: "uuid option"
  iv_revokeHash :: "string option"
  iv_revokePayload :: "string option"

record beta_admission =
  ad_accountId :: uuid
  ad_userId :: uuid
  ad_admittedAt :: time

text \<open>The mode, capacity, admitted count and revision before and after a change.\<close>

type_synonym beta_numbers = "beta_mode \<times> int \<times> int \<times> int"

record beta_mutation =
  bm_requestHash :: string
  bm_payloadHash :: string
  bm_actor :: uuid
  bm_action :: string
  bm_old :: beta_numbers
  bm_new :: beta_numbers
  bm_newUpdatedAt :: time

record role_grant =
  gr_principalId :: uuid
  gr_role :: string
  gr_revoked :: bool

record sign_audit =
  au_actorType :: string
  au_actorId :: "uuid option"
  au_action :: string
  au_targetType :: string
  au_targetId :: "uuid option"
  au_correlationId :: string
  au_reason :: "string option"
  au_metadata :: "(string \<times> json) list"

text \<open>\<open>door_now\<close> is \<open>now()\<close>, the start of the transaction; identifiers, of the database and of \<open>randomUUID\<close>, are
  drawn from a sequence.\<close>

record door =
  users :: "user_row list"
  identities :: "identity_row list"
  homes :: "home_account list"
  owners :: "(uuid \<times> uuid) list"
  challenges :: "otp_challenge list"
  mail_jobs :: "mail_job list"
  portal_sessions :: "portal_session list"
  replays :: "verify_replay list"
  buckets :: "rate_bucket list"
  beta :: "beta_state option"
  invitations :: "invitation_row list"
  admissions :: "beta_admission list"
  beta_mutations :: "beta_mutation list"
  principals :: "(uuid \<times> bool) list"
  grants :: "role_grant list"
  door_audits :: "sign_audit list"
  door_now :: time
  door_uuids :: "nat \<Rightarrow> uuid"
  door_drawn :: nat

type_synonym 'a doortx = "(door, failure, 'a) tx"

section \<open>Look-ups\<close>

definition user_of :: "door \<Rightarrow> uuid \<Rightarrow> user_row option" where
  "user_of d i = List.find (\<lambda>r. us_id r = i) (users d)"

definition identity_of :: "door \<Rightarrow> string \<Rightarrow> identity_row option" where
  "identity_of d t = List.find (\<lambda>r. ui_identifier r = t) (identities d)"

definition challenge_of :: "door \<Rightarrow> uuid \<Rightarrow> otp_challenge option" where
  "challenge_of d i = List.find (\<lambda>r. otp_id r = i) (challenges d)"

definition invitation_of :: "door \<Rightarrow> uuid \<Rightarrow> invitation_row option" where
  "invitation_of d i = List.find (\<lambda>r. iv_id r = i) (invitations d)"

definition is_open_challenge :: "string \<Rightarrow> otp_challenge \<Rightarrow> bool" where
  "is_open_challenge target r \<longleftrightarrow> otp_target r = target \<and> otp_consumedAt r = None \<and> otp_invalidatedAt r = None"

text \<open>\<open>consumed_at IS NULL AND revoked_at IS NULL AND expires_at > clock_timestamp()\<close>\<close>

definition is_active :: "time \<Rightarrow> invitation_row \<Rightarrow> bool" where
  "is_active t r \<longleftrightarrow> iv_consumedAt r = None \<and> iv_revokedAt r = None \<and> t < iv_expiresAt r"

definition activeInvitationCount :: "door \<Rightarrow> time \<Rightarrow> int" where
  "activeInvitationCount d t = int (length (filter (is_active t) (invitations d)))"

section \<open>Constraints\<close>

definition user_accepted :: "door \<Rightarrow> user_row \<Rightarrow> bool" where
  "user_accepted d r \<longleftrightarrow> us_id r \<notin> us_id ` set (users d)"

definition home_accepted :: "door \<Rightarrow> home_account \<Rightarrow> bool" where
  "home_accepted d r \<longleftrightarrow> ha_id r \<notin> ha_id ` set (homes d)"

definition owner_accepted :: "door \<Rightarrow> uuid \<times> uuid \<Rightarrow> bool" where
  "owner_accepted d r \<longleftrightarrow> r \<notin> set (owners d) \<and> fst r \<in> ha_id ` set (homes d) \<and> snd r \<in> us_id ` set (users d)"

definition identity_accepted :: "door \<Rightarrow> identity_row \<Rightarrow> bool" where
  "identity_accepted d r \<longleftrightarrow>
     ui_identifier r \<notin> ui_identifier ` set (identities d) \<and> ui_userId r \<in> us_id ` set (users d)
     \<and> length (ui_identifier r) \<le> 320"

definition challenge_checks :: "otp_challenge \<Rightarrow> bool" where
  "challenge_checks r \<longleftrightarrow>
     0 \<le> otp_attempts r \<and> otp_attempts r \<le> otp_maxAttempts r \<and> 0 < otp_maxAttempts r \<and> int4 (otp_maxAttempts r)
     \<and> length (otp_target r) \<le> 320 \<and> length (otp_hash r) \<le> 512"

definition challenge_accepted :: "door \<Rightarrow> otp_challenge \<Rightarrow> bool" where
  "challenge_accepted d r \<longleftrightarrow> challenge_checks r \<and> otp_id r \<notin> otp_id ` set (challenges d)"

definition mail_job_checks :: "mail_job \<Rightarrow> bool" where
  "mail_job_checks r \<longleftrightarrow>
     0 \<le> mj_attempts r \<and> mj_attempts r \<le> mj_maxAttempts r \<and> 0 < mj_maxAttempts r
     \<and> length (mj_correlationId r) \<le> 128 \<and> (case mj_lastError r of None \<Rightarrow> True | Some e \<Rightarrow> length e \<le> 128)
     \<and> (case mj_messageId r of None \<Rightarrow> True | Some e \<Rightarrow> length e \<le> 512)"

definition mail_job_accepted :: "door \<Rightarrow> mail_job \<Rightarrow> bool" where
  "mail_job_accepted d r \<longleftrightarrow>
     mail_job_checks r \<and> mj_id r \<notin> mj_id ` set (mail_jobs d)
     \<and> mj_challengeId r \<notin> mj_challengeId ` set (mail_jobs d) \<and> mj_challengeId r \<in> otp_id ` set (challenges d)"

definition session_accepted :: "door \<Rightarrow> portal_session \<Rightarrow> bool" where
  "session_accepted d r \<longleftrightarrow>
     ss_id r \<notin> ss_id ` set (portal_sessions d) \<and> ss_tokenHash r \<notin> ss_tokenHash ` set (portal_sessions d)
     \<and> ss_userId r \<in> us_id ` set (users d) \<and> length (ss_tokenHash r) \<le> 512"

definition replay_accepted :: "door \<Rightarrow> verify_replay \<Rightarrow> bool" where
  "replay_accepted d r \<longleftrightarrow>
     rp_challengeId r \<notin> rp_challengeId ` set (replays d) \<and> rp_challengeId r \<in> otp_id ` set (challenges d)
     \<and> rp_userId r \<in> us_id ` set (users d) \<and> rp_sessionId r \<in> ss_id ` set (portal_sessions d)
     \<and> length (rp_idempotency r) \<le> 128"

definition beta_checks :: "beta_state \<Rightarrow> bool" where
  "beta_checks r \<longleftrightarrow>
     0 \<le> bs_capacity r \<and> int4 (bs_capacity r) \<and> 0 \<le> bs_admitted r \<and> bs_admitted r \<le> bs_capacity r
     \<and> 0 < bs_revision r \<and> int4 (bs_revision r)"

definition invitation_checks :: "invitation_row \<Rightarrow> bool" where
  "invitation_checks r \<longleftrightarrow>
     iv_createdAt r < iv_expiresAt r \<and> length (iv_target r) \<le> 320
     \<and> length (iv_createHash r) \<le> 128 \<and> length (iv_createPayload r) \<le> 128
     \<and> (iv_consumedAt r = None \<longleftrightarrow> iv_consumedUser r = None)
     \<and> (iv_revokedAt r = None \<and> iv_revokedBy r = None \<and> iv_revokeHash r = None \<and> iv_revokePayload r = None
        \<or> iv_revokedAt r \<noteq> None \<and> iv_revokedBy r \<noteq> None \<and> iv_revokeHash r \<noteq> None \<and> iv_revokePayload r \<noteq> None)
     \<and> \<not> (iv_consumedAt r \<noteq> None \<and> iv_revokedAt r \<noteq> None)
     \<and> (case iv_revokeHash r of None \<Rightarrow> True | Some h \<Rightarrow> length h \<le> 128)
     \<and> (case iv_revokePayload r of None \<Rightarrow> True | Some h \<Rightarrow> length h \<le> 128)"

text \<open>A new invitation, and a changed one, whose revocation hash must be new when it is set.\<close>

definition invitation_accepted :: "door \<Rightarrow> invitation_row \<Rightarrow> bool" where
  "invitation_accepted d r \<longleftrightarrow>
     invitation_checks r \<and> iv_id r \<notin> iv_id ` set (invitations d)
     \<and> iv_createHash r \<notin> iv_createHash ` set (invitations d) \<and> iv_createdBy r \<in> fst ` set (principals d)"

definition invitation_update_accepted :: "door \<Rightarrow> invitation_row \<Rightarrow> invitation_row \<Rightarrow> bool" where
  "invitation_update_accepted d r r' \<longleftrightarrow>
     invitation_checks r'
     \<and> (case iv_revokeHash r' of None \<Rightarrow> True
        | Some h \<Rightarrow> iv_revokeHash r = Some h \<or> Some h \<notin> iv_revokeHash ` set (invitations d))
     \<and> (case iv_revokedBy r' of None \<Rightarrow> True | Some i \<Rightarrow> i \<in> fst ` set (principals d))
     \<and> (case iv_consumedUser r' of None \<Rightarrow> True | Some i \<Rightarrow> i \<in> us_id ` set (users d))"

definition admission_accepted :: "door \<Rightarrow> beta_admission \<Rightarrow> bool" where
  "admission_accepted d r \<longleftrightarrow>
     ad_accountId r \<notin> ad_accountId ` set (admissions d) \<and> ad_userId r \<notin> ad_userId ` set (admissions d)
     \<and> ad_accountId r \<in> ha_id ` set (homes d) \<and> ad_userId r \<in> us_id ` set (users d)"

definition beta_numbers_checks :: "beta_numbers \<Rightarrow> bool" where
  "beta_numbers_checks n =
     (case n of (_, capacity, admitted, number) \<Rightarrow>
        0 \<le> capacity \<and> int4 capacity \<and> 0 \<le> admitted \<and> admitted \<le> capacity \<and> 0 < number \<and> int4 number)"

definition mutation_accepted :: "door \<Rightarrow> beta_mutation \<Rightarrow> bool" where
  "mutation_accepted d r \<longleftrightarrow>
     bm_requestHash r \<notin> bm_requestHash ` set (beta_mutations d) \<and> bm_actor r \<in> fst ` set (principals d)
     \<and> bm_action r \<in> {''OPEN'', ''PAUSE'', ''CLOSE'', ''ADD_CAPACITY'', ''SET_CAPACITY''}
     \<and> beta_numbers_checks (bm_old r) \<and> beta_numbers_checks (bm_new r)
     \<and> length (bm_requestHash r) \<le> 128 \<and> length (bm_payloadHash r) \<le> 128"

definition audit_accepted :: "sign_audit \<Rightarrow> bool" where
  "audit_accepted r \<longleftrightarrow>
     length (au_actorType r) \<le> 64 \<and> length (au_action r) \<le> 128 \<and> length (au_targetType r) \<le> 64
     \<and> length (au_correlationId r) \<le> 128 \<and> (case au_reason r of None \<Rightarrow> True | Some t \<Rightarrow> length t \<le> 512)"

section \<open>Writes\<close>

definition door_uuid :: "uuid doortx" where
  "door_uuid =
     andThen (gets (\<lambda>d. door_uuids d (door_drawn d)))
       (\<lambda>i. andThen (modify (\<lambda>d. d\<lparr>door_drawn := Suc (door_drawn d)\<rparr>)) (\<lambda>_. ret i))"

text \<open>INSERT of a row; \<open>put\<close> is the record update of the table.\<close>

definition put_row ::
  "string \<Rightarrow> (door \<Rightarrow> 'r \<Rightarrow> bool) \<Rightarrow> (('r list \<Rightarrow> 'r list) \<Rightarrow> door \<Rightarrow> door) \<Rightarrow> 'r \<Rightarrow> unit doortx" where
  "put_row table accepted put r =
     andThen (require (Violation table) (\<lambda>d. accepted d r)) (\<lambda>_. modify (put (\<lambda>t. t @ [r])))"

definition insert_user :: "user_row \<Rightarrow> unit doortx" where
  "insert_user = put_row ''users'' user_accepted users_update"

definition insert_home :: "home_account \<Rightarrow> unit doortx" where
  "insert_home = put_row ''accounts'' home_accepted homes_update"

definition insert_owner :: "uuid \<times> uuid \<Rightarrow> unit doortx" where
  "insert_owner = put_row ''account_memberships'' owner_accepted owners_update"

definition insert_identity :: "identity_row \<Rightarrow> unit doortx" where
  "insert_identity = put_row ''user_identities'' identity_accepted identities_update"

definition insert_challenge :: "otp_challenge \<Rightarrow> unit doortx" where
  "insert_challenge = put_row ''otp_challenges'' challenge_accepted challenges_update"

definition insert_mail_job :: "mail_job \<Rightarrow> unit doortx" where
  "insert_mail_job = put_row ''otp_email_jobs'' mail_job_accepted mail_jobs_update"

definition insert_session :: "portal_session \<Rightarrow> unit doortx" where
  "insert_session = put_row ''portal_sessions'' session_accepted portal_sessions_update"

definition insert_replay :: "verify_replay \<Rightarrow> unit doortx" where
  "insert_replay = put_row ''otp_verify_replays'' replay_accepted replays_update"

definition insert_invitation :: "invitation_row \<Rightarrow> unit doortx" where
  "insert_invitation = put_row ''beta_identity_invitations'' invitation_accepted invitations_update"

definition insert_admission :: "beta_admission \<Rightarrow> unit doortx" where
  "insert_admission = put_row ''beta_admissions'' admission_accepted admissions_update"

definition insert_mutation :: "beta_mutation \<Rightarrow> unit doortx" where
  "insert_mutation = put_row ''beta_admission_mutations'' mutation_accepted beta_mutations_update"

definition insert_door_audit :: "sign_audit \<Rightarrow> unit doortx" where
  "insert_door_audit = put_row ''audit_events'' (\<lambda>_. audit_accepted) door_audits_update"

text \<open>UPDATE of the admission state: the new row satisfies its checks.\<close>

definition set_beta :: "beta_state \<Rightarrow> unit doortx" where
  "set_beta b =
     andThen (require (Violation ''beta_admission_state'') (\<lambda>_. beta_checks b))
       (\<lambda>_. modify (\<lambda>d. d\<lparr>beta := Some b\<rparr>))"

definition update_invitation :: "invitation_row \<Rightarrow> (invitation_row \<Rightarrow> invitation_row) \<Rightarrow> unit doortx" where
  "update_invitation r f =
     andThen (require (Violation ''beta_identity_invitations'') (\<lambda>d. invitation_update_accepted d r (f r)))
       (\<lambda>_. modify (\<lambda>d. d\<lparr>invitations := update_where (\<lambda>x. iv_id x = iv_id r) f (invitations d)\<rparr>))"

definition update_challenge :: "otp_challenge \<Rightarrow> (otp_challenge \<Rightarrow> otp_challenge) \<Rightarrow> unit doortx" where
  "update_challenge r f =
     andThen (require (Violation ''otp_challenges'') (\<lambda>_. challenge_checks (f r)))
       (\<lambda>_. modify (\<lambda>d. d\<lparr>challenges := update_where (\<lambda>x. otp_id x = otp_id r) f (challenges d)\<rparr>))"

lemma door_uuid_Inr [simp]:
  "door_uuid d = Inr y \<longleftrightarrow> y = (door_uuids d (door_drawn d), d\<lparr>door_drawn := Suc (door_drawn d)\<rparr>)"
  by (auto simp: door_uuid_def)

lemma put_row_Inr [simp]:
  "put_row table accepted put r d = Inr y \<longleftrightarrow> accepted d r \<and> y = ((), put (\<lambda>t. t @ [r]) d)"
  by (auto simp: put_row_def andThen_Inr_iff)

lemmas insert_door_defs =
  insert_user_def insert_home_def insert_owner_def insert_identity_def insert_challenge_def insert_mail_job_def
  insert_session_def insert_replay_def insert_invitation_def insert_admission_def insert_mutation_def
  insert_door_audit_def

lemma set_beta_Inr [simp]: "set_beta b d = Inr y \<longleftrightarrow> beta_checks b \<and> y = ((), d\<lparr>beta := Some b\<rparr>)"
  by (auto simp: set_beta_def andThen_Inr_iff)

lemma update_invitation_Inr [simp]:
  "update_invitation r f d = Inr y \<longleftrightarrow> invitation_update_accepted d r (f r)
     \<and> y = ((), d\<lparr>invitations := update_where (\<lambda>x. iv_id x = iv_id r) f (invitations d)\<rparr>)"
  by (auto simp: update_invitation_def andThen_Inr_iff)

lemma update_challenge_Inr [simp]:
  "update_challenge r f d = Inr y \<longleftrightarrow> challenge_checks (f r)
     \<and> y = ((), d\<lparr>challenges := update_where (\<lambda>x. otp_id x = otp_id r) f (challenges d)\<rparr>)"
  by (auto simp: update_challenge_def andThen_Inr_iff)

end
