(* ===== verification/Beta_Admission.thy ===== *)
theory Beta_Admission
  imports Sign_In_Db Catalog_Db
begin

text \<open>
  packages/server/db/src/beta-admission-repository.ts and packages/server/beta-access/src/index.ts: the admission
  state of the beta, which an administrator opens, pauses, closes and gives a capacity, and the invitations that
  reserve a place while it is closed; with packages/server/db/src/admin-mutation-authorization.ts. \<open>ticks\<close> are the
  readings of \<open>clock_timestamp()\<close> of a transaction in their order, \<open>now\<close> is a \<open>new Date()\<close>; \<open>redact\<close> is the
  replacement of the addresses in a reason, \<open>sanitize\<close> the redaction of the feedback package.
\<close>

section \<open>Who may change the beta\<close>

definition admin_permissions :: "string list" where
  "admin_permissions =
     [''admin.principal.read'', ''admin.principal.manage'', ''admin.audit.read'', ''account.read'', ''user.read'',
      ''device.read'', ''device.revoke'', ''subscription.read'', ''subscription.grant'', ''subscription.extend'',
      ''subscription.suspend'', ''subscription.restore'', ''billing.read'', ''plan.read'', ''plan.manage'',
      ''price.read'', ''price.manage'', ''entitlement.read'', ''entitlement.override'', ''compatibility.read'',
      ''compatibility.manage'', ''ai.registry.read'', ''ai.registry.manage'', ''ai.profile.read'',
      ''ai.profile.manage'', ''ai.assignment.read'', ''ai.assignment.manage'', ''beta.admission.read'',
      ''beta.admission.manage'', ''support.case.read'', ''support.case.manage'', ''support.aggregate.read'',
      ''health.read'']"

text \<open>The permissions of a role; none of a text that is not a role.\<close>

definition role_permissions :: "string \<Rightarrow> string list" where
  "role_permissions r =
     (if r = ''ADMIN_OWNER'' then admin_permissions
      else if r = ''ADMIN_OPS'' then
        [''account.read'', ''user.read'', ''device.read'', ''device.revoke'', ''subscription.read'',
         ''subscription.grant'', ''subscription.extend'', ''subscription.suspend'', ''subscription.restore'',
         ''billing.read'', ''admin.audit.read'', ''compatibility.read'', ''ai.registry.read'',
         ''ai.registry.manage'', ''ai.profile.read'', ''ai.profile.manage'', ''ai.assignment.read'',
         ''ai.assignment.manage'', ''support.case.read'', ''support.case.manage'', ''support.aggregate.read'',
         ''health.read'']
      else if r = ''ADMIN_SUPPORT'' then
        [''account.read'', ''user.read'', ''device.read'', ''device.revoke'', ''subscription.read'',
         ''billing.read'', ''admin.audit.read'', ''ai.registry.read'', ''ai.profile.read'',
         ''ai.assignment.read'', ''beta.admission.read'', ''support.case.read'', ''support.case.manage'',
         ''support.aggregate.read'']
      else if r = ''ADMIN_BILLING_READONLY'' then
        [''account.read'', ''subscription.read'', ''billing.read'', ''admin.audit.read'']
      else if r = ''ADMIN_BETA_OPERATOR'' then [''beta.admission.read'', ''beta.admission.manage'']
      else [])"

definition permissionsForRoles :: "string list \<Rightarrow> string list" where
  "permissionsForRoles roles = sort (remdups (concat (map role_permissions roles)))"

text \<open>The principal is active and one of the roles granted to it and not revoked has the permission.\<close>

definition authorized :: "uuid \<Rightarrow> string \<Rightarrow> door \<Rightarrow> bool" where
  "authorized actor permission d \<longleftrightarrow>
     (case List.find (\<lambda>p. fst p = actor) (principals d) of
        None \<Rightarrow> False
      | Some (_, active) \<Rightarrow> active
          \<and> permission \<in> set (permissionsForRoles (map gr_role
              (filter (\<lambda>g. gr_principalId g = actor \<and> \<not> gr_revoked g) (grants d)))))"

definition beta_permission :: string where
  "beta_permission = ''beta.admission.manage''"

section \<open>Views\<close>

datatype 'a beta_result =
    BetaAPPLIED 'a bool
  | BetaSTALE
  | BetaCONFLICT
  | BetaFORBIDDEN
  | BetaCAPACITY_REACHED
  | BetaNOT_FOUND

record beta_view = beta_state +
  bs_remaining :: int

definition state_of :: "beta_state \<Rightarrow> beta_view" where
  "state_of b = beta_state.extend b \<lparr>bs_remaining = max 0 (bs_capacity b - bs_admitted b)\<rparr>"

datatype invitation_status = IV_PENDING | IV_CONSUMED | IV_REVOKED | IV_EXPIRED

record identity_invitation =
  ii_id :: uuid
  ii_status :: invitation_status
  ii_createdAt :: time
  ii_expiresAt :: time
  ii_consumedAt :: "time option"
  ii_revokedAt :: "time option"

text \<open>\<open>invitation\<close>: \<open>active\<close> is the comparison of the database where the query selects it and the one
  with \<open>at\<close> elsewhere.\<close>

definition invitation_view :: "bool \<Rightarrow> invitation_row \<Rightarrow> identity_invitation" where
  "invitation_view active r =
     \<lparr>ii_id = iv_id r,
      ii_status = (if iv_consumedAt r \<noteq> None then IV_CONSUMED
        else if iv_revokedAt r \<noteq> None then IV_REVOKED
        else if active then IV_PENDING else IV_EXPIRED),
      ii_createdAt = iv_createdAt r, ii_expiresAt = iv_expiresAt r, ii_consumedAt = iv_consumedAt r,
      ii_revokedAt = iv_revokedAt r\<rparr>"

definition readState :: "beta_view doortx" where
  "readState =
     andThen (gets beta) (\<lambda>found.
       case found of
         None \<Rightarrow> throw (Thrown ''beta admission state is not initialized'')
       | Some b \<Rightarrow> ret (state_of b))"

text \<open>\<open>resolve\<close>: the account is admitted and active.\<close>

definition betaResolve :: "door \<Rightarrow> uuid \<Rightarrow> bool" where
  "betaResolve d accountId \<longleftrightarrow>
     list_ex (\<lambda>r. ad_accountId r = accountId) (admissions d)
     \<and> list_ex (\<lambda>a. ha_id a = accountId \<and> ha_status a = ACCOUNT_ACTIVE) (homes d)"

definition readIdentityInvitation :: "door \<Rightarrow> time \<Rightarrow> uuid \<Rightarrow> identity_invitation option" where
  "readIdentityInvitation d tick i =
     map_option (\<lambda>r. invitation_view (tick < iv_expiresAt r) r) (invitation_of d i)"

definition safeInvitationAuditReason :: "(string \<Rightarrow> string) \<Rightarrow> (string \<Rightarrow> string) \<Rightarrow> string \<Rightarrow> string" where
  "safeInvitationAuditReason sanitize redact t = redact (safeAuditReason sanitize t)"

definition audit_beta ::
  "uuid \<Rightarrow> string \<Rightarrow> string \<Rightarrow> uuid option \<Rightarrow> string \<Rightarrow> string \<Rightarrow> (string \<times> json) list \<Rightarrow> unit doortx" where
  "audit_beta actor action targetType targetId correlationId reason metadata =
     insert_door_audit
       \<lparr>au_actorType = ''ADMIN'', au_actorId = Some actor, au_action = action, au_targetType = targetType,
        au_targetId = targetId, au_correlationId = correlationId, au_reason = Some reason,
        au_metadata = metadata\<rparr>"

section \<open>Invitations\<close>

record invite_input =
  vi_actor :: uuid
  vi_requestHash :: string
  vi_payloadHash :: string
  vi_correlationId :: string
  vi_expectedRevision :: int
  vi_target :: string
  vi_ttlMs :: int
  vi_reason :: string

definition new_invitation :: "invite_input \<Rightarrow> uuid \<Rightarrow> time \<Rightarrow> time \<Rightarrow> invitation_row" where
  "new_invitation input i at expires =
     \<lparr>iv_id = i, iv_target = vi_target input, iv_createHash = vi_requestHash input,
      iv_createPayload = vi_payloadHash input, iv_createdBy = vi_actor input, iv_createdAt = at,
      iv_expiresAt = expires, iv_consumedAt = None, iv_consumedUser = None, iv_revokedAt = None,
      iv_revokedBy = None, iv_revokeHash = None, iv_revokePayload = None\<rparr>"

definition write_invitation ::
  "(string \<Rightarrow> string) \<Rightarrow> (string \<Rightarrow> string) \<Rightarrow> (nat \<Rightarrow> time) \<Rightarrow> invite_input
    \<Rightarrow> identity_invitation beta_result doortx" where
  "write_invitation sanitize redact ticks input =
     andThen door_uuid (\<lambda>i.
     andThen (gets door_now) (\<lambda>at.
     let row = new_invitation input i at (ticks 3 + vi_ttlMs input) in
     andThen (insert_invitation row) (\<lambda>_.
     andThen (audit_beta (vi_actor input) ''BETA_IDENTITY_INVITED'' ''BETA_IDENTITY_INVITATION'' (Some i)
       (vi_correlationId input) (safeInvitationAuditReason sanitize redact (vi_reason input))
       [(''requestIdHash'', JStr (vi_requestHash input)),
        (''expiresAt'', JStr (toISOString (iv_expiresAt row)))]) (\<lambda>_.
     ret (BetaAPPLIED (invitation_view (ticks 4 < iv_expiresAt row) row) False)))))"

definition invite_new ::
  "(string \<Rightarrow> string) \<Rightarrow> (string \<Rightarrow> string) \<Rightarrow> (nat \<Rightarrow> time) \<Rightarrow> invite_input \<Rightarrow> beta_view
    \<Rightarrow> identity_invitation beta_result doortx" where
  "invite_new sanitize redact ticks input current =
     andThen (gets (\<lambda>d. identity_of d (vi_target input))) (\<lambda>identity.
     if identity \<noteq> None then ret BetaCONFLICT
     else if bs_revision current \<noteq> vi_expectedRevision input then ret BetaSTALE
     else if bs_mode current \<noteq> MODE_CLOSED then ret BetaCONFLICT
     else
       andThen (gets (\<lambda>d. list_ex (\<lambda>r. iv_target r = vi_target input \<and> is_active (ticks 1) r) (invitations d)))
         (\<lambda>existing.
       if existing then ret BetaCONFLICT
       else
         andThen (gets (\<lambda>d. activeInvitationCount d (ticks 2))) (\<lambda>pending.
         if bs_capacity current \<le> bs_admitted current + pending then ret BetaCAPACITY_REACHED
         else write_invitation sanitize redact ticks input)))"

definition inviteIdentity ::
  "(string \<Rightarrow> string) \<Rightarrow> (string \<Rightarrow> string) \<Rightarrow> (nat \<Rightarrow> time) \<Rightarrow> invite_input \<Rightarrow> door
    \<Rightarrow> (failure + identity_invitation beta_result) \<times> door" where
  "inviteIdentity sanitize redact ticks input =
     transaction (
       andThen (gets (authorized (vi_actor input) beta_permission)) (\<lambda>allowed.
       if \<not> allowed then ret BetaFORBIDDEN
       else
         andThen readState (\<lambda>current.
         andThen (gets (\<lambda>d. List.find (\<lambda>r. iv_createHash r = vi_requestHash input) (invitations d))) (\<lambda>prior.
           case prior of
             None \<Rightarrow> invite_new sanitize redact ticks input current
           | Some r \<Rightarrow>
               if iv_createPayload r \<noteq> vi_payloadHash input then ret BetaCONFLICT
               else ret (BetaAPPLIED (invitation_view (ticks 0 < iv_expiresAt r) r) True)))))"

record revoke_input =
  vr_actor :: uuid
  vr_invitationId :: uuid
  vr_requestHash :: string
  vr_payloadHash :: string
  vr_correlationId :: string
  vr_reason :: string

definition revoked_invitation :: "revoke_input \<Rightarrow> time \<Rightarrow> invitation_row \<Rightarrow> invitation_row" where
  "revoked_invitation input now r =
     r\<lparr>iv_revokedAt := Some now, iv_revokedBy := Some (vr_actor input),
       iv_revokeHash := Some (vr_requestHash input), iv_revokePayload := Some (vr_payloadHash input)\<rparr>"

definition revoke_locked ::
  "(string \<Rightarrow> string) \<Rightarrow> (string \<Rightarrow> string) \<Rightarrow> time \<Rightarrow> time \<Rightarrow> revoke_input
    \<Rightarrow> identity_invitation beta_result doortx" where
  "revoke_locked sanitize redact tick now input =
     andThen (gets (\<lambda>d. invitation_of d (vr_invitationId input))) (\<lambda>locked.
       case locked of
         None \<Rightarrow> ret BetaNOT_FOUND
       | Some r \<Rightarrow>
           if iv_consumedAt r \<noteq> None \<or> iv_revokedAt r \<noteq> None \<or> \<not> tick < iv_expiresAt r then ret BetaCONFLICT
           else
             andThen (update_invitation r (revoked_invitation input now)) (\<lambda>_.
             andThen (audit_beta (vr_actor input) ''BETA_IDENTITY_INVITATION_REVOKED'' ''BETA_IDENTITY_INVITATION''
               (Some (vr_invitationId input)) (vr_correlationId input)
               (safeInvitationAuditReason sanitize redact (vr_reason input))
               [(''requestIdHash'', JStr (vr_requestHash input))]) (\<lambda>_.
             ret (BetaAPPLIED (invitation_view (now < iv_expiresAt r) (revoked_invitation input now r)) False))))"

definition revokeIdentityInvitation ::
  "(string \<Rightarrow> string) \<Rightarrow> (string \<Rightarrow> string) \<Rightarrow> time \<Rightarrow> time \<Rightarrow> revoke_input \<Rightarrow> door
    \<Rightarrow> (failure + identity_invitation beta_result) \<times> door" where
  "revokeIdentityInvitation sanitize redact tick now input =
     transaction (
       andThen (gets (authorized (vr_actor input) beta_permission)) (\<lambda>allowed.
       if \<not> allowed then ret BetaFORBIDDEN
       else
         andThen (gets (\<lambda>d. invitation_of d (vr_invitationId input))) (\<lambda>target.
         if target = None then ret BetaNOT_FOUND
         else
           andThen readState (\<lambda>_.
           andThen (gets (\<lambda>d. List.find (\<lambda>r. iv_revokeHash r = Some (vr_requestHash input)) (invitations d)))
             (\<lambda>prior.
             case prior of
               None \<Rightarrow> revoke_locked sanitize redact tick now input
             | Some r \<Rightarrow>
                 if iv_id r \<noteq> vr_invitationId input \<or> iv_revokePayload r \<noteq> Some (vr_payloadHash input)
                 then ret BetaCONFLICT
                 else ret (BetaAPPLIED (invitation_view (now < iv_expiresAt r) r) True))))))"

section \<open>The mode and the capacity\<close>

datatype beta_action = OPEN_BETA | PAUSE_BETA | CLOSE_BETA | ADD_CAPACITY | SET_CAPACITY

fun action_text :: "beta_action \<Rightarrow> string" where
  "action_text OPEN_BETA = ''OPEN''"
| "action_text PAUSE_BETA = ''PAUSE''"
| "action_text CLOSE_BETA = ''CLOSE''"
| "action_text ADD_CAPACITY = ''ADD_CAPACITY''"
| "action_text SET_CAPACITY = ''SET_CAPACITY''"

fun mode_text :: "beta_mode \<Rightarrow> string" where
  "mode_text MODE_CLOSED = ''CLOSED''"
| "mode_text MODE_OPEN = ''OPEN''"
| "mode_text MODE_PAUSED = ''PAUSED''"

record beta_input =
  mi_actor :: uuid
  mi_requestHash :: string
  mi_payloadHash :: string
  mi_correlationId :: string
  mi_expectedRevision :: int
  mi_action :: beta_action
  mi_amount :: "int option"
  mi_capacity :: "int option"
  mi_reason :: string

definition new_mode :: "beta_action \<Rightarrow> beta_mode \<Rightarrow> beta_mode" where
  "new_mode action mode =
     (case action of OPEN_BETA \<Rightarrow> MODE_OPEN | PAUSE_BETA \<Rightarrow> MODE_PAUSED | CLOSE_BETA \<Rightarrow> MODE_CLOSED | _ \<Rightarrow> mode)"

definition new_capacity :: "beta_action \<Rightarrow> int option \<Rightarrow> int option \<Rightarrow> int \<Rightarrow> int" where
  "new_capacity action amount capacity current =
     (case action of
        ADD_CAPACITY \<Rightarrow> current + (case amount of None \<Rightarrow> 0 | Some n \<Rightarrow> n)
      | SET_CAPACITY \<Rightarrow> (case capacity of None \<Rightarrow> current | Some n \<Rightarrow> n)
      | _ \<Rightarrow> current)"

definition numbers_of :: "beta_state \<Rightarrow> beta_numbers" where
  "numbers_of b = (bs_mode b, bs_capacity b, bs_admitted b, bs_revision b)"

definition numbers_json :: "beta_numbers \<Rightarrow> json" where
  "numbers_json n =
     (case n of (mode, capacity, admitted, number) \<Rightarrow>
        JObj [(''mode'', JStr (mode_text mode)), (''capacity'', JInt capacity), (''admitted'', JInt admitted),
          (''revision'', JInt number)])"

text \<open>The state recorded by an earlier application of the same request.\<close>

definition recorded_state :: "beta_mutation \<Rightarrow> beta_view" where
  "recorded_state m =
     (case bm_new m of (mode, capacity, admitted, number) \<Rightarrow>
        state_of \<lparr>bs_mode = mode, bs_capacity = capacity, bs_admitted = admitted, bs_revision = number,
          bs_updatedAt = bm_newUpdatedAt m\<rparr>)"

definition write_mutation ::
  "(string \<Rightarrow> string) \<Rightarrow> time \<Rightarrow> beta_input \<Rightarrow> beta_state \<Rightarrow> int \<Rightarrow> beta_view beta_result doortx" where
  "write_mutation sanitize now input current newCapacity =
     (let next = current\<lparr>bs_mode := new_mode (mi_action input) (bs_mode current), bs_capacity := newCapacity,
            bs_revision := bs_revision current + 1, bs_updatedAt := now\<rparr> in
      andThen (set_beta next) (\<lambda>_.
      andThen (insert_mutation
        \<lparr>bm_requestHash = mi_requestHash input, bm_payloadHash = mi_payloadHash input,
         bm_actor = mi_actor input, bm_action = action_text (mi_action input),
         bm_old = numbers_of current, bm_new = numbers_of next, bm_newUpdatedAt = bs_updatedAt next\<rparr>) (\<lambda>_.
      andThen (audit_beta (mi_actor input) ''BETA_ADMISSION_CHANGED'' ''BETA_ADMISSION_STATE'' None
        (mi_correlationId input) (safeAuditReason sanitize (mi_reason input))
        [(''action'', JStr (action_text (mi_action input))), (''requestIdHash'', JStr (mi_requestHash input)),
         (''old'', numbers_json (numbers_of current)), (''new'', numbers_json (numbers_of next))]) (\<lambda>_.
      ret (BetaAPPLIED (state_of next) False)))))"

definition mutate_new ::
  "(string \<Rightarrow> string) \<Rightarrow> time \<Rightarrow> time \<Rightarrow> beta_input \<Rightarrow> beta_state \<Rightarrow> beta_view beta_result doortx" where
  "mutate_new sanitize tick now input current =
     (if bs_revision current \<noteq> mi_expectedRevision input then ret BetaSTALE
      else
        let newCapacity = new_capacity (mi_action input) (mi_amount input) (mi_capacity input) (bs_capacity current) in
        andThen (gets (\<lambda>d. activeInvitationCount d tick)) (\<lambda>pending.
        if \<not> safe_integer newCapacity \<or> newCapacity < bs_admitted current + pending \<or> 2147483647 < newCapacity
        then ret BetaCONFLICT
        else write_mutation sanitize now input current newCapacity))"

definition mutate_beta ::
  "(string \<Rightarrow> string) \<Rightarrow> time \<Rightarrow> time \<Rightarrow> beta_input \<Rightarrow> door \<Rightarrow> (failure + beta_view beta_result) \<times> door" where
  "mutate_beta sanitize tick now input =
     transaction (
       andThen (gets (authorized (mi_actor input) beta_permission)) (\<lambda>allowed.
       if \<not> allowed then ret BetaFORBIDDEN
       else
         andThen readState (\<lambda>current.
         andThen (gets (\<lambda>d. List.find (\<lambda>m. bm_requestHash m = mi_requestHash input) (beta_mutations d))) (\<lambda>prior.
           case prior of
             None \<Rightarrow> mutate_new sanitize tick now input (beta_state.truncate current)
           | Some m \<Rightarrow>
               if bm_payloadHash m \<noteq> mi_payloadHash input then ret BetaCONFLICT
               else ret (BetaAPPLIED (recorded_state m) True)))))"

section \<open>The service\<close>

definition safeBetaInteger :: "int \<Rightarrow> bool" where
  "safeBetaInteger n \<longleftrightarrow> safe_integer n \<and> 0 \<le> n \<and> n \<le> 2147483647"

text \<open>\<open>H\<close> is the SHA-256 digest in base64url.\<close>

definition beta_digest :: "(string \<Rightarrow> string) \<Rightarrow> string \<Rightarrow> string \<Rightarrow> string" where
  "beta_digest H label value = ''v1:'' @ H (label @ '':'' @ value)"

record beta_request =
  br_actor :: uuid
  br_requestId :: string
  br_correlationId :: string
  br_expectedRevision :: int
  br_action :: beta_action
  br_amount :: "int option"
  br_capacity :: "int option"
  br_reason :: string

definition betaPayloadHash :: "(string \<Rightarrow> string) \<Rightarrow> beta_request \<Rightarrow> string" where
  "betaPayloadHash H r =
     beta_digest H ''beta-admin-payload'' (json_text (JObj
       [(''requestId'', JStr (br_requestId r)), (''expectedRevision'', JInt (br_expectedRevision r)),
        (''action'', JStr (action_text (br_action r))), (''amount'', opt_json JInt (br_amount r)),
        (''capacity'', opt_json JInt (br_capacity r)), (''reason'', JStr (br_reason r))]))"

definition betaService ::
  "(string \<Rightarrow> string) \<Rightarrow> (string \<Rightarrow> string) \<Rightarrow> time \<Rightarrow> time \<Rightarrow> beta_request \<Rightarrow> door
    \<Rightarrow> (failure + beta_view beta_result) \<times> door" where
  "betaService H sanitize tick now r d =
     (if \<not> safeBetaInteger (br_expectedRevision r) \<or> br_expectedRevision r < 1 then (Inr BetaCONFLICT, d)
      else if br_action r = ADD_CAPACITY
              \<and> (case br_amount r of None \<Rightarrow> True | Some n \<Rightarrow> \<not> safeBetaInteger n \<or> n < 1)
      then (Inr BetaCONFLICT, d)
      else if br_action r = SET_CAPACITY
              \<and> (case br_capacity r of None \<Rightarrow> True | Some n \<Rightarrow> \<not> safeBetaInteger n)
      then (Inr BetaCONFLICT, d)
      else mutate_beta sanitize tick now
        \<lparr>mi_actor = br_actor r, mi_requestHash = beta_digest H ''beta-admin-request-id'' (br_requestId r),
         mi_payloadHash = betaPayloadHash H r, mi_correlationId = br_correlationId r,
         mi_expectedRevision = br_expectedRevision r, mi_action = br_action r, mi_amount = br_amount r,
         mi_capacity = br_capacity r, mi_reason = br_reason r\<rparr> d)"

definition invitation_ttl_ms :: int where
  "invitation_ttl_ms = 24 * 60 * 60000"

record invitation_request =
  ir_actor :: uuid
  ir_requestId :: string
  ir_correlationId :: string
  ir_expectedRevision :: int
  ir_target :: string
  ir_reason :: string

text \<open>\<open>valid_email\<close> is \<open>validNormalizedEmail\<close>, which asks the package tr46 for the DNS form of the domain.\<close>

definition createIdentityInvitation ::
  "(string \<Rightarrow> bool) \<Rightarrow> (string \<Rightarrow> string) \<Rightarrow> (string \<Rightarrow> string) \<Rightarrow> (string \<Rightarrow> string) \<Rightarrow> (nat \<Rightarrow> time)
    \<Rightarrow> invitation_request \<Rightarrow> door \<Rightarrow> (failure + identity_invitation beta_result) \<times> door" where
  "createIdentityInvitation valid_email H sanitize redact ticks r d =
     (if \<not> safeBetaInteger (ir_expectedRevision r) \<or> ir_expectedRevision r < 1 \<or> \<not> valid_email (ir_target r)
      then (Inr BetaCONFLICT, d)
      else inviteIdentity sanitize redact ticks
        \<lparr>vi_actor = ir_actor r,
         vi_requestHash = beta_digest H ''beta-invitation-request-id'' (ir_requestId r),
         vi_payloadHash = beta_digest H ''beta-invitation-create-payload'' (json_text (JObj
           [(''requestId'', JStr (ir_requestId r)), (''expectedRevision'', JInt (ir_expectedRevision r)),
            (''normalizedIdentityTarget'', JStr (ir_target r)), (''reason'', JStr (ir_reason r))])),
         vi_correlationId = ir_correlationId r, vi_expectedRevision = ir_expectedRevision r,
         vi_target = ir_target r, vi_ttlMs = invitation_ttl_ms, vi_reason = ir_reason r\<rparr> d)"

text \<open>The pattern of an identifier, in either case.\<close>

definition hex_char :: "char \<Rightarrow> bool" where
  "hex_char c \<longleftrightarrow> c \<in> set ''0123456789abcdefABCDEF''"

definition uuid_format :: "string \<Rightarrow> bool" where
  "uuid_format s \<longleftrightarrow>
     length s = 36
     \<and> list_all (\<lambda>(i, c). if i \<in> {8, 13, 18, 23} then c = CHR ''-''
         else if i = 14 then c \<in> set ''12345678''
         else if i = 19 then c \<in> set ''89abAB'' else hex_char c) (enumerate 0 s)"

definition revokeInvitationService ::
  "(string \<Rightarrow> string) \<Rightarrow> (string \<Rightarrow> string) \<Rightarrow> (string \<Rightarrow> string) \<Rightarrow> time \<Rightarrow> time \<Rightarrow> uuid \<Rightarrow> uuid \<Rightarrow> string \<Rightarrow> string
    \<Rightarrow> string \<Rightarrow> door \<Rightarrow> (failure + identity_invitation beta_result) \<times> door" where
  "revokeInvitationService H sanitize redact tick now actor invitationId requestId correlationId reason d =
     (if \<not> uuid_format invitationId then (Inr BetaNOT_FOUND, d)
      else revokeIdentityInvitation sanitize redact tick now
        \<lparr>vr_actor = actor, vr_invitationId = invitationId,
         vr_requestHash = beta_digest H ''beta-invitation-request-id'' requestId,
         vr_payloadHash = beta_digest H ''beta-invitation-revoke-payload'' (json_text (JObj
           [(''invitationId'', JStr invitationId), (''requestId'', JStr requestId), (''reason'', JStr reason)])),
         vr_correlationId = correlationId, vr_reason = reason\<rparr> d)"

end
