(* ===== verification/Sign_In.thy ===== *)
theory Sign_In
  imports Beta_Admission "HOL-Library.Product_Lexorder"
begin

text \<open>
  packages/server/db/src/auth-repository.ts and packages/server/auth/src/index.ts: the request of a one-time code, its
  verification, which admits a new identity to the beta and opens a portal session, the sessions and their revocation.
  \<open>js\<close> are the readings of \<open>new Date()\<close> of an operation and \<open>ticks\<close> those of \<open>clock_timestamp()\<close>, one for each
  statement that asks for it, in their order. \<open>mac\<close> is HMAC-SHA-256 in base64url and \<open>seal\<close> the AES-256-GCM
  encryption with its random nonce; the random identifiers and tokens of the service are arguments. Texts are ASCII,
  where the Unicode normal form is the text itself.
\<close>

section \<open>Results\<close>

datatype auth_failure =
  AUTH_RATE_LIMITED | AUTH_OTP_INVALID | AUTH_LOGIN_DENIED | BETA_CLOSED | BETA_CAPACITY_REACHED

type_synonym 'a auth_result = "auth_failure + 'a"

definition fail_with :: "auth_failure \<Rightarrow> 'a auth_result doortx" where
  "fail_with code = ret (Inl code)"

definition sign_event ::
  "string \<Rightarrow> uuid option \<Rightarrow> string \<Rightarrow> string \<Rightarrow> uuid option \<Rightarrow> string \<Rightarrow> string option
    \<Rightarrow> (string \<times> json) list \<Rightarrow> unit doortx" where
  "sign_event actorType actorId action targetType targetId correlationId reason metadata =
     insert_door_audit
       \<lparr>au_actorType = actorType, au_actorId = actorId, au_action = action, au_targetType = targetType,
        au_targetId = targetId, au_correlationId = correlationId, au_reason = reason, au_metadata = metadata\<rparr>"

section \<open>Rate limits\<close>

definition windowMs :: int where
  "windowMs = 15 * 60000"

definition window_start :: "time \<Rightarrow> time" where
  "window_start now = now div windowMs * windowMs"

definition counted :: "time \<Rightarrow> rate_bucket \<Rightarrow> rate_bucket" where
  "counted now b =
     b\<lparr>bk_count := (if bk_windowStartedAt b = window_start now then min (bk_count b + 1) 1000000 else 1),
       bk_windowStartedAt := window_start now\<rparr>"

definition consume :: "time \<Rightarrow> string \<Rightarrow> string \<Rightarrow> int \<Rightarrow> bool doortx" where
  "consume now action key limit =
     andThen (gets (\<lambda>d. List.find (\<lambda>b. bk_action b = action \<and> bk_key b = key) (buckets d))) (\<lambda>found.
       case found of
         None \<Rightarrow>
           andThen (require (Violation ''auth_rate_limit_buckets'') (\<lambda>_. length action \<le> 64 \<and> length key \<le> 128))
             (\<lambda>_. andThen (modify (\<lambda>d. d\<lparr>buckets := buckets d @
               [\<lparr>bk_action = action, bk_key = key, bk_windowStartedAt = window_start now, bk_count = 1\<rparr>]\<rparr>))
             (\<lambda>_. ret (1 \<le> limit)))
       | Some b \<Rightarrow>
           andThen (modify (\<lambda>d. d\<lparr>buckets :=
             update_where (\<lambda>x. bk_action x = action \<and> bk_key x = key) (counted now) (buckets d)\<rparr>))
           (\<lambda>_. ret (bk_count (counted now b) \<le> limit)))"

section \<open>The request of a code\<close>

record otp_request =
  oq_email :: string
  oq_ipKey :: string
  oq_targetKey :: string
  oq_correlationId :: string
  oq_challengeId :: uuid
  oq_verificationHash :: string
  oq_envelope :: envelope
  oq_expiresAt :: time

definition dead_job :: "mail_job \<Rightarrow> mail_job" where
  "dead_job j = j\<lparr>mj_status := MAIL_DEAD, mj_envelope := None, mj_leaseId := None, mj_leasedUntil := None\<rparr>"

text \<open>The codes of the identity that could still be used are superseded and their mail is not sent.\<close>

definition supersede :: "string \<Rightarrow> time \<Rightarrow> unit doortx" where
  "supersede email now =
     andThen (gets (\<lambda>d. map otp_id (filter (is_open_challenge email) (challenges d)))) (\<lambda>open_ids.
     andThen (modify (\<lambda>d. d\<lparr>mail_jobs :=
       update_where (\<lambda>j. mj_challengeId j \<in> set open_ids) dead_job (mail_jobs d)\<rparr>)) (\<lambda>_.
     modify (\<lambda>d. d\<lparr>challenges :=
       update_where (is_open_challenge email) (\<lambda>r. r\<lparr>otp_invalidatedAt := Some now\<rparr>) (challenges d)\<rparr>)))"

definition issue_code :: "otp_request \<Rightarrow> (uuid \<times> time) auth_result doortx" where
  "issue_code input =
     andThen (gets door_now) (\<lambda>at.
     andThen (insert_challenge
       \<lparr>otp_id = oq_challengeId input, otp_target = oq_email input, otp_hash = oq_verificationHash input,
        otp_attempts = 0, otp_maxAttempts = 5, otp_expiresAt = oq_expiresAt input, otp_consumedAt = None,
        otp_invalidatedAt = None, otp_createdAt = at\<rparr>) (\<lambda>_.
     andThen door_uuid (\<lambda>jobId.
     andThen (insert_mail_job
       \<lparr>mj_id = jobId, mj_challengeId = oq_challengeId input, mj_status = MAIL_PENDING,
        mj_envelope = Some (oq_envelope input), mj_attempts = 0, mj_maxAttempts = 5, mj_availableAt = at,
        mj_leaseId = None, mj_leasedUntil = None, mj_lastError = None, mj_messageId = None,
        mj_correlationId = oq_correlationId input\<rparr>) (\<lambda>_.
     andThen (sign_event ''ANONYMOUS'' None ''AUTH_OTP_REQUESTED'' ''OTP'' (Some (oq_challengeId input))
       (oq_correlationId input) None [(''purpose'', JStr ''LOGIN''), (''jobId'', JStr jobId)]) (\<lambda>_.
     ret (Inr (oq_challengeId input, oq_expiresAt input)))))))"

definition requestOtp ::
  "(nat \<Rightarrow> time) \<Rightarrow> otp_request \<Rightarrow> door \<Rightarrow> (failure + (uuid \<times> time) auth_result) \<times> door" where
  "requestOtp js input =
     transaction (
       let now = js 0 in
       andThen (consume (js 1) ''OTP_REQUEST_TARGET'' (oq_targetKey input) 3) (\<lambda>target.
       andThen (consume (js 2) ''OTP_REQUEST_IP'' (oq_ipKey input) 20) (\<lambda>ip.
       andThen (gets (\<lambda>d. list_ex (\<lambda>r. is_open_challenge (oq_email input) r \<and> now - 60000 < otp_createdAt r)
         (challenges d))) (\<lambda>cooldown.
       if \<not> target \<or> \<not> ip \<or> cooldown then
         andThen (sign_event ''ANONYMOUS'' None ''AUTH_OTP_RATE_LIMITED'' ''OTP'' None (oq_correlationId input)
           (Some ''AUTH_RATE_LIMITED'') []) (\<lambda>_. fail_with AUTH_RATE_LIMITED)
       else andThen (supersede (oq_email input) now) (\<lambda>_. issue_code input)))))"

section \<open>The admission of a new identity\<close>

text \<open>The place of an identity: its own invitation, or a seat that no invitation reserves.\<close>

definition invited_of :: "time \<Rightarrow> string \<Rightarrow> door \<Rightarrow> invitation_row list" where
  "invited_of tick target d = filter (\<lambda>r. iv_target r = target \<and> is_active tick r) (invitations d)"

definition first_invited :: "time \<Rightarrow> string \<Rightarrow> invitation_row option doortx" where
  "first_invited tick target =
     andThen (gets (invited_of tick target)) (\<lambda>found.
       if 1 < length found then throw (Thrown ''multiple active beta identity invitations'')
       else ret (case found of [] \<Rightarrow> None | r # _ \<Rightarrow> Some r))"

definition admission_refusal :: "time \<Rightarrow> beta_state \<Rightarrow> bool \<Rightarrow> door \<Rightarrow> auth_failure option" where
  "admission_refusal tick b invited d =
     (if bs_mode b = MODE_PAUSED \<or> bs_mode b = MODE_CLOSED \<and> \<not> invited then Some BETA_CLOSED
      else if invited then (if bs_capacity b \<le> bs_admitted b then Some BETA_CAPACITY_REACHED else None)
      else if bs_capacity b \<le> bs_admitted b + activeInvitationCount d tick then Some BETA_CAPACITY_REACHED
      else None)"

definition consumed_invitation :: "time \<Rightarrow> uuid \<Rightarrow> invitation_row \<Rightarrow> invitation_row" where
  "consumed_invitation tick userId r = r\<lparr>iv_consumedAt := Some tick, iv_consumedUser := Some userId\<rparr>"

definition consume_invitation :: "time \<Rightarrow> time \<Rightarrow> uuid \<Rightarrow> string \<Rightarrow> uuid \<Rightarrow> unit doortx" where
  "consume_invitation tick tick' i correlationId userId =
     andThen (gets (\<lambda>d. invitation_of d i)) (\<lambda>found.
       case found of
         None \<Rightarrow> throw (Thrown ''beta identity invitation changed unexpectedly'')
       | Some r \<Rightarrow>
           if \<not> is_active tick r then throw (Thrown ''beta identity invitation changed unexpectedly'')
           else
             andThen (update_invitation r (consumed_invitation tick' userId)) (\<lambda>_.
             sign_event ''USER'' (Some userId) ''BETA_IDENTITY_INVITATION_CONSUMED'' ''BETA_IDENTITY_INVITATION''
               (Some i) correlationId None [(''accessBasis'', JStr ''TARGETED_INVITATION'')]))"

definition take_seat :: "time \<Rightarrow> unit doortx" where
  "take_seat now =
     andThen (gets beta) (\<lambda>found.
       case found of
         None \<Rightarrow> throw (Thrown ''beta admission state changed unexpectedly'')
       | Some b \<Rightarrow>
           if bs_admitted b < bs_capacity b
           then set_beta (b\<lparr>bs_admitted := bs_admitted b + 1, bs_updatedAt := now\<rparr>)
           else throw (Thrown ''beta admission state changed unexpectedly''))"

definition create_user :: "string \<Rightarrow> time \<Rightarrow> uuid \<Rightarrow> uuid \<Rightarrow> unit doortx" where
  "create_user target now userId accountId =
     andThen (insert_user \<lparr>us_id = userId, us_status = USER_ACTIVE\<rparr>) (\<lambda>_.
     andThen (gets door_now) (\<lambda>at.
     andThen (insert_home
       \<lparr>ha_id = accountId, ha_status = ACCOUNT_ACTIVE, ha_displayName = None, ha_createdAt = at\<rparr>) (\<lambda>_.
     andThen (insert_owner (accountId, userId)) (\<lambda>_.
     andThen (insert_identity \<lparr>ui_userId = userId, ui_identifier = target, ui_verifiedAt = now\<rparr>) (\<lambda>_.
     insert_admission \<lparr>ad_accountId = accountId, ad_userId = userId, ad_admittedAt = now\<rparr>)))))"

definition admit_new ::
  "(nat \<Rightarrow> time) \<Rightarrow> time \<Rightarrow> string \<Rightarrow> string \<Rightarrow> invitation_row option \<Rightarrow> uuid doortx" where
  "admit_new ticks now target correlationId invited =
     andThen door_uuid (\<lambda>userId.
     andThen door_uuid (\<lambda>accountId.
     andThen (create_user target now userId accountId) (\<lambda>_.
     andThen (take_seat now) (\<lambda>_.
     andThen (case invited of None \<Rightarrow> ret ()
       | Some r \<Rightarrow> consume_invitation (ticks 2) (ticks 3) (iv_id r) correlationId userId) (\<lambda>_.
     andThen (sign_event ''SYSTEM'' (Some userId) ''AUTH_IDENTITY_CREATED'' ''USER'' (Some userId) correlationId
       None []) (\<lambda>_.
     andThen (sign_event ''SYSTEM'' None ''BETA_ACCOUNT_ADMITTED'' ''ACCOUNT'' (Some accountId) correlationId None
       [(''accessBasis'', JStr (if invited \<noteq> None then ''TARGETED_INVITATION'' else ''BETA''))]) (\<lambda>_.
     ret userId)))))))"

definition admit_identity :: "(nat \<Rightarrow> time) \<Rightarrow> time \<Rightarrow> string \<Rightarrow> string \<Rightarrow> uuid auth_result doortx" where
  "admit_identity ticks now target correlationId =
     andThen (gets beta) (\<lambda>found.
       case found of
         None \<Rightarrow> throw (Thrown ''beta admission state is not initialized'')
       | Some b \<Rightarrow>
           andThen (first_invited (ticks 0) target) (\<lambda>invited.
           andThen (gets (admission_refusal (ticks 1) b (invited \<noteq> None))) (\<lambda>refusal.
             case refusal of
               Some code \<Rightarrow> fail_with code
             | None \<Rightarrow>
                 andThen (admit_new ticks now target correlationId invited) (\<lambda>userId. ret (Inr userId)))))"

section \<open>The verification of a code\<close>

record otp_verification =
  vq_challengeId :: uuid
  vq_ipKey :: string
  vq_correlationId :: string
  vq_idempotencyHash :: string
  vq_verify :: "string \<Rightarrow> string \<Rightarrow> bool"
  vq_sessionHash :: string
  vq_expiresAt :: time

definition known_user :: "door \<Rightarrow> string \<Rightarrow> user_row option" where
  "known_user d target = (case identity_of d target of None \<Rightarrow> None | Some r \<Rightarrow> user_of d (ui_userId r))"

definition right_code :: "otp_verification \<Rightarrow> otp_challenge \<Rightarrow> bool" where
  "right_code input c \<longleftrightarrow> vq_verify input (otp_target c) (otp_hash c)"

definition audit_wrong_code :: "otp_verification \<Rightarrow> otp_challenge \<Rightarrow> 'a auth_result doortx" where
  "audit_wrong_code input c =
     andThen (sign_event ''ANONYMOUS'' None ''AUTH_OTP_VERIFY_FAILED'' ''OTP'' (Some (otp_id c))
       (vq_correlationId input) (Some ''AUTH_OTP_INVALID'') []) (\<lambda>_. fail_with AUTH_OTP_INVALID)"

text \<open>The session that the code opened, for the same idempotency key.\<close>

definition replayed_session :: "otp_verification \<Rightarrow> door \<Rightarrow> portal_session option" where
  "replayed_session input d =
     (case List.find (\<lambda>r. rp_challengeId r = vq_challengeId input \<and> rp_idempotency r = vq_idempotencyHash input)
         (replays d) of
        None \<Rightarrow> None
      | Some r \<Rightarrow>
          List.find (\<lambda>s. ss_id s = rp_sessionId r \<and> ss_revokedAt s = None \<and> door_now d < ss_expiresAt s
            \<and> list_ex (\<lambda>u. us_id u = rp_userId r \<and> us_status u = USER_ACTIVE) (users d)) (portal_sessions d))"

definition verify_consumed :: "otp_verification \<Rightarrow> otp_challenge \<Rightarrow> time auth_result doortx" where
  "verify_consumed input c =
     (if \<not> right_code input c then audit_wrong_code input c
      else
        andThen (gets (replayed_session input)) (\<lambda>found.
          case found of Some s \<Rightarrow> ret (Inr (ss_expiresAt s)) | None \<Rightarrow> fail_with AUTH_OTP_INVALID))"

definition open_session :: "otp_verification \<Rightarrow> otp_challenge \<Rightarrow> uuid \<Rightarrow> time auth_result doortx" where
  "open_session input c userId =
     andThen door_uuid (\<lambda>sessionId.
     andThen (gets door_now) (\<lambda>at.
     andThen (insert_session
       \<lparr>ss_id = sessionId, ss_userId = userId, ss_tokenHash = vq_sessionHash input, ss_createdAt = at,
        ss_expiresAt = vq_expiresAt input, ss_revokedAt = None\<rparr>) (\<lambda>_.
     andThen (insert_replay
       \<lparr>rp_challengeId = otp_id c, rp_idempotency = vq_idempotencyHash input, rp_userId = userId,
        rp_sessionId = sessionId, rp_expiresAt = vq_expiresAt input\<rparr>) (\<lambda>_.
     andThen (sign_event ''USER'' (Some userId) ''AUTH_OTP_VERIFIED'' ''OTP'' (Some (otp_id c))
       (vq_correlationId input) None []) (\<lambda>_.
     andThen (sign_event ''USER'' (Some userId) ''PORTAL_SESSION_CREATED'' ''PORTAL_SESSION'' (Some sessionId)
       (vq_correlationId input) None []) (\<lambda>_.
     ret (Inr (vq_expiresAt input))))))))"

definition sign_in_user ::
  "(nat \<Rightarrow> time) \<Rightarrow> time \<Rightarrow> otp_verification \<Rightarrow> otp_challenge \<Rightarrow> uuid auth_result doortx" where
  "sign_in_user ticks now input c =
     andThen (gets (\<lambda>d. known_user d (otp_target c))) (\<lambda>known.
       case known of
         None \<Rightarrow> admit_identity ticks now (otp_target c) (vq_correlationId input)
       | Some u \<Rightarrow>
           if us_status u = USER_SUSPENDED then
             andThen (sign_event ''SYSTEM'' (Some (us_id u)) ''AUTH_LOGIN_DENIED'' ''USER'' (Some (us_id u))
               (vq_correlationId input) (Some ''AUTH_LOGIN_DENIED'') []) (\<lambda>_. fail_with AUTH_LOGIN_DENIED)
           else ret (Inr (us_id u)))"

definition verify_fresh ::
  "(nat \<Rightarrow> time) \<Rightarrow> time \<Rightarrow> time \<Rightarrow> otp_verification \<Rightarrow> otp_challenge \<Rightarrow> time auth_result doortx" where
  "verify_fresh ticks now admissionNow input c =
     (if otp_invalidatedAt c \<noteq> None \<or> otp_expiresAt c \<le> now \<or> otp_maxAttempts c \<le> otp_attempts c
      then fail_with AUTH_OTP_INVALID
      else if \<not> right_code input c then
        andThen (update_challenge c (\<lambda>r. r\<lparr>otp_attempts := min (otp_attempts r + 1) (otp_maxAttempts r)\<rparr>))
          (\<lambda>_. audit_wrong_code input c)
      else
        andThen (update_challenge c (\<lambda>r. r\<lparr>otp_consumedAt := Some now\<rparr>)) (\<lambda>_.
        andThen (sign_in_user ticks admissionNow input c) (\<lambda>user.
          case user of Inl code \<Rightarrow> fail_with code | Inr userId \<Rightarrow> open_session input c userId)))"

definition verifyOtp ::
  "(nat \<Rightarrow> time) \<Rightarrow> (nat \<Rightarrow> time) \<Rightarrow> otp_verification \<Rightarrow> door \<Rightarrow> (failure + time auth_result) \<times> door" where
  "verifyOtp js ticks input =
     transaction (
       andThen (consume (js 0) ''OTP_VERIFY_IP'' (vq_ipKey input) 30) (\<lambda>allowed.
       if \<not> allowed then fail_with AUTH_RATE_LIMITED
       else
         andThen (gets (\<lambda>d. challenge_of d (vq_challengeId input))) (\<lambda>found.
           case found of
             None \<Rightarrow> fail_with AUTH_OTP_INVALID
           | Some c \<Rightarrow>
               if otp_consumedAt c \<noteq> None then verify_consumed input c
               else verify_fresh ticks (js 1) (js 2) input c)))"

section \<open>Sessions\<close>

definition authenticate :: "door \<Rightarrow> string \<Rightarrow> portal_session option" where
  "authenticate d hash =
     List.find (\<lambda>s. ss_tokenHash s = hash \<and> ss_revokedAt s = None \<and> door_now d < ss_expiresAt s
       \<and> list_ex (\<lambda>u. us_id u = ss_userId s \<and> us_status u = USER_ACTIVE) (users d)) (portal_sessions d)"

definition revocable :: "string \<Rightarrow> time \<Rightarrow> portal_session \<Rightarrow> bool" where
  "revocable hash at s \<longleftrightarrow> ss_tokenHash s = hash \<and> ss_revokedAt s = None \<and> at < ss_expiresAt s"

text \<open>True for \<open>revoked\<close>, False for \<open>missing\<close>.\<close>

definition revoke_session :: "string \<Rightarrow> string \<Rightarrow> door \<Rightarrow> (failure + bool) \<times> door" where
  "revoke_session hash correlationId =
     transaction (
       andThen (gets door_now) (\<lambda>at.
       andThen (gets (\<lambda>d. List.find (revocable hash at) (portal_sessions d))) (\<lambda>found.
         case found of
           None \<Rightarrow> ret False
         | Some s \<Rightarrow>
             andThen (modify (\<lambda>d. d\<lparr>portal_sessions :=
               update_where (revocable hash at) (\<lambda>x. x\<lparr>ss_revokedAt := Some at\<rparr>) (portal_sessions d)\<rparr>)) (\<lambda>_.
             andThen (sign_event ''USER'' (Some (ss_userId s)) ''PORTAL_SESSION_REVOKED'' ''PORTAL_SESSION''
               (Some (ss_id s)) correlationId None []) (\<lambda>_.
             ret True)))))"

definition listOwnedAccounts :: "door \<Rightarrow> uuid \<Rightarrow> (uuid \<times> string option \<times> account_status) list" where
  "listOwnedAccounts d userId =
     map (\<lambda>a. (ha_id a, ha_displayName a, ha_status a))
       (sort_key (\<lambda>a. (ha_createdAt a, ha_id a)) (filter (\<lambda>a. (ha_id a, userId) \<in> set (owners d)) (homes d)))"

section \<open>The service\<close>

definition OTP_TTL_MS :: int where "OTP_TTL_MS = 10 * 60000"

definition PORTAL_SESSION_TTL_MS :: int where "PORTAL_SESSION_TTL_MS = 7 * 24 * 60 * 60000"

definition ascii_space :: "char \<Rightarrow> bool" where
  "ascii_space c \<longleftrightarrow> of_char c \<in> {9, 10, 11, 12, 13, 32 :: nat}"

definition trim_text :: "string \<Rightarrow> string" where
  "trim_text s = rev (dropWhile ascii_space (rev (dropWhile ascii_space s)))"

definition lower_char :: "char \<Rightarrow> char" where
  "lower_char c = (if 65 \<le> (of_char c :: nat) \<and> of_char c \<le> (90 :: nat) then char_of (of_char c + 32 :: nat) else c)"

fun split_at :: "char \<Rightarrow> string \<Rightarrow> string list" where
  "split_at c [] = [[]]"
| "split_at c (x # xs) =
     (if x = c then [] # split_at c xs
      else case split_at c xs of [] \<Rightarrow> [[x]] | y # ys \<Rightarrow> (x # y) # ys)"

text \<open>The pattern of an address: one @ between texts without blanks, and a dot inside the second.\<close>

definition email_pattern :: "string \<Rightarrow> bool" where
  "email_pattern s \<longleftrightarrow>
     \<not> list_ex ascii_space s
     \<and> (case split_at (CHR ''@'') s of
          [local_part, domain] \<Rightarrow> local_part \<noteq> [] \<and> CHR ''.'' \<in> set (butlast (drop 1 domain))
        | _ \<Rightarrow> False)"

definition normalizeEmail :: "string \<Rightarrow> string option" where
  "normalizeEmail input =
     (let normalized = map lower_char (trim_text input) in
      if normalized = [] \<or> 320 < length normalized \<or> \<not> email_pattern normalized then None
      else if list_ex (\<lambda>label. label = [] \<or> hd label = CHR ''-'' \<or> last label = CHR ''-'')
                (split_at (CHR ''.'') (last (split_at (CHR ''@'') normalized)))
      then None else Some normalized)"

definition frame :: "string list \<Rightarrow> string" where
  "frame parts = concat (map (\<lambda>part. decimal (length part) @ '':'' @ part) parts)"

definition hmac :: "(string \<Rightarrow> string \<Rightarrow> string) \<Rightarrow> string \<Rightarrow> string list \<Rightarrow> string" where
  "hmac mac key parts = ''v1:'' @ mac key (frame parts)"

record auth_keys =
  key_otp :: string
  key_rate :: string
  key_session :: string
  key_csrf :: string
  key_delivery :: string

definition otpArtifact :: "(string \<Rightarrow> string \<Rightarrow> string) \<Rightarrow> auth_keys \<Rightarrow> uuid \<Rightarrow> string \<Rightarrow> string \<Rightarrow> string" where
  "otpArtifact mac keys challengeId email code =
     hmac mac (key_otp keys) [''v1'', ''LOGIN'', challengeId, email, code]"

definition base64url_char :: "char \<Rightarrow> bool" where
  "base64url_char c \<longleftrightarrow>
     c \<in> set ''ABCDEFGHIJKLMNOPQRSTUVWXYZabcdefghijklmnopqrstuvwxyz0123456789_-''"

definition verifyOtpArtifact ::
  "(string \<Rightarrow> string \<Rightarrow> string) \<Rightarrow> auth_keys \<Rightarrow> uuid \<Rightarrow> string \<Rightarrow> string \<Rightarrow> string \<Rightarrow> bool" where
  "verifyOtpArtifact mac keys challengeId email code artifact \<longleftrightarrow>
     take 3 artifact = ''v1:'' \<and> length artifact = 46 \<and> list_all base64url_char (drop 3 artifact)
     \<and> artifact = otpArtifact mac keys challengeId email code"

definition rateKey :: "(string \<Rightarrow> string \<Rightarrow> string) \<Rightarrow> auth_keys \<Rightarrow> string \<Rightarrow> string" where
  "rateKey mac keys value = hmac mac (key_rate keys) [''v1'', value]"

definition portalLookup :: "(string \<Rightarrow> string \<Rightarrow> string) \<Rightarrow> auth_keys \<Rightarrow> string \<Rightarrow> string" where
  "portalLookup mac keys token = hmac mac (key_session keys) [''v1'', token]"

definition otpVerifyIdempotencyHash :: "(string \<Rightarrow> string \<Rightarrow> string) \<Rightarrow> auth_keys \<Rightarrow> string \<Rightarrow> string" where
  "otpVerifyIdempotencyHash mac keys key = hmac mac (key_session keys) [''v1'', ''otp-verify-idempotency'', key]"

definition deriveOtpVerifyPortalToken ::
  "(string \<Rightarrow> string \<Rightarrow> string) \<Rightarrow> auth_keys \<Rightarrow> uuid \<Rightarrow> string \<Rightarrow> string" where
  "deriveOtpVerifyPortalToken mac keys challengeId idempotencyKey =
     mac (key_session keys)
       (''v1:otp-verify-session:'' @ decimal (length challengeId) @ '':'' @ challengeId
        @ '':'' @ decimal (length idempotencyKey) @ '':'' @ idempotencyKey)"

definition validOtpVerifyIdempotencyKey :: "string option \<Rightarrow> bool" where
  "validOtpVerifyIdempotencyKey value =
     (case value of
        None \<Rightarrow> False
      | Some s \<Rightarrow> 16 \<le> length s \<and> length s \<le> 128
          \<and> list_all (\<lambda>c. base64url_char c \<or> c = CHR ''.'' \<or> c = CHR '':'') s)"

definition csrfToken :: "(string \<Rightarrow> string \<Rightarrow> string) \<Rightarrow> auth_keys \<Rightarrow> string \<Rightarrow> string" where
  "csrfToken mac keys token = hmac mac (key_csrf keys) [''v1'', token]"

definition verifyCsrf ::
  "(string \<Rightarrow> string \<Rightarrow> string) \<Rightarrow> auth_keys \<Rightarrow> string \<Rightarrow> string option \<Rightarrow> string option \<Rightarrow> bool" where
  "verifyCsrf mac keys session header cookie =
     (case (header, cookie) of
        (Some h, Some c) \<Rightarrow> h \<noteq> [] \<and> c \<noteq> [] \<and> h = c \<and> h = csrfToken mac keys session
      | _ \<Rightarrow> False)"

definition authRequestOtp ::
  "(string \<Rightarrow> string \<Rightarrow> string) \<Rightarrow> auth_keys \<Rightarrow> (uuid \<Rightarrow> string \<Rightarrow> string \<Rightarrow> envelope) \<Rightarrow> (nat \<Rightarrow> time) \<Rightarrow> uuid \<Rightarrow> string
    \<Rightarrow> time \<Rightarrow> string \<Rightarrow> string \<Rightarrow> string \<Rightarrow> door \<Rightarrow> (failure + (uuid \<times> time) auth_result) \<times> door" where
  "authRequestOtp mac keys seal js challengeId code now emailInput ip correlationId d =
     (case normalizeEmail emailInput of
        None \<Rightarrow> (Inr (Inl AUTH_OTP_INVALID), d)
      | Some email \<Rightarrow> requestOtp js
          \<lparr>oq_email = email, oq_ipKey = rateKey mac keys ip, oq_targetKey = rateKey mac keys email,
           oq_correlationId = correlationId, oq_challengeId = challengeId,
           oq_verificationHash = otpArtifact mac keys challengeId email code,
           oq_envelope = seal challengeId email code, oq_expiresAt = now + OTP_TTL_MS\<rparr> d)"

text \<open>The input of the repository for a verification; \<open>drawn\<close> are the random key and the random token.\<close>

definition session_token ::
  "(string \<Rightarrow> string \<Rightarrow> string) \<Rightarrow> auth_keys \<Rightarrow> string \<times> string \<Rightarrow> uuid \<Rightarrow> string option \<Rightarrow> string" where
  "session_token mac keys drawn challengeId idempotencyKey =
     (if validOtpVerifyIdempotencyKey idempotencyKey
      then deriveOtpVerifyPortalToken mac keys challengeId (the idempotencyKey) else snd drawn)"

definition verification_of ::
  "(string \<Rightarrow> string \<Rightarrow> string) \<Rightarrow> auth_keys \<Rightarrow> string \<times> string \<Rightarrow> time \<Rightarrow> uuid \<Rightarrow> string \<Rightarrow> string \<Rightarrow> string
    \<Rightarrow> string option \<Rightarrow> otp_verification" where
  "verification_of mac keys drawn now challengeId code ip correlationId idempotencyKey =
     \<lparr>vq_challengeId = challengeId, vq_ipKey = rateKey mac keys ip, vq_correlationId = correlationId,
      vq_idempotencyHash = otpVerifyIdempotencyHash mac keys
        (if validOtpVerifyIdempotencyKey idempotencyKey then the idempotencyKey else fst drawn),
      vq_verify = (\<lambda>email artifact. verifyOtpArtifact mac keys challengeId email code artifact),
      vq_sessionHash = portalLookup mac keys (session_token mac keys drawn challengeId idempotencyKey),
      vq_expiresAt = now + PORTAL_SESSION_TTL_MS\<rparr>"

definition authVerifyOtp ::
  "(string \<Rightarrow> string \<Rightarrow> string) \<Rightarrow> auth_keys \<Rightarrow> string \<times> string \<Rightarrow> (nat \<Rightarrow> time) \<Rightarrow> (nat \<Rightarrow> time) \<Rightarrow> time \<Rightarrow> uuid \<Rightarrow> string
    \<Rightarrow> string \<Rightarrow> string \<Rightarrow> string option \<Rightarrow> door \<Rightarrow> (failure + (string \<times> time) auth_result) \<times> door" where
  "authVerifyOtp mac keys drawn js ticks now challengeId code ip correlationId idempotencyKey d =
     (case verifyOtp js ticks
         (verification_of mac keys drawn now challengeId code ip correlationId idempotencyKey) d of
        (Inl e, d') \<Rightarrow> (Inl e, d')
      | (Inr (Inl code'), d') \<Rightarrow> (Inr (Inl code'), d')
      | (Inr (Inr expiresAt), d') \<Rightarrow>
          (Inr (Inr (session_token mac keys drawn challengeId idempotencyKey, expiresAt)), d'))"

end
