(* ===== verification/Otp_Delivery.thy ===== *)
theory Otp_Delivery
  imports Sign_In
begin

text \<open>
  apps/worker/src/otp-runner.ts with the failures of packages/server/email/src/index.ts: the delivery of the one-time
  codes. A tick of the worker is a sequence of statements, each a transaction of its own with its own \<open>now()\<close>: other
  operations run between them, so they are separate functions here. \<open>unseal\<close> is the decryption of the envelope.
\<close>

section \<open>Answers of the mail provider\<close>

datatype mail_failure_kind = KNOWN_FAILURE | UNKNOWN_OUTCOME | PROTOCOL_FAILURE

datatype mail_answer =
    Delivered "string option"
  | EmailProviderError mail_failure_kind bool "int option"

text \<open>What the transport raised: a reply code of the server, the code of a connection error, or neither.\<close>

definition smtpFailure :: "int option \<Rightarrow> string option \<Rightarrow> mail_answer" where
  "smtpFailure responseCode code =
     (case responseCode of
        Some n \<Rightarrow> EmailProviderError KNOWN_FAILURE (400 \<le> n \<and> n < 500) (Some n)
      | None \<Rightarrow>
          if code \<in> {Some ''ETIMEDOUT'', Some ''ESOCKETTIMEDOUT'', Some ''ECONNECTION'', Some ''ECONNRESET'',
                     Some ''EAI_AGAIN''}
          then EmailProviderError UNKNOWN_OUTCOME False None
          else EmailProviderError PROTOCOL_FAILURE False None)"

section \<open>The statements of a tick\<close>

definition lease_lost :: "time \<Rightarrow> mail_job \<Rightarrow> bool" where
  "lease_lost at j \<longleftrightarrow>
     mj_status j = MAIL_PROCESSING \<and> (case mj_leasedUntil j of None \<Rightarrow> True | Some u \<Rightarrow> u < at)"

definition dead_with :: "string \<Rightarrow> mail_job \<Rightarrow> mail_job" where
  "dead_with code j = (dead_job j)\<lparr>mj_lastError := Some code\<rparr>"

definition expire_leases :: "door \<Rightarrow> door" where
  "expire_leases d =
     d\<lparr>mail_jobs := update_where (lease_lost (door_now d)) (dead_with ''LEASE_EXPIRED_UNKNOWN_OUTCOME'')
       (mail_jobs d)\<rparr>"

definition deliverable :: "time \<Rightarrow> mail_job \<Rightarrow> bool" where
  "deliverable at j \<longleftrightarrow> mj_status j = MAIL_PENDING \<and> mj_availableAt j \<le> at \<and> mj_attempts j < mj_maxAttempts j"

definition leased_mail :: "time \<Rightarrow> uuid \<Rightarrow> mail_job \<Rightarrow> mail_job" where
  "leased_mail at lease j =
     j\<lparr>mj_status := MAIL_PROCESSING, mj_leaseId := Some lease, mj_leasedUntil := Some (at + 60000),
       mj_attempts := mj_attempts j + 1\<rparr>"

text \<open>The claim of the job that has waited longest; the claimed row is the answer.\<close>

definition claim_mail :: "uuid \<Rightarrow> door \<Rightarrow> mail_job option \<times> door" where
  "claim_mail lease d =
     (case sort_key mj_availableAt (filter (deliverable (door_now d)) (mail_jobs d)) of
        [] \<Rightarrow> (None, d)
      | j # _ \<Rightarrow>
          (Some (leased_mail (door_now d) lease j),
           d\<lparr>mail_jobs := update_where (\<lambda>x. mj_id x = mj_id j) (leased_mail (door_now d) lease) (mail_jobs d)\<rparr>))"

text \<open>What the worker does with the claimed row.\<close>

datatype mail_decision =
    GiveUp string
  | Send uuid string string time

definition mail_decide ::
  "(uuid \<Rightarrow> string \<Rightarrow> envelope \<Rightarrow> string option) \<Rightarrow> time \<Rightarrow> door \<Rightarrow> mail_job \<Rightarrow> mail_decision" where
  "mail_decide unseal now d j =
     (case challenge_of d (mj_challengeId j) of
        None \<Rightarrow> GiveUp ''CHALLENGE_TERMINAL''
      | Some c \<Rightarrow>
          if otp_consumedAt c \<noteq> None \<or> otp_invalidatedAt c \<noteq> None \<or> otp_expiresAt c \<le> now
          then GiveUp ''CHALLENGE_TERMINAL''
          else
            case Option.bind (mj_envelope j) (unseal (mj_challengeId j) (otp_target c)) of
              None \<Rightarrow> GiveUp ''DELIVERY_ENVELOPE_INVALID''
            | Some code \<Rightarrow>
                if code = [] then GiveUp ''DELIVERY_ENVELOPE_INVALID''
                else Send (mj_id j) (otp_target c) code (otp_expiresAt c))"

definition finish_mail :: "mail_job \<Rightarrow> uuid \<Rightarrow> (mail_job \<Rightarrow> mail_job) \<Rightarrow> door \<Rightarrow> door" where
  "finish_mail j lease f d =
     d\<lparr>mail_jobs := update_where
        (\<lambda>x. mj_id x = mj_id j \<and> mj_status x = MAIL_PROCESSING \<and> mj_leaseId x = Some lease) f (mail_jobs d)\<rparr>"

definition sent_mail :: "string option \<Rightarrow> mail_job \<Rightarrow> mail_job" where
  "sent_mail messageId j =
     j\<lparr>mj_status := MAIL_SENT, mj_envelope := None, mj_leaseId := None, mj_leasedUntil := None,
       mj_messageId := messageId\<rparr>"

definition retried_mail :: "time \<Rightarrow> string \<Rightarrow> mail_job \<Rightarrow> mail_job" where
  "retried_mail at code j =
     j\<lparr>mj_status := MAIL_PENDING, mj_leaseId := None, mj_leasedUntil := None, mj_availableAt := at + 30000,
       mj_lastError := Some code\<rparr>"

definition mail_error_code :: "mail_failure_kind \<Rightarrow> int option \<Rightarrow> string" where
  "mail_error_code kind status =
     (case kind of
        UNKNOWN_OUTCOME \<Rightarrow> ''EMAIL_PROVIDER_TIMEOUT_OR_UNKNOWN''
      | PROTOCOL_FAILURE \<Rightarrow> ''EMAIL_PROVIDER_PROTOCOL_FAILURE''
      | KNOWN_FAILURE \<Rightarrow>
          (case status of
             Some n \<Rightarrow> if n = 0 then ''EMAIL_PROVIDER_REJECTED'' else ''EMAIL_PROVIDER_HTTP_'' @ decimal_int n
           | None \<Rightarrow> ''EMAIL_PROVIDER_REJECTED''))"

text \<open>An identifier of the message that the column cannot hold makes the statement fail inside the \<open>try\<close>.\<close>

definition record_answer :: "mail_job \<Rightarrow> uuid \<Rightarrow> mail_answer \<Rightarrow> door \<Rightarrow> door" where
  "record_answer j lease answer d =
     (case answer of
        Delivered messageId \<Rightarrow>
          if (case messageId of None \<Rightarrow> True | Some m \<Rightarrow> length m \<le> 512)
          then finish_mail j lease (sent_mail messageId) d
          else finish_mail j lease (dead_with ''EMAIL_PROVIDER_TIMEOUT_OR_UNKNOWN'') d
      | EmailProviderError kind retryable status \<Rightarrow>
          let code = mail_error_code kind status in
          if mj_maxAttempts j \<le> mj_attempts j \<or> \<not> retryable then finish_mail j lease (dead_with code) d
          else finish_mail j lease (retried_mail (door_now d) code) d)"

text \<open>The end of the tick: the job is given up, or the mail is sent and the answer recorded.\<close>

definition conclude_mail ::
  "(uuid \<Rightarrow> string \<Rightarrow> envelope \<Rightarrow> string option) \<Rightarrow> (uuid \<Rightarrow> string \<Rightarrow> string \<Rightarrow> time \<Rightarrow> mail_answer) \<Rightarrow> time
    \<Rightarrow> uuid \<Rightarrow> mail_job \<Rightarrow> door \<Rightarrow> door \<Rightarrow> door" where
  "conclude_mail unseal send now lease j seen d =
     (case mail_decide unseal now seen j of
        GiveUp code \<Rightarrow> finish_mail j lease (dead_with code) d
      | Send i recipient code expiresAt \<Rightarrow> record_answer j lease (send i recipient code expiresAt) d)"

end
