(* ===== verification/Door_State.thy ===== *)
theory Door_State
  imports Otp_Delivery
begin

text \<open>
  What every statement of the sign-in keeps: \<open>tables_ok\<close>, the keys, references and checks of the tables, and
  \<open>door_kept\<close>, what later writes leave of the codes, sessions and verifications. Both are proved once for each write and
  carried through the transactions and the statements of the mail worker by the program logic of \<open>Prelude\<close>.
\<close>

section \<open>The tables\<close>

definition mail_ok :: "mail_job \<Rightarrow> bool" where
  "mail_ok j \<longleftrightarrow>
     0 \<le> mj_attempts j \<and> mj_attempts j \<le> mj_maxAttempts j
     \<and> (mj_envelope j \<noteq> None \<longleftrightarrow> mj_status j \<in> {MAIL_PENDING, MAIL_PROCESSING})
     \<and> (mj_leaseId j \<noteq> None \<longleftrightarrow> mj_status j = MAIL_PROCESSING)"

definition tables_ok :: "door \<Rightarrow> bool" where
  "tables_ok d \<longleftrightarrow>
     distinct (map us_id (users d)) \<and> distinct (map ui_identifier (identities d))
     \<and> distinct (map ha_id (homes d)) \<and> distinct (map otp_id (challenges d))
     \<and> distinct (map mj_id (mail_jobs d)) \<and> distinct (map mj_challengeId (mail_jobs d))
     \<and> distinct (map ss_id (portal_sessions d)) \<and> distinct (map ss_tokenHash (portal_sessions d))
     \<and> distinct (map rp_challengeId (replays d)) \<and> distinct (map iv_id (invitations d))
     \<and> distinct (map ad_accountId (admissions d)) \<and> distinct (map ad_userId (admissions d))
     \<and> ui_userId ` set (identities d) \<subseteq> us_id ` set (users d)
     \<and> list_all challenge_checks (challenges d) \<and> list_all mail_ok (mail_jobs d)
     \<and> list_all invitation_checks (invitations d)"

section \<open>What stays\<close>

text \<open>A code that is used up, superseded or guessed at too often.\<close>

definition locked :: "otp_challenge \<Rightarrow> bool" where
  "locked c \<longleftrightarrow> otp_invalidatedAt c \<noteq> None \<or> otp_maxAttempts c \<le> otp_attempts c"

definition later_challenge :: "otp_challenge \<Rightarrow> otp_challenge \<Rightarrow> bool" where
  "later_challenge c c' \<longleftrightarrow>
     otp_id c' = otp_id c \<and> otp_target c' = otp_target c \<and> otp_hash c' = otp_hash c
     \<and> otp_maxAttempts c' = otp_maxAttempts c \<and> otp_expiresAt c' = otp_expiresAt c
     \<and> otp_attempts c \<le> otp_attempts c'
     \<and> (otp_invalidatedAt c \<noteq> None \<longrightarrow> otp_invalidatedAt c' = otp_invalidatedAt c)
     \<and> (otp_consumedAt c \<noteq> None \<or> locked c \<longrightarrow> otp_consumedAt c' = otp_consumedAt c)"

definition later_session :: "portal_session \<Rightarrow> portal_session \<Rightarrow> bool" where
  "later_session s s' \<longleftrightarrow>
     ss_userId s' = ss_userId s \<and> ss_tokenHash s' = ss_tokenHash s \<and> ss_createdAt s' = ss_createdAt s
     \<and> ss_expiresAt s' = ss_expiresAt s \<and> (ss_revokedAt s \<noteq> None \<longrightarrow> ss_revokedAt s' = ss_revokedAt s)"

definition session_of :: "door \<Rightarrow> uuid \<Rightarrow> portal_session option" where
  "session_of d i = List.find (\<lambda>s. ss_id s = i) (portal_sessions d)"

definition door_kept :: "door \<Rightarrow> door \<Rightarrow> bool" where
  "door_kept d d' \<longleftrightarrow>
     kept (challenge_of d) (challenge_of d') later_challenge \<and> kept (session_of d) (session_of d') later_session
     \<and> set (replays d) \<subseteq> set (replays d')"

lemma later_challenge_refl [simp]: "later_challenge c c"
  by (simp add: later_challenge_def)

lemma later_challenge_trans: "later_challenge a b \<Longrightarrow> later_challenge b c \<Longrightarrow> later_challenge a c"
  by (auto simp: later_challenge_def locked_def)

lemma later_session_refl [simp]: "later_session s s"
  by (simp add: later_session_def)

lemma later_session_trans: "later_session a b \<Longrightarrow> later_session b c \<Longrightarrow> later_session a c"
  by (auto simp: later_session_def)

lemma door_kept_refl [simp]: "door_kept d d"
  by (simp add: door_kept_def kept_refl)

lemma door_kept_trans: "door_kept a b \<Longrightarrow> door_kept b c \<Longrightarrow> door_kept a c"
  unfolding door_kept_def
  by (auto elim!: kept_trans intro: later_challenge_trans later_session_trans)

lemma door_kept_closure [simp]: "door_kept\<^sup>*\<^sup>* = door_kept"
proof (intro ext iffI)
  show "door_kept a b" if "door_kept\<^sup>*\<^sup>* a b" for a b
    using that by (induction rule: rtranclp_induct) (auto intro: door_kept_trans)
qed auto

lemma door_keptI:
  assumes "\<And>i c. challenge_of d i = Some c \<Longrightarrow> \<exists>c'. challenge_of d' i = Some c' \<and> later_challenge c c'"
    and "\<And>i s. session_of d i = Some s \<Longrightarrow> \<exists>s'. session_of d' i = Some s' \<and> later_session s s'"
    and "set (replays d) \<subseteq> set (replays d')"
  shows "door_kept d d'"
  using assms by (simp add: door_kept_def kept_def)

text \<open>Rows that are only appended.\<close>

lemma door_kept_appended:
  assumes "challenges d' = challenges d @ cs" and "portal_sessions d' = portal_sessions d @ ss"
    and "replays d' = replays d @ rs"
  shows "door_kept d d'"
  using assms by (auto intro!: door_keptI simp: challenge_of_def session_of_def find_append)

lemma door_kept_same:
  assumes "challenges d' = challenges d" and "portal_sessions d' = portal_sessions d" and "replays d' = replays d"
  shows "door_kept d d'"
  by (rule door_kept_appended [of _ _ "[]" "[]" "[]"]) (simp_all add: assms)

text \<open>Rows that are rewritten under their key.\<close>

lemma find_map_key:
  assumes "\<And>x. x \<in> set t \<Longrightarrow> k (g x) = k x"
  shows "List.find (\<lambda>x. k x = i) (map g t) = map_option g (List.find (\<lambda>x. k x = i) t)"
  using assms by (induction t) auto

lemma door_kept_challenges:
  assumes "challenges d' = map g (challenges d)" and "\<And>c. c \<in> set (challenges d) \<Longrightarrow> later_challenge c (g c)"
    and "portal_sessions d' = portal_sessions d" and "replays d' = replays d"
  shows "door_kept d d'"
proof (rule door_keptI)
  fix i c
  assume c: "challenge_of d i = Some c"
  have "challenge_of d' i = map_option g (challenge_of d i)"
    unfolding challenge_of_def assms(1) using assms(2) by (intro find_map_key) (auto simp: later_challenge_def)
  moreover have "c \<in> set (challenges d)"
    using c by (auto simp: challenge_of_def dest: find_Some_mem)
  ultimately show "\<exists>c'. challenge_of d' i = Some c' \<and> later_challenge c c'"
    using c assms(2) by auto
qed (use assms in \<open>auto simp: session_of_def\<close>)

lemma door_kept_sessions:
  assumes "portal_sessions d' = map g (portal_sessions d)"
    and "\<And>s. s \<in> set (portal_sessions d) \<Longrightarrow> ss_id (g s) = ss_id s \<and> later_session s (g s)"
    and "challenges d' = challenges d" and "replays d' = replays d"
  shows "door_kept d d'"
proof (rule door_keptI)
  fix i s
  assume s: "session_of d i = Some s"
  have "session_of d' i = map_option g (session_of d i)"
    unfolding session_of_def assms(1) using assms(2) by (intro find_map_key) simp
  moreover have "s \<in> set (portal_sessions d)"
    using s by (auto simp: session_of_def dest: find_Some_mem)
  ultimately show "\<exists>s'. session_of d' i = Some s' \<and> later_session s s'"
    using s assms(2) by auto
qed (use assms in \<open>auto simp: challenge_of_def\<close>)

section \<open>The writes\<close>

abbreviation moves :: "'a doortx \<Rightarrow> door \<Rightarrow> bool" where
  "moves m d \<equiv> moves_at tables_ok door_kept m d"

lemma movesI:
  "(\<And>x d'. tables_ok d \<Longrightarrow> m d = Inr (x, d') \<Longrightarrow> door_kept d d' \<and> tables_ok d') \<Longrightarrow> moves m d"
  by (simp add: moves_at_def)

lemma moves_modify:
  "(tables_ok d \<Longrightarrow> door_kept d (f d) \<and> tables_ok (f d)) \<Longrightarrow> moves (modify f) d"
  by (rule movesI) simp

lemma moves_uuid [tx_rules]: "moves door_uuid d"
  by (rule movesI) (auto simp: tables_ok_def intro!: door_kept_same)

lemma moves_insert:
  assumes "tables_ok d \<Longrightarrow> accepted d r \<Longrightarrow> tables_ok (put (\<lambda>t. t @ [r]) d) \<and> door_kept d (put (\<lambda>t. t @ [r]) d)"
  shows "moves (put_row table accepted put r) d"
  by (rule movesI) (use assms in auto)

lemma moves_inserts [tx_rules]:
  "moves (insert_user u) d" "moves (insert_home h) d" "moves (insert_owner w) d" "moves (insert_identity i) d"
  "moves (insert_challenge c) d" "moves (insert_session s) d" "moves (insert_replay v) d"
  "moves (insert_invitation n) d" "moves (insert_admission a) d" "moves (insert_mutation m) d"
  "moves (insert_door_audit e) d"
  unfolding insert_door_defs
  by (rule moves_insert;
      auto simp: tables_ok_def user_accepted_def home_accepted_def owner_accepted_def identity_accepted_def
        challenge_accepted_def session_accepted_def replay_accepted_def invitation_accepted_def
        admission_accepted_def intro: door_kept_appended)+

lemma moves_insert_mail:
  "mail_ok j \<Longrightarrow> moves (insert_mail_job j) d"
  unfolding insert_door_defs
  by (rule moves_insert) (auto simp: tables_ok_def mail_job_accepted_def intro: door_kept_same)

lemma moves_set_beta [tx_rules]: "moves (set_beta b) d"
  by (rule movesI) (auto simp: tables_ok_def intro!: door_kept_same)

lemma list_all_update_where:
  "list_all P t \<Longrightarrow> (\<And>x. x \<in> set t \<Longrightarrow> P x \<Longrightarrow> q x \<Longrightarrow> P (f x)) \<Longrightarrow> list_all P (update_where q f t)"
  by (auto simp: list_all_iff update_where_def)

lemma moves_update_invitation:
  assumes "invitation_of d (iv_id r) = Some r" and "iv_id (f r) = iv_id r"
  shows "moves (update_invitation r f) d"
proof (rule movesI)
  fix x d'
  assume ok: "tables_ok d" and run: "update_invitation r f d = Inr (x, d')"
  let ?t = "update_where (\<lambda>x. iv_id x = iv_id r) f (invitations d)"
  have only: "y = r" if "y \<in> set (invitations d)" "iv_id y = iv_id r" for y
    using that assms(1) ok distinct_map_unique [of iv_id "invitations d" y r]
    by (auto simp: tables_ok_def invitation_of_def dest: find_Some_mem)
  have d': "d' = d\<lparr>invitations := ?t\<rparr>" and checks: "invitation_checks (f r)"
    using run by (auto simp: invitation_update_accepted_def)
  have "map iv_id ?t = map iv_id (invitations d)"
    using only assms(2) by (auto simp: update_where_def)
  moreover have "list_all invitation_checks ?t"
    using ok checks only by (intro list_all_update_where) (auto simp: tables_ok_def)
  ultimately show "door_kept d d' \<and> tables_ok d'"
    using ok by (auto simp: d' tables_ok_def intro: door_kept_same)
qed

lemma moves_update_challenge:
  assumes "challenge_of d (otp_id c) = Some c" and "later_challenge c (f c)"
  shows "moves (update_challenge c f) d"
proof (rule movesI)
  fix x d'
  assume ok: "tables_ok d" and run: "update_challenge c f d = Inr (x, d')"
  let ?g = "\<lambda>r. if otp_id r = otp_id c then f r else r"
  have only: "y = c" if "y \<in> set (challenges d)" "otp_id y = otp_id c" for y
    using that assms(1) ok distinct_map_unique [of otp_id "challenges d" y c]
    by (auto simp: tables_ok_def challenge_of_def dest: find_Some_mem)
  have d': "d' = d\<lparr>challenges := map ?g (challenges d)\<rparr>" and checks: "challenge_checks (f c)"
    using run by (auto simp: update_where_def)
  have later: "later_challenge y (?g y)" if "y \<in> set (challenges d)" for y
    using only [OF that] assms(2) by auto
  have "map otp_id (map ?g (challenges d)) = map otp_id (challenges d)"
    using later by (auto simp: later_challenge_def)
  moreover have "list_all challenge_checks (map ?g (challenges d))"
    using ok checks only by (auto simp: tables_ok_def list_all_iff)
  ultimately have "tables_ok d'"
    using ok by (simp add: d' tables_ok_def del: map_map)
  moreover have "door_kept d d'"
    using later by (intro door_kept_challenges [where g = ?g]) (simp_all add: d')
  ultimately show "door_kept d d' \<and> tables_ok d'" by simp
qed

lemma moves_mail_jobs:
  assumes "\<And>j. j \<in> set (mail_jobs d) \<Longrightarrow> p j \<Longrightarrow> mail_ok j \<Longrightarrow>
    mail_ok (f j) \<and> mj_id (f j) = mj_id j \<and> mj_challengeId (f j) = mj_challengeId j"
    and "tables_ok d"
  shows "door_kept d (d\<lparr>mail_jobs := update_where p f (mail_jobs d)\<rparr>)
    \<and> tables_ok (d\<lparr>mail_jobs := update_where p f (mail_jobs d)\<rparr>)"
proof
  let ?t = "update_where p f (mail_jobs d)"
  have ok: "list_all mail_ok (mail_jobs d)"
    using assms(2) by (simp add: tables_ok_def)
  have "map mj_id ?t = map mj_id (mail_jobs d)" "map mj_challengeId ?t = map mj_challengeId (mail_jobs d)"
    using ok assms(1) by (auto simp: update_where_def list_all_iff)
  moreover have "list_all mail_ok ?t"
    using ok assms(1) by (intro list_all_update_where) (auto simp: list_all_iff)
  ultimately show "tables_ok (d\<lparr>mail_jobs := ?t\<rparr>)"
    using assms(2) by (simp add: tables_ok_def)
qed (rule door_kept_same; simp)

section \<open>Every operation keeps the tables\<close>

lemma moves_throw_or [tx_rules]: "(\<And>a b. r = (a, b) \<Longrightarrow> moves (f a b) d) \<Longrightarrow> moves (case_prod f r) d"
  by (cases r) simp

lemma moves_consume [tx_rules]: "moves (consume now action key limit) d"
  by (rule movesI)
    (auto simp: consume_def andThen_Inr_iff tables_ok_def intro: door_kept_same split: option.splits)

lemma moves_sign_event [tx_rules]: "moves (sign_event a b c e f g h i) d"
  unfolding sign_event_def by (intro tx_rules)

lemma moves_fail_with [tx_rules]: "moves (fail_with code) d"
  unfolding fail_with_def by (intro tx_rules)

lemma moves_audit_beta [tx_rules]: "moves (audit_beta a b c e f g h) d"
  unfolding audit_beta_def by (intro tx_rules)

lemma moves_supersede [tx_rules]: "moves (supersede email now) d"
  unfolding supersede_def
proof (intro tx_rules moves_modify)
  fix s :: door
  let ?g = "\<lambda>r. if is_open_challenge email r then r\<lparr>otp_invalidatedAt := Some now\<rparr> else r"
  assume ok: "tables_ok s"
  have "door_kept s (s\<lparr>challenges := map ?g (challenges s)\<rparr>)"
    by (rule door_kept_challenges [where g = ?g]) (auto simp: later_challenge_def is_open_challenge_def locked_def)
  moreover have "tables_ok (s\<lparr>challenges := map ?g (challenges s)\<rparr>)"
    using ok by (auto simp: tables_ok_def comp_def if_distrib list_all_iff challenge_checks_def cong: if_cong)
  ultimately show "door_kept s
      (s\<lparr>challenges := update_where (is_open_challenge email) (\<lambda>r. r\<lparr>otp_invalidatedAt := Some now\<rparr>) (challenges s)\<rparr>)
    \<and> tables_ok
      (s\<lparr>challenges := update_where (is_open_challenge email) (\<lambda>r. r\<lparr>otp_invalidatedAt := Some now\<rparr>) (challenges s)\<rparr>)"
    by (simp add: update_where_def)
qed (rule moves_mail_jobs; simp add: dead_job_def mail_ok_def)

lemma moves_issue_code [tx_rules]: "moves (issue_code q) d"
  unfolding issue_code_def
  by (intro tx_rules moves_insert_mail) (simp_all add: mail_ok_def)

lemma moves_consume_invitation [tx_rules]: "moves (consume_invitation tick tick' i cid u) d"
  unfolding consume_invitation_def
  by (intro tx_rules moves_update_invitation)
    (auto simp: consumed_invitation_def invitation_of_def dest: find_Some_mem)

lemma moves_create_user [tx_rules]: "moves (create_user target now u a) d"
  unfolding create_user_def by (intro tx_rules)

lemma moves_take_seat [tx_rules]: "moves (take_seat now) d"
  unfolding take_seat_def by (intro tx_rules)

lemma moves_admit_new [tx_rules]: "moves (admit_new ticks now target cid invited) d"
  unfolding admit_new_def by (intro tx_rules)

lemma moves_first_invited [tx_rules]: "moves (first_invited tick target) d"
  unfolding first_invited_def by (intro tx_rules)

lemma moves_admit_identity [tx_rules]: "moves (admit_identity ticks now target cid) d"
  unfolding admit_identity_def by (intro tx_rules)

lemma moves_sign_in_user [tx_rules]: "moves (sign_in_user ticks now v c) d"
  unfolding sign_in_user_def by (intro tx_rules)

lemma moves_audit_wrong_code [tx_rules]: "moves (audit_wrong_code v c) d"
  unfolding audit_wrong_code_def by (intro tx_rules)

lemma moves_verify_consumed [tx_rules]: "moves (verify_consumed v c) d"
  unfolding verify_consumed_def by (intro tx_rules)

lemma moves_open_session [tx_rules]: "moves (open_session v c u) d"
  unfolding open_session_def by (intro tx_rules)

lemma moves_auth_result [tx_rules]:
  "(\<And>a. r = Inl a \<Longrightarrow> moves (f a) d) \<Longrightarrow> (\<And>b. r = Inr b \<Longrightarrow> moves (g b) d) \<Longrightarrow> moves (case_sum f g r) d"
  by (cases r) simp_all

lemma challenge_of_id: "challenge_of d i = Some c \<Longrightarrow> otp_id c = i"
  by (auto simp: challenge_of_def dest: find_Some_mem)

lemma attempts_within: "tables_ok d \<Longrightarrow> challenge_of d i = Some c \<Longrightarrow> otp_attempts c \<le> otp_maxAttempts c"
  by (auto simp: tables_ok_def challenge_of_def list_all_iff challenge_checks_def dest!: find_Some_mem)

lemma moves_verify_fresh:
  assumes "tables_ok d" and "challenge_of d i = Some c" and "otp_consumedAt c = None"
  shows "moves (verify_fresh ticks now admissionNow v c) d"
proof -
  have c: "challenge_of d (otp_id c) = Some c" and most: "otp_attempts c \<le> otp_maxAttempts c"
    using assms(2) challenge_of_id attempts_within [OF assms(1)] by auto
  show ?thesis
    unfolding verify_fresh_def
    by (intro tx_rules moves_update_challenge)
      (use most assms(3) in \<open>simp_all add: c later_challenge_def locked_def\<close>)
qed

lemma door_transaction:
  assumes "moves m d" and "tables_ok d"
  shows "door_kept d (snd (transaction m d)) \<and> tables_ok (snd (transaction m d))"
  using moves_at_transaction [OF assms] by simp

lemma verify_keeps:
  assumes "tables_ok d"
  shows "door_kept d (snd (verifyOtp js ticks v d)) \<and> tables_ok (snd (verifyOtp js ticks v d))"
  unfolding verifyOtp_def
  by (rule door_transaction [OF _ assms], intro tx_rules) (rule moves_verify_fresh; simp)

lemma request_keeps:
  assumes "tables_ok d"
  shows "door_kept d (snd (requestOtp js q d)) \<and> tables_ok (snd (requestOtp js q d))"
  unfolding requestOtp_def by (rule door_transaction [OF _ assms], intro tx_rules)

lemma sign_out_keeps:
  assumes "tables_ok d"
  shows "door_kept d (snd (revoke_session hash cid d)) \<and> tables_ok (snd (revoke_session hash cid d))"
  unfolding revoke_session_def
proof (rule door_transaction [OF _ assms], intro tx_rules moves_modify)
  fix s :: door and at
  let ?g = "\<lambda>x. if revocable hash at x then x\<lparr>ss_revokedAt := Some at\<rparr> else x"
  assume ok: "tables_ok s"
  have "door_kept s (s\<lparr>portal_sessions := map ?g (portal_sessions s)\<rparr>)"
    by (rule door_kept_sessions [where g = ?g]) (auto simp: later_session_def revocable_def)
  moreover have "tables_ok (s\<lparr>portal_sessions := map ?g (portal_sessions s)\<rparr>)"
    using ok by (simp add: tables_ok_def comp_def if_distrib cong: if_cong)
  ultimately show "door_kept s
      (s\<lparr>portal_sessions := update_where (revocable hash at) (\<lambda>x. x\<lparr>ss_revokedAt := Some at\<rparr>) (portal_sessions s)\<rparr>)
    \<and> tables_ok
      (s\<lparr>portal_sessions := update_where (revocable hash at) (\<lambda>x. x\<lparr>ss_revokedAt := Some at\<rparr>) (portal_sessions s)\<rparr>)"
    by (simp add: update_where_def)
qed

lemma moves_readState [tx_rules]: "moves readState d"
  unfolding readState_def by (intro tx_rules)

lemma moves_write_invitation [tx_rules]: "moves (write_invitation sanitize redact ticks r) d"
  unfolding write_invitation_def by (intro tx_rules)

lemma moves_invite_new [tx_rules]: "moves (invite_new sanitize redact ticks r b) d"
  unfolding invite_new_def by (intro tx_rules)

lemma invitation_of_id: "invitation_of d i = Some r \<Longrightarrow> iv_id r = i"
  by (auto simp: invitation_of_def dest: find_Some_mem)

lemma moves_revoke_locked [tx_rules]: "moves (revoke_locked sanitize redact tick now r) d"
  unfolding revoke_locked_def
  by (intro tx_rules moves_update_invitation)
    (simp_all add: revoked_invitation_def, metis invitation_of_id)

lemma moves_mutate_new [tx_rules]: "moves (mutate_new sanitize tick now r b) d"
  unfolding mutate_new_def write_mutation_def by (intro tx_rules)

lemma invite_keeps:
  assumes "tables_ok d"
  shows "door_kept d (snd (createIdentityInvitation valid H sanitize redact ticks r d))
    \<and> tables_ok (snd (createIdentityInvitation valid H sanitize redact ticks r d))"
proof -
  have "door_kept d (snd (inviteIdentity sanitize redact ticks q d))
      \<and> tables_ok (snd (inviteIdentity sanitize redact ticks q d))" for q
    unfolding inviteIdentity_def by (rule door_transaction [OF _ assms], intro tx_rules)
  then show ?thesis
    using assms by (simp add: createIdentityInvitation_def)
qed

lemma uninvite_keeps:
  assumes "tables_ok d"
  shows "door_kept d (snd (revokeInvitationService H sanitize redact tick now a i q cid reason d))
    \<and> tables_ok (snd (revokeInvitationService H sanitize redact tick now a i q cid reason d))"
proof -
  have "door_kept d (snd (revokeIdentityInvitation sanitize redact tick now q d))
      \<and> tables_ok (snd (revokeIdentityInvitation sanitize redact tick now q d))" for q
    unfolding revokeIdentityInvitation_def by (rule door_transaction [OF _ assms], intro tx_rules)
  then show ?thesis
    using assms by (simp add: revokeInvitationService_def)
qed

lemma set_admission_keeps:
  assumes "tables_ok d"
  shows "door_kept d (snd (betaService H sanitize tick now b d)) \<and> tables_ok (snd (betaService H sanitize tick now b d))"
proof -
  have "door_kept d (snd (mutate_beta sanitize tick now q d))
      \<and> tables_ok (snd (mutate_beta sanitize tick now q d))" for q
    unfolding mutate_beta_def by (rule door_transaction [OF _ assms], intro tx_rules)
  then show ?thesis
    using assms by (simp add: betaService_def)
qed

lemma finish_mail_keeps:
  assumes "tables_ok d" and "\<And>x. mail_ok x \<Longrightarrow> mj_status x = MAIL_PROCESSING \<Longrightarrow>
    mail_ok (f x) \<and> mj_id (f x) = mj_id x \<and> mj_challengeId (f x) = mj_challengeId x"
  shows "door_kept d (finish_mail j lease f d) \<and> tables_ok (finish_mail j lease f d)"
  unfolding finish_mail_def by (rule moves_mail_jobs [OF _ assms(1)]) (use assms(2) in auto)

lemma mail_keeps:
  assumes "tables_ok d"
  shows "door_kept d (expire_leases d) \<and> tables_ok (expire_leases d)"
    and "door_kept d (snd (claim_mail lease d)) \<and> tables_ok (snd (claim_mail lease d))"
    and "door_kept d (conclude_mail unseal send now lease j seen d)
      \<and> tables_ok (conclude_mail unseal send now lease j seen d)"
proof -
  show "door_kept d (expire_leases d) \<and> tables_ok (expire_leases d)"
    unfolding expire_leases_def
    by (rule moves_mail_jobs [OF _ assms]) (auto simp: mail_ok_def dead_with_def dead_job_def)
  show "door_kept d (snd (claim_mail lease d)) \<and> tables_ok (snd (claim_mail lease d))"
  proof (cases "sort_key mj_availableAt (filter (deliverable (door_now d)) (mail_jobs d))")
    case Nil
    then show ?thesis using assms by (simp add: claim_mail_def)
  next
    case (Cons k ks)
    then have "k \<in> set (filter (deliverable (door_now d)) (mail_jobs d))"
      by (metis list.set_intros(1) set_sort)
    then have k: "k \<in> set (mail_jobs d)" "deliverable (door_now d) k" by auto
    have "deliverable (door_now d) x" if "x \<in> set (mail_jobs d)" "mj_id x = mj_id k" for x
      using that k assms distinct_map_unique [of mj_id "mail_jobs d" x k] by (simp add: tables_ok_def)
    then have "door_kept d (d\<lparr>mail_jobs := update_where (\<lambda>x. mj_id x = mj_id k)
          (leased_mail (door_now d) lease) (mail_jobs d)\<rparr>)
        \<and> tables_ok (d\<lparr>mail_jobs := update_where (\<lambda>x. mj_id x = mj_id k)
          (leased_mail (door_now d) lease) (mail_jobs d)\<rparr>)"
      by (intro moves_mail_jobs [OF _ assms]) (auto simp: mail_ok_def leased_mail_def deliverable_def add1_zle_eq)
    then show ?thesis by (simp add: claim_mail_def Cons)
  qed
  show "door_kept d (conclude_mail unseal send now lease j seen d)
      \<and> tables_ok (conclude_mail unseal send now lease j seen d)"
    unfolding conclude_mail_def record_answer_def Let_def
    by (auto simp: mail_ok_def dead_with_def dead_job_def sent_mail_def retried_mail_def
        intro!: finish_mail_keeps [OF assms, THEN conjunct1] finish_mail_keeps [OF assms, THEN conjunct2]
        split: mail_decision.splits mail_answer.splits)
qed

definition outside_change ::
  "time \<Rightarrow> (uuid \<times> bool) list \<Rightarrow> role_grant list \<Rightarrow> (uuid \<Rightarrow> user_status) \<Rightarrow> (uuid \<Rightarrow> account_status) \<Rightarrow> door \<Rightarrow> door" where
  "outside_change at ps gs us hs d =
     d\<lparr>door_now := at, principals := ps, grants := gs,
       users := map (\<lambda>u. u\<lparr>us_status := us (us_id u)\<rparr>) (users d),
       homes := map (\<lambda>h. h\<lparr>ha_status := hs (ha_id h)\<rparr>) (homes d)\<rparr>"

lemma outside_keeps:
  assumes "tables_ok d"
  shows "door_kept d (outside_change at ps gs us hs d) \<and> tables_ok (outside_change at ps gs us hs d)"
  using assms by (auto simp: outside_change_def tables_ok_def comp_def image_image intro: door_kept_same)

end
