(* ===== verification/Door_Seats.thy ===== *)
theory Door_Seats
  imports Door_State
begin

text \<open>
  The seats of the beta: the admitted accounts and the places that open invitations reserve fit in the capacity, at
  every later reading of the clock; everybody has one identity, one account and one admission; every session stands
  for one used code. These hold between transactions, not between the statements of one, so each operation is treated
  as a whole.
\<close>

section \<open>The invariants\<close>

definition seats_ok :: "time \<Rightarrow> door \<Rightarrow> bool" where
  "seats_ok t d \<longleftrightarrow>
     (case beta d of
        None \<Rightarrow> False
      | Some b \<Rightarrow> beta_checks b \<and> bs_admitted b = int (length (admissions d))
          \<and> bs_admitted b + activeInvitationCount d t \<le> bs_capacity b)
     \<and> distinct (map iv_target (filter (is_active t) (invitations d)))
     \<and> (\<forall>r \<in> set (invitations d). is_active t r \<longrightarrow> iv_target r \<notin> ui_identifier ` set (identities d))"

definition people_ok :: "door \<Rightarrow> bool" where
  "people_ok d \<longleftrightarrow>
     map ui_userId (identities d) = map us_id (users d) \<and> map ad_userId (admissions d) = map us_id (users d)
     \<and> map ad_accountId (admissions d) = map ha_id (homes d)
     \<and> owners d = map (\<lambda>a. (ad_accountId a, ad_userId a)) (admissions d)"

definition consumed_challenge :: "door \<Rightarrow> uuid \<Rightarrow> bool" where
  "consumed_challenge d i \<longleftrightarrow> (case challenge_of d i of None \<Rightarrow> False | Some c \<Rightarrow> otp_consumedAt c \<noteq> None)"

definition sessions_ok :: "door \<Rightarrow> bool" where
  "sessions_ok d \<longleftrightarrow>
     map ss_id (portal_sessions d) = map rp_sessionId (replays d)
     \<and> map ss_userId (portal_sessions d) = map rp_userId (replays d)
     \<and> (\<forall>r \<in> set (replays d). consumed_challenge d (rp_challengeId r))"

section \<open>What an operation leaves alone\<close>

definition same_people :: "door \<Rightarrow> door \<Rightarrow> bool" where
  "same_people d d' \<longleftrightarrow>
     identities d' = identities d \<and> admissions d' = admissions d \<and> owners d' = owners d
     \<and> map us_id (users d') = map us_id (users d) \<and> map ha_id (homes d') = map ha_id (homes d)"

definition same_sessions :: "door \<Rightarrow> door \<Rightarrow> bool" where
  "same_sessions d d' \<longleftrightarrow>
     map ss_id (portal_sessions d') = map ss_id (portal_sessions d)
     \<and> map ss_userId (portal_sessions d') = map ss_userId (portal_sessions d) \<and> replays d' = replays d"

definition idle :: "door \<Rightarrow> door \<Rightarrow> bool" where
  "idle d d' \<longleftrightarrow>
     same_people d d' \<and> same_sessions d d' \<and> beta d' = beta d \<and> invitations d' = invitations d"

lemmas idle_defs = idle_def same_people_def same_sessions_def

lemma idle_refl [simp]: "idle d d" "same_people d d" "same_sessions d d"
  by (simp_all add: idle_defs)

lemma idle_trans: "idle a b \<Longrightarrow> idle b c \<Longrightarrow> idle a c"
  by (simp add: idle_defs)

lemma idle_closure [simp]: "idle\<^sup>*\<^sup>* = idle"
proof (intro ext iffI)
  show "idle a b" if "idle\<^sup>*\<^sup>* a b" for a b
    using that by (induction rule: rtranclp_induct) (auto intro: idle_trans)
qed auto

lemma idle_seats: "idle d d' \<Longrightarrow> seats_ok t d' \<longleftrightarrow> seats_ok t d"
  by (simp add: idle_defs seats_ok_def activeInvitationCount_def cong: option.case_cong)

lemma same_people_ok: "same_people d d' \<Longrightarrow> people_ok d' \<longleftrightarrow> people_ok d"
  by (simp add: same_people_def people_ok_def)

lemma consumed_kept: "door_kept d d' \<Longrightarrow> consumed_challenge d i \<Longrightarrow> consumed_challenge d' i"
  by (fastforce simp: door_kept_def consumed_challenge_def kept_def later_challenge_def split: option.splits)

lemma same_sessions_ok:
  assumes "same_sessions d d'" and "door_kept d d'" and "sessions_ok d"
  shows "sessions_ok d'"
  using assms by (auto simp: same_sessions_def sessions_ok_def intro: consumed_kept)

abbreviation idles :: "'a doortx \<Rightarrow> door \<Rightarrow> bool" where
  "idles m d \<equiv> moves_at (\<lambda>_. True) idle m d"

lemma idlesI: "(\<And>x d'. m d = Inr (x, d') \<Longrightarrow> idle d d') \<Longrightarrow> idles m d"
  by (auto simp: moves_at_def)

lemma idlesD: "idles m d \<Longrightarrow> m d = Inr (x, d') \<Longrightarrow> idle d d'"
  by (simp add: moves_at_def)

lemma idles_modify: "idle d (f d) \<Longrightarrow> idles (modify f) d"
  by (rule idlesI) simp

lemma idles_writes [tx_rules]:
  "idles door_uuid d" "idles (insert_challenge c) d" "idles (insert_mail_job j) d" "idles (insert_mutation m) d"
  "idles (insert_door_audit e) d" "idles (update_challenge c f) d"
  unfolding insert_door_defs by (rule idlesI; auto simp: idle_defs)+

lemma idles_sign_event [tx_rules]: "idles (sign_event a b c e f g h i) d"
  unfolding sign_event_def by (intro tx_rules)

lemma idles_fail_with [tx_rules]: "idles (fail_with code) d"
  unfolding fail_with_def by (intro tx_rules)

lemma idles_audit_wrong_code [tx_rules]: "idles (audit_wrong_code v c) d"
  unfolding audit_wrong_code_def by (intro tx_rules)

lemma idles_audit_beta [tx_rules]: "idles (audit_beta a b c e f g h) d"
  unfolding audit_beta_def by (intro tx_rules)

lemma idles_consume [tx_rules]: "idles (consume now action key limit) d"
  by (rule idlesI) (auto simp: consume_def andThen_Inr_iff idle_defs split: option.splits)

lemma idles_supersede [tx_rules]: "idles (supersede email now) d"
  unfolding supersede_def by (intro tx_rules idles_modify) (simp_all add: idle_defs)

lemma idles_issue_code [tx_rules]: "idles (issue_code q) d"
  unfolding issue_code_def by (intro tx_rules)

lemma idles_verify_consumed [tx_rules]: "idles (verify_consumed v c) d"
  unfolding verify_consumed_def by (intro tx_rules)

lemma idles_first_invited [tx_rules]: "idles (first_invited tick target) d"
  unfolding first_invited_def by (intro tx_rules)

lemma idle_transaction: "idles m d \<Longrightarrow> idle d (snd (transaction m d))"
  by (cases rule: transaction_cases [of m d]) (auto dest: idlesD)

lemma request_idle: "idle d (snd (requestOtp js q d))"
  unfolding requestOtp_def by (rule idle_transaction, intro tx_rules)

lemma sign_out_idle: "idle d (snd (revoke_session hash cid d))"
  unfolding revoke_session_def
  by (rule idle_transaction, intro tx_rules idles_modify)
    (auto simp: idle_defs update_where_def)

lemma mail_idle:
  "idle d (expire_leases d)" "idle d (snd (claim_mail lease d))" "idle d (finish_mail j lease f d)"
  by (auto simp: expire_leases_def claim_mail_def finish_mail_def idle_defs split: list.splits)

lemma conclude_idle: "idle d (conclude_mail unseal send now lease j seen d)"
  by (simp add: conclude_mail_def record_answer_def Let_def mail_idle split: mail_decision.splits mail_answer.splits)

lemma outside_idle: "idle d (outside_change at ps gs us hs d)"
  by (simp add: outside_change_def idle_defs comp_def)

section \<open>Seats over time\<close>

lemma is_active_later: "is_active t' r \<Longrightarrow> t \<le> t' \<Longrightarrow> is_active t r"
  by (simp add: is_active_def)

lemma active_filter: "t \<le> t' \<Longrightarrow> filter (is_active t') xs = filter (is_active t') (filter (is_active t) xs)"
  by (induction xs) (auto dest: is_active_later)

lemma active_fewer: "t \<le> t' \<Longrightarrow> length (filter (is_active t') xs) \<le> length (filter (is_active t) xs)"
  by (subst active_filter, assumption) (rule length_filter_le)

lemma seats_ok_later:
  assumes "seats_ok t d" and "t \<le> t'"
  shows "seats_ok t' d"
proof -
  have "distinct (map iv_target (filter (is_active t') (invitations d)))"
    using assms by (subst active_filter [OF assms(2)]) (auto simp: seats_ok_def intro: distinct_map_filter simp del: filter_filter)
  then show ?thesis
    using assms active_fewer [OF assms(2), of "invitations d"]
    by (auto simp: seats_ok_def activeInvitationCount_def dest: is_active_later split: option.splits)
qed

text \<open>An invitation that is taken back or used up.\<close>

lemma active_closed:
  assumes "\<And>r. iv_id r = i \<Longrightarrow> \<not> is_active t (f r)"
  shows "filter (is_active t) (update_where (\<lambda>r. iv_id r = i) f rows)
    = filter (\<lambda>r. iv_id r \<noteq> i) (filter (is_active t) rows)"
  using assms by (induction rows) auto

lemma active_in_closed:
  assumes "\<And>r. iv_id r = i \<Longrightarrow> \<not> is_active t (f r)" and "r \<in> set (update_where (\<lambda>r. iv_id r = i) f rows)"
    and "is_active t r"
  shows "r \<in> set rows \<and> iv_id r \<noteq> i"
  using assms by (auto simp: set_update_where)

section \<open>The commands of the administrators\<close>

definition settled :: "door \<Rightarrow> door \<Rightarrow> bool" where
  "settled d d' \<longleftrightarrow> same_people d d' \<and> same_sessions d d'"

lemma settled_refl [simp]: "settled d d"
  by (simp add: settled_def)

lemma settled_closure [simp]: "settled\<^sup>*\<^sup>* = settled"
proof (intro ext iffI)
  show "settled a b" if "settled\<^sup>*\<^sup>* a b" for a b
    using that by (induction rule: rtranclp_induct) (auto simp: settled_def same_people_def same_sessions_def)
qed auto

abbreviation seats_move :: "time \<Rightarrow> 'a doortx \<Rightarrow> door \<Rightarrow> bool" where
  "seats_move t m d \<equiv> moves_at (seats_ok t) settled m d"

lemma seats_moveI:
  "(\<And>x d'. seats_ok t d \<Longrightarrow> m d = Inr (x, d') \<Longrightarrow> settled d d' \<and> seats_ok t d') \<Longrightarrow> seats_move t m d"
  by (simp add: moves_at_def)

lemma idle_move: "idles m d \<Longrightarrow> seats_move t m d"
  by (rule seats_moveI) (auto dest!: idlesD simp: idle_seats, simp add: idle_def settled_def)

lemmas idle_moves [tx_rules] =
  idles_writes [THEN idle_move] idles_audit_beta [THEN idle_move]

lemma move_transaction:
  assumes "seats_move t m d" and "seats_ok t d"
  shows "settled d (snd (transaction m d)) \<and> seats_ok t (snd (transaction m d))"
  using moves_at_transaction [OF assms] by simp

lemma state_of_fields [simp]:
  "bs_mode (state_of b) = bs_mode b" "bs_capacity (state_of b) = bs_capacity b"
  "bs_admitted (state_of b) = bs_admitted b" "bs_revision (state_of b) = bs_revision b"
  "beta_state.truncate (state_of b) = b"
  by (simp_all add: state_of_def beta_state.defs)

lemma readState_Inr [simp]:
  "readState d = Inr y \<longleftrightarrow> (\<exists>b. beta d = Some b \<and> y = (state_of b, d))"
  by (auto simp: readState_def split: option.splits)

lemma seats_readState [tx_rules]: "seats_move t readState d"
  by (rule seats_moveI) auto

text \<open>An invitation for which there is room.\<close>

lemma seats_insert_invitation:
  assumes "identity_of d (iv_target r) = None"
    and "\<not> list_ex (\<lambda>x. iv_target x = iv_target r \<and> is_active t x) (invitations d)"
    and "\<And>b. beta d = Some b \<Longrightarrow> bs_admitted b + activeInvitationCount d t < bs_capacity b"
  shows "seats_move t (insert_invitation r) d"
proof (rule seats_moveI)
  fix x d'
  assume ok: "seats_ok t d" and "insert_invitation r d = Inr (x, d')"
  then have d': "d' = d\<lparr>invitations := invitations d @ [r]\<rparr>"
    by (simp add: insert_door_defs)
  have "settled d d'"
    by (simp add: settled_def same_people_def same_sessions_def d')
  moreover have "seats_ok t d'"
    using ok assms
    by (auto simp: seats_ok_def d' activeInvitationCount_def identity_of_def find_None_mem list_ex_iff
        split: option.splits)
  ultimately show "settled d d' \<and> seats_ok t d'" by simp
qed

lemma seats_write_invitation:
  assumes "identity_of d (vi_target q) = None"
    and "\<not> list_ex (\<lambda>x. iv_target x = vi_target q \<and> is_active t x) (invitations d)"
    and "\<And>b. beta d = Some b \<Longrightarrow> bs_admitted b + activeInvitationCount d t < bs_capacity b"
  shows "seats_move t (write_invitation sanitize redact ticks q) d"
  unfolding write_invitation_def
  by (intro tx_rules seats_insert_invitation)
    (use assms in \<open>auto simp: new_invitation_def identity_of_def activeInvitationCount_def\<close>)

lemma active_count_later: "t \<le> t' \<Longrightarrow> activeInvitationCount d t' \<le> activeInvitationCount d t"
  using active_fewer by (simp add: activeInvitationCount_def)

lemma seats_invite_new:
  assumes "mono ticks" and "beta d = Some b"
  shows "seats_move (ticks 4) (invite_new sanitize redact ticks q (state_of b)) d"
proof -
  have ticks: "ticks 1 \<le> ticks 4" "ticks 2 \<le> ticks 4"
    using assms(1) by (auto intro: monoD)
  have none: "\<not> list_ex (\<lambda>x. iv_target x = i \<and> is_active (ticks 4) x) rows"
    if "\<not> list_ex (\<lambda>x. iv_target x = i \<and> is_active (ticks 1) x) rows" for i rows
    using that is_active_later [OF _ ticks(1)] by (auto simp: list_ex_iff)
  show ?thesis
    unfolding invite_new_def
    by (intro tx_rules seats_write_invitation none)
      (use assms(2) active_count_later [OF ticks(2), of d] in auto)
qed

lemma invite_seats:
  assumes "seats_ok t d" and "mono ticks" and "t \<le> ticks 0"
  shows "settled d (snd (createIdentityInvitation valid H sanitize redact ticks q d))
    \<and> seats_ok (ticks 4) (snd (createIdentityInvitation valid H sanitize redact ticks q d))"
proof -
  have "ticks 0 \<le> ticks 4"
    using assms(2) by (auto intro: monoD)
  then have ok: "seats_ok (ticks 4) d"
    using seats_ok_later [OF assms(1)] assms(3) by simp
  have "settled d (snd (inviteIdentity sanitize redact ticks q d))
      \<and> seats_ok (ticks 4) (snd (inviteIdentity sanitize redact ticks q d))" for q
    unfolding inviteIdentity_def
    by (rule move_transaction [OF _ ok], intro tx_rules) (auto intro: seats_invite_new [OF assms(2)])
  then show ?thesis
    using ok by (simp add: createIdentityInvitation_def)
qed

lemma seats_ok_fewer:
  assumes "seats_ok t d" and "beta d' = beta d" and "admissions d' = admissions d" and "identities d' = identities d"
    and "activeInvitationCount d' t \<le> activeInvitationCount d t"
    and "distinct (map iv_target (filter (is_active t) (invitations d')))"
    and "set (filter (is_active t) (invitations d')) \<subseteq> set (filter (is_active t) (invitations d))"
  shows "seats_ok t d'"
proof -
  obtain b where "beta d = Some b"
    using assms(1) by (auto simp: seats_ok_def split: option.splits)
  then show ?thesis
    using assms by (auto simp: seats_ok_def)
qed

lemma seats_close_invitation:
  assumes closed: "\<And>y. \<not> is_active t (f y)"
  shows "seats_move t (update_invitation r f) d"
proof (rule seats_moveI)
  fix x d'
  assume ok: "seats_ok t d" and "update_invitation r f d = Inr (x, d')"
  then have d': "d' = d\<lparr>invitations := update_where (\<lambda>x. iv_id x = iv_id r) f (invitations d)\<rparr>"
    by simp
  have active: "filter (is_active t) (invitations d')
      = filter (\<lambda>x. iv_id x \<noteq> iv_id r) (filter (is_active t) (invitations d))"
    unfolding d' by (simp add: active_closed [OF closed] del: filter_filter)
  have "seats_ok t d'"
  proof (rule seats_ok_fewer [OF ok])
    show "distinct (map iv_target (filter (is_active t) (invitations d')))"
      unfolding active by (rule distinct_map_filter) (use ok in \<open>simp add: seats_ok_def\<close>)
    show "activeInvitationCount d' t \<le> activeInvitationCount d t"
      unfolding activeInvitationCount_def active of_nat_le_iff by (rule length_filter_le)
    show "set (filter (is_active t) (invitations d')) \<subseteq> set (filter (is_active t) (invitations d))"
      unfolding active by (rule filter_is_subset)
  qed (simp_all add: d')
  then show "settled d d' \<and> seats_ok t d'"
    by (simp add: settled_def same_people_def same_sessions_def d')
qed

lemma seats_revoke_locked: "seats_move t (revoke_locked sanitize redact t now q) d"
  unfolding revoke_locked_def
  by (intro tx_rules seats_close_invitation) (simp add: is_active_def revoked_invitation_def)

lemma uninvite_seats:
  assumes "seats_ok t d" and "t \<le> tick"
  shows "settled d (snd (revokeInvitationService H sanitize redact tick now a i q cid reason d))
    \<and> seats_ok tick (snd (revokeInvitationService H sanitize redact tick now a i q cid reason d))"
proof -
  have ok: "seats_ok tick d"
    using seats_ok_later [OF assms] .
  have "settled d (snd (revokeIdentityInvitation sanitize redact tick now q d))
      \<and> seats_ok tick (snd (revokeIdentityInvitation sanitize redact tick now q d))" for q
    unfolding revokeIdentityInvitation_def
    by (rule move_transaction [OF _ ok], intro tx_rules seats_revoke_locked)
  then show ?thesis
    using ok by (simp add: revokeInvitationService_def)
qed

lemma seats_set_beta:
  assumes "beta d = Some b" and "bs_admitted b' = bs_admitted b"
    and "bs_admitted b + activeInvitationCount d t \<le> bs_capacity b'"
  shows "seats_move t (set_beta b') d"
  by (rule seats_moveI)
    (use assms in \<open>auto simp: seats_ok_def settled_def same_people_def same_sessions_def activeInvitationCount_def\<close>)

lemma seats_mutate_new:
  assumes "beta d = Some b"
  shows "seats_move t (mutate_new sanitize t now q b) d"
  unfolding mutate_new_def write_mutation_def
  by (intro tx_rules seats_set_beta [OF assms]) auto

lemma set_admission_seats:
  assumes "seats_ok t d" and "t \<le> tick"
  shows "settled d (snd (betaService H sanitize tick now q d)) \<and> seats_ok tick (snd (betaService H sanitize tick now q d))"
proof -
  have ok: "seats_ok tick d"
    using seats_ok_later [OF assms] .
  have "settled d (snd (mutate_beta sanitize tick now q d)) \<and> seats_ok tick (snd (mutate_beta sanitize tick now q d))" for q
    unfolding mutate_beta_def
    by (rule move_transaction [OF _ ok], intro tx_rules) (auto intro: seats_mutate_new)
  then show ?thesis
    using ok by (simp add: betaService_def)
qed

section \<open>The admission of an identity\<close>

lemma create_user_fields:
  "create_user target now u a d = Inr (x, d') \<Longrightarrow>
     \<exists>at. d' = d\<lparr>users := users d @ [\<lparr>us_id = u, us_status = USER_ACTIVE\<rparr>],
       homes := homes d @ [\<lparr>ha_id = a, ha_status = ACCOUNT_ACTIVE, ha_displayName = None, ha_createdAt = at\<rparr>],
       owners := owners d @ [(a, u)],
       identities := identities d @ [\<lparr>ui_userId = u, ui_identifier = target, ui_verifiedAt = now\<rparr>],
       admissions := admissions d @ [\<lparr>ad_accountId = a, ad_userId = u, ad_admittedAt = now\<rparr>]\<rparr>"
  by (cases d) (auto simp: create_user_def andThen_Inr_iff insert_door_defs)

lemma take_seat_fields:
  "take_seat now d = Inr (x, d') \<Longrightarrow>
     \<exists>b. beta d = Some b \<and> bs_admitted b < bs_capacity b
       \<and> beta_checks (b\<lparr>bs_admitted := bs_admitted b + 1, bs_updatedAt := now\<rparr>)
       \<and> d' = d\<lparr>beta := Some (b\<lparr>bs_admitted := bs_admitted b + 1, bs_updatedAt := now\<rparr>)\<rparr>"
  by (cases d) (auto simp: take_seat_def split: option.splits if_splits)

lemma consume_invitation_fields:
  "consume_invitation tick tick' i cid u d = Inr (x, d') \<Longrightarrow>
     \<exists>as. d' = d\<lparr>invitations := update_where (\<lambda>x. iv_id x = i) (consumed_invitation tick' u) (invitations d),
       door_audits := as\<rparr>"
  by (cases d) (auto simp: consume_invitation_def sign_event_def andThen_Inr_iff insert_door_defs dest!: invitation_of_id
      split: option.splits if_splits)

lemma sign_event_fields: "sign_event a b c e f g h i d = Inr (x, d') \<Longrightarrow> \<exists>as. d' = d\<lparr>door_audits := as\<rparr>"
  by (cases d) (auto simp: sign_event_def insert_door_defs)

lemma admit_new_fields:
  assumes "admit_new ticks now target cid invited d = Inr (u, d')"
  shows "u = door_uuids d (door_drawn d)
    \<and> users d' = users d @ [\<lparr>us_id = u, us_status = USER_ACTIVE\<rparr>]
    \<and> map ha_id (homes d') = map ha_id (homes d) @ [door_uuids d (Suc (door_drawn d))]
    \<and> owners d' = owners d @ [(door_uuids d (Suc (door_drawn d)), u)]
    \<and> identities d' = identities d @ [\<lparr>ui_userId = u, ui_identifier = target, ui_verifiedAt = now\<rparr>]
    \<and> admissions d' = admissions d @
        [\<lparr>ad_accountId = door_uuids d (Suc (door_drawn d)), ad_userId = u, ad_admittedAt = now\<rparr>]
    \<and> (\<exists>b. beta d = Some b \<and> bs_admitted b < bs_capacity b
        \<and> beta d' = Some (b\<lparr>bs_admitted := bs_admitted b + 1, bs_updatedAt := now\<rparr>)
        \<and> beta_checks (b\<lparr>bs_admitted := bs_admitted b + 1, bs_updatedAt := now\<rparr>))
    \<and> invitations d' = (case invited of
          None \<Rightarrow> invitations d
        | Some r \<Rightarrow> update_where (\<lambda>x. iv_id x = iv_id r) (consumed_invitation (ticks 3) u) (invitations d))
    \<and> same_sessions d d'"
  using assms
  by (cases invited)
    (auto simp: admit_new_def andThen_Inr_iff same_sessions_def
      dest!: create_user_fields take_seat_fields consume_invitation_fields sign_event_fields)

lemma first_invited_Inr:
  assumes "first_invited tick target d = Inr (invited, d')"
  shows "d' = d" and "invited = None \<Longrightarrow> invited_of tick target d = []"
    and "invited = Some r \<Longrightarrow> invited_of tick target d = [r]"
  using assms by (auto simp: first_invited_def split: if_splits list.splits)

lemma admit_people: "people_ok d \<Longrightarrow> admit_new ticks now target cid invited d = Inr (u, d') \<Longrightarrow> people_ok d'"
  by (auto simp: people_ok_def dest!: admit_new_fields)

lemma admit_seats_free:
  assumes "seats_ok t d" and "mono ticks" and "t \<le> ticks 0" and b: "beta d = Some b"
    and none: "invited_of (ticks 0) target d = []" and "admission_refusal (ticks 1) b False d = None"
    and run: "admit_new ticks now target cid None d = Inr (u, d')"
  shows "seats_ok (ticks 3) d'"
proof -
  have ticks: "ticks 0 \<le> ticks 3" "ticks 1 \<le> ticks 3"
    using assms(2) by (auto intro: monoD)
  have ok: "seats_ok (ticks 3) d"
    using seats_ok_later [OF assms(1)] assms(3) ticks by simp
  note new = admit_new_fields [OF run]
  have "bs_admitted b + activeInvitationCount d (ticks 3) < bs_capacity b"
    using assms(6) active_count_later [OF ticks(2), of d] by (simp add: admission_refusal_def split: if_splits)
  moreover have "activeInvitationCount d' t = activeInvitationCount d t" for t
    using new by (simp add: activeInvitationCount_def)
  moreover have "iv_target r \<noteq> target" if "r \<in> set (invitations d)" "is_active (ticks 3) r" for r
    using none that is_active_later [OF that(2) ticks(1)] by (auto simp: invited_of_def filter_empty_conv)
  ultimately show ?thesis
    using ok new b by (auto simp: seats_ok_def)
qed

lemma admit_seats_invited:
  assumes "tables_ok d" and "seats_ok t d" and "mono ticks" and "t \<le> ticks 0" and b: "beta d = Some b"
    and r: "invited_of (ticks 0) target d = [r]"
    and run: "admit_new ticks now target cid (Some r) d = Inr (u, d')"
  shows "seats_ok (ticks 3) d'"
proof -
  let ?t = "ticks 3"
  have ticks: "ticks 0 \<le> ?t"
    using assms(3) by (auto intro: monoD)
  have ok0: "seats_ok (ticks 0) d" and ok: "seats_ok ?t d"
    using seats_ok_later [OF assms(2)] assms(4) ticks by simp_all
  note new = admit_new_fields [OF run]
  have r_in: "r \<in> set (filter (is_active (ticks 0)) (invitations d))" and target: "iv_target r = target"
    using arg_cong [OF r, of set] by (auto simp: invited_of_def)
  have closed: "\<not> is_active ?t (consumed_invitation ?t u y)" for y
    by (simp add: is_active_def consumed_invitation_def)
  have inv': "invitations d' = update_where (\<lambda>x. iv_id x = iv_id r) (consumed_invitation ?t u) (invitations d)"
    using new by simp
  have active: "filter (is_active ?t) (invitations d')
      = filter (\<lambda>x. iv_id x \<noteq> iv_id r) (filter (is_active ?t) (invitations d))"
    unfolding inv' by (rule active_closed) (rule closed)
  have "length (filter (\<lambda>x. iv_id x \<noteq> iv_id r) (filter (is_active ?t) (invitations d)))
      \<le> length (filter (\<lambda>x. iv_id x \<noteq> iv_id r) (filter (is_active (ticks 0)) (invitations d)))"
    using active_fewer [OF ticks, of "filter (\<lambda>x. iv_id x \<noteq> iv_id r) (invitations d)"]
    by (simp add: conj_commute)
  also have "\<dots> < length (filter (is_active (ticks 0)) (invitations d))"
    using r_in by (intro length_filter_less [of r]) auto
  finally have "activeInvitationCount d' ?t + 1 \<le> activeInvitationCount d (ticks 0)"
    unfolding activeInvitationCount_def active by simp
  moreover have "distinct (map iv_target (filter (is_active ?t) (invitations d')))"
    unfolding active by (rule distinct_map_filter) (use ok in \<open>simp add: seats_ok_def\<close>)
  moreover have "y \<in> set (invitations d) \<and> iv_target y \<noteq> target"
    if y: "y \<in> set (invitations d')" "is_active ?t y" for y
  proof -
    have old: "y \<in> set (invitations d)" "iv_id y \<noteq> iv_id r"
      using active_in_closed [of "iv_id r" ?t "consumed_invitation ?t u" y "invitations d"] closed y inv' by auto
    then have "y \<in> set (filter (is_active (ticks 0)) (invitations d))"
      using is_active_later [OF y(2) ticks] by simp
    then show ?thesis
      using old ok0 r_in target distinct_map_unique [of iv_target "filter (is_active (ticks 0)) (invitations d)" y r]
      by (auto simp: seats_ok_def)
  qed
  ultimately show ?thesis
    using ok0 ok new b by (auto simp: seats_ok_def)
qed

text \<open>The identity behind a code is admitted, or known already, or refused.\<close>

lemma sign_in_state:
  assumes "tables_ok d" and "seats_ok t d" and "people_ok d" and "mono ticks" and "t \<le> ticks 0"
    and run: "sign_in_user ticks now v c d = Inr (x, d')"
  shows "seats_ok (ticks 3) d' \<and> people_ok d' \<and> same_sessions d d'"
proof -
  have "ticks 0 \<le> ticks 3"
    using assms(4) by (auto intro: monoD)
  then have ok: "seats_ok (ticks 3) d"
    using seats_ok_later [OF assms(2)] assms(5) by simp
  have same: "seats_ok (ticks 3) s \<and> people_ok s \<and> same_sessions d s" if "idle d s" for s
    using that ok assms(3) same_people_ok [of d s] idle_seats [OF that] by (auto simp: idle_def)
  show ?thesis
  proof (cases "known_user d (otp_target c)")
    case (Some u)
    then have "idle d d'"
      using run idles_sign_event [THEN idlesD]
      by (auto simp: sign_in_user_def andThen_Inr_iff fail_with_def split: if_splits)
    then show ?thesis by (rule same)
  next
    case None
    then have "admit_identity ticks now (otp_target c) (vq_correlationId v) d = Inr (x, d')"
      using run by (simp add: sign_in_user_def)
    then obtain b invited s where b: "beta d = Some b"
        and first: "first_invited (ticks 0) (otp_target c) d = Inr (invited, s)"
        and rest: "(case admission_refusal (ticks 1) b (invited \<noteq> None) s of
            Some code \<Rightarrow> fail_with code
          | None \<Rightarrow> andThen (admit_new ticks now (otp_target c) (vq_correlationId v) invited)
              (\<lambda>userId. ret (Inr userId))) s = Inr (x, d')"
      by (cases "beta d") (auto simp: admit_identity_def andThen_Inr_iff)
    have "s = d"
      using first by (rule first_invited_Inr(1))
    note invited = first [unfolded this] and cases = rest [unfolded this]
    show ?thesis
    proof (cases "admission_refusal (ticks 1) b (invited \<noteq> None) d")
      case (Some code)
      then show ?thesis using cases same [of d] by (simp add: fail_with_def)
    next
      case refusal: None
      then obtain u where new: "admit_new ticks now (otp_target c) (vq_correlationId v) invited d = Inr (u, d')"
        using cases by (auto simp: andThen_Inr_iff)
      have "seats_ok (ticks 3) d'"
      proof (cases invited)
        case None
        then show ?thesis
          using admit_seats_free [OF assms(2,4,5) b] first_invited_Inr(2) [OF invited] refusal new by simp
      next
        case (Some r)
        then show ?thesis
          using admit_seats_invited [OF assms(1,2,4,5) b] first_invited_Inr(3) [OF invited] new by simp
      qed
      then show ?thesis
        using admit_people [OF assms(3) new] admit_new_fields [OF new] by simp
    qed
  qed
qed

section \<open>The invariant of the sign-in\<close>

definition door_ok :: "time \<Rightarrow> door \<Rightarrow> bool" where
  "door_ok t d \<longleftrightarrow> tables_ok d \<and> seats_ok t d \<and> people_ok d \<and> sessions_ok d"

lemma door_ok_later: "door_ok t d \<Longrightarrow> t \<le> t' \<Longrightarrow> door_ok t' d"
  by (auto simp: door_ok_def intro: seats_ok_later)

lemma door_ok_idle:
  assumes "door_ok t d" and "idle d d'" and "door_kept d d' \<and> tables_ok d'"
  shows "door_ok t d'"
  using assms idle_seats [OF assms(2), of t] same_people_ok [of d d'] same_sessions_ok [of d d']
  by (simp add: door_ok_def idle_def)

lemma door_ok_settled:
  assumes "door_ok t d" and "settled d d' \<and> seats_ok t' d'" and "door_kept d d' \<and> tables_ok d'"
  shows "door_ok t' d'"
  using assms same_people_ok [of d d'] same_sessions_ok [of d d'] by (simp add: door_ok_def settled_def)

lemma door_ok_run:
  assumes "door_ok t d" and "idles m d" and "moves m d" and "m d = Inr (x, d')"
  shows "door_ok t d'"
  using door_ok_idle [OF assms(1) idlesD [OF assms(2,4)]] moves_atD [OF assms(3) _ assms(4)] assms(1)
  by (simp add: door_ok_def)

lemma open_session_fields:
  assumes "open_session v c u d = Inr (x, d')"
  shows "map ss_id (portal_sessions d') = map ss_id (portal_sessions d) @ [door_uuids d (door_drawn d)]
    \<and> map ss_userId (portal_sessions d') = map ss_userId (portal_sessions d) @ [u]
    \<and> (\<exists>r. replays d' = replays d @ [r] \<and> rp_challengeId r = otp_id c \<and> rp_userId r = u
        \<and> rp_sessionId r = door_uuids d (door_drawn d))
    \<and> same_people d d' \<and> beta d' = beta d \<and> invitations d' = invitations d"
  using assms
  by (auto simp: open_session_def andThen_Inr_iff insert_door_defs same_people_def dest!: sign_event_fields)

lemma open_session_ok:
  assumes "door_ok t d" and "consumed_challenge d (otp_id c)" and run: "open_session v c u d = Inr (x, d')"
  shows "door_ok t d'"
proof -
  have kept: "door_kept d d'" "tables_ok d'"
    using moves_atD [OF moves_open_session _ run] assms(1) by (simp_all add: door_ok_def)
  note new = open_session_fields [OF run]
  have "seats_ok t d' \<longleftrightarrow> seats_ok t d"
    using new by (simp add: seats_ok_def activeInvitationCount_def same_people_def cong: option.case_cong)
  moreover have "sessions_ok d'"
    using new assms(1,2) consumed_kept [OF kept(1)] by (auto simp: sessions_ok_def door_ok_def)
  ultimately show ?thesis
    using assms(1) new same_people_ok [of d d'] kept(2) by (simp add: door_ok_def)
qed

lemma challenge_of_update:
  assumes "challenge_of d i = Some c" and "update_challenge c f d = Inr (x, d')" and "\<And>y. otp_id (f y) = otp_id y"
  shows "challenge_of d' i = Some (f c)"
  using assms challenge_of_id [OF assms(1)] by (auto simp: challenge_of_def find_update_where)

lemma claimed_code:
  assumes "door_ok t d" and c: "challenge_of d i = Some c" and "otp_consumedAt c = None" and "\<not> locked c"
    and run: "update_challenge c (\<lambda>r. r\<lparr>otp_consumedAt := Some now\<rparr>) d = Inr (x, d')"
  shows "door_ok t d'" and "consumed_challenge d' (otp_id c)"
proof -
  have moves: "moves (update_challenge c (\<lambda>r. r\<lparr>otp_consumedAt := Some now\<rparr>)) d"
    using c challenge_of_id [OF c] assms(3,4) by (intro moves_update_challenge) (auto simp: later_challenge_def)
  show "door_ok t d'"
    using run by (rule door_ok_run [OF assms(1) idles_writes(6) moves])
  show "consumed_challenge d' (otp_id c)"
    using challenge_of_update [OF c run] challenge_of_id [OF c] by (simp add: consumed_challenge_def)
qed

lemma sign_in_ok:
  assumes "door_ok t d" and "mono ticks" and "t \<le> ticks 0" and run: "sign_in_user ticks now v c d = Inr (x, d')"
  shows "door_ok (ticks 3) d'" and "door_kept d d'"
proof -
  have kept: "door_kept d d' \<and> tables_ok d'"
    using moves_atD [OF moves_sign_in_user _ run] assms(1) by (simp add: door_ok_def)
  moreover have "seats_ok (ticks 3) d' \<and> people_ok d' \<and> same_sessions d d'"
    using sign_in_state [OF _ _ _ assms(2,3) run] assms(1) by (simp add: door_ok_def)
  ultimately show "door_ok (ticks 3) d'" "door_kept d d'"
    using assms(1) same_sessions_ok [of d d'] by (simp_all add: door_ok_def)
qed

lemma verify_fresh_ok:
  assumes ok: "door_ok t d" and "mono ticks" and "t \<le> ticks 0" and c: "challenge_of d i = Some c"
    and "otp_consumedAt c = None" and run: "verify_fresh ticks now admissionNow v c d = Inr (x, d')"
  shows "door_ok (ticks 3) d'"
proof -
  have later: "t \<le> ticks 3"
    using assms(2,3) monoD [OF assms(2), of 0 3] by simp
  have moves: "moves (verify_fresh ticks now admissionNow v c) d"
    using ok by (intro moves_verify_fresh [OF _ c assms(5)]) (simp add: door_ok_def)
  show ?thesis
  proof (cases "locked c \<or> otp_expiresAt c \<le> now \<or> \<not> right_code v c")
    case True
    then have "idles (verify_fresh ticks now admissionNow v c) d"
      unfolding verify_fresh_def by (intro tx_rules) (auto simp: locked_def)
    from door_ok_run [OF ok this moves run] show ?thesis
      using later by (rule door_ok_later)
  next
    case False
    then obtain d1 u d2 where claim: "update_challenge c (\<lambda>r. r\<lparr>otp_consumedAt := Some now\<rparr>) d = Inr ((), d1)"
        and user: "sign_in_user ticks admissionNow v c d1 = Inr (u, d2)"
        and rest: "(case u of Inl code \<Rightarrow> fail_with code | Inr userId \<Rightarrow> open_session v c userId) d2 = Inr (x, d')"
      using run by (auto simp: verify_fresh_def locked_def andThen_Inr_iff simp del: update_challenge_Inr)
    note d1 = claimed_code [OF ok c assms(5) _ claim]
    have d2: "door_ok (ticks 3) d2" "door_kept d1 d2"
      using sign_in_ok [OF d1(1) assms(2,3) user] False by simp_all
    then have "consumed_challenge d2 (otp_id c)"
      using consumed_kept d1(2) False by blast
    then show ?thesis
      using rest d2(1) open_session_ok by (cases u) (auto simp: fail_with_def)
  qed
qed

lemma verify_ok:
  assumes ok: "door_ok t d" and "mono ticks" and "t \<le> ticks 0"
  shows "door_ok (ticks 3) (snd (verifyOtp js ticks v d))"
proof -
  have later: "t \<le> ticks 3"
    using assms(2,3) monoD [OF assms(2), of 0 3] by simp
  show ?thesis
    unfolding verifyOtp_def
  proof (rule transaction_keeps, rule door_ok_later [OF ok later], elim andThen_InrE)
    fix x d' allowed d0
    assume count: "consume (js 0) ''OTP_VERIFY_IP'' (vq_ipKey v) 30 d = Inr (allowed, d0)"
      and rest: "(if \<not> allowed then fail_with AUTH_RATE_LIMITED
        else andThen (gets (\<lambda>d. challenge_of d (vq_challengeId v))) (\<lambda>found.
          case found of None \<Rightarrow> fail_with AUTH_OTP_INVALID
          | Some c \<Rightarrow> if otp_consumedAt c \<noteq> None then verify_consumed v c
              else verify_fresh ticks (js 1) (js 2) v c)) d0 = Inr (x, d')"
    have d0: "door_ok t d0"
      by (rule door_ok_run [OF ok idles_consume moves_consume count])
    show "door_ok (ticks 3) d'"
    proof (cases "\<not> allowed \<or> challenge_of d0 (vq_challengeId v) = None")
      case True
      then have "d' = d0"
        using rest by (auto simp: fail_with_def split: if_splits)
      then show ?thesis
        using door_ok_later [OF d0 later] by simp
    next
      case False
      then obtain c where c: "challenge_of d0 (vq_challengeId v) = Some c" and allowed by auto
      show ?thesis
      proof (cases "otp_consumedAt c = None")
        case True
        then show ?thesis
          using rest c \<open>allowed\<close> verify_fresh_ok [OF d0 assms(2,3) c] by simp
      next
        case used: False
        then have "verify_consumed v c d0 = Inr (x, d')"
          using rest c \<open>allowed\<close> by simp
        from door_ok_run [OF d0 idles_verify_consumed moves_verify_consumed this] show ?thesis
          using later by (rule door_ok_later)
      qed
    qed
  qed
qed

end
