(* ===== verification/Door_System.thy ===== *)
theory Door_System
  imports Door_Seats
begin

text \<open>
  The sign-in, the admission to the beta and the delivery of the codes as one transition system over their tables:
  requests and verifications of codes, sign-outs, the commands of the administrators of the beta and the statements of
  the mail worker, in any order. A state is the database with the last reading of its clock, which never goes back
  from one operation to the next; what else changes (the grants of the administrators, suspensions) is a step of its
  own.
\<close>

section \<open>Steps\<close>

inductive door_step :: "time \<times> door \<Rightarrow> time \<times> door \<Rightarrow> bool" where
  request: "door_step (t, d) (t, snd (requestOtp js q d))"
| verify: "mono ticks \<Longrightarrow> t \<le> ticks 0 \<Longrightarrow> door_step (t, d) (ticks 3, snd (verifyOtp js ticks v d))"
| sign_out: "door_step (t, d) (t, snd (revoke_session hash correlationId d))"
| invite: "mono ticks \<Longrightarrow> t \<le> ticks 0 \<Longrightarrow>
    door_step (t, d) (ticks 4, snd (createIdentityInvitation valid H sanitize redact ticks r d))"
| uninvite: "t \<le> tick \<Longrightarrow>
    door_step (t, d) (tick, snd (revokeInvitationService H sanitize redact tick now actor i requestId cid reason d))"
| set_admission: "t \<le> tick \<Longrightarrow> door_step (t, d) (tick, snd (betaService H sanitize tick now b d))"
| expire: "door_step (t, d) (t, expire_leases d)"
| claim: "door_step (t, d) (t, snd (claim_mail lease d))"
| conclude: "door_step (t, d) (t, conclude_mail unseal send now lease j seen d)"
| outside: "fst ` set (principals d) \<subseteq> fst ` set ps \<Longrightarrow> door_step (t, d) (t, outside_change at ps gs us hs d)"

inductive_cases door_stepE: "door_step x y"

text \<open>The tables as the migrations leave them; the administrators are there already.\<close>

definition door_start :: "time \<Rightarrow> door \<Rightarrow> bool" where
  "door_start t d \<longleftrightarrow>
     users d = [] \<and> identities d = [] \<and> homes d = [] \<and> owners d = [] \<and> challenges d = [] \<and> mail_jobs d = []
     \<and> portal_sessions d = [] \<and> replays d = [] \<and> buckets d = [] \<and> invitations d = [] \<and> admissions d = []
     \<and> beta_mutations d = [] \<and> door_audits d = []
     \<and> beta d = Some \<lparr>bs_mode = MODE_CLOSED, bs_capacity = 0, bs_admitted = 0, bs_revision = 1, bs_updatedAt = t\<rparr>"

definition door_reach :: "time \<times> door \<Rightarrow> bool" where
  "door_reach x \<longleftrightarrow> (\<exists>t d. door_start t d \<and> door_step\<^sup>*\<^sup>* (t, d) x)"

section \<open>The invariant\<close>

lemma start_ok: "door_start t d \<Longrightarrow> door_ok t d"
  by (simp add: door_start_def door_ok_def tables_ok_def seats_ok_def people_ok_def sessions_ok_def
      activeInvitationCount_def beta_checks_def int4_def)

definition advances :: "time \<times> door \<Rightarrow> time \<times> door \<Rightarrow> bool" where
  "advances x y \<longleftrightarrow> door_ok (fst y) (snd y) \<and> door_kept (snd x) (snd y) \<and> fst x \<le> fst y"

lemma door_ok_parts: "door_ok t d \<Longrightarrow> tables_ok d" "door_ok t d \<Longrightarrow> seats_ok t d"
  by (simp_all add: door_ok_def)

lemma advances_idle:
  assumes "door_ok t d" and "idle d d'" and "tables_ok d \<Longrightarrow> door_kept d d' \<and> tables_ok d'"
  shows "advances (t, d) (t, d')"
proof -
  note kept = assms(3) [OF door_ok_parts(1) [OF assms(1)]]
  show ?thesis
    using door_ok_idle [OF assms(1,2) kept] kept by (simp add: advances_def)
qed

lemma advances_settled:
  assumes "door_ok t d" and "seats_ok t d \<Longrightarrow> settled d d' \<and> seats_ok t' d'" and "t \<le> t'"
    and "tables_ok d \<Longrightarrow> door_kept d d' \<and> tables_ok d'"
  shows "advances (t, d) (t', d')"
proof -
  note kept = assms(4) [OF door_ok_parts(1) [OF assms(1)]]
  show ?thesis
    using door_ok_settled [OF assms(1) assms(2) [OF door_ok_parts(2) [OF assms(1)]] kept] kept assms(3)
    by (simp add: advances_def)
qed

lemma mono_from: "mono ticks \<Longrightarrow> (t :: time) \<le> ticks 0 \<Longrightarrow> t \<le> ticks (n :: nat)"
  using monoD [of ticks 0 n] by simp

lemma step_keeps:
  assumes "door_step x y" and "door_ok (fst x) (snd x)"
  shows "advances x y"
  using assms
proof (induction rule: door_step.induct)
  case (verify ticks t d js v)
  then show ?case
    using verify_ok [of t d ticks js v] verify_keeps [OF door_ok_parts(1), of t d js ticks v] mono_from
    by (simp add: advances_def)
next
  case (invite ticks t d valid H sanitize redact r)
  then show ?case
    using mono_from [of ticks t 4] by (intro advances_settled invite_seats invite_keeps) simp_all
next
  case (uninvite t tick d H sanitize redact now actor i requestId cid reason)
  then show ?case
    by (intro advances_settled uninvite_seats uninvite_keeps) simp_all
next
  case (set_admission t tick d H sanitize now b)
  then show ?case
    by (intro advances_settled set_admission_seats set_admission_keeps) simp_all
qed (intro advances_idle request_idle request_keeps sign_out_idle sign_out_keeps mail_idle mail_keeps conclude_idle
    outside_idle outside_keeps; simp)+

lemma steps_keep:
  assumes "door_step\<^sup>*\<^sup>* x y" and "door_ok (fst x) (snd x)"
  shows "advances x y"
  using assms
proof (induction rule: rtranclp_induct)
  case (step y z)
  then have "advances x y" "advances y z"
    using step_keeps by (auto simp: advances_def)
  then show ?case
    using door_kept_trans by (auto simp: advances_def)
qed (simp add: advances_def)

lemma reach_ok: "door_reach x \<Longrightarrow> door_ok (fst x) (snd x)"
  using steps_keep start_ok by (fastforce simp: door_reach_def advances_def)

text \<open>C7. In every state the sign-in can reach: the keys, references and checks of the tables hold; the admitted
  accounts are counted exactly and together with the open invitations fit in the capacity, now and at every later
  reading of the clock; no identity has two open invitations and none that is admitted has one; everybody has one
  identity, one account that they own and one admission; and every session stands for one used code.\<close>

theorem reachable_door:
  assumes "door_reach (t, d)"
  shows "door_ok t d"
  using reach_ok [OF assms] by simp

section \<open>Guesses\<close>

lemma consume_fields: "consume now action key limit d = Inr (x, d') \<Longrightarrow> \<exists>bs. d' = d\<lparr>buckets := bs\<rparr>"
  by (cases d) (auto simp: consume_def andThen_Inr_iff split: option.splits)

lemma transaction_committed: "transaction m s = (Inr x, s') \<longleftrightarrow> m s = Inr (x, s')"
  by (auto simp: transaction_def split: sum.splits)

text \<open>What a verification does after its rate limit.\<close>

lemma verify_cases:
  assumes "verifyOtp js ticks v d = (Inr r, d')"
  obtains (limited) bs where "r = Inl AUTH_RATE_LIMITED" "d' = d\<lparr>buckets := bs\<rparr>"
  | (unknown) bs where "r = Inl AUTH_OTP_INVALID" "d' = d\<lparr>buckets := bs\<rparr>"
      "challenge_of d (vq_challengeId v) = None"
  | (used) bs c where "challenge_of d (vq_challengeId v) = Some c" "otp_consumedAt c \<noteq> None"
      "verify_consumed v c (d\<lparr>buckets := bs\<rparr>) = Inr (r, d')"
  | (fresh) bs c where "challenge_of d (vq_challengeId v) = Some c" "otp_consumedAt c = None"
      "verify_fresh ticks (js 1) (js 2) v c (d\<lparr>buckets := bs\<rparr>) = Inr (r, d')"
proof -
  have buckets: "challenge_of (d\<lparr>buckets := bs\<rparr>) = challenge_of d" for bs
    by (simp add: challenge_of_def fun_eq_iff)
  obtain allowed d0 where count: "consume (js 0) ''OTP_VERIFY_IP'' (vq_ipKey v) 30 d = Inr (allowed, d0)"
    and rest: "(if \<not> allowed then fail_with AUTH_RATE_LIMITED
      else andThen (gets (\<lambda>d. challenge_of d (vq_challengeId v))) (\<lambda>found.
        case found of None \<Rightarrow> fail_with AUTH_OTP_INVALID
        | Some c \<Rightarrow> if otp_consumedAt c \<noteq> None then verify_consumed v c
            else verify_fresh ticks (js 1) (js 2) v c)) d0 = Inr (r, d')"
    using assms unfolding verifyOtp_def transaction_committed by (rule andThen_InrE)
  obtain bs where d0: "d0 = d\<lparr>buckets := bs\<rparr>"
    using consume_fields [OF count] by blast
  show ?thesis
  proof (cases "allowed")
    case False
    then show ?thesis using rest limited [of bs] by (simp add: fail_with_def d0)
  next
    case True
    show ?thesis
    proof (cases "challenge_of d (vq_challengeId v)")
      case None
      then show ?thesis using rest True unknown [of bs] by (simp add: fail_with_def d0 buckets)
    next
      case (Some c)
      then show ?thesis
        using rest True used [of c bs] fresh [of c bs] by (cases "otp_consumedAt c") (simp_all add: d0 buckets)
    qed
  qed
qed

lemma transaction_failed: "transaction m s = (Inl e, s') \<Longrightarrow> s' = s"
  by (auto simp: transaction_def split: sum.splits)

lemma buckets_irrelevant [simp]:
  "challenge_of (d\<lparr>buckets := bs\<rparr>) = challenge_of d" "session_of (d\<lparr>buckets := bs\<rparr>) = session_of d"
  by (simp_all add: challenge_of_def session_of_def fun_eq_iff)

text \<open>A code that is superseded or was guessed at too often opens no session.\<close>

lemma locked_refused:
  assumes "challenge_of d (vq_challengeId v) = Some c" and "otp_consumedAt c = None" and "locked c"
    and run: "verifyOtp js ticks v d = (res, d')"
  shows "(\<nexists>e. res = Inr (Inr e)) \<and> portal_sessions d' = portal_sessions d"
proof (cases res)
  case (Inl e)
  then show ?thesis
    using run transaction_failed unfolding verifyOtp_def by fastforce
next
  case (Inr r)
  show ?thesis
    using run [unfolded Inr]
  proof (cases rule: verify_cases)
    case (fresh bs c')
    then have "r = Inl AUTH_OTP_INVALID" "d' = d\<lparr>buckets := bs\<rparr>"
      using assms(1,3) by (auto simp: verify_fresh_def fail_with_def locked_def)
    then show ?thesis by (simp add: Inr)
  qed (use assms(1,2) Inr in auto)
qed

text \<open>A wrong code that is compared with an open one is counted.\<close>

lemma wrong_code_counted:
  assumes c: "challenge_of d (vq_challengeId v) = Some c" and "otp_consumedAt c = None" and "\<not> locked c"
    and "js 1 < otp_expiresAt c" and "\<not> right_code v c"
    and run: "verifyOtp js ticks v d = (Inr (Inl AUTH_OTP_INVALID), d')"
  shows "challenge_of d' (vq_challengeId v) = Some (c\<lparr>otp_attempts := otp_attempts c + 1\<rparr>)"
  using run
proof (cases rule: verify_cases)
  case (fresh bs c')
  then have "c' = c" using c by simp
  then have "andThen (update_challenge c (\<lambda>r. r\<lparr>otp_attempts := min (otp_attempts r + 1) (otp_maxAttempts r)\<rparr>))
      (\<lambda>_. audit_wrong_code v c) (d\<lparr>buckets := bs\<rparr>) = Inr (Inl AUTH_OTP_INVALID :: time auth_result, d')"
    using fresh(3) assms(3-5) by (simp add: verify_fresh_def locked_def)
  then obtain u d1 where d1: "update_challenge c (\<lambda>r. r\<lparr>otp_attempts := min (otp_attempts r + 1) (otp_maxAttempts r)\<rparr>)
        (d\<lparr>buckets := bs\<rparr>) = Inr (u, d1)"
      and audit: "audit_wrong_code v c d1 = Inr (Inl AUTH_OTP_INVALID :: time auth_result, d')"
    by (rule andThen_InrE)
  have "challenge_of d1 (vq_challengeId v) = Some (c\<lparr>otp_attempts := otp_attempts c + 1\<rparr>)"
    using challenge_of_update [OF _ d1] c assms(3) by (simp add: locked_def)
  moreover have "challenge_of d' = challenge_of d1"
    using audit
    by (auto simp: audit_wrong_code_def fail_with_def andThen_Inr_iff challenge_of_def fun_eq_iff
        dest!: sign_event_fields)
  ultimately show ?thesis by simp
qed (use c assms(2) in auto)

text \<open>A run in which \<open>n\<close> wrong codes are compared with one open code, anything else happening in between.\<close>

inductive guesses :: "uuid \<Rightarrow> nat \<Rightarrow> time \<times> door \<Rightarrow> time \<times> door \<Rightarrow> bool" where
  none: "door_step\<^sup>*\<^sup>* x y \<Longrightarrow> guesses i 0 x y"
| guess: "guesses i n x (t, d) \<Longrightarrow> challenge_of d i = Some c \<Longrightarrow> otp_consumedAt c = None \<Longrightarrow> \<not> locked c \<Longrightarrow>
    js 1 < otp_expiresAt c \<Longrightarrow> vq_challengeId v = i \<Longrightarrow> \<not> right_code v c \<Longrightarrow> mono ticks \<Longrightarrow> t \<le> ticks 0 \<Longrightarrow>
    verifyOtp js ticks v d = (Inr (Inl AUTH_OTP_INVALID), d') \<Longrightarrow> door_step\<^sup>*\<^sup>* (ticks 3, d') y \<Longrightarrow>
    guesses i (Suc n) x y"

lemma guesses_count:
  assumes "guesses i n x y" and "door_ok (fst x) (snd x)" and "challenge_of (snd x) i = Some c"
    and "otp_consumedAt c = None"
  shows "door_ok (fst y) (snd y) \<and> (\<exists>c'. challenge_of (snd y) i = Some c' \<and> later_challenge c c'
    \<and> otp_attempts c + int n \<le> otp_attempts c'
    \<and> (otp_maxAttempts c \<le> otp_attempts c + int n \<longrightarrow> otp_consumedAt c' = None))"
  using assms
proof (induction rule: guesses.induct)
  case (none x y i)
  then have y: "advances x y"
    using steps_keep by blast
  then obtain c' where "challenge_of (snd y) i = Some c'" "later_challenge c c'"
    using none(3) by (auto simp: advances_def door_kept_def dest: keptD)
  then show ?case
    using y none(4) by (auto simp: advances_def later_challenge_def locked_def)
next
  case (guess i n x t d c1 js v ticks d' y)
  obtain c0 where ok: "door_ok t d" and c0: "challenge_of d i = Some c0" "later_challenge c c0"
      "otp_attempts c + int n \<le> otp_attempts c0"
    using guess.IH guess.prems by auto
  then have c1: "c1 = c0" using guess.hyps(2) by simp
  let ?c = "c0\<lparr>otp_attempts := otp_attempts c0 + 1\<rparr>"
  have c': "challenge_of d' i = Some ?c"
    using wrong_code_counted [of d v c1 js ticks d'] guess.hyps c1 by simp
  have "door_ok (ticks 3) (snd (verifyOtp js ticks v d))"
    using guess.hyps by (intro verify_ok [OF ok])
  then have "door_ok (ticks 3) d'"
    using guess.hyps by simp
  then have y: "advances (ticks 3, d') y"
    using steps_keep [OF guess.hyps(11)] by simp
  then obtain c2 where c2: "challenge_of (snd y) i = Some c2" "later_challenge ?c c2"
    using c' by (auto simp: advances_def door_kept_def dest: keptD)
  have "later_challenge c0 ?c"
    using guess.hyps(3) c1 by (auto simp: later_challenge_def)
  then have "later_challenge c c2"
    using c0(2) c2(2) by (blast intro: later_challenge_trans)
  moreover have "otp_attempts c + int (Suc n) \<le> otp_attempts c2"
    using c0(3) c2(2) by (simp add: later_challenge_def)
  moreover have "otp_consumedAt c2 = None" if "otp_maxAttempts c \<le> otp_attempts c + int (Suc n)"
    using that c0(2,3) c2(2) guess.hyps(3) c1 by (auto simp: later_challenge_def locked_def)
  ultimately show ?case
    using y c2(1) by (simp add: advances_def)
qed

text \<open>C8. Whatever happens in between, at most as many wrong codes are compared with a code as it allows, five; from
  then on every verification of it is refused and opens no session, the right code included.\<close>

theorem guesses_bounded:
  assumes "door_reach x" and "challenge_of (snd x) i = Some c" and "otp_consumedAt c = None"
    and "guesses i n x (t, d)" and "vq_challengeId v = i" and "verifyOtp js ticks v d = (res, d')"
  shows "otp_attempts c + int n \<le> otp_maxAttempts c
    \<and> (otp_attempts c + int n = otp_maxAttempts c \<longrightarrow>
        (\<nexists>e. res = Inr (Inr e)) \<and> portal_sessions d' = portal_sessions d)"
proof -
  obtain c' where ok: "door_ok t d" and c': "challenge_of d i = Some c'" "later_challenge c c'"
      "otp_attempts c + int n \<le> otp_attempts c'"
      "otp_maxAttempts c \<le> otp_attempts c + int n \<longrightarrow> otp_consumedAt c' = None"
    using guesses_count [OF assms(4) reach_ok [OF assms(1)] assms(2,3)] by auto
  have "otp_attempts c' \<le> otp_maxAttempts c'"
    using attempts_within [OF door_ok_parts(1) [OF ok] c'(1)] .
  moreover have "(\<nexists>e. res = Inr (Inr e)) \<and> portal_sessions d' = portal_sessions d"
    if "otp_attempts c + int n = otp_maxAttempts c"
    using that c' assms(5,6) by (intro locked_refused [of d v c']) (auto simp: later_challenge_def locked_def)
  ultimately show ?thesis
    using c'(2,3) by (simp add: later_challenge_def)
qed

end
