(* ===== verification/Door_Outcomes.thy ===== *)
theory Door_Outcomes
  imports Door_System
begin

text \<open>
  Two outcomes of a verification in every reachable state: a retry under the same key gets the session of the first
  time, and an invited identity with the right code is admitted, whatever the other identities did with the capacity.
\<close>

section \<open>Retries\<close>

lemma open_session_rows:
  assumes "open_session v c u d = Inr (x, d')"
  shows "x = Inr (vq_expiresAt v)"
    and "\<exists>s r. portal_sessions d' = portal_sessions d @ [s] \<and> ss_tokenHash s = vq_sessionHash v
      \<and> ss_expiresAt s = vq_expiresAt v \<and> ss_userId s = u \<and> replays d' = replays d @ [r]
      \<and> rp_challengeId r = otp_id c \<and> rp_idempotency r = vq_idempotencyHash v \<and> rp_userId r = u
      \<and> rp_sessionId r = ss_id s"
  using assms by (auto simp: open_session_def andThen_Inr_iff insert_door_defs dest!: sign_event_fields)

lemma fresh_session:
  assumes "verify_fresh ticks now admissionNow v c d = Inr (Inr e, d')"
  shows "right_code v c" and "e = vq_expiresAt v"
    and "\<exists>s r. s \<in> set (portal_sessions d') \<and> ss_tokenHash s = vq_sessionHash v \<and> ss_expiresAt s = vq_expiresAt v
      \<and> r \<in> set (replays d') \<and> rp_challengeId r = otp_id c \<and> rp_idempotency r = vq_idempotencyHash v
      \<and> rp_userId r = ss_userId s \<and> rp_sessionId r = ss_id s"
proof -
  show code: "right_code v c"
    using assms by (auto simp: verify_fresh_def fail_with_def audit_wrong_code_def andThen_Inr_iff split: if_splits)
  have "\<not> (otp_invalidatedAt c \<noteq> None \<or> otp_expiresAt c \<le> now \<or> otp_maxAttempts c \<le> otp_attempts c)"
    using assms by (auto simp: verify_fresh_def fail_with_def split: if_splits)
  then obtain u d2 where "(case u of Inl code \<Rightarrow> fail_with code | Inr userId \<Rightarrow> open_session v c userId) d2
      = Inr (Inr e, d')"
    using assms code by (auto simp: verify_fresh_def andThen_Inr_iff)
  then obtain w where "open_session v c w d2 = Inr (Inr e, d')"
    by (cases u) (auto simp: fail_with_def)
  then show "e = vq_expiresAt v" "\<exists>s r. s \<in> set (portal_sessions d') \<and> ss_tokenHash s = vq_sessionHash v
      \<and> ss_expiresAt s = vq_expiresAt v \<and> r \<in> set (replays d') \<and> rp_challengeId r = otp_id c
      \<and> rp_idempotency r = vq_idempotencyHash v \<and> rp_userId r = ss_userId s \<and> rp_sessionId r = ss_id s"
    using open_session_rows by fastforce+
qed

lemma replayed_buckets [simp]: "replayed_session v (d\<lparr>buckets := bs\<rparr>) = replayed_session v d"
  by (simp add: replayed_session_def cong: option.case_cong)

lemma find_same: "(\<And>x. x \<in> set xs \<Longrightarrow> P x \<longleftrightarrow> Q x) \<Longrightarrow> List.find P xs = List.find Q xs"
  by (induction xs) auto

text \<open>The session of a used code is the one that its token authenticates.\<close>

lemma replayed_is_authenticated:
  assumes ok: "tables_ok d" and s: "s \<in> set (portal_sessions d)"
    and r: "r \<in> set (replays d)" "rp_userId r = ss_userId s" "rp_sessionId r = ss_id s"
    and v: "vq_challengeId v = rp_challengeId r" "vq_idempotencyHash v = rp_idempotency r"
  shows "replayed_session v d = authenticate d (ss_tokenHash s)"
proof -
  have "List.find (\<lambda>x. rp_challengeId x = vq_challengeId v \<and> rp_idempotency x = vq_idempotencyHash v) (replays d)
      = List.find (\<lambda>x. rp_challengeId x = rp_challengeId r) (replays d)"
    using ok r(1) v distinct_map_unique [of rp_challengeId "replays d" _ r]
    by (intro find_same) (auto simp: tables_ok_def)
  also have "\<dots> = Some r"
    using ok r(1) by (intro find_unique) (simp_all add: tables_ok_def)
  finally have "replayed_session v d =
      List.find (\<lambda>s. ss_id s = rp_sessionId r \<and> ss_revokedAt s = None \<and> door_now d < ss_expiresAt s
        \<and> list_ex (\<lambda>u. us_id u = rp_userId r \<and> us_status u = USER_ACTIVE) (users d)) (portal_sessions d)"
    by (simp add: replayed_session_def)
  also have "\<dots> = authenticate d (ss_tokenHash s)"
    unfolding authenticate_def
  proof (rule find_same)
    fix x
    assume x: "x \<in> set (portal_sessions d)"
    have "ss_id x = ss_id s \<longleftrightarrow> x = s" "ss_tokenHash x = ss_tokenHash s \<longleftrightarrow> x = s"
      using ok s x distinct_map_unique [of ss_id "portal_sessions d" x s]
        distinct_map_unique [of ss_tokenHash "portal_sessions d" x s] by (auto simp: tables_ok_def)
    then show "(ss_id x = rp_sessionId r \<and> ss_revokedAt x = None \<and> door_now d < ss_expiresAt x
        \<and> list_ex (\<lambda>u. us_id u = rp_userId r \<and> us_status u = USER_ACTIVE) (users d))
      \<longleftrightarrow> (ss_tokenHash x = ss_tokenHash s \<and> ss_revokedAt x = None \<and> door_now d < ss_expiresAt x
        \<and> list_ex (\<lambda>u. us_id u = ss_userId x \<and> us_status u = USER_ACTIVE) (users d))"
      using r(2,3) by auto
  qed
  finally show ?thesis .
qed

lemma find_authenticated: "authenticate d hash = Some s \<Longrightarrow> s \<in> set (portal_sessions d) \<and> ss_tokenHash s = hash"
  by (auto simp: authenticate_def dest: find_Some_mem)

lemma session_kept:
  assumes "door_kept d d'" and "tables_ok d" and "s \<in> set (portal_sessions d)"
  shows "\<exists>s' \<in> set (portal_sessions d'). ss_id s' = ss_id s \<and> later_session s s'"
proof -
  have "session_of d (ss_id s) = Some s"
    using assms(2,3) unfolding session_of_def by (intro find_unique) (simp_all add: tables_ok_def)
  then obtain s' where "session_of d' (ss_id s) = Some s'" "later_session s s'"
    using assms(1) by (auto simp: door_kept_def dest: keptD)
  then show ?thesis
    by (auto simp: session_of_def dest: find_Some_mem)
qed

lemma verify_first:
  assumes ok: "door_ok t d" and "mono ticks" and "t \<le> ticks 0" and c: "challenge_of d (vq_challengeId v) = Some c"
    and unused: "otp_consumedAt c = None" and run: "verifyOtp js ticks v d = (Inr (Inr e), d')"
  shows "e = vq_expiresAt v"
    and "\<exists>c'. challenge_of d' (vq_challengeId v) = Some c' \<and> otp_consumedAt c' \<noteq> None \<and> right_code v c'"
    and "\<exists>s r. s \<in> set (portal_sessions d') \<and> ss_tokenHash s = vq_sessionHash v \<and> ss_expiresAt s = vq_expiresAt v
      \<and> r \<in> set (replays d') \<and> rp_challengeId r = vq_challengeId v \<and> rp_idempotency r = vq_idempotencyHash v
      \<and> rp_userId r = ss_userId s \<and> rp_sessionId r = ss_id s"
proof -
  obtain bs where fresh: "verify_fresh ticks (js 1) (js 2) v c (d\<lparr>buckets := bs\<rparr>) = Inr (Inr e, d')"
    using run c unused by (cases rule: verify_cases) auto
  note new = fresh_session [OF fresh]
  show "e = vq_expiresAt v" by (rule new(2))
  show rows: "\<exists>s r. s \<in> set (portal_sessions d') \<and> ss_tokenHash s = vq_sessionHash v
      \<and> ss_expiresAt s = vq_expiresAt v \<and> r \<in> set (replays d') \<and> rp_challengeId r = vq_challengeId v
      \<and> rp_idempotency r = vq_idempotencyHash v \<and> rp_userId r = ss_userId s \<and> rp_sessionId r = ss_id s"
    using new(3) challenge_of_id [OF c] by simp
  have ok': "door_ok (ticks 3) d'" and kept: "door_kept d d'"
    using verify_ok [OF ok assms(2,3), of js v] verify_keeps [OF door_ok_parts(1) [OF ok], of js ticks v] run
    by simp_all
  obtain c' where c': "challenge_of d' (vq_challengeId v) = Some c'" "later_challenge c c'"
    using kept c by (auto simp: door_kept_def dest: keptD)
  have "consumed_challenge d' (vq_challengeId v)"
    using rows ok' by (auto simp: door_ok_def sessions_ok_def)
  then show "\<exists>c'. challenge_of d' (vq_challengeId v) = Some c' \<and> otp_consumedAt c' \<noteq> None \<and> right_code v c'"
    using c' new(1) by (auto simp: consumed_challenge_def right_code_def later_challenge_def)
qed

lemma verify_again:
  assumes d1: "door_ok t1 d1" and d2: "door_ok t2 d2" "door_kept d1 d2"
    and c1: "challenge_of d1 (vq_challengeId w) = Some c1" "otp_consumedAt c1 \<noteq> None" "right_code w c1"
    and s1: "s1 \<in> set (portal_sessions d1)"
    and r: "r \<in> set (replays d1)" "rp_challengeId r = vq_challengeId w" "rp_idempotency r = vq_idempotencyHash w"
      "rp_userId r = ss_userId s1" "rp_sessionId r = ss_id s1"
    and count: "consume (js 0) ''OTP_VERIFY_IP'' (vq_ipKey w) 30 d2 = Inr (True, d3)"
  shows "verifyOtp js ticks w d2 = (Inr (case authenticate d2 (ss_tokenHash s1) of
      None \<Rightarrow> Inl AUTH_OTP_INVALID | Some s \<Rightarrow> Inr (ss_expiresAt s1)), d3)"
proof -
  obtain c2 where c2: "challenge_of d2 (vq_challengeId w) = Some c2" "later_challenge c1 c2"
    using d2(2) c1(1) by (auto simp: door_kept_def dest: keptD)
  obtain s2 where s2: "s2 \<in> set (portal_sessions d2)" "ss_id s2 = ss_id s1" "later_session s1 s2"
    using session_kept [OF d2(2) _ s1] d1 by (auto simp: door_ok_def)
  have r2: "r \<in> set (replays d2)"
    using d2(2) r(1) by (auto simp: door_kept_def)
  obtain bs where d3: "d3 = d2\<lparr>buckets := bs\<rparr>"
    using consume_fields [OF count] by blast
  have "replayed_session w d2 = authenticate d2 (ss_tokenHash s2)"
    using d2(1) s2 r r2 by (intro replayed_is_authenticated [of _ _ r]) (auto simp: door_ok_def later_session_def)
  then have replayed: "replayed_session w d3 = authenticate d2 (ss_tokenHash s1)"
    using s2(3) by (simp add: d3 later_session_def)
  have expires: "ss_expiresAt s = ss_expiresAt s1" if "authenticate d2 (ss_tokenHash s1) = Some s" for s
    using find_authenticated [OF that] s2 d2(1) distinct_map_unique [of ss_tokenHash "portal_sessions d2" s s2]
    by (auto simp: door_ok_def tables_ok_def later_session_def)
  have code: "right_code w c2"
    using c1(3) c2(2) by (simp add: right_code_def later_challenge_def)
  show ?thesis
    unfolding verifyOtp_def transaction_committed
    using count c1(2) c2 code expires replayed
    by (auto simp: andThen_Inr_iff d3 verify_consumed_def fail_with_def later_challenge_def split: option.splits)
qed

text \<open>C9. A verification repeated with the same code and the same idempotency key, after anything else, gets the token
  and the expiry of the first time as long as that token still signs the user in, and is refused otherwise; it writes
  nothing but its rate limit.\<close>

theorem retry_gives_session:
  assumes "door_reach (t, d)" and "challenge_of d i = Some c" and "otp_consumedAt c = None"
    and "validOtpVerifyIdempotencyKey (Some k)" and "mono ticks" and "t \<le> ticks 0"
    and "authVerifyOtp mac keys drawn js ticks now i code ip cid (Some k) d = (Inr (Inr (token, e)), d1)"
    and "door_step\<^sup>*\<^sup>* (ticks 3, d1) (t2, d2)"
    and "consume (js' 0) ''OTP_VERIFY_IP'' (rateKey mac keys ip') 30 d2 = Inr (True, d3)"
  shows "authVerifyOtp mac keys drawn' js' ticks' now' i code ip' cid' (Some k) d2 =
    (Inr (case authenticate d2 (portalLookup mac keys token) of
            None \<Rightarrow> Inl AUTH_OTP_INVALID | Some s \<Rightarrow> Inr (token, e)), d3)"
proof -
  let ?v = "verification_of mac keys drawn now i code ip cid (Some k)"
  let ?w = "verification_of mac keys drawn' now' i code ip' cid' (Some k)"
  have token: "token = session_token mac keys drawn i (Some k)"
      "session_token mac keys drawn' i (Some k) = session_token mac keys drawn i (Some k)"
    and run: "verifyOtp js ticks ?v d = (Inr (Inr e), d1)"
    using assms(4,7) by (auto simp: authVerifyOtp_def session_token_def split: sum.splits prod.splits)
  have fields: "vq_challengeId ?v = i" "vq_challengeId ?w = i" "vq_ipKey ?w = rateKey mac keys ip'"
      "vq_idempotencyHash ?w = vq_idempotencyHash ?v" "right_code ?w = right_code ?v"
      "vq_sessionHash ?v = portalLookup mac keys token"
    using assms(4) token by (auto simp: verification_of_def right_code_def fun_eq_iff)
  have ok: "door_ok t d" using reach_ok [OF assms(1)] by simp
  have c: "challenge_of d (vq_challengeId ?v) = Some c" using assms(2) fields by simp
  note first = verify_first [OF ok assms(5,6) c assms(3) run]
  have d1: "door_ok (ticks 3) d1"
    using verify_ok [OF ok assms(5,6), of js ?v] run by simp
  then have d2: "door_ok t2 d2" "door_kept d1 d2"
    using steps_keep [OF assms(8)] by (simp_all add: advances_def)
  obtain c1 where c1: "challenge_of d1 (vq_challengeId ?w) = Some c1" "otp_consumedAt c1 \<noteq> None" "right_code ?w c1"
    using first(2) fields by auto
  obtain s1 r where s1: "s1 \<in> set (portal_sessions d1)" "ss_tokenHash s1 = portalLookup mac keys token"
      "ss_expiresAt s1 = e"
    and r: "r \<in> set (replays d1)" "rp_challengeId r = vq_challengeId ?w" "rp_idempotency r = vq_idempotencyHash ?w"
      "rp_userId r = ss_userId s1" "rp_sessionId r = ss_id s1"
    using first(1,3) fields by auto
  have "consume (js' 0) ''OTP_VERIFY_IP'' (vq_ipKey ?w) 30 d2 = Inr (True, d3)"
    using assms(9) fields by simp
  note retry = verify_again [where js = js' and ticks = ticks', OF d1 d2 c1 s1(1) r this, unfolded s1(2,3)]
  show ?thesis
    unfolding authVerifyOtp_def retry using token by (auto split: option.splits)
qed

section \<open>Invitations\<close>

text \<open>\<open>randomUUID\<close> and \<open>gen_random_uuid\<close> give identifiers that were never given before.\<close>

definition fresh_ids :: "door \<Rightarrow> bool" where
  "fresh_ids d \<longleftrightarrow>
     inj (door_uuids d)
     \<and> (\<forall>n \<ge> door_drawn d. door_uuids d n \<notin> us_id ` set (users d) \<union> ha_id ` set (homes d)
          \<union> ss_id ` set (portal_sessions d))"

lemma sign_event_runs:
  "audit_accepted \<lparr>au_actorType = a, au_actorId = b, au_action = c, au_targetType = e, au_targetId = f,
     au_correlationId = g, au_reason = h, au_metadata = i\<rparr> \<Longrightarrow> \<exists>d'. sign_event a b c e f g h i d = Inr ((), d')"
  by (simp add: sign_event_def insert_door_defs)

lemma create_user_runs:
  assumes "people_ok d" and "u \<notin> us_id ` set (users d)" and "a \<notin> ha_id ` set (homes d)"
    and "target \<notin> ui_identifier ` set (identities d)" and "length target \<le> 320"
  shows "\<exists>d'. create_user target now u a d = Inr ((), d')"
proof -
  have ids: "ad_userId ` set (admissions d) = us_id ` set (users d)"
      "ad_accountId ` set (admissions d) = ha_id ` set (homes d)"
    using assms(1) unfolding people_ok_def by (metis set_map)+
  have "set (owners d) = (\<lambda>x. (ad_accountId x, ad_userId x)) ` set (admissions d)"
    using assms(1) by (simp add: people_ok_def)
  then have "(a, u) \<notin> set (owners d)"
    using assms(3) unfolding ids(2) [symmetric] by auto
  then show ?thesis
    using assms(2-) ids
    by (simp add: create_user_def andThen_Inr_iff insert_door_defs user_accepted_def home_accepted_def
        owner_accepted_def identity_accepted_def admission_accepted_def)
qed

lemma take_seat_runs:
  assumes "beta d = Some b" and "bs_admitted b < bs_capacity b" and "beta_checks b"
  shows "\<exists>d'. take_seat now d = Inr ((), d')"
  using assms by (simp add: take_seat_def beta_checks_def)

lemma consume_invitation_runs:
  assumes "invitation_of d (iv_id r) = Some r" and "is_active tick r" and "invitation_checks r"
    and "u \<in> us_id ` set (users d)" and "length cid \<le> 128"
  shows "\<exists>d'. consume_invitation tick tick' (iv_id r) cid u d = Inr ((), d')"
proof -
  have "invitation_update_accepted d r (consumed_invitation tick' u r)"
    using assms(2-4) by (auto simp: invitation_update_accepted_def invitation_checks_def consumed_invitation_def
        is_active_def)
  moreover have "\<exists>d'. sign_event ''USER'' (Some u) ''BETA_IDENTITY_INVITATION_CONSUMED'' ''BETA_IDENTITY_INVITATION''
      (Some (iv_id r)) cid None [(''accessBasis'', JStr ''TARGETED_INVITATION'')] s = Inr ((), d')" for s
    using assms(5) by (intro sign_event_runs) (simp add: audit_accepted_def)
  ultimately show ?thesis
    using assms(1,2) by (simp add: consume_invitation_def andThen_Inr_iff)
qed

lemma admit_invited_runs:
  assumes ok: "door_ok t d" and "fresh_ids d" and target: "target \<notin> ui_identifier ` set (identities d)"
      "length target \<le> 320"
    and b: "beta d = Some b" "bs_admitted b < bs_capacity b"
    and r: "r \<in> set (invitations d)" "is_active (ticks 2) r" and "length cid \<le> 128"
  shows "\<exists>d'. admit_new ticks now target cid (Some r) d = Inr (door_uuids d (door_drawn d), d')"
proof -
  let ?u = "door_uuids d (door_drawn d)" and ?a = "door_uuids d (Suc (door_drawn d))"
  let ?d1 = "d\<lparr>door_drawn := Suc (Suc (door_drawn d))\<rparr>"
  have people: "people_ok ?d1"
    using ok by (simp add: door_ok_def people_ok_def)
  have "?u \<notin> us_id ` set (users ?d1)" "?a \<notin> ha_id ` set (homes ?d1)"
    using assms(2) by (simp_all add: fresh_ids_def)
  from create_user_runs [OF people this, of target now] obtain d2
    where d2: "create_user target now ?u ?a ?d1 = Inr ((), d2)"
    using target by auto
  have new: "beta d2 = beta d" "invitations d2 = invitations d"
      "users d2 = users d @ [\<lparr>us_id = ?u, us_status = USER_ACTIVE\<rparr>]"
    using create_user_fields [OF d2] by auto
  have "beta_checks b"
    using ok b by (simp add: door_ok_def seats_ok_def)
  from take_seat_runs [OF _ b(2) this, of d2 now] obtain d3 where d3: "take_seat now d2 = Inr ((), d3)"
    using new b(1) by auto
  have seat: "invitations d3 = invitations d" "users d3 = users d2"
    using take_seat_fields [OF d3] new by auto
  have rows: "invitation_of d3 (iv_id r) = Some r" "invitation_checks r"
    using ok r(1) find_unique [of iv_id "invitations d" r] seat
    by (simp_all add: door_ok_def tables_ok_def invitation_of_def list_all_iff)
  have "?u \<in> us_id ` set (users d3)"
    using new seat by simp
  from consume_invitation_runs [OF rows(1) r(2) rows(2) this assms(9)]
  obtain d4 where d4: "consume_invitation (ticks 2) (ticks 3) (iv_id r) cid ?u d3 = Inr ((), d4)" by blast
  have "\<exists>s'. sign_event ''SYSTEM'' (Some ?u) ''AUTH_IDENTITY_CREATED'' ''USER'' (Some ?u) cid None [] s = Inr ((), s')"
      "\<exists>s'. sign_event ''SYSTEM'' None ''BETA_ACCOUNT_ADMITTED'' ''ACCOUNT'' (Some ?a) cid None
        [(''accessBasis'', JStr ''TARGETED_INVITATION'')] s = Inr ((), s')" for s
    using assms(9) by (intro sign_event_runs; simp add: audit_accepted_def)+
  then obtain d5 d6 where
      "sign_event ''SYSTEM'' (Some ?u) ''AUTH_IDENTITY_CREATED'' ''USER'' (Some ?u) cid None [] d4 = Inr ((), d5)"
      "sign_event ''SYSTEM'' None ''BETA_ACCOUNT_ADMITTED'' ''ACCOUNT'' (Some ?a) cid None
        [(''accessBasis'', JStr ''TARGETED_INVITATION'')] d5 = Inr ((), d6)" by meson
  then show ?thesis
    using d2 d3 d4 by (simp add: admit_new_def andThen_Inr_iff)
qed

lemma open_session_runs:
  assumes "door_uuids d (door_drawn d) \<notin> ss_id ` set (portal_sessions d)"
    and "vq_sessionHash v \<notin> ss_tokenHash ` set (portal_sessions d)" and "u \<in> us_id ` set (users d)"
    and "otp_id c \<notin> rp_challengeId ` set (replays d)" and "otp_id c \<in> otp_id ` set (challenges d)"
    and "length (vq_sessionHash v) \<le> 512" and "length (vq_idempotencyHash v) \<le> 128"
    and "length (vq_correlationId v) \<le> 128"
  shows "\<exists>d'. open_session v c u d = Inr (Inr (vq_expiresAt v), d')"
proof -
  let ?i = "door_uuids d (door_drawn d)"
  have sign: "\<exists>d'. sign_event ''USER'' (Some u) ''AUTH_OTP_VERIFIED'' ''OTP'' (Some (otp_id c)) (vq_correlationId v)
      None [] s = Inr ((), d')"
    "\<exists>d'. sign_event ''USER'' (Some u) ''PORTAL_SESSION_CREATED'' ''PORTAL_SESSION'' (Some ?i) (vq_correlationId v)
      None [] s = Inr ((), d')" for s
    using assms(8) by (intro sign_event_runs; simp add: audit_accepted_def)+
  show ?thesis
    using assms(1-7) sign
    by (simp add: open_session_def andThen_Inr_iff insert_door_defs session_accepted_def replay_accepted_def) blast
qed

lemma filter_key: "distinct (map k xs) \<Longrightarrow> r \<in> set xs \<Longrightarrow> filter (\<lambda>x. k x = k r) xs = [r]"
  by (induction xs) (auto simp: filter_empty_conv image_iff)

lemma invited_seat:
  assumes ok: "door_ok t d" and b: "beta d = Some b" and r: "r \<in> set (invitations d)" "is_active t r"
  shows "bs_admitted b < bs_capacity b" and "iv_target r \<notin> ui_identifier ` set (identities d)"
    and "invited_of t (iv_target r) d = [r]"
proof -
  have active: "r \<in> set (filter (is_active t) (invitations d))"
    using r by simp
  then have "0 < activeInvitationCount d t"
    unfolding activeInvitationCount_def by (metis length_pos_if_in_set of_nat_0_less_iff)
  then show "bs_admitted b < bs_capacity b" "iv_target r \<notin> ui_identifier ` set (identities d)"
    using ok b r by (auto simp: door_ok_def seats_ok_def)
  have "distinct (map iv_target (filter (is_active t) (invitations d)))"
    using ok by (simp add: door_ok_def seats_ok_def)
  from filter_key [OF this active] show "invited_of t (iv_target r) d = [r]"
    by (simp add: invited_of_def conj_commute)
qed

lemma admit_new_rest:
  assumes "admit_new ticks now target cid invited d = Inr (u, d')"
  shows "door_uuids d' = door_uuids d \<and> door_drawn d' = Suc (Suc (door_drawn d))
    \<and> portal_sessions d' = portal_sessions d \<and> challenges d' = challenges d
    \<and> list_ex (\<lambda>h. ha_id h = door_uuids d (Suc (door_drawn d)) \<and> ha_status h = ACCOUNT_ACTIVE) (homes d')"
  using assms
  by (cases invited)
    (auto simp: admit_new_def andThen_Inr_iff
      dest!: create_user_fields take_seat_fields consume_invitation_fields sign_event_fields)

lemma open_session_rest:
  "open_session v c u d = Inr (x, d') \<Longrightarrow> homes d' = homes d \<and> users d' = users d"
  by (auto simp: open_session_def andThen_Inr_iff insert_door_defs dest!: sign_event_fields)

lemma sign_in_invited:
  assumes ok: "door_ok t d" and "fresh_ids d" and "mono ticks" and "t \<le> ticks 0"
    and r: "r \<in> set (invitations d)" "is_active (ticks 2) r" "iv_target r = otp_target c"
    and b: "beta d = Some b" "bs_mode b \<noteq> MODE_PAUSED"
    and "length (otp_target c) \<le> 320" and "length (vq_correlationId v) \<le> 128"
  shows "\<exists>d'. sign_in_user ticks now v c d = Inr (Inr (door_uuids d (door_drawn d)), d')
    \<and> admit_new ticks now (otp_target c) (vq_correlationId v) (Some r) d = Inr (door_uuids d (door_drawn d), d')"
proof -
  have "ticks 0 \<le> ticks 2"
    using assms(3) by (auto intro: monoD)
  then have "is_active (ticks 0) r"
    using is_active_later [OF r(2)] by simp
  note seat = invited_seat [OF door_ok_later [OF ok assms(4)] b(1) r(1) this]
  have "otp_target c \<notin> ui_identifier ` set (identities d)"
    using seat(2) r(3) by simp
  from admit_invited_runs [OF ok assms(2) this assms(10) b(1) seat(1) r(1) _ assms(11), of ticks now]
  obtain d' where d': "admit_new ticks now (otp_target c) (vq_correlationId v) (Some r) d
      = Inr (door_uuids d (door_drawn d), d')"
    using r(2) by auto
  have "identity_of d (otp_target c) = None"
    using seat(2) r(3) by (force simp: identity_of_def find_None_mem)
  moreover have "first_invited (ticks 0) (otp_target c) d = Inr (Some r, d)"
    using seat(3) r(3) by (simp add: first_invited_def)
  moreover have "admission_refusal (ticks 1) b True d = None"
    using seat(1) b(2) by (simp add: admission_refusal_def)
  ultimately have "sign_in_user ticks now v c d = Inr (Inr (door_uuids d (door_drawn d)), d')"
    using b(1) d' by (simp add: sign_in_user_def known_user_def admit_identity_def andThen_Inr_iff)
  then show ?thesis using d' by blast
qed

text \<open>The state after the code is claimed: the identity is admitted and its session opened.\<close>

lemma invited_session:
  assumes ok: "door_ok t d" and fresh: "fresh_ids d" and "mono ticks" and "t \<le> ticks 0"
    and r: "r \<in> set (invitations d)" "is_active (ticks 2) r" "iv_target r = otp_target c"
    and b: "beta d = Some b" "bs_mode b \<noteq> MODE_PAUSED"
    and c: "otp_id c \<in> otp_id ` set (challenges d)"
      "length (otp_target c) \<le> 320" "otp_id c \<notin> rp_challengeId ` set (replays d)"
    and v: "vq_sessionHash v \<notin> ss_tokenHash ` set (portal_sessions d)" "length (vq_sessionHash v) \<le> 512"
      "length (vq_idempotencyHash v) \<le> 128" "length (vq_correlationId v) \<le> 128"
    and u: "u = door_uuids d (door_drawn d)" and a: "a = door_uuids d (Suc (door_drawn d))"
  obtains d2 d3 where "sign_in_user ticks now v c d = Inr (Inr u, d2)"
    and "open_session v c u d2 = Inr (Inr (vq_expiresAt v), d3)" and "users d3 = users d @ [\<lparr>us_id = u, us_status = USER_ACTIVE\<rparr>]"
    and "identities d3 = identities d @ [\<lparr>ui_userId = u, ui_identifier = otp_target c, ui_verifiedAt = now\<rparr>]"
    and "owners d3 = owners d @ [(a, u)]"
    and "invitations d3 = update_where (\<lambda>x. iv_id x = iv_id r) (consumed_invitation (ticks 3) u) (invitations d)"
    and "betaResolve d3 a"
    and "\<exists>s \<in> set (portal_sessions d3). ss_tokenHash s = vq_sessionHash v \<and> ss_userId s = u"
proof -
  from sign_in_invited [where now = now and v = v, OF ok fresh assms(3,4) r b c(2) v(4)]
  obtain d2 where user: "sign_in_user ticks now v c d = Inr (Inr u, d2)"
      and new: "admit_new ticks now (otp_target c) (vq_correlationId v) (Some r) d = Inr (u, d2)"
    using u by auto
  note fields = admit_new_fields [OF new]
  have rest: "door_uuids d2 = door_uuids d" "door_drawn d2 = Suc (Suc (door_drawn d))"
      "portal_sessions d2 = portal_sessions d" "challenges d2 = challenges d" "replays d2 = replays d"
      "list_ex (\<lambda>h. ha_id h = a \<and> ha_status h = ACCOUNT_ACTIVE) (homes d2)"
    using admit_new_rest [OF new] fields a by (simp_all add: same_sessions_def)
  have "otp_id c \<in> otp_id ` set (challenges d2)"
    using c(1) rest(4) by simp
  moreover have "door_uuids d2 (door_drawn d2) \<notin> ss_id ` set (portal_sessions d2)"
    using rest fresh by (simp add: fresh_ids_def)
  moreover have "u \<in> us_id ` set (users d2)"
    using fields by simp
  ultimately obtain d3 where session: "open_session v c u d2 = Inr (Inr (vq_expiresAt v), d3)"
    using open_session_runs [of d2 v u c] c(3) v rest(3,5) by auto
  have last: "users d3 = users d2" "homes d3 = homes d2" "identities d3 = identities d2" "owners d3 = owners d2"
      "admissions d3 = admissions d2" "invitations d3 = invitations d2"
      "\<exists>s \<in> set (portal_sessions d3). ss_tokenHash s = vq_sessionHash v \<and> ss_userId s = u"
    using open_session_fields [OF session] open_session_rest [OF session] open_session_rows(2) [OF session]
    by (auto simp: same_people_def)
  moreover have "betaResolve d3 a"
    using last(2,5) fields rest(6) a by (simp add: betaResolve_def conj_commute)
  ultimately show thesis
    using that [OF user session] fields a by simp
qed

text \<open>C6. An invitation is a place: an identity with an open invitation that verifies its code while the beta is not
  paused is admitted, whatever the capacity and the other admissions, under a new user with an account and a session,
  and the invitation is used up by that user.\<close>

theorem invitation_honoured:
  assumes "door_reach (t, d)" and "mono ticks" and "t \<le> ticks 0" and "fresh_ids d"
    and "challenge_of d (vq_challengeId v) = Some c" and "otp_consumedAt c = None" and "\<not> locked c"
    and "js 1 < otp_expiresAt c" and "right_code v c"
    and "r \<in> set (invitations d)" and "is_active (ticks 2) r" and "iv_target r = otp_target c"
    and "beta d = Some b" and "bs_mode b \<noteq> MODE_PAUSED"
    and "consume (js 0) ''OTP_VERIFY_IP'' (vq_ipKey v) 30 d = Inr (True, d0)"
    and "vq_sessionHash v \<notin> ss_tokenHash ` set (portal_sessions d)" and "length (vq_sessionHash v) \<le> 512"
    and "length (vq_idempotencyHash v) \<le> 128" and "length (vq_correlationId v) \<le> 128"
  shows "\<exists>d' u. verifyOtp js ticks v d = (Inr (Inr (vq_expiresAt v)), d')
    \<and> u \<notin> us_id ` set (users d) \<and> u \<in> us_id ` set (users d')
    \<and> map_option ui_userId (identity_of d' (otp_target c)) = Some u
    \<and> map_option iv_consumedUser (invitation_of d' (iv_id r)) = Some (Some u)
    \<and> (\<exists>a. (a, u) \<in> set (owners d') \<and> betaResolve d' a)
    \<and> (\<exists>s \<in> set (portal_sessions d'). ss_tokenHash s = vq_sessionHash v \<and> ss_userId s = u)"
proof -
  let ?f = "\<lambda>r. r\<lparr>otp_consumedAt := Some (js 1)\<rparr>" and ?u = "door_uuids d (door_drawn d)"
  have ok: "door_ok t d" using reach_ok [OF assms(1)] by simp
  obtain bs where d0: "d0 = d\<lparr>buckets := bs\<rparr>"
    using consume_fields [OF assms(15)] by blast
  have ok0: "door_ok t d0"
    by (rule door_ok_run [OF ok idles_consume moves_consume assms(15)])
  have c0: "challenge_of d0 (vq_challengeId v) = Some c"
    using assms(5) by (simp add: d0)
  have c: "c \<in> set (challenges d)" "challenge_checks c"
    using assms(5) ok by (auto simp: challenge_of_def door_ok_def tables_ok_def list_all_iff dest!: find_Some_mem)
  obtain d1 where claim: "update_challenge c ?f d0 = Inr ((), d1)"
    using c(2) by (simp add: challenge_checks_def)
  have d1: "d1 = d\<lparr>buckets := bs, challenges := update_where (\<lambda>x. otp_id x = otp_id c) ?f (challenges d)\<rparr>"
    using claim by (simp add: d0)
  have "map otp_id (challenges d1) = map otp_id (challenges d)"
    by (simp add: d1 update_where_keeps_keys)
  then have "otp_id ` set (challenges d1) = otp_id ` set (challenges d)"
    by (metis set_map)
  then have claimed: "fresh_ids d1" "r \<in> set (invitations d1)" "beta d1 = Some b" "length (otp_target c) \<le> 320"
      "otp_id c \<in> otp_id ` set (challenges d1)" "otp_id c \<notin> rp_challengeId ` set (replays d1)"
      "vq_sessionHash v \<notin> ss_tokenHash ` set (portal_sessions d1)"
    using ok assms(4-6,10,13,16) c imageI [OF c(1), of otp_id] challenge_of_id [OF assms(5)]
    by (auto simp: fresh_ids_def d1 challenge_checks_def door_ok_def sessions_ok_def consumed_challenge_def)
  obtain d2 d3 where user: "sign_in_user ticks (js 2) v c d1 = Inr (Inr ?u, d2)"
      and session: "open_session v c ?u d2 = Inr (Inr (vq_expiresAt v), d3)"
      and last: "users d3 = users d @ [\<lparr>us_id = ?u, us_status = USER_ACTIVE\<rparr>]"
        "identities d3 = identities d @ [\<lparr>ui_userId = ?u, ui_identifier = otp_target c, ui_verifiedAt = js 2\<rparr>]"
        "owners d3 = owners d @ [(door_uuids d (Suc (door_drawn d)), ?u)]"
        "invitations d3 = update_where (\<lambda>x. iv_id x = iv_id r) (consumed_invitation (ticks 3) ?u) (invitations d)"
        "betaResolve d3 (door_uuids d (Suc (door_drawn d)))"
        "\<exists>s \<in> set (portal_sessions d3). ss_tokenHash s = vq_sessionHash v \<and> ss_userId s = ?u"
    using invited_session [where v = v and now = "js 2", OF claimed_code(1) [OF ok0 c0 assms(6,7) claim] claimed(1)
        assms(2,3) claimed(2) assms(11,12) claimed(3) assms(14) claimed(5,4,6,7) assms(17-19) refl refl]
    by (auto simp: d1)
  have "verify_fresh ticks (js 1) (js 2) v c d0 = Inr (Inr (vq_expiresAt v), d3)"
    using assms(7-9) claim user session
    by (simp add: verify_fresh_def locked_def andThen_Inr_iff del: update_challenge_Inr)
  then have "verifyOtp js ticks v d = (Inr (Inr (vq_expiresAt v)), d3)"
    unfolding verifyOtp_def transaction_committed using assms(6,15) c0 by (auto simp: andThen_Inr_iff)
  moreover have "map_option ui_userId (identity_of d3 (otp_target c)) = Some ?u"
  proof -
    have "is_active t r"
      using is_active_later [OF assms(11)] mono_from [OF assms(2,3), of 2] by simp
    then have "List.find (\<lambda>x. ui_identifier x = otp_target c) (identities d) = None"
      using invited_seat(2) [OF ok assms(13,10)] assms(12) by (force simp: find_None_mem)
    then show ?thesis
      using last(2) by (simp add: identity_of_def find_append)
  qed
  moreover have "invitation_of d (iv_id r) = Some r"
    using ok assms(10) unfolding invitation_of_def by (intro find_unique) (simp_all add: door_ok_def tables_ok_def)
  then have "map_option iv_consumedUser (invitation_of d3 (iv_id r)) = Some (Some ?u)"
    using last(4) by (simp add: invitation_of_def find_update_where consumed_invitation_def)
  moreover have "?u \<notin> us_id ` set (users d)" "?u \<in> us_id ` set (users d3)"
    using assms(4) last(1) by (simp_all add: fresh_ids_def)
  ultimately show ?thesis
    using last(3,5,6) by (intro exI [of _ d3] exI [of _ ?u]) auto
qed

end
