(* ===== verification/Door_Example.thy ===== *)
theory Door_Example
  imports Door_Outcomes
begin

text \<open>
  The sign-in at work: an owner gives the beta one seat and invites an address, the address asks for a code and signs
  in. The properties of the sign-in are instantiated in the states reached.
\<close>

definition empty_door :: door where
  "empty_door = \<lparr>users = [], identities = [], homes = [], owners = [], challenges = [], mail_jobs = [],
     portal_sessions = [], replays = [], buckets = [],
     beta = Some \<lparr>bs_mode = MODE_CLOSED, bs_capacity = 0, bs_admitted = 0, bs_revision = 1, bs_updatedAt = 1000\<rparr>,
     invitations = [], admissions = [], beta_mutations = [], principals = [(''admin'', True)],
     grants = [\<lparr>gr_principalId = ''admin'', gr_role = ''ADMIN_BETA_OPERATOR'', gr_revoked = False\<rparr>],
     door_audits = [], door_now = 1000, door_uuids = (\<lambda>n. replicate n (CHR ''u'')), door_drawn = 0\<rparr>"

definition seat_request :: beta_request where
  "seat_request = \<lparr>br_actor = ''admin'', br_requestId = ''r1'', br_correlationId = ''c'', br_expectedRevision = 1,
     br_action = SET_CAPACITY, br_amount = None, br_capacity = Some 1, br_reason = ''go''\<rparr>"

definition seat_door :: door where
  "seat_door = snd (betaService (\<lambda>_. ''h'') id 1000 1000 seat_request empty_door)"

definition example_invitation :: invitation_request where
  "example_invitation = \<lparr>ir_actor = ''admin'', ir_requestId = ''r2'', ir_correlationId = ''c'',
     ir_expectedRevision = 2, ir_target = ''a@b.c'', ir_reason = ''go''\<rparr>"

definition invited_door :: door where
  "invited_door = snd (createIdentityInvitation (\<lambda>_. True) (\<lambda>_. ''h'') id id (\<lambda>_. 1000) example_invitation seat_door)"

definition example_request :: otp_request where
  "example_request = \<lparr>oq_email = ''a@b.c'', oq_ipKey = ''ip'', oq_targetKey = ''t'', oq_correlationId = ''c'',
     oq_challengeId = ''code'', oq_verificationHash = ''v1:'' @ replicate 43 (CHR ''A''), oq_envelope = (''x'', ''y'', ''z''),
     oq_expiresAt = 601000\<rparr>"

definition code_door :: door where
  "code_door = snd (requestOtp (\<lambda>_. 1000) example_request invited_door)"

lemmas door_rows = empty_door_def seat_request_def example_invitation_def example_request_def

lemmas door_eval = eval_simps transaction_def betaService_def mutate_beta_def mutate_new_def write_mutation_def
  safeBetaInteger_def safe_integer_def authorized_def permissionsForRoles_def role_permissions_def beta_permission_def
  readState_def state_of_fields new_capacity_def new_mode_def activeInvitationCount_def is_active_def
  set_beta_def beta_checks_def int4_def insert_door_defs put_row_def mutation_accepted_def numbers_of_def
  beta_numbers_checks_def action_text.simps beta_digest_def betaPayloadHash_def audit_beta_def audit_accepted_def
  createIdentityInvitation_def inviteIdentity_def invite_new_def write_invitation_def new_invitation_def
  door_uuid_def invitation_accepted_def invitation_checks_def identity_of_def invitation_ttl_ms_def
  safeAuditReason_def safeInvitationAuditReason_def requestOtp_def consume_def window_start_def windowMs_def counted_def supersede_def
  issue_code_def sign_event_def is_open_challenge_def challenge_accepted_def challenge_checks_def
  mail_job_accepted_def mail_job_checks_def

lemma seat_door_eq:
  "beta seat_door = Some \<lparr>bs_mode = MODE_CLOSED, bs_capacity = 1, bs_admitted = 0, bs_revision = 2, bs_updatedAt = 1000\<rparr>"
  "identities seat_door = []" "invitations seat_door = []" "principals seat_door = [(''admin'', True)]"
  "grants seat_door = [\<lparr>gr_principalId = ''admin'', gr_role = ''ADMIN_BETA_OPERATOR'', gr_revoked = False\<rparr>]"
  "door_drawn seat_door = 0" "door_uuids seat_door = (\<lambda>n. replicate n (CHR ''u''))"
  "door_now seat_door = 1000" "users seat_door = []" "homes seat_door = []" "portal_sessions seat_door = []"
  "challenges seat_door = []" "buckets seat_door = []" "mail_jobs seat_door = []" "admissions seat_door = []" "owners seat_door = []"
  "replays seat_door = []"
  by (simp_all add: seat_door_def door_rows door_eval)

definition open_invitation :: invitation_row where
  "open_invitation = \<lparr>iv_id = [], iv_target = ''a@b.c'', iv_createHash = ''v1:h'', iv_createPayload = ''v1:h'',
     iv_createdBy = ''admin'', iv_createdAt = 1000, iv_expiresAt = 86401000, iv_consumedAt = None,
     iv_consumedUser = None, iv_revokedAt = None, iv_revokedBy = None, iv_revokeHash = None, iv_revokePayload = None\<rparr>"

lemma invited_door_eq:
  "beta invited_door = beta seat_door" "identities invited_door = []" "invitations invited_door = [open_invitation]"
  "door_drawn invited_door = 1" "door_uuids invited_door = (\<lambda>n. replicate n (CHR ''u''))" "door_now invited_door = 1000"
  "users invited_door = []" "homes invited_door = []" "portal_sessions invited_door = []"
  "challenges invited_door = []" "buckets invited_door = []" "mail_jobs invited_door = []" "replays invited_door = []"
  "admissions invited_door = []" "owners invited_door = []"
  by (simp_all add: invited_door_def open_invitation_def seat_door_eq example_invitation_def door_eval)

definition open_code :: otp_challenge where
  "open_code = \<lparr>otp_id = ''code'', otp_target = ''a@b.c'', otp_hash = ''v1:'' @ replicate 43 (CHR ''A''),
     otp_attempts = 0, otp_maxAttempts = 5, otp_expiresAt = 601000, otp_consumedAt = None,
     otp_invalidatedAt = None, otp_createdAt = 1000\<rparr>"

lemma code_door_eq:
  "beta code_door = beta seat_door" "identities code_door = []" "invitations code_door = [open_invitation]"
  "door_drawn code_door = 2" "door_uuids code_door = (\<lambda>n. replicate n (CHR ''u''))" "door_now code_door = 1000"
  "users code_door = []" "homes code_door = []" "portal_sessions code_door = []" "challenges code_door = [open_code]"
  "replays code_door = []" "admissions code_door = []" "owners code_door = []"
  "buckets code_door =
    [\<lparr>bk_action = ''OTP_REQUEST_TARGET'', bk_key = ''t'', bk_windowStartedAt = 0, bk_count = 1\<rparr>,
     \<lparr>bk_action = ''OTP_REQUEST_IP'', bk_key = ''ip'', bk_windowStartedAt = 0, bk_count = 1\<rparr>]"
  by (simp_all add: code_door_def open_code_def invited_door_eq example_request_def door_eval)

lemma code_of: "challenge_of code_door ''code'' = Some open_code"
  by (simp add: challenge_of_def code_door_eq open_code_def)

lemma empty_start: "door_start 1000 empty_door"
  by (simp add: door_start_def empty_door_def)

lemma code_reached: "door_reach (1000, code_door)"
proof -
  have "door_step (1000, empty_door) (1000, seat_door)"
    unfolding seat_door_def by (rule door_step.set_admission) simp
  moreover have "door_step (1000, seat_door) (1000, invited_door)"
    unfolding invited_door_def using door_step.invite [of "\<lambda>_. 1000"] by (simp add: mono_def)
  moreover have "door_step (1000, invited_door) (1000, code_door)"
    unfolding code_door_def by (rule door_step.request)
  ultimately show ?thesis
    using empty_start unfolding door_reach_def by (meson rtranclp.rtrancl_refl rtranclp.rtrancl_into_rtrancl)
qed

theorem reachable_door_witness: "door_ok 1000 code_door"
  by (rule reachable_door [OF code_reached])

definition sign_in_input :: "bool \<Rightarrow> otp_verification" where
  "sign_in_input right = \<lparr>vq_challengeId = ''code'', vq_ipKey = ''ip'', vq_correlationId = ''c'',
     vq_idempotencyHash = ''k'', vq_verify = (\<lambda>_ _. right), vq_sessionHash = ''s'', vq_expiresAt = 700000\<rparr>"

lemma allowed_there: "\<exists>d. consume 2000 ''OTP_VERIFY_IP'' key 30 code_door = Inr (True, d)" if "length key \<le> 128"
  using that by (simp add: consume_def code_door_eq eval_simps)

theorem invitation_honoured_witness:
  "\<exists>d u. verifyOtp (\<lambda>_. 2000) (\<lambda>_. 2000) (sign_in_input True) code_door = (Inr (Inr 700000), d)
    \<and> map_option iv_consumedUser (invitation_of d []) = Some (Some u)"
proof -
  obtain d0 where "consume 2000 ''OTP_VERIFY_IP'' ''ip'' 30 code_door = Inr (True, d0)"
    using allowed_there [of "''ip''"] by auto
  moreover have "fresh_ids code_door"
    by (simp add: fresh_ids_def code_door_eq inj_def)
  ultimately show ?thesis
    using invitation_honoured [OF code_reached, of "\<lambda>_. 2000" "sign_in_input True" open_code "\<lambda>_. 2000"
        open_invitation] code_of
    by (fastforce simp: mono_def sign_in_input_def open_code_def locked_def right_code_def code_door_eq
        open_invitation_def is_active_def seat_door_eq)
qed

theorem guesses_bounded_witness:
  "\<exists>d. guesses ''code'' 1 (1000, code_door) (2000, d) \<and> otp_attempts open_code + 1 \<le> otp_maxAttempts open_code"
proof -
  let ?v = "sign_in_input False"
  obtain d where d: "verifyOtp (\<lambda>_. 2000) (\<lambda>_. 2000) ?v code_door = (Inr (Inl AUTH_OTP_INVALID), d)"
    by (simp add: verifyOtp_def consume_def challenge_of_def verify_fresh_def right_code_def sign_in_input_def open_code_def
        code_door_eq update_challenge_def audit_wrong_code_def fail_with_def door_eval)
  have "guesses ''code'' (Suc 0) (1000, code_door) (2000, d)"
  proof (rule guesses.guess)
    show "guesses ''code'' 0 (1000, code_door) (1000, code_door)"
      by (rule guesses.none) (rule rtranclp.rtrancl_refl)
    show "challenge_of code_door ''code'' = Some open_code" by (rule code_of)
    show "verifyOtp (\<lambda>_. 2000) (\<lambda>_. 2000) ?v code_door = (Inr (Inl AUTH_OTP_INVALID), d)" by (rule d)
    show "door_step\<^sup>*\<^sup>* ((\<lambda>_. 2000) 3, d) (2000, d)" by (simp only: rtranclp.rtrancl_refl)
  qed (simp_all add: open_code_def locked_def sign_in_input_def right_code_def mono_def)
  then show ?thesis
    using guesses_bounded [OF code_reached, of "''code''" open_code "Suc 0" 2000 d "sign_in_input True"] code_of
    by (auto simp: open_code_def sign_in_input_def)
qed

definition blank_keys :: auth_keys where
  "blank_keys = \<lparr>key_otp = [], key_rate = [], key_session = [], key_csrf = [], key_delivery = []\<rparr>"

text \<open>A digest that is the same for every message.\<close>

definition flat_mac :: "string \<Rightarrow> string \<Rightarrow> string" where
  "flat_mac key message = replicate 43 (CHR ''A'')"

abbreviation retry_key :: string where
  "retry_key \<equiv> ''abcdefghijklmnop''"

definition example_verify :: "time \<Rightarrow> door \<Rightarrow> (failure + (string \<times> time) auth_result) \<times> door" where
  "example_verify at =
     authVerifyOtp flat_mac blank_keys ([], []) (\<lambda>_. at) (\<lambda>_. at) at ''code'' ''123456'' ''ip'' ''c'' (Some retry_key)"

definition signed_door :: door where
  "signed_door = snd (example_verify 2000 code_door)"

lemma flat_text: "list_all base64url_char (replicate n (CHR ''A''))"
  by (simp add: list_all_iff base64url_char_def)

lemma valid_key: "validOtpVerifyIdempotencyKey (Some retry_key)"
  by (simp add: validOtpVerifyIdempotencyKey_def base64url_char_def)

lemmas sign_in_eval = example_verify_def authVerifyOtp_def verification_of_def session_token_def flat_mac_def
  valid_key flat_text deriveOtpVerifyPortalToken_def portalLookup_def hmac_def
  otpVerifyIdempotencyHash_def rateKey_def verifyOtpArtifact_def otpArtifact_def
  verifyOtp_def challenge_of_def verify_fresh_def right_code_def update_challenge_def
  sign_in_user_def known_user_def admit_identity_def first_invited_def invited_of_def admission_refusal_def
  admit_new_def create_user_def user_accepted_def home_accepted_def owner_accepted_def identity_accepted_def
  admission_accepted_def take_seat_def consume_invitation_def invitation_of_def update_invitation_def
  invitation_update_accepted_def consumed_invitation_def open_session_def session_accepted_def replay_accepted_def
  fail_with_def

lemma first_sign_in: "fst (example_verify 2000 code_door) = Inr (Inr (replicate 43 (CHR ''A''), 604802000))"
  by (simp add: sign_in_eval code_door_eq seat_door_eq open_code_def open_invitation_def PORTAL_SESSION_TTL_MS_def
      door_eval)

lemma signed_door_eq:
  "map ss_tokenHash (portal_sessions signed_door) = [''v1:'' @ replicate 43 (CHR ''A'')]"
  "buckets signed_door = buckets code_door @
    [\<lparr>bk_action = ''OTP_VERIFY_IP'', bk_key = ''v1:'' @ replicate 43 (CHR ''A''), bk_windowStartedAt = 0, bk_count = 1\<rparr>]"
  by (simp_all add: signed_door_def sign_in_eval code_door_eq seat_door_eq open_code_def open_invitation_def
      PORTAL_SESSION_TTL_MS_def door_eval)

lemma signed_in: "authenticate signed_door (portalLookup flat_mac blank_keys (replicate 43 (CHR ''A''))) \<noteq> None"
  by (simp add: authenticate_def signed_door_def sign_in_eval code_door_eq seat_door_eq open_code_def
      open_invitation_def PORTAL_SESSION_TTL_MS_def door_eval)

theorem retry_gives_session_witness:
  "\<exists>d. example_verify 2000 code_door = (Inr (Inr (replicate 43 (CHR ''A''), 604802000)), signed_door)
    \<and> example_verify 3000 signed_door = (Inr (Inr (replicate 43 (CHR ''A''), 604802000)), d)"
proof -
  have first: "example_verify 2000 code_door = (Inr (Inr (replicate 43 (CHR ''A''), 604802000)), signed_door)"
    using first_sign_in by (simp add: signed_door_def prod_eq_iff)
  obtain d where "consume ((\<lambda>_. 3000) 0) ''OTP_VERIFY_IP'' (rateKey flat_mac blank_keys ''ip'') 30 signed_door = Inr (True, d)"
    by (simp add: consume_def signed_door_eq code_door_eq rateKey_def hmac_def flat_mac_def door_eval)
  from retry_gives_session [OF code_reached code_of _ valid_key _ _ first [unfolded example_verify_def]
      rtranclp.rtrancl_refl this, of "([], [])" "\<lambda>_. 3000" 3000 "''c''"]
  show ?thesis
    using first signed_in by (auto simp: open_code_def mono_def example_verify_def)
qed

end
