(* ===== verification/Spec2Isabelle.thy ===== *)
theory Spec2Isabelle
  imports Commerce_System Platform_Example Door_Example
begin

text \<open>
  A verification development of the commercial core of the server of this repository: selling
  subscriptions. Paths are under src/, the packages under src/packages/server.

  \<^bold>\<open>The program.\<close> An operator grants, extends, suspends and restores subscriptions
  (\<^verbatim>\<open>db/src/p5-subscription-repository.ts\<close>); a customer orders one (\<^verbatim>\<open>createCheckoutService\<close> of
  \<^verbatim>\<open>billing/src/index.ts\<close> on \<^verbatim>\<open>db/src/p5-checkout-repository.ts\<close>), which creates a pending payment and its
  reconciliation job; the provider reports the payment by a webhook (\<^verbatim>\<open>createBillingEventService\<close> on
  \<^verbatim>\<open>db/src/p5-billing-event-repository.ts\<close>) or is asked about it by a worker that leases the jobs that are
  due (\<^verbatim>\<open>createBillingReconciliationService\<close> on \<^verbatim>\<open>db/src/p5-reconciliation-repository.ts\<close>), and a payment that
  has succeeded activates the subscription; a second worker writes the transitions that time makes due
  (\<^verbatim>\<open>db/src/p5-subscription-lifecycle-repository.ts\<close>), and so does every command before it looks at the
  account (\<^verbatim>\<open>db/src/p5-current-subscription-materializer.ts\<close>). They share the tables of
  \<^verbatim>\<open>db/src/schema/{billing,checkout,reconciliation}.ts\<close>, whose constraints and triggers
  (\<^verbatim>\<open>db/drizzle/0009-0011\<close>) guard every write. What is sold comes from a catalog that the operators keep:
  plans and prices with their draft and published revisions, the revision of a price that is on sale, and what a plan
  entitles to, with overrides for one account (\<^verbatim>\<open>db/src/schema/commercial.ts\<close>, \<^verbatim>\<open>db/drizzle/0008\<close>); the access
  service and the portal read both. Customers enter by a code that is mailed to them
  (\<^verbatim>\<open>db/src/auth-repository.ts\<close>, \<^verbatim>\<open>apps/worker/src/otp-runner.ts\<close>); while the program is in beta, a new identity needs a
  seat, which an administrator provides or reserves by an invitation (\<^verbatim>\<open>db/src/beta-admission-repository.ts\<close>).

  \<^bold>\<open>The theories\<close>, each importing the ones it calls:
  \<^item> \<^verbatim>\<open>Prelude\<close>: transactions as state transformers with errors (\<open>transaction\<close> of \<^verbatim>\<open>db/src/index.ts\<close> keeps the
    state of a callback that returns and drops the state of one that throws), the rules \<open>holds\<close> and \<open>moves\<close>
    by which invariants and protocol steps are proved through them, and facts about lists used as tables.
  \<^item> \<^verbatim>\<open>Js_Date\<close>: the UTC calendar of the language and \<open>addUtcCalendarInterval\<close>.
  \<^item> \<^verbatim>\<open>Subscriptions\<close>: the pure functions of \<^verbatim>\<open>subscriptions/src/index.ts\<close>; its reader is the locale
    \<open>observation_reader\<close>.
  \<^item> \<^verbatim>\<open>Billing_Db\<close>: the record \<open>db\<close>, one field for each table (the list of its rows), the constraints and the
    triggers as boolean guards of the insert and update steps.
  \<^item> \<^verbatim>\<open>Commercial_Steps\<close>: the protocol of the tables (\<open>commercial_step\<close>) and the invariant \<open>commercial_inv\<close> kept by it;
    each operation of the later theories is shown to be a path of these steps.
  \<^item> \<^verbatim>\<open>Materializer\<close>, \<^verbatim>\<open>Subscription_Commands\<close>, \<^verbatim>\<open>Lifecycle_Job\<close>, \<^verbatim>\<open>Billing_Events\<close>, \<^verbatim>\<open>Reconciliation\<close> with
    \<^verbatim>\<open>Reconciliation_Outcomes\<close>, \<^verbatim>\<open>Checkout\<close>, \<^verbatim>\<open>Checkout_Service\<close>: the components above, one definition for each function
    or branch of a long function, under its name in the source. The services are proved over the interfaces
    they use (\<open>event_repository\<close>, \<open>reconciliation_repository\<close>, \<open>checkout_repository\<close>), which the models of
    the repositories interpret.
  \<^item> \<^verbatim>\<open>Commerce_Spec\<close>: the abstract specification: what is sold, paid and ordered, and the seven events
    that may happen to it; \<open>commerce_of\<close> is the abstraction of a database.
  \<^item> \<^verbatim>\<open>Commerce_System\<close>: the whole: any operation, of any caller, at any clock, in any order; and what
    holds in every database it reaches.
  \<^item> \<^verbatim>\<open>Json\<close>: the text of \<open>JSON.stringify\<close> and its injectivity, which the fingerprints of drafts rest on.
  \<^item> \<^verbatim>\<open>Catalog_Db\<close>: the record \<open>catalog\<close> of the tables of \<^verbatim>\<open>db/src/schema/commercial.ts\<close> with their constraints and
    the triggers of \<^verbatim>\<open>db/drizzle/0008\<close> (\<open>insert_row\<close>, \<open>update_row\<close>), the invariant \<open>catalog_inv\<close>, and \<open>history\<close>: what a
    catalog keeps of an earlier one.
  \<^item> \<^verbatim>\<open>Plan_Commands\<close> and \<^verbatim>\<open>Price_Commands\<close>: the commands of the operators on plans, drafts, entitlement definitions,
    prices and sale assignments (\<^verbatim>\<open>plans\<close>, \<^verbatim>\<open>pricing\<close>, \<^verbatim>\<open>db/src/p4-plan-command-repository.ts\<close>,
    \<^verbatim>\<open>db/src/p4-price-command-repository.ts\<close>); each keeps \<open>catalog_inv\<close> and \<open>history\<close> (\<open>moves_at\<close>).
  \<^item> \<^verbatim>\<open>Offers\<close>: \<open>resolvePriceForNewSale\<close>, the public catalog and the offer resolver of the checkout
    (\<^verbatim>\<open>db/src/p4-commercial-catalog-repository.ts\<close>), characterised by one relation, \<open>on_sale\<close>.
  \<^item> \<^verbatim>\<open>Entitlements\<close>: the overrides of an account and the resolution of what it is entitled to
    (\<^verbatim>\<open>entitlements\<close>, \<^verbatim>\<open>db/src/p4-entitlement-repository.ts\<close>).
  \<^item> \<^verbatim>\<open>Commercial_Access\<close>: \<open>CommercialAccessService\<close> and the device limit, over the interface \<open>access_ports\<close>; \<^verbatim>\<open>Portal\<close>:
    the portal service and its repository (\<^verbatim>\<open>commercial-access\<close>, \<^verbatim>\<open>db/src/p5-commercial-portal-repository.ts\<close>) and a
    client that follows the cursors of the payment list (\<open>follow_pages\<close>), whose fuel of one request for every full
    page and one more is shown to be enough.
  \<^item> \<^verbatim>\<open>Catalog_System\<close>: every command on the catalog, in any order (\<open>catalog_step\<close>); \<^verbatim>\<open>Platform\<close>: the two stores together
    (\<open>platform_step\<close>): the commerce of \<^verbatim>\<open>Commerce_System\<close> sells the published revisions of the catalog
    (\<open>listed\<close>), and its access resolver and the entitlements of the catalog interpret \<open>access_ports\<close>.
  \<^item> \<^verbatim>\<open>Catalog_Example\<close> and \<^verbatim>\<open>Platform_Example\<close>: a catalog built command by command and a shop that sells from it, in
    which the properties of these theories are instantiated.
  \<^item> \<^verbatim>\<open>Sign_In_Db\<close>: the record \<open>door\<close> of the tables of the sign-in and of the beta (\<^verbatim>\<open>db/src/schema/{identity,auth,otp-delivery,beta}.ts\<close>)
    with their constraints; \<^verbatim>\<open>Beta_Admission\<close>: the commands of the administrators on the admission state and the invitations
    (\<^verbatim>\<open>beta-access\<close>, \<^verbatim>\<open>db/src/beta-admission-repository.ts\<close>); \<^verbatim>\<open>Sign_In\<close>: one-time codes, the admission of an identity and the
    portal sessions (\<^verbatim>\<open>auth\<close>, \<^verbatim>\<open>db/src/auth-repository.ts\<close>); \<^verbatim>\<open>Otp_Delivery\<close>: the worker that mails the codes
    (\<^verbatim>\<open>apps/worker/src/otp-runner.ts\<close>), one definition for each statement of its tick.
  \<^item> \<^verbatim>\<open>Door_State\<close>: what every statement on these tables keeps (\<open>tables_ok\<close>, \<open>door_kept\<close>); \<^verbatim>\<open>Door_Seats\<close>: the seats of the
    beta, the people and their sessions, kept by every operation as a whole (\<open>door_ok\<close>); \<^verbatim>\<open>Door_System\<close>: all operations in any
    order with a clock that does not go back (\<open>door_step\<close>), and the bound on guesses; \<^verbatim>\<open>Door_Outcomes\<close>: retries and
    invitations; \<^verbatim>\<open>Door_Example\<close>: a beta of one seat, in which these properties are instantiated.

  \<^bold>\<open>What is shown.\<close> Every operation keeps the invariants of the database (one live subscription for an account,
  payments linked to their own subscription only, every event with its outcome, one open order), on
  every branch and whatever the provider answers; the functional outcome of each operation and the exact
  reasons for a refusal; that replays are answered without a write; that a worker without its lease
  writes nothing and that leases are exclusive; that access and lifecycle agree, and that a run of the lifecycle
  job leaves nothing due; and that every run of the system refines the specification, never rewrites
  history and delivers what an order promised. For the catalog: that what is published is what the operator saw and is
  final, that everything on sale is published, that the public list, the resolver of a price and the resolver
  of an offer agree, that what they offer can be ordered, that entitlements are typed and overrides take effect and are not
  lost; and for the two stores together, that the access service never finds them inconsistent and
  that the portal answers every account with an allowance that adds up. For the sign-in: that the admitted and the
  invited always fit in the capacity, so that an invitation is honoured, that a code bears five guesses and opens one
  session, and that a retry gets that session.

  \<^bold>\<open>Reading the model.\<close> An instant is an integer of milliseconds, as in \<open>Date\<close>; the readings of an injected clock
  are a function from their number to the instant, so that no order of the readings is assumed where the source
  does not have it. Fresh identifiers (\<open>gen_random_uuid\<close>) are drawn from a sequence that the database carries. A function that throws
  is \<open>Inl\<close> of the failure, a refusal that is returned is a value of the result type. All functions of the model are
  total: loops over rows are recursion on lists, the only arithmetic loop (days of a month) ends by its measure;
  only the client of the payment list has fuel. Integers are unbounded and the bounds of the columns and schemas are checks on them.

  \<^bold>\<open>Parameters.\<close> SHA-256 (\<open>H\<close>), HMAC (\<open>mac\<close>), the encryption of the mailed codes, the redaction of reasons, the verification of a webhook, the status query and the checkout call of the provider and the
  resolver of offers are arguments of the definitions; a call that throws is None. The isolation
  of PostgreSQL is taken as given: a transaction is one step, as the advisory and row locks of the sources make
  it for the rows of one account.

  \<^bold>\<open>Not modelled.\<close> The parsing of raw commands by the schemas: a command of the model is the value its schema
  returns. The inspection of the catalog and the billing views of the administration only read. Timestamps are whole
  milliseconds and text is ordered by its characters, where the database has microseconds and a collation.
  The answer of the beta admission and the active devices of an account are parameters of the portal. A reading of
  \<open>clock_timestamp()\<close> is one for each statement, and text of the sign-in is ASCII. The derivation of the
  keys of the sign-in, the timers of the workers and the text of the mails are left out. Devices and the tokens of the
  extension, the sessions of the administrators, health monitoring, synchronisation, remote configuration, credential transfer and feedback have stores of
  their own and do not touch the tables of the commerce and of the catalog. The browser extension, the bridge, the pages and the
  HTTP routes are I/O around the packages.
\<close>

section \<open>Properties of the system\<close>

text \<open>C1. Every run of the system refines the specification: whatever the operations, their clocks, the
  answers of the provider and their interleaving are, what a run does to the subscriptions, payments
  and orders is a run of the seven events of the specification.\<close>

theorem system_refines_commerce:
  assumes "shop_inv s" and "system_step\<^sup>*\<^sup>* s s'"
  shows "commerce_step\<^sup>*\<^sup>* (commerce_of s) (commerce_of s')"
  by (rule system_run_refines [OF assms(2,1)])

text \<open>C2. In every database the system can reach, an account has at most one subscription that is not
  expired and at most one order that can be paid; a payment linked to a subscription has succeeded, is
  of the account of the subscription and of the price it was sold at, and no subscription was paid for
  twice; no event is left without its outcome.\<close>

theorem reachable_commerce:
  assumes "no_commerce s" and "system_step\<^sup>*\<^sup>* s s'"
  shows "(\<forall>r \<in> set (subscriptions s'). \<forall>r' \<in> set (subscriptions s'). sub_accountId r = sub_accountId r' \<longrightarrow>
        sub_state r \<noteq> EXPIRED \<longrightarrow> sub_state r' \<noteq> EXPIRED \<longrightarrow> r = r')
    \<and> (\<forall>c \<in> set (checkoutIntents s'). \<forall>c' \<in> set (checkoutIntents s'). ck_accountId c = ck_accountId c' \<longrightarrow>
        order_open s' c \<longrightarrow> order_open s' c' \<longrightarrow> c = c')
    \<and> (\<forall>q \<in> set (payments s'). pay_subscriptionId q \<noteq> None \<longrightarrow> pay_state q = SUCCEEDED
        \<and> (\<exists>r \<in> set (subscriptions s'). pay_subscriptionId q = Some (sub_id r)
             \<and> sub_accountId r = pay_accountId q \<and> sub_boundPriceRevisionId r = Some (pay_priceRevisionId q)))
    \<and> (\<forall>q \<in> set (payments s'). \<forall>q' \<in> set (payments s'). pay_subscriptionId q \<noteq> None \<longrightarrow>
        pay_subscriptionId q = pay_subscriptionId q' \<longrightarrow> q = q')
    \<and> (\<forall>e \<in> set (billingEvents s'). ev_processingState e \<noteq> VERIFIED)"
proof -
  have inv: "shop_inv s'"
    by (rule system_run_inv [OF assms(2) no_commerce_inv [OF assms(1)]])
  have "well_sold (commerce_of s')"
    using run_well [OF system_run_refines [OF assms(2) no_commerce_inv [OF assms(1)]]] empty_well
    by (simp add: no_commerce_empty [OF assms(1)])
  moreover have keys: "keys_distinct s'" and links: "links_ok (set (payments s')) (set (subscriptions s'))"
    using inv by (simp_all add: shop_inv_def commercial_inv_def links_coherent_def)
  ultimately have "\<forall>r \<in> set (subscriptions s'). \<forall>r' \<in> set (subscriptions s'). sub_accountId r = sub_accountId r' \<longrightarrow>
        sub_state r \<noteq> EXPIRED \<longrightarrow> sub_state r' \<noteq> EXPIRED \<longrightarrow> r = r'"
    by (intro ballI impI) (rule well_sold_rows)
  moreover have "\<forall>c \<in> set (checkoutIntents s'). \<forall>c' \<in> set (checkoutIntents s'). ck_accountId c = ck_accountId c' \<longrightarrow>
        order_open s' c \<longrightarrow> order_open s' c' \<longrightarrow> c = c'"
    using inv unfolding shop_inv_def one_open_order_def by (elim conjE)
  moreover have "\<forall>e \<in> set (billingEvents s'). ev_processingState e \<noteq> VERIFIED"
    using inv by (simp add: shop_inv_def all_settled_def list_all_iff)
  moreover note links [unfolded links_ok_def pays_for_def]
  ultimately show ?thesis by (elim conjE) (intro conjI; assumption)
qed

text \<open>C10. The system never rewrites its history: after any run the log of transitions has only grown, every
  expired subscription, finished order, processed event and terminal job is still there as it was, a
  payment has kept its terms and moved forward, and in the terms of the specification nothing final
  has changed.\<close>

theorem system_history:
  assumes "no_commerce s0" and "system_step\<^sup>*\<^sup>* s0 s" and "system_step\<^sup>*\<^sup>* s s'"
  shows "history_kept s s' \<and> finals_of (commerce_of s) (commerce_of s')"
proof -
  have "shop_inv s"
    by (rule system_run_inv [OF assms(2) no_commerce_inv [OF assms(1)]])
  then show ?thesis
    using system_run_history [OF assms(3)] run_finals [OF system_run_refines [OF assms(3)]] by blast
qed

text \<open>C3. What was ordered is delivered: when checkout has answered READY and, after any run of the
  system, the provider reports that the pending payment of the answer succeeded, with the amount and
  the currency of the answer, the account gets the subscription of the answer: its plan revision, its
  price revision, its interval counted from the time of the payment. Otherwise the account is occupied
  or corrupted and the payment is kept as succeeded. No other outcome exists.\<close>

theorem order_is_delivered:
  assumes "shop_inv s"
    and "checkout_service H key provider resolver now clocks cmd c s = (Inr (CK_READY b rc), s1)"
    and "system_step\<^sup>*\<^sup>* s1 s2"
    and "findPayment s2 e = Some q" "pay_id q = rc_paymentId rc" "pay_state q = PENDING"
    and "ve_eventType e = PAYMENT_SUCCEEDED" "find_event s2 (ve_provider e) (ve_eventIdentity e) = None"
    and "ve_amountMinor e = rc_amountMinor rc" "ve_currency e = rc_currency rc"
      "pay_createdAt q \<le> ve_occurredAt e" "ve_occurredAt e \<le> rat"
    and "applyVerifiedBillingEvent H' clock e c' rat vat s2 = (Inr x, s3)"
  shows "\<exists>i. (\<exists>j t pe. x = EvAPPLIED False i (Some (rc_paymentId rc)) (Some j) (Some t)
        \<and> addUtcCalendarInterval (ve_occurredAt e) (rc_billingIntervalUnit rc) (rc_billingIntervalCount rc) = Inr (Some pe)
        \<and> subscription_of s3 j = Some (opened_as (activated_row (cc_accountId cmd) (rc_planRevisionId rc)
            (rc_priceRevisionId rc) (ve_occurredAt e) pe ''BILLING_PAYMENT_SUCCEEDED'' (clock 2) j) (clock 3)))
    \<or> (\<exists>code \<in> {CURRENT_SUBSCRIPTION_CONFLICT, PAYMENT_SUBSCRIPTION_CORRUPTED}.
        x = EvFAILED False i code (Some (rc_paymentId rc)) None
        \<and> payment_of s3 (rc_paymentId rc) = Some (paid_row e (clock 0) q))"
proof -
  obtain r where r: "findCheckout s2 (rc_paymentId rc) = Some r" "r \<in> set (checkoutIntents s2)"
    "ck_accountId r = cc_accountId cmd" "ck_planRevisionId r = rc_planRevisionId rc"
    "ck_priceRevisionId r = rc_priceRevisionId rc" "ck_billingIntervalUnit r = rc_billingIntervalUnit rc"
    "ck_billingIntervalCount r = rc_billingIntervalCount rc" "ck_amountMinor r = rc_amountMinor rc"
    "ck_currency r = rc_currency rc" "ck_paymentId r = Some (rc_paymentId rc)"
    by (rule ready_order_later [OF assms(1-3)])
  have "shop_inv s1"
    using checkouts.service_keeps [OF assms(1)] assms(2) by (metis snd_conv)
  from system_run_inv [OF assms(3) this] have inv: "commercial_inv s2" "all_settled s2"
    by (simp_all add: shop_inv_def)
  have q: "payment_of s2 (rc_paymentId rc) = Some q"
    using findPayment_row(1) [OF commercial_invD(1) [OF inv(1)] assms(4)] assms(5) by simp
  obtain r' j where "findCheckout s2 (rc_paymentId rc) = Some r'" "checkout_matches_payment r' q"
    by (rule payment_ordered [OF inv(1) q])
  then have terms: "pay_accountId q = cc_accountId cmd" "pay_priceRevisionId q = rc_priceRevisionId rc"
    "pay_amountMinor q = rc_amountMinor rc" "pay_currency q = rc_currency rc"
    using r by (auto simp: checkout_matches_payment_def)
  have "event_fits e rat q"
    using assms(9-12) terms by (simp add: event_fits_def)
  from delivered_success [OF inv assms(8,7,4,6) this assms(13)] obtain i
    where "succeeded_outcome s2 clock e i q r x s3"
    using assms(5) r(1) by auto
  then show ?thesis
    using terms r(4-7) assms(5) by (auto simp: succeeded_outcome_def activated_def left_for_retry_def)
qed


section \<open>An order and its delivery\<close>

definition delivered_db :: db where
  "delivered_db = snd (applyVerifiedBillingEvent example_digest example_clock (example_event PAYMENT_SUCCEEDED)
     ''c-9'' 2200 2200 checked_out_db)"

lemma delivered_run:
  "applyVerifiedBillingEvent example_digest example_clock (example_event PAYMENT_SUCCEEDED) ''c-9'' 2200 2200
     checked_out_db = (Inr (EvAPPLIED False ''u11'' (Some ''u1'') (Some ''u111'') (Some ''u1111'')), delivered_db)"
proof (rule prod_eqI)
  show "fst (applyVerifiedBillingEvent example_digest example_clock (example_event PAYMENT_SUCCEEDED) ''c-9'' 2200 2200
      checked_out_db) = fst (Inr (EvAPPLIED False ''u11'' (Some ''u1'') (Some ''u111'') (Some ''u1111'')), delivered_db)"
    by (simp add: checked_out_db_def service_examples order_examples eval_simps del: set_filter)
qed (simp add: delivered_db_def)

lemma example_steps: "system_step example_db checked_out_db" "system_step checked_out_db delivered_db"
proof -
  show "system_step example_db checked_out_db"
    unfolding checked_out_db_def by (rule system_step.checkout)
  have "delivered_db = snd (processBillingEvent (\<lambda>_. Some (EVENT_VERIFIED (example_event PAYMENT_SUCCEEDED))) ''sim''
     (applyVerifiedBillingEvent example_digest example_clock) 2200 ''raw'' (Some ''c-9'') checked_out_db)"
    using delivered_run
    by (simp add: processBillingEvent_def correlation_schema_def applyVerifiedBillingEvent_def split: if_splits)
      (simp add: example_event_def)
  then show "system_step checked_out_db delivered_db"
    by (metis system_step.webhook)
qed

lemma example_db_empty: "no_commerce example_db"
  by (simp add: no_commerce_def example_db_def)

theorem system_refines_commerce_witness: "commerce_step\<^sup>*\<^sup>* (commerce_of example_db) (commerce_of delivered_db)"
  using system_refines_commerce [OF example_db_shop] example_steps by (meson rtranclp.rtrancl_refl rtranclp.rtrancl_into_rtrancl)

theorem reachable_commerce_witness: "list_all (\<lambda>e. ev_processingState e \<noteq> VERIFIED) (billingEvents delivered_db)"
  unfolding list_all_iff
  using reachable_commerce [OF example_db_empty, of delivered_db] example_steps
  by (meson rtranclp.rtrancl_refl rtranclp.rtrancl_into_rtrancl)

theorem system_history_witness: "history_kept checked_out_db delivered_db"
  using system_history [OF example_db_empty, of checked_out_db delivered_db] example_steps by blast

theorem order_is_delivered_witness:
  "\<exists>pe. addUtcCalendarInterval 2000 MONTH 1 = Inr (Some pe)
    \<and> subscription_of delivered_db ''u111'' = Some (opened_as (activated_row ''acct'' ''plan-r1'' ''price-r1'' 2000 pe
        ''BILLING_PAYMENT_SUCCEEDED'' (example_clock 2) ''u111'') (example_clock 3))"
proof -
  have "\<exists>q. findPayment checked_out_db (example_event PAYMENT_SUCCEEDED) = Some q \<and> pay_id q = rc_paymentId example_ready
      \<and> pay_state q = PENDING \<and> pay_createdAt q \<le> 2000"
    and "find_event checked_out_db (ve_provider (example_event PAYMENT_SUCCEEDED))
      (ve_eventIdentity (example_event PAYMENT_SUCCEEDED)) = None"
    by (simp_all add: checked_out_db_def service_examples order_examples findPayment_def find_event_def eval_simps
        del: set_filter)
  with order_is_delivered [OF example_db_shop checkout_run rtranclp.rtrancl_refl _ _ _ _ _ _ _ _ _ delivered_run]
  show ?thesis
    by (auto simp: example_event_def example_ready_def example_command_def)
qed

end
